(* ===== verification/Prelude.thy ===== *)
theory Prelude
  imports Main "HOL-Library.AList" "HOL-Library.List_Lexorder" "HOL-Library.Char_ord"
    "HOL-Library.Sublist" "HOL-Library.Multiset"
begin

text \<open>
  The prelude: the development's fact collections, the generic lemmas on lists and
  association lists that the components share, and the model of Rust's \<open>HashMap\<close>.

  A \<open>HashMap\<close> is an association list with distinct keys. Its iteration order, which Rust
  leaves unspecified, is the order of the list; what a component computes by iterating a
  table is proved not to depend on that order where the code makes it so.
\<close>

named_theorems frame_simps \<open>fields an operation leaves unchanged\<close>
named_theorems table_simps \<open>lookups after updates of a table\<close>
named_theorems parse_simps \<open>parse functions of the enumerations applied to their names\<close>

section \<open>Tables\<close>

type_synonym ('k, 'v) table = "('k \<times> 'v) list"

abbreviation table_get :: "('k, 'v) table \<Rightarrow> 'k \<Rightarrow> 'v option" where
  "table_get t k \<equiv> map_of t k"

abbreviation table_insert :: "'k \<Rightarrow> 'v \<Rightarrow> ('k, 'v) table \<Rightarrow> ('k, 'v) table" where
  "table_insert k v t \<equiv> AList.update k v t"

abbreviation table_remove :: "'k \<Rightarrow> ('k, 'v) table \<Rightarrow> ('k, 'v) table" where
  "table_remove k t \<equiv> AList.delete k t"

abbreviation table_modify :: "'k \<Rightarrow> ('v \<Rightarrow> 'v) \<Rightarrow> ('k, 'v) table \<Rightarrow> ('k, 'v) table" where
  "table_modify k f t \<equiv> AList.map_entry k f t"

definition table_values :: "('k, 'v) table \<Rightarrow> 'v list" where
  "table_values t = map snd t"

definition table_retain :: "('k \<Rightarrow> 'v \<Rightarrow> bool) \<Rightarrow> ('k, 'v) table \<Rightarrow> ('k, 'v) table" where
  "table_retain P t = filter (\<lambda>(k, v). P k v) t"

definition table_ok :: "('k, 'v) table \<Rightarrow> bool" where
  "table_ok t \<longleftrightarrow> distinct (map fst t)"

lemma table_get_insert [table_simps]:
  "table_get (table_insert k v t) k' = (if k' = k then Some v else table_get t k')"
  by (simp add: update_conv')

lemma table_get_remove [table_simps]:
  "table_get (table_remove k t) k' = (if k' = k then None else table_get t k')"
  by (simp add: delete_conv')

lemma table_get_modify [table_simps]:
  "table_get (table_modify k f t) k' =
     (if k' = k then map_option f (table_get t k) else table_get t k')"
  by (induction t) auto

lemma table_get_Nil [table_simps]: "table_get [] k = None"
  by simp

lemma table_ok_Nil [simp]: "table_ok []"
  by (simp add: table_ok_def)

lemma table_ok_insert [simp]: "table_ok t \<Longrightarrow> table_ok (table_insert k v t)"
  by (simp add: table_ok_def distinct_update)

lemma table_ok_remove [simp]: "table_ok t \<Longrightarrow> table_ok (table_remove k t)"
  by (simp add: table_ok_def distinct_delete)

lemma table_ok_modify [simp]: "table_ok t \<Longrightarrow> table_ok (table_modify k f t)"
  by (induction t) (auto simp: table_ok_def dom_map_entry)

lemma table_ok_retain [simp]: "table_ok t \<Longrightarrow> table_ok (table_retain P t)"
  by (auto simp: table_ok_def table_retain_def distinct_map_filter)

lemma table_get_retain [table_simps]:
  "table_ok t \<Longrightarrow>
   table_get (table_retain P t) k =
     (case table_get t k of None \<Rightarrow> None | Some v \<Rightarrow> if P k v then Some v else None)"
proof (induction t)
  case Nil
  then show ?case by (simp add: table_retain_def)
next
  case (Cons e t)
  obtain a b where e: "e = (a, b)" by (cases e)
  from Cons.prems e have ok: "table_ok t" and fresh: "a \<notin> fst ` set t"
    by (auto simp: table_ok_def)
  then have "table_get t a = None" by (simp add: map_of_eq_None_iff)
  with Cons.IH [OF ok] e show ?case
    by (auto simp: table_retain_def split: option.splits)
qed

lemma table_values_iff:
  assumes "table_ok t"
  shows "v \<in> set (table_values t) \<longleftrightarrow> (\<exists>k. table_get t k = Some v)"
  using assms by (force simp: table_values_def table_ok_def)

lemma table_get_in_values: "table_get t k = Some v \<Longrightarrow> v \<in> set (table_values t)"
  by (force simp: table_values_def dest: map_of_SomeD)

lemma table_get_perm:
  assumes "table_ok t" and "mset t = mset t'"
  shows "table_get t k = table_get t' k"
proof -
  from assms have ok': "table_ok t'"
    unfolding table_ok_def by (metis mset_map mset_eq_imp_distinct_iff)
  from assms(2) have "set t = set t'" by (metis set_mset_mset)
  with assms(1) ok' show ?thesis
    unfolding table_ok_def by (metis map_of_inject_set)
qed

section \<open>Lists\<close>

lemma list_all_ex_iff: "list_ex P xs \<longleftrightarrow> (\<exists>x\<in>set xs. P x)"
  by (induction xs) auto

lemma find_SomeD: "find P xs = Some x \<Longrightarrow> x \<in> set xs \<and> P x"
  by (induction xs) (auto split: if_splits)

lemma find_None_all: "find P xs = None \<longleftrightarrow> (\<forall>x\<in>set xs. \<not> P x)"
  by (induction xs) auto

text \<open>Where at most one element satisfies the predicate, \<open>find\<close> does not depend on the order.\<close>

lemma find_unique:
  assumes "x \<in> set xs" and "P x" and "\<And>y. y \<in> set xs \<Longrightarrow> P y \<Longrightarrow> y = x"
  shows "find P xs = Some x"
proof (cases "find P xs")
  case None
  with assms(1,2) show ?thesis by (simp add: find_None_all)
next
  case (Some y)
  then have "y \<in> set xs" and "P y" by (simp_all add: find_SomeD)
  then have "y = x" by (rule assms(3))
  with Some show ?thesis by simp
qed

end
