(* ===== verification/RustStr.thy ===== *)
theory RustStr
  imports Prelude "HOL-Library.Word"
begin

text \<open>
  The string operations of Rust's standard library that the code uses. A \<open>String\<close> or
  \<open>&str\<close> is the list of the bytes of its UTF-8 encoding: \<open>len\<close> is \<open>length\<close>, comparison is
  lexicographic on bytes, and searching or splitting at an ASCII character is the same on
  bytes as on code points, because no byte of a multi-byte character is ASCII.
\<close>

section \<open>Byte classes\<close>

definition in_range :: "nat \<Rightarrow> nat \<Rightarrow> char \<Rightarrow> bool" where
  "in_range lo hi c \<longleftrightarrow> lo \<le> of_char c \<and> of_char c \<le> (hi::nat)"

definition is_ascii_digit :: "char \<Rightarrow> bool" where
  "is_ascii_digit c = in_range 48 57 c"

definition is_ascii_alphanumeric :: "char \<Rightarrow> bool" where
  "is_ascii_alphanumeric c \<longleftrightarrow> in_range 48 57 c \<or> in_range 65 90 c \<or> in_range 97 122 c"

definition is_ascii_hexdigit :: "char \<Rightarrow> bool" where
  "is_ascii_hexdigit c \<longleftrightarrow> in_range 48 57 c \<or> in_range 65 70 c \<or> in_range 97 102 c"

definition is_ascii_graphic :: "char \<Rightarrow> bool" where
  "is_ascii_graphic c = in_range 33 126 c"

definition is_space :: "char \<Rightarrow> bool" where
  "is_space c \<longleftrightarrow> in_range 9 13 c \<or> of_char c = (32::nat)"

definition is_ascii_whitespace :: "char \<Rightarrow> bool" where
  "is_ascii_whitespace c \<longleftrightarrow> of_char c \<in> {9, 10, 12, 13, 32::nat}"

definition to_ascii_lower :: "char \<Rightarrow> char" where
  "to_ascii_lower c = (if in_range 65 90 c then char_of (of_char c + (32::nat)) else c)"

definition to_ascii_lowercase :: "string \<Rightarrow> string" where
  "to_ascii_lowercase s = map to_ascii_lower s"

definition eq_ignore_ascii_case :: "string \<Rightarrow> string \<Rightarrow> bool" where
  "eq_ignore_ascii_case a b \<longleftrightarrow> to_ascii_lowercase a = to_ascii_lowercase b"

section \<open>Searching, splitting, joining, trimming\<close>

text \<open>\<open>str::split\<close> at one character: always at least one piece, pieces may be empty.\<close>

fun split_on :: "char \<Rightarrow> string \<Rightarrow> string list" where
  "split_on c [] = [[]]"
| "split_on c (x # xs) =
     (if x = c then [] # split_on c xs
      else (case split_on c xs of [] \<Rightarrow> [[x]] | p # ps \<Rightarrow> (x # p) # ps))"

fun split_once :: "char \<Rightarrow> string \<Rightarrow> (string \<times> string) option" where
  "split_once c [] = None"
| "split_once c (x # xs) =
     (if x = c then Some ([], xs)
      else (case split_once c xs of None \<Rightarrow> None | Some (a, b) \<Rightarrow> Some (x # a, b)))"

definition starts_with :: "string \<Rightarrow> string \<Rightarrow> bool" where
  "starts_with p s \<longleftrightarrow> take (length p) s = p"

definition strip_prefix :: "string \<Rightarrow> string \<Rightarrow> string option" where
  "strip_prefix p s = (if starts_with p s then Some (drop (length p) s) else None)"

fun join :: "string \<Rightarrow> string list \<Rightarrow> string" where
  "join sep [] = []"
| "join sep [x] = x"
| "join sep (x # y # ys) = x @ sep @ join sep (y # ys)"

text \<open>\<open>str::trim\<close> on an ASCII string; the code trims only strings it has found to be ASCII.\<close>

definition trim :: "string \<Rightarrow> string" where
  "trim s = rev (dropWhile is_space (rev (dropWhile is_space s)))"

definition trim_matches :: "char \<Rightarrow> string \<Rightarrow> string" where
  "trim_matches c s = rev (dropWhile ((=) c) (rev (dropWhile ((=) c) s)))"

lemma split_on_not_Nil [simp]: "split_on c s \<noteq> []"
  by (induction s) (auto split: list.splits)

lemma split_on_no_sep: "c \<notin> set s \<Longrightarrow> split_on c s = [s]"
  by (induction s) auto

lemma split_on_append_sep:
  "c \<notin> set s \<Longrightarrow> split_on c (s @ c # t) = s # split_on c t"
  by (induction s) auto

lemma split_on_pieces: "p \<in> set (split_on c s) \<Longrightarrow> c \<notin> set p"
  by (induction s arbitrary: p) (auto split: if_splits list.splits)

lemma split_on_subset: "p \<in> set (split_on c s) \<Longrightarrow> set p \<subseteq> set s"
proof (induction s arbitrary: p)
  case Nil
  then show ?case by simp
next
  case (Cons x xs)
  show ?case
  proof (cases "x = c")
    case True
    with Cons show ?thesis by auto
  next
    case False
    obtain q qs where q: "split_on c xs = q # qs"
      by (cases "split_on c xs") auto
    with False Cons.prems have "p = x # q \<or> p \<in> set qs" by auto
    with q Cons.IH show ?thesis by fastforce
  qed
qed

lemma split_once_None: "split_once c s = None \<longleftrightarrow> c \<notin> set s"
  by (induction s) (auto split: option.splits)

lemma split_once_Some: "split_once c s = Some (a, b) \<longleftrightarrow> s = a @ c # b \<and> c \<notin> set a"
proof (induction s arbitrary: a)
  case Nil
  then show ?case by simp
next
  case (Cons x xs)
  show ?case
  proof (cases a)
    case Nil
    then show ?thesis by (simp split: option.splits)
  next
    case (Cons y ys)
    with Cons.IH [of ys] show ?thesis
      by (cases "split_once c xs") auto
  qed
qed

lemma starts_with_append [simp]: "starts_with p (p @ s)"
  by (simp add: starts_with_def)

lemma starts_with_iff: "starts_with p s \<longleftrightarrow> (\<exists>t. s = p @ t)"
  unfolding starts_with_def by (metis append_eq_conv_conj append_take_drop_id)

lemma strip_prefix_append [simp]: "strip_prefix p (p @ s) = Some s"
  by (simp add: strip_prefix_def)

section \<open>Decimal numbers\<close>

definition digit_char :: "nat \<Rightarrow> char" where
  "digit_char d = char_of (48 + d)"

definition digit_val :: "char \<Rightarrow> nat" where
  "digit_val c = of_char c - 48"

fun dec_nat :: "nat \<Rightarrow> string" where
  "dec_nat n = (if n < 10 then [digit_char n] else dec_nat (n div 10) @ [digit_char (n mod 10)])"

declare dec_nat.simps [simp del]

definition dec_int :: "int \<Rightarrow> string" where
  "dec_int i = (if i < 0 then CHR ''-'' # dec_nat (nat (- i)) else dec_nat (nat i))"

text \<open>\<open>{:0w}\<close> of a non-negative number: zeros on the left up to the width.\<close>

definition zero_pad :: "nat \<Rightarrow> nat \<Rightarrow> string" where
  "zero_pad w n = replicate (w - length (dec_nat n)) (CHR ''0'') @ dec_nat n"

text \<open>
  \<open>str::parse\<close> for the unsigned types: an optional \<open>+\<close>, then at least one digit, and the
  value below the bound of the type.
\<close>

definition digits_val :: "string \<Rightarrow> nat" where
  "digits_val s = foldl (\<lambda>acc c. 10 * acc + digit_val c) 0 s"

definition parse_unsigned :: "nat \<Rightarrow> string \<Rightarrow> nat option" where
  "parse_unsigned bound s =
     (let ds = (case s of [] \<Rightarrow> [] | c # cs \<Rightarrow> if c = CHR ''+'' then cs else s) in
      if ds = [] \<or> \<not> list_all is_ascii_digit ds then None
      else if digits_val ds < bound then Some (digits_val ds) else None)"

lemma of_char_digit_char: "d < 10 \<Longrightarrow> of_char (digit_char d) = (48 + d :: nat)"
  by (simp add: digit_char_def)

lemma digit_val_digit_char [simp]: "d < 10 \<Longrightarrow> digit_val (digit_char d) = d"
  by (simp add: digit_val_def of_char_digit_char)

lemma is_ascii_digit_digit_char [simp]: "d < 10 \<Longrightarrow> is_ascii_digit (digit_char d)"
  by (simp add: is_ascii_digit_def in_range_def of_char_digit_char)

lemma digits_val_snoc [simp]: "digits_val (s @ [c]) = 10 * digits_val s + digit_val c"
  by (simp add: digits_val_def)

lemma digits_val_Nil [simp]: "digits_val [] = 0"
  by (simp add: digits_val_def)

lemma dec_nat_digits: "list_all is_ascii_digit (dec_nat n)"
  by (induction n rule: dec_nat.induct) (subst dec_nat.simps, simp)

lemma dec_nat_not_Nil [simp]: "dec_nat n \<noteq> []"
  by (subst dec_nat.simps) simp

lemma digits_val_dec_nat [simp]: "digits_val (dec_nat n) = n"
proof (induction n rule: dec_nat.induct)
  case (1 n)
  show ?case
  proof (cases "n < 10")
    case True
    then show ?thesis by (simp add: dec_nat.simps [of n] digits_val_def)
  next
    case False
    with 1 show ?thesis by (simp add: dec_nat.simps [of n])
  qed
qed

lemma plus_not_digit: "\<not> is_ascii_digit (CHR ''+'')"
  by (simp add: is_ascii_digit_def in_range_def)

text \<open>A printed number parses back to itself below the bound.\<close>

lemma parse_unsigned_dec_nat: "n < bound \<Longrightarrow> parse_unsigned bound (dec_nat n) = Some n"
proof -
  assume n: "n < bound"
  obtain c cs where c: "dec_nat n = c # cs" by (cases "dec_nat n") auto
  with dec_nat_digits [of n] have "c \<noteq> CHR ''+''"
    using plus_not_digit by auto
  with c have "(case dec_nat n of [] \<Rightarrow> [] | c # cs \<Rightarrow> if c = CHR ''+'' then cs else dec_nat n) = dec_nat n"
    by simp
  with n dec_nat_digits [of n] show ?thesis
    by (simp add: parse_unsigned_def)
qed

lemma dec_nat_inject [simp]: "dec_nat a = dec_nat b \<longleftrightarrow> a = b"
  by (metis digits_val_dec_nat)

text \<open>Fixed-width numerals, big-endian: what zero padding produces below the width.\<close>

fun fixed_digits :: "nat \<Rightarrow> nat \<Rightarrow> string" where
  "fixed_digits 0 n = []"
| "fixed_digits (Suc w) n = fixed_digits w (n div 10) @ [digit_char (n mod 10)]"

lemma length_fixed_digits [simp]: "length (fixed_digits w n) = w"
  by (induction w arbitrary: n) auto

lemma length_dec_nat_le: "n < 10 ^ w \<Longrightarrow> 0 < w \<Longrightarrow> length (dec_nat n) \<le> w"
proof (induction n arbitrary: w rule: dec_nat.induct)
  case (1 n)
  show ?case
  proof (cases "n < 10")
    case True
    with "1.prems" show ?thesis by (simp add: dec_nat.simps [of n])
  next
    case False
    from "1.prems" obtain v where v: "w = Suc v" by (cases w) auto
    with "1.prems" False have "0 < v" by (cases v) auto
    from "1.prems" v have "n div 10 < 10 ^ v" by (simp add: less_mult_imp_div_less mult.commute)
    with "1.IH" False v \<open>0 < v\<close> show ?thesis by (simp add: dec_nat.simps [of n])
  qed
qed

lemma fixed_digits_0: "fixed_digits w 0 = replicate w (CHR ''0'')"
proof (induction w)
  case (Suc w)
  have "digit_char 0 = CHR ''0''" by code_simp
  with Suc show ?case by (simp add: replicate_append_same)
qed simp

lemma zero_pad_fixed: "n < 10 ^ w \<Longrightarrow> 0 < w \<Longrightarrow> zero_pad w n = fixed_digits w n"
proof (induction n arbitrary: w rule: dec_nat.induct)
  case (1 n)
  from "1.prems" obtain v where v: "w = Suc v" by (cases w) auto
  show ?case
  proof (cases "n < 10")
    case True
    with v show ?thesis
      by (simp add: zero_pad_def dec_nat.simps [of n] fixed_digits_0)
  next
    case False
    with "1.prems" v have "0 < v" by (cases v) auto
    from "1.prems" v have "n div 10 < 10 ^ v"
      by (simp add: less_mult_imp_div_less mult.commute)
    with "1.IH" False \<open>0 < v\<close> have "zero_pad v (n div 10) = fixed_digits v (n div 10)" by simp
    with False v show ?thesis by (simp add: zero_pad_def dec_nat.simps [of n])
  qed
qed

lemma list_less_snoc:
  fixes p q :: "string"
  assumes "length p = length q"
  shows "p @ [x] < q @ [y] \<longleftrightarrow> p < q \<or> (p = q \<and> x < y)"
  using assms by (induction p q rule: list_induct2) auto

lemma digit_char_less: "a < 10 \<Longrightarrow> b < 10 \<Longrightarrow> digit_char a < digit_char b \<longleftrightarrow> a < b"
  by (simp add: less_char_def of_char_digit_char)

lemma lex_less_ten:
  fixes q q' r r' :: nat
  assumes "r < 10" and "r' < 10"
  shows "q < q' \<or> (q = q' \<and> r < r') \<longleftrightarrow> 10 * q + r < 10 * q' + r'"
  using assms by auto

text \<open>On numerals of one width, the order of the strings is the order of the numbers.\<close>

lemma fixed_digits_less_iff:
  "a < 10 ^ w \<Longrightarrow> b < 10 ^ w \<Longrightarrow> fixed_digits w a < fixed_digits w b \<longleftrightarrow> a < b"
proof (induction w arbitrary: a b)
  case 0
  then show ?case by simp
next
  case (Suc w)
  from Suc.prems have ab: "a div 10 < 10 ^ w" "b div 10 < 10 ^ w"
    by (simp_all add: less_mult_imp_div_less mult.commute)
  have inj: "fixed_digits w (a div 10) = fixed_digits w (b div 10) \<longleftrightarrow> a div 10 = b div 10"
    using Suc.IH [OF ab] Suc.IH [OF ab(2,1)] by (metis less_irrefl linorder_neqE_nat)
  have "fixed_digits (Suc w) a < fixed_digits (Suc w) b \<longleftrightarrow>
      a div 10 < b div 10 \<or> (a div 10 = b div 10 \<and> a mod 10 < b mod 10)"
    using Suc.IH [OF ab] inj by (simp add: list_less_snoc digit_char_less)
  also have "\<dots> \<longleftrightarrow> 10 * (a div 10) + a mod 10 < 10 * (b div 10) + b mod 10"
    by (rule lex_less_ten) simp_all
  also have "\<dots> \<longleftrightarrow> a < b" by simp
  finally show ?case .
qed

end
