(* ===== verification/DomainError.thy ===== *)
theory DomainError
  imports RustStr
begin

text \<open>
  The error taxonomy of \<open>anystore-domain/src/error.rs\<close>: the variants, the machine-readable
  code and the HTTP status of each, and the public message. The boxed source errors of the
  last two variants are their message. Every fallible operation of the development returns
  a \<open>result\<close>, with \<open>Inl\<close> for \<open>Err\<close> and \<open>Inr\<close> for \<open>Ok\<close>.
\<close>

datatype domain_error =
    InvalidRequest string
  | InvalidName string
  | InvalidMetadata string
  | ObjectNotFound
  | UploadNotFound
  | NameConflict
  | FolderNotEmpty
  | InvalidMove string
  | NotAFolder
  | NotAFile
  | ContentNotReady
  | IdempotencyKeyReused
  | ChangesCursorExpired
  | RevisionConflict "64 word"
  | ChecksumMismatch string
  | RateLimited
  | Unauthorized
  | Internal string
  | StorageError string

type_synonym 'a result = "domain_error + 'a"

abbreviation Err :: "domain_error \<Rightarrow> 'a result" where
  "Err \<equiv> Inl"

abbreviation Ok :: "'a \<Rightarrow> 'a result" where
  "Ok \<equiv> Inr"

text \<open>The \<open>?\<close> operator on a pure result.\<close>

fun rbind :: "'a result \<Rightarrow> ('a \<Rightarrow> 'b result) \<Rightarrow> 'b result" where
  "rbind (Inl e) f = Inl e"
| "rbind (Inr a) f = f a"

definition ok_or :: "domain_error \<Rightarrow> 'a option \<Rightarrow> 'a result" where
  "ok_or e x = (case x of None \<Rightarrow> Inl e | Some a \<Rightarrow> Inr a)"

fun is_ok :: "'a result \<Rightarrow> bool" where
  "is_ok (Inl e) = False"
| "is_ok (Inr a) = True"

text \<open>Collecting an iterator of results stops at the first error.\<close>

fun rmap :: "('a \<Rightarrow> 'b result) \<Rightarrow> 'a list \<Rightarrow> 'b list result" where
  "rmap f [] = Ok []"
| "rmap f (x # xs) =
     (case f x of Inl e \<Rightarrow> Inl e
      | Inr y \<Rightarrow> (case rmap f xs of Inl e \<Rightarrow> Inl e | Inr ys \<Rightarrow> Inr (y # ys)))"

fun code :: "domain_error \<Rightarrow> string" where
  "code (InvalidRequest _) = ''invalid_request''"
| "code (InvalidName _) = ''invalid_name''"
| "code (InvalidMetadata _) = ''invalid_metadata''"
| "code ObjectNotFound = ''object_not_found''"
| "code UploadNotFound = ''upload_not_found''"
| "code NameConflict = ''name_conflict''"
| "code FolderNotEmpty = ''folder_not_empty''"
| "code (InvalidMove _) = ''invalid_move''"
| "code NotAFolder = ''not_a_folder''"
| "code NotAFile = ''not_a_file''"
| "code ContentNotReady = ''content_not_ready''"
| "code IdempotencyKeyReused = ''idempotency_key_reused''"
| "code ChangesCursorExpired = ''changes_cursor_expired''"
| "code (RevisionConflict _) = ''revision_conflict''"
| "code (ChecksumMismatch _) = ''checksum_mismatch''"
| "code RateLimited = ''rate_limited''"
| "code Unauthorized = ''unauthorized''"
| "code (Internal _) = ''internal_error''"
| "code (StorageError _) = ''storage_error''"

fun status :: "domain_error \<Rightarrow> nat" where
  "status (InvalidRequest _) = 400"
| "status (InvalidName _) = 400"
| "status (InvalidMetadata _) = 400"
| "status Unauthorized = 401"
| "status ObjectNotFound = 404"
| "status UploadNotFound = 404"
| "status NameConflict = 409"
| "status FolderNotEmpty = 409"
| "status (InvalidMove _) = 409"
| "status NotAFolder = 409"
| "status NotAFile = 409"
| "status ContentNotReady = 409"
| "status IdempotencyKeyReused = 409"
| "status ChangesCursorExpired = 410"
| "status (RevisionConflict _) = 412"
| "status (ChecksumMismatch _) = 422"
| "status RateLimited = 429"
| "status (Internal _) = 500"
| "status (StorageError _) = 502"

text \<open>\<open>Display\<close>, as the \<open>#[error(...)]\<close> attributes derive it.\<close>

fun display :: "domain_error \<Rightarrow> string" where
  "display (InvalidRequest m) = m"
| "display (InvalidName m) = m"
| "display (InvalidMetadata m) = m"
| "display ObjectNotFound = ''Object not found.''"
| "display UploadNotFound = ''Upload session not found.''"
| "display NameConflict = ''An object with the same name already exists in this folder.''"
| "display FolderNotEmpty = ''Folder contains child objects.''"
| "display (InvalidMove m) = m"
| "display NotAFolder = ''Target object is not a folder.''"
| "display NotAFile = ''Target object is not a file.''"
| "display ContentNotReady = ''No ready content is available.''"
| "display IdempotencyKeyReused = ''Idempotency-Key was already used with a different request.''"
| "display ChangesCursorExpired =
     ''The requested Changes cursor is outside the retention window.''"
| "display (RevisionConflict _) = ''Object has been modified.''"
| "display (ChecksumMismatch m) = m"
| "display RateLimited = ''Too many requests.''"
| "display Unauthorized = ''Authentication is required.''"
| "display (Internal _) = ''Internal error.''"
| "display (StorageError _) = ''Storage backend error.''"

definition public_message :: "domain_error \<Rightarrow> string" where
  "public_message e =
     (case e of
        Internal _ \<Rightarrow> ''Internal error.''
      | StorageError _ \<Rightarrow> ''Storage backend error.''
      | other \<Rightarrow> display other)"

section \<open>Lemmas\<close>

lemma rbind_Ok_iff: "rbind r f = Ok b \<longleftrightarrow> (\<exists>a. r = Ok a \<and> f a = Ok b)"
  by (cases r) auto

lemma ok_or_Ok_iff [simp]: "ok_or e x = Ok a \<longleftrightarrow> x = Some a"
  by (cases x) (auto simp: ok_or_def)

lemma ok_or_Some [simp]: "ok_or e (Some a) = Ok a"
  by (simp add: ok_or_def)

lemma ok_or_None [simp]: "ok_or e None = Err e"
  by (simp add: ok_or_def)

lemma is_ok_iff: "is_ok r \<longleftrightarrow> (\<exists>a. r = Ok a)"
  by (cases r) auto

lemma rmap_Ok: "rmap f xs = Ok ys \<Longrightarrow> list_all2 (\<lambda>x y. f x = Ok y) xs ys"
  by (induction f xs arbitrary: ys rule: rmap.induct) (auto split: sum.splits)

lemma rmap_total: "(\<And>x. x \<in> set xs \<Longrightarrow> f x = Ok (g x)) \<Longrightarrow> rmap f xs = Ok (map g xs)"
  by (induction f xs rule: rmap.induct) auto

text \<open>The code determines the status: each row of the contract's error table is one pair.\<close>

lemma status_of_code: "code e = code e' \<Longrightarrow> status e = status e'"
  by (cases e; cases e') simp_all

lemma status_range: "400 \<le> status e \<and> status e \<le> 502"
  by (cases e) simp_all

end
