(* ===== verification/Identifiers.thy ===== *)
theory Identifiers
  imports DomainError
begin

text \<open>
  The identifiers of \<open>anystore-domain/src/ids.rs\<close>. Each newtype is a string; ordering and
  equality are those of strings. A generated id takes the ULID, lower-cased, as an argument,
  because the \<open>ulid\<close> crate is not part of the repository.
\<close>

type_synonym object_id = string
type_synonym upload_id = string
type_synonym change_id = string
type_synonym request_id = string
type_synonym cursor_id = string
type_synonym principal_id = string
type_synonym idempotency_key = string

definition ROOT_ID :: string where
  "ROOT_ID = ''root''"

definition is_root :: "object_id \<Rightarrow> bool" where
  "is_root i \<longleftrightarrow> i = ROOT_ID"

definition generate_ulid :: "string \<Rightarrow> string" where
  "generate_ulid u = to_ascii_lowercase u"

definition generate_object_id :: "string \<Rightarrow> object_id" where
  "generate_object_id u = ''obj_'' @ generate_ulid u"

definition generate_upload_id :: "string \<Rightarrow> upload_id" where
  "generate_upload_id u = ''upload_'' @ generate_ulid u"

definition generate_request_id :: "string \<Rightarrow> request_id" where
  "generate_request_id u = ''req_'' @ generate_ulid u"

text \<open>\<open>ChangeId::from_seq\<close>: \<open>chg_{seq:020}\<close>, the sign counted in the width.\<close>

definition change_id_from_seq :: "int \<Rightarrow> change_id" where
  "change_id_from_seq seq =
     ''chg_'' @ (if seq < 0 then CHR ''-'' # zero_pad 19 (nat (- seq)) else zero_pad 20 (nat seq))"

definition CURSOR_PREFIX :: string where
  "CURSOR_PREFIX = ''chgcur_''"

definition generate_cursor_id :: "string \<Rightarrow> cursor_id" where
  "generate_cursor_id u = CURSOR_PREFIX @ generate_ulid u"

definition cursor_well_formed :: "cursor_id \<Rightarrow> bool" where
  "cursor_well_formed c \<longleftrightarrow>
     starts_with CURSOR_PREFIX c \<and> length CURSOR_PREFIX < length c"

definition local_principal :: principal_id where
  "local_principal = ''local''"

lemma cursor_well_formed_generate: "u \<noteq> [] \<Longrightarrow> cursor_well_formed (generate_cursor_id u)"
  by (simp add: cursor_well_formed_def generate_cursor_id_def generate_ulid_def
      to_ascii_lowercase_def)

lemma generate_object_id_not_root: "\<not> is_root (generate_object_id u)"
  by (simp add: is_root_def generate_object_id_def ROOT_ID_def)

lemma append_less_iff: "(p @ a :: string) < p @ b \<longleftrightarrow> a < b"
  by (induction p) auto

lemma change_id_fixed:
  "0 \<le> seq \<Longrightarrow> seq < 2 ^ 63 \<Longrightarrow> change_id_from_seq seq = ''chg_'' @ fixed_digits 20 (nat seq)"
  by (subst zero_pad_fixed [symmetric]) (simp_all add: change_id_from_seq_def nat_less_iff)

text \<open>
  Change ids are lexicographically monotonic in the sequence they are derived from, over
  the whole non-negative range of the \<open>i64\<close> sequence.
\<close>

theorem change_ids_monotonic:
  assumes "0 \<le> a" and "0 \<le> b" and "a < 2 ^ 63" and "b < 2 ^ 63"
  shows "change_id_from_seq a < change_id_from_seq b \<longleftrightarrow> a < b"
proof -
  have bound: "nat x < 10 ^ 20" if "x < 2 ^ 63" for x :: int
    using that by (simp add: nat_less_iff)
  have "change_id_from_seq a < change_id_from_seq b \<longleftrightarrow>
      fixed_digits 20 (nat a) < fixed_digits 20 (nat b)"
    using assms by (simp only: change_id_fixed append_less_iff)
  also have "\<dots> \<longleftrightarrow> nat a < nat b"
    using assms bound by (intro fixed_digits_less_iff) auto
  also have "\<dots> \<longleftrightarrow> a < b" using assms by auto
  finally show ?thesis .
qed

theorem change_ids_monotonic_witness:
  "change_id_from_seq 9 < change_id_from_seq 10 \<and>
   change_id_from_seq 9 = ''chg_00000000000000000009''"
proof
  show "change_id_from_seq 9 < change_id_from_seq 10"
    using change_ids_monotonic [of 9 10] by simp
  show "change_id_from_seq 9 = ''chg_00000000000000000009''"
    by code_simp
qed

lemma change_id_from_seq_inj:
  assumes "0 \<le> a" and "0 \<le> b" and "a < 2 ^ 63" and "b < 2 ^ 63"
    and "change_id_from_seq a = change_id_from_seq b"
  shows "a = b"
proof -
  have bound: "nat x < 10 ^ 20" if "x < 2 ^ 63" for x :: int
    using that by (simp add: nat_less_iff)
  from assms have eq: "fixed_digits 20 (nat a) = fixed_digits 20 (nat b)"
    by (simp only: change_id_fixed append_same_eq same_append_eq)
  have "\<not> nat a < nat b" and "\<not> nat b < nat a"
    using eq fixed_digits_less_iff [of "nat a" 20 "nat b"] fixed_digits_less_iff [of "nat b" 20 "nat a"]
      bound assms(3,4) by auto
  with assms(1,2) show ?thesis by auto
qed

end
