(* ===== verification/Validation.thy ===== *)
theory Validation
  imports Identifiers
begin

text \<open>
  Input validation of the domain layer: object names (\<open>name.rs\<close>), paths (\<open>path.rs\<close>),
  content types (\<open>content_type.rs\<close>) and SHA-256 digests (\<open>upload.rs\<close>).
\<close>

section \<open>Names\<close>

definition MAX_NAME_BYTES :: nat where
  "MAX_NAME_BYTES = 255"

definition validate_name :: "string \<Rightarrow> unit result" where
  "validate_name name =
     (if name = [] then Err (InvalidName ''Name must not be empty.'')
      else if MAX_NAME_BYTES < length name then
        Err (InvalidName (''Name must not exceed '' @ dec_nat MAX_NAME_BYTES @ '' bytes.''))
      else if CHR ''/'' \<in> set name then Err (InvalidName ''Name must not contain '/'.'')
      else if CHR 0x00 \<in> set name then Err (InvalidName ''Name must not contain NUL.'')
      else if name = ''.'' \<or> name = ''..'' then
        Err (InvalidName ''Name must not be '.' or '..'.'')
      else Ok ())"

definition valid_name :: "string \<Rightarrow> bool" where
  "valid_name name \<longleftrightarrow>
     name \<noteq> [] \<and> length name \<le> 255 \<and> CHR ''/'' \<notin> set name \<and> CHR 0x00 \<notin> set name \<and>
     name \<noteq> ''.'' \<and> name \<noteq> ''..''"

lemma validate_name_ok_iff: "validate_name n = Ok () \<longleftrightarrow> valid_name n"
  by (simp add: validate_name_def valid_name_def MAX_NAME_BYTES_def not_less)

lemma validate_name_cases:
  "validate_name n = Ok () \<or> (\<exists>m. validate_name n = Err (InvalidName m))"
  by (simp add: validate_name_def)

section \<open>Paths\<close>

text \<open>
  The \<open>Debug\<close> rendering of a string that an error message quotes: a printable character is
  itself, a quote, a backslash and the control characters are escaped.
\<close>

definition hex_digit :: "nat \<Rightarrow> char" where
  "hex_digit d = (if d < 10 then char_of (48 + d) else char_of (87 + d))"

definition debug_char :: "char \<Rightarrow> string" where
  "debug_char c =
     (let n = of_char c :: nat in
      if n = 0 then [CHR 0x5C, CHR ''0'']
      else if n = 9 then [CHR 0x5C, CHR ''t'']
      else if n = 10 then [CHR 0x5C, CHR ''n'']
      else if n = 13 then [CHR 0x5C, CHR ''r'']
      else if n = 34 \<or> n = 92 then [CHR 0x5C, c]
      else if n < 16 then [CHR 0x5C] @ ''u{'' @ [hex_digit n] @ ''}''
      else if n < 32 \<or> n = 127 then
        [CHR 0x5C] @ ''u{'' @ [hex_digit (n div 16), hex_digit (n mod 16)] @ ''}''
      else [c])"

definition debug_str :: "string \<Rightarrow> string" where
  "debug_str s = [CHR 0x22] @ concat (map debug_char s) @ [CHR 0x22]"

fun collect_segments :: "string list \<Rightarrow> string list result" where
  "collect_segments [] = Ok []"
| "collect_segments (raw # rest) =
     (if raw = [] then collect_segments rest
      else case validate_name raw of
        Inl _ \<Rightarrow> Err (InvalidRequest (''path segment '' @ debug_str raw @ '' is not a valid name.''))
      | Inr _ \<Rightarrow>
         (case collect_segments rest of Inl e \<Rightarrow> Err e | Inr segs \<Rightarrow> Ok (raw # segs)))"

definition split_path :: "string \<Rightarrow> string list result" where
  "split_path path =
     (if \<not> starts_with ''/'' path then Err (InvalidRequest ''path must start with '/'.'')
      else if CHR 0x00 \<in> set path then Err (InvalidRequest ''path must not contain NUL.'')
      else collect_segments (split_on (CHR ''/'') path))"

definition render_segments :: "string list \<Rightarrow> string" where
  "render_segments segments =
     (if segments = [] then ''/'' else concat (map (\<lambda>s. CHR ''/'' # s) segments))"

lemma collect_segments_ok_iff:
  "collect_segments ps = Ok segs \<longleftrightarrow>
     segs = filter (\<lambda>p. p \<noteq> []) ps \<and> list_all valid_name segs"
proof (induction ps arbitrary: segs)
  case Nil
  then show ?case by auto
next
  case (Cons p ps)
  show ?case
  proof (cases "p = [] \<or> valid_name p")
    case True
    then have c: "p = [] \<or> validate_name p = Ok ()" by (simp add: validate_name_ok_iff)
    show ?thesis
    proof (cases "collect_segments ps")
      case (Inl e)
      with Cons.IH have "\<not> list_all valid_name (filter (\<lambda>p. p \<noteq> []) ps)" by auto
      with Inl True c show ?thesis by auto
    next
      case (Inr ys)
      with Cons.IH [of ys] have "ys = filter (\<lambda>p. p \<noteq> []) ps" "list_all valid_name ys" by auto
      with Inr True c show ?thesis by auto
    qed
  next
    case False
    then have "validate_name p \<noteq> Ok ()" by (simp add: validate_name_ok_iff)
    then obtain e where "validate_name p = Err e" by (cases "validate_name p") auto
    with False show ?thesis by simp
  qed
qed

lemma split_on_render:
  "list_all valid_name segs \<Longrightarrow>
   split_on (CHR ''/'') (concat (map (\<lambda>s. CHR ''/'' # s) segs)) = [] # segs"
proof (induction segs)
  case Nil
  then show ?case by simp
next
  case (Cons s segs)
  then have s: "CHR ''/'' \<notin> set s" by (simp add: valid_name_def)
  show ?case
  proof (cases segs)
    case Nil
    with s show ?thesis by (simp add: split_on_no_sep)
  next
    case (Cons t ts)
    with Cons.IH Cons.prems
    have "split_on (CHR ''/'') (t @ concat (map (\<lambda>s. CHR ''/'' # s) ts)) = segs" by simp
    with Cons s show ?thesis by (simp add: split_on_append_sep)
  qed
qed

lemma split_path_render:
  assumes "list_all valid_name segs"
  shows "split_path (render_segments segs) = Ok segs"
proof (cases "segs = []")
  case True
  then show ?thesis by (simp add: split_path_def render_segments_def starts_with_def)
next
  case False
  have "CHR 0x00 \<notin> set (concat (map (\<lambda>s. CHR ''/'' # s) segs))"
    using assms by (auto simp: list_all_iff valid_name_def)
  moreover have "filter (\<lambda>p. p \<noteq> []) segs = segs"
    using assms by (intro filter_True) (auto simp: list_all_iff valid_name_def)
  moreover have "starts_with ''/'' (concat (map (\<lambda>s. CHR ''/'' # s) segs))"
    using False by (cases segs) (simp_all add: starts_with_def)
  ultimately show ?thesis
    using False assms
    by (simp add: split_path_def render_segments_def collect_segments_ok_iff split_on_render)
qed

lemma split_path_valid: "split_path p = Ok segs \<Longrightarrow> list_all valid_name segs"
  by (auto simp: split_path_def collect_segments_ok_iff split: if_splits)

section \<open>Content types\<close>

definition MAX_CONTENT_TYPE_BYTES :: nat where
  "MAX_CONTENT_TYPE_BYTES = 255"

definition is_token_char :: "char \<Rightarrow> bool" where
  "is_token_char b \<longleftrightarrow>
     is_ascii_alphanumeric b \<or> b \<in> set ''!#$%&'*+-.^_`|~''"

definition is_token :: "string \<Rightarrow> bool" where
  "is_token s \<longleftrightarrow> s \<noteq> [] \<and> list_all is_token_char s"

definition invalid_content_type :: domain_error where
  "invalid_content_type =
     InvalidRequest (''content_type must be a media type such as application/pdf, at most ''
       @ dec_nat MAX_CONTENT_TYPE_BYTES @ '' bytes.'')"

definition validate_content_type :: "string \<Rightarrow> unit result" where
  "validate_content_type ct =
     (if ct = [] \<or> MAX_CONTENT_TYPE_BYTES < length ct then Err invalid_content_type
      else if \<not> list_all (\<lambda>b. is_ascii_graphic b \<or> b = CHR '' '' \<or> b = CHR 0x09) ct
        then Err invalid_content_type
      else
        let essence = trim (case split_on (CHR '';'') ct of [] \<Rightarrow> [] | p # _ \<Rightarrow> p) in
        case split_once (CHR ''/'') essence of
          Some (kind, subtype) \<Rightarrow>
            if is_token kind \<and> is_token subtype then Ok () else Err invalid_content_type
        | None \<Rightarrow> Err invalid_content_type)"

text \<open>What a header value may hold: visible ASCII, space and tab, so never a line break.\<close>

definition header_safe :: "string \<Rightarrow> bool" where
  "header_safe s \<longleftrightarrow> list_all (\<lambda>b. is_ascii_graphic b \<or> b = CHR '' '' \<or> b = CHR 0x09) s"

lemma validate_content_type_ok:
  assumes "validate_content_type ct = Ok ()"
  shows "ct \<noteq> []" "length ct \<le> 255" "header_safe ct"
    "\<exists>kind subtype. trim (hd (split_on (CHR '';'') ct)) = kind @ CHR ''/'' # subtype \<and>
       is_token kind \<and> is_token subtype"
proof -
  obtain p ps where p: "split_on (CHR '';'') ct = p # ps"
    by (cases "split_on (CHR '';'') ct") auto
  from assms show "ct \<noteq> []" "length ct \<le> 255" "header_safe ct"
    by (auto simp: validate_content_type_def header_safe_def MAX_CONTENT_TYPE_BYTES_def Let_def
        split: if_splits option.splits)
  from assms p obtain kind subtype where
    "split_once (CHR ''/'') (trim p) = Some (kind, subtype)" "is_token kind" "is_token subtype"
    by (auto simp: validate_content_type_def Let_def split: if_splits option.splits)
  with p show "\<exists>kind subtype. trim (hd (split_on (CHR '';'') ct)) = kind @ CHR ''/'' # subtype \<and>
       is_token kind \<and> is_token subtype"
    by (auto simp: split_once_Some)
qed

lemma header_safe_no_newline:
  "header_safe s \<Longrightarrow> CHR 0x0A \<notin> set s \<and> CHR 0x0D \<notin> set s \<and> CHR 0x00 \<notin> set s"
  by (auto simp: header_safe_def list_all_iff is_ascii_graphic_def in_range_def)

section \<open>Digests\<close>

definition validate_sha256 :: "string \<Rightarrow> unit result" where
  "validate_sha256 value =
     (if length value = 64 \<and> list_all is_ascii_hexdigit value then Ok ()
      else Err (InvalidRequest ''sha256 must be a 64-character hexadecimal digest.''))"

section \<open>Properties\<close>

text \<open>
  C18: a path and its segments determine each other: rendering valid segments and splitting
  the result gives them back, and whatever path splits, its segments are valid names and
  render to a path (its normal form) that splits to the same segments. So no accepted path
  holds a \<open>.\<close> or \<open>..\<close> segment.
\<close>

theorem path_roundtrip:
  "(list_all valid_name segs \<longrightarrow> split_path (render_segments segs) = Ok segs) \<and>
   (split_path p = Ok segs' \<longrightarrow>
      list_all valid_name segs' \<and> ''..'' \<notin> set segs' \<and> ''.'' \<notin> set segs' \<and>
      split_path (render_segments segs') = Ok segs')"
proof -
  have "list_all valid_name segs' \<Longrightarrow> ''..'' \<notin> set segs' \<and> ''.'' \<notin> set segs'"
    by (auto simp: list_all_iff valid_name_def)
  then show ?thesis using split_path_valid split_path_render by blast
qed

theorem path_roundtrip_witness:
  "split_path (render_segments [''reports'', ''2026'']) = Ok [''reports'', ''2026''] \<and>
   split_path ''//a//b/'' = Ok [''a'', ''b''] \<and>
   split_path (render_segments [''a'', ''b'']) = Ok [''a'', ''b'']"
proof -
  have "list_all valid_name [''reports'', ''2026'']" by code_simp
  moreover have "split_path ''//a//b/'' = Ok [''a'', ''b'']" by code_simp
  ultimately show ?thesis using path_roundtrip by blast
qed

text \<open>
  An accepted content type can be emitted as a header and signed: it is at most 255
  bytes, holds no line break or NUL, and its part before the parameters is two RFC 9110
  tokens around one slash.
\<close>

theorem content_type_is_header_safe:
  assumes "validate_content_type ct = Ok ()"
  shows "0 < length ct \<and> length ct \<le> 255 \<and>
    CHR 0x0A \<notin> set ct \<and> CHR 0x0D \<notin> set ct \<and> CHR 0x00 \<notin> set ct \<and>
    (\<exists>kind subtype. trim (hd (split_on (CHR '';'') ct)) = kind @ CHR ''/'' # subtype \<and>
       is_token kind \<and> is_token subtype)"
  using validate_content_type_ok [OF assms] header_safe_no_newline by blast

theorem content_type_is_header_safe_witness:
  "validate_content_type ''text/plain; charset=utf-8'' = Ok () \<and>
   CHR 0x0A \<notin> set ''text/plain; charset=utf-8''"
proof -
  have "validate_content_type ''text/plain; charset=utf-8'' = Ok ()" by code_simp
  then show ?thesis using content_type_is_header_safe by blast
qed

end
