(* ===== verification/JsonValue.thy ===== *)
theory JsonValue
  imports Validation Complex_Main
begin

text \<open>
  JSON values and the metadata semantics of \<open>anystore-domain/src/metadata.rs\<close>.

  The workspace builds \<open>serde_json\<close> with \<open>preserve_order\<close>, so an object is an insertion-ordered
  map: inserting an existing key keeps its position, removing one moves the last entry into
  its place, and equality of objects ignores the order. A floating-point number is the
  rational it denotes, since JSON has neither infinities nor NaN and \<open>-0.0 == 0.0\<close>.
\<close>

section \<open>Values\<close>

datatype json_number = PosInt "64 word" | NegInt int | Float rat

datatype json =
    JNull
  | JBool bool
  | JNumber json_number
  | JString string
  | JArray "json list"
  | JObject "(string \<times> json) list"

type_synonym json_map = "(string \<times> json) list"

fun json_get :: "json \<Rightarrow> string \<Rightarrow> json option" where
  "json_get (JObject m) k = map_of m k"
| "json_get _ k = None"

text \<open>\<open>IndexMap::swap_remove\<close>: the last entry takes the place of the removed one.\<close>

fun swap_remove :: "string \<Rightarrow> json_map \<Rightarrow> json_map" where
  "swap_remove k [] = []"
| "swap_remove k (e # es) =
     (if fst e = k then (if es = [] then [] else last es # butlast es)
      else e # swap_remove k es)"

text \<open>Equality of values; of objects, as equality of the two finite maps.\<close>

fun json_eq :: "json \<Rightarrow> json \<Rightarrow> bool" where
  "json_eq JNull JNull = True"
| "json_eq (JBool a) (JBool b) = (a = b)"
| "json_eq (JNumber a) (JNumber b) = (a = b)"
| "json_eq (JString a) (JString b) = (a = b)"
| "json_eq (JArray xs) (JArray ys) = list_all2 json_eq xs ys"
| "json_eq (JObject xs) (JObject ys) =
     (length xs = length ys \<and>
      list_all (\<lambda>(k, v). case map_of ys k of None \<Rightarrow> False | Some w \<Rightarrow> json_eq v w) xs)"
| "json_eq _ _ = False"

text \<open>A value whose objects, at every depth, hold each key once.\<close>

fun json_wf :: "json \<Rightarrow> bool" where
  "json_wf (JArray xs) = list_all json_wf xs"
| "json_wf (JObject m) = (distinct (map fst m) \<and> list_all (\<lambda>(k, v). json_wf v) m)"
| "json_wf _ = True"

lemma json_eq_refl: "json_wf v \<Longrightarrow> json_eq v v"
proof (induction v rule: json_wf.induct)
  case (1 xs)
  then show ?case by (auto simp: list_all2_conv_all_nth list_all_iff)
next
  case (2 m)
  have "case map_of m k of None \<Rightarrow> False | Some w \<Rightarrow> json_eq v w" if "(k, v) \<in> set m" for k v
  proof -
    from 2(2) that have "map_of m k = Some v" by simp
    moreover from 2(1) [OF that] 2(2) that have "json_eq v v" by (auto simp: list_all_iff)
    ultimately show ?thesis by simp
  qed
  then show ?case by (auto simp: list_all_iff)
qed simp_all

section \<open>Maps\<close>

lemma swap_remove_set: "distinct (map fst m) \<Longrightarrow> set (swap_remove k m) = {e \<in> set m. fst e \<noteq> k}"
proof (induction m)
  case (Cons e es)
  show ?case
  proof (cases "fst e = k")
    case True
    have "fst x \<noteq> k" if "x \<in> set es" for x
    proof -
      from Cons.prems have "fst e \<notin> fst ` set es" by simp
      with imageI [OF that, of fst] True show ?thesis by metis
    qed
    then have "{x \<in> set (e # es). fst x \<noteq> k} = set es" using True by auto
    moreover have "set (last es # butlast es) = set es" if "es \<noteq> []"
      using that by (cases es rule: rev_cases) auto
    ultimately show ?thesis using True by simp
  next
    case False
    with Cons show ?thesis by auto
  qed
qed simp

lemma swap_remove_distinct: "distinct (map fst m) \<Longrightarrow> distinct (map fst (swap_remove k m))"
proof (induction m)
  case (Cons e es)
  show ?case
  proof (cases "fst e = k \<and> es \<noteq> []")
    case True
    with Cons.prems show ?thesis by (cases es rule: rev_cases) auto
  next
    case False
    with Cons swap_remove_set [of es k] show ?thesis by (auto simp: image_iff)
  qed
qed simp

lemma map_of_swap_remove:
  assumes "distinct (map fst m)"
  shows "map_of (swap_remove k m) j = (if j = k then None else map_of m j)"
proof -
  note d = swap_remove_distinct [OF assms, of k]
  have "map_of (swap_remove k m) j = Some v \<longleftrightarrow> j \<noteq> k \<and> map_of m j = Some v" for v
    using map_of_eq_Some_iff [OF d] map_of_eq_Some_iff [OF assms] swap_remove_set [OF assms, of k]
    by auto
  then show ?thesis by (metis not_Some_eq)
qed

section \<open>Metadata patches\<close>

record metadata_patch =
  mp_set :: json_map
  mp_remove :: "string list"

definition patch_is_empty :: "metadata_patch \<Rightarrow> bool" where
  "patch_is_empty p \<longleftrightarrow> mp_set p = [] \<and> mp_remove p = []"

definition validate_metadata_key :: "string \<Rightarrow> unit result" where
  "validate_metadata_key key =
     (if key = [] then Err (InvalidMetadata ''metadata keys must not be empty.'')
      else if CHR 0x00 \<in> set key then Err (InvalidMetadata ''metadata keys must not contain NUL.'')
      else Ok ())"

fun validate_metadata_keys :: "string list \<Rightarrow> unit result" where
  "validate_metadata_keys [] = Ok ()"
| "validate_metadata_keys (k # ks) =
     (case validate_metadata_key k of Inl e \<Rightarrow> Err e | Inr _ \<Rightarrow> validate_metadata_keys ks)"

definition validate_metadata_document :: "json \<Rightarrow> unit result" where
  "validate_metadata_document value =
     (case value of
        JObject m \<Rightarrow> validate_metadata_keys (map fst m)
      | _ \<Rightarrow> Err (InvalidMetadata ''metadata must be a JSON object.''))"

definition validate_metadata_patch :: "metadata_patch \<Rightarrow> unit result" where
  "validate_metadata_patch p = validate_metadata_keys (map fst (mp_set p) @ mp_remove p)"

definition insert_all :: "json_map \<Rightarrow> json_map \<Rightarrow> json_map" where
  "insert_all entries m = fold (\<lambda>(k, v) acc. AList.update k v acc) entries m"

definition remove_all :: "string list \<Rightarrow> json_map \<Rightarrow> json_map" where
  "remove_all keys m = fold swap_remove keys m"

definition apply_metadata_patch :: "json \<Rightarrow> metadata_patch \<Rightarrow> json result" where
  "apply_metadata_patch current p =
     (case current of
        JObject m \<Rightarrow> Ok (JObject (remove_all (mp_remove p) (insert_all (mp_set p) m)))
      | JNull \<Rightarrow> Ok (JObject (remove_all (mp_remove p) (insert_all (mp_set p) [])))
      | _ \<Rightarrow> Err (InvalidMetadata ''stored metadata is not a JSON object.''))"

definition normalize :: "json \<Rightarrow> json" where
  "normalize value = (case value of JNull \<Rightarrow> JObject [] | other \<Rightarrow> other)"

definition metadata_equal :: "json \<Rightarrow> json \<Rightarrow> bool" where
  "metadata_equal a b = json_eq (normalize a) (normalize b)"

section \<open>Lemmas\<close>

lemma validate_metadata_key_ok:
  "validate_metadata_key k = Ok () \<longleftrightarrow> k \<noteq> [] \<and> CHR 0x00 \<notin> set k"
  by (simp add: validate_metadata_key_def)

lemma validate_metadata_keys_ok:
  "validate_metadata_keys ks = Ok () \<longleftrightarrow> (\<forall>k\<in>set ks. k \<noteq> [] \<and> CHR 0x00 \<notin> set k)"
proof (induction ks)
  case (Cons k ks)
  then show ?case
    by (cases "validate_metadata_key k") (auto simp flip: validate_metadata_key_ok)
qed simp

lemma insert_all_distinct: "distinct (map fst m) \<Longrightarrow> distinct (map fst (insert_all es m))"
  unfolding insert_all_def
  by (induction es arbitrary: m) (auto simp: distinct_update)

lemma remove_all_distinct: "distinct (map fst m) \<Longrightarrow> distinct (map fst (remove_all ks m))"
  unfolding remove_all_def
  by (induction ks arbitrary: m) (auto simp: swap_remove_distinct)

lemma map_of_insert_all:
  "distinct (map fst es) \<Longrightarrow>
   map_of (insert_all es m) k = (case map_of es k of None \<Rightarrow> map_of m k | Some v \<Rightarrow> Some v)"
  unfolding insert_all_def
proof (induction es arbitrary: m)
  case (Cons e es)
  obtain a v where e: "e = (a, v)" by (cases e)
  with Cons.prems have "map_of es a = None" by (simp add: map_of_eq_None_iff)
  with Cons e show ?case by (auto simp: update_conv' split: option.splits)
qed simp

lemma map_of_remove_all:
  "distinct (map fst m) \<Longrightarrow>
   map_of (remove_all ks m) k = (if k \<in> set ks then None else map_of m k)"
  unfolding remove_all_def
  by (induction ks arbitrary: m) (auto simp: swap_remove_distinct map_of_swap_remove)

lemma map_of_patched:
  assumes "distinct (map fst m)" and "distinct (map fst (mp_set p))"
  shows "map_of (remove_all (mp_remove p) (insert_all (mp_set p) m)) k =
     (if k \<in> set (mp_remove p) then None
      else case map_of (mp_set p) k of None \<Rightarrow> map_of m k | Some v \<Rightarrow> Some v)"
  using assms by (simp add: map_of_remove_all insert_all_distinct map_of_insert_all)

lemma apply_metadata_patch_ok:
  assumes "apply_metadata_patch current p = Ok result"
  obtains m where "result = JObject (remove_all (mp_remove p) (insert_all (mp_set p) m))"
    "current = JObject m \<or> current = JNull \<and> m = []"
  using assms by (auto simp: apply_metadata_patch_def split: json.splits)

section \<open>Properties\<close>

text \<open>
  A metadata patch sets, then removes: in the resulting document a removed key is absent
  even when the same patch sets it, any other key that the patch sets has the patch's value,
  and every key the patch does not name keeps its stored value. The result is again an
  object that holds each key once.
\<close>

theorem metadata_patch_semantics:
  assumes "apply_metadata_patch current p = Ok result"
    and "json_wf (normalize current)" and "distinct (map fst (mp_set p))"
  shows "json_get result k =
       (if k \<in> set (mp_remove p) then None
        else case map_of (mp_set p) k of Some v \<Rightarrow> Some v | None \<Rightarrow> json_get (normalize current) k)
     \<and> (\<exists>m. result = JObject m \<and> distinct (map fst m))"
proof -
  from assms(1) obtain m where r: "result = JObject (remove_all (mp_remove p) (insert_all (mp_set p) m))"
    and c: "current = JObject m \<or> current = JNull \<and> m = []"
    by (rule apply_metadata_patch_ok)
  from c assms(2) have d: "distinct (map fst m)" and g: "json_get (normalize current) k = map_of m k"
    by (auto simp: normalize_def)
  have "distinct (map fst (remove_all (mp_remove p) (insert_all (mp_set p) m)))"
    using d by (simp add: insert_all_distinct remove_all_distinct)
  with r g map_of_patched [OF d assms(3)] show ?thesis by (simp split: option.splits)
qed

theorem metadata_patch_semantics_witness:
  "apply_metadata_patch (JObject [(''a'', JNull), (''old'', JBool True)])
     \<lparr>mp_set = [(''b'', JNull), (''old'', JNull)], mp_remove = [''old'']\<rparr>
   = Ok (JObject [(''a'', JNull), (''b'', JNull)]) \<and>
   json_get (JObject [(''a'', JNull), (''b'', JNull)]) ''old'' = None"
proof
  show a: "apply_metadata_patch (JObject [(''a'', JNull), (''old'', JBool True)])
     \<lparr>mp_set = [(''b'', JNull), (''old'', JNull)], mp_remove = [''old'']\<rparr>
   = Ok (JObject [(''a'', JNull), (''b'', JNull)])"
    by code_simp
  show "json_get (JObject [(''a'', JNull), (''b'', JNull)]) ''old'' = None"
    using metadata_patch_semantics [OF a, of "''old''"] by (simp add: normalize_def)
qed

text \<open>
  Applying a patch to its own result changes no key, so a repeated PATCH is detected as a
  no-op by \<open>metadata_equal\<close>.
\<close>

lemma same_map_of_perm:
  assumes "distinct (map fst a)" and "distinct (map fst b)" and "map_of a = map_of b"
  shows "length a = length b \<and> set a = set b"
proof -
  have "set a = set b" using assms by (metis map_of_inject_set)
  moreover have "length a = card (set a)" "length b = card (set b)"
    using assms(1,2) by (simp_all add: distinct_map distinct_card)
  ultimately show ?thesis by simp
qed

lemma json_eq_objectI:
  assumes "distinct (map fst a)" and "distinct (map fst b)" and "map_of a = map_of b"
    and "\<And>k v. (k, v) \<in> set a \<Longrightarrow> json_wf v"
  shows "json_eq (JObject a) (JObject b)"
proof -
  have "case map_of b k of None \<Rightarrow> False | Some w \<Rightarrow> json_eq v w" if "(k, v) \<in> set a" for k v
  proof -
    from that assms(1) have "map_of a k = Some v" by simp
    with assms(3,4) that show ?thesis by (auto intro: json_eq_refl)
  qed
  with same_map_of_perm [OF assms(1-3)] show ?thesis by (auto simp: list_all_iff)
qed

lemma insert_all_values:
  "(k, v) \<in> set (insert_all es m) \<Longrightarrow> (k, v) \<in> set es \<or> (k, v) \<in> set m"
  unfolding insert_all_def
proof (induction es arbitrary: m)
  case (Cons e es)
  obtain a w where e: "e = (a, w)" by (cases e)
  from Cons.prems e have "(k, v) \<in> set (fold (\<lambda>(k, v). AList.update k v) es (AList.update a w m))"
    by simp
  then have "(k, v) \<in> set es \<or> (k, v) \<in> set (AList.update a w m)" by (rule Cons.IH)
  moreover have "set (AList.update a w m) \<subseteq> insert (a, w) (set m)"
    by (induction m) auto
  ultimately show ?case using e by auto
qed simp

lemma remove_all_subset: "distinct (map fst m) \<Longrightarrow> set (remove_all ks m) \<subseteq> set m"
  unfolding remove_all_def
proof (induction ks arbitrary: m)
  case (Cons k ks)
  have "set (fold swap_remove ks (swap_remove k m)) \<subseteq> set (swap_remove k m)"
    using Cons swap_remove_distinct by blast
  with swap_remove_set [OF Cons.prems, of k] show ?case by auto
qed simp

text \<open>The well-formedness of a stored document is kept by every patch.\<close>

lemma apply_metadata_patch_wf:
  assumes "apply_metadata_patch current p = Ok result" and "json_wf (normalize current)"
    and "json_wf (JObject (mp_set p))"
  shows "json_wf result \<and> (\<exists>m. result = JObject m)"
proof -
  from assms(1) obtain m where r: "result = JObject (remove_all (mp_remove p) (insert_all (mp_set p) m))"
    and c: "current = JObject m \<or> current = JNull \<and> m = []"
    by (rule apply_metadata_patch_ok)
  from c assms(2) have d: "distinct (map fst m)" and w: "\<forall>(k, v)\<in>set m. json_wf v"
    by (auto simp: normalize_def list_all_iff)
  have ins: "distinct (map fst (insert_all (mp_set p) m))" using d by (rule insert_all_distinct)
  have "\<forall>(k, v)\<in>set (insert_all (mp_set p) m). json_wf v"
    using w assms(3) insert_all_values by (fastforce simp: list_all_iff)
  with remove_all_subset [OF ins] have "\<forall>(k, v)\<in>set (remove_all (mp_remove p) (insert_all (mp_set p) m)). json_wf v"
    by blast
  with r remove_all_distinct [OF ins] show ?thesis by (auto simp: list_all_iff)
qed

text \<open>
  Patching is idempotent up to the equality the store uses: applying a patch to its own
  result succeeds and gives a document equal to it, so the second PATCH is a no-op.
\<close>

theorem metadata_patch_idempotent:
  assumes "apply_metadata_patch current p = Ok result"
    and "json_wf (normalize current)" and "json_wf (JObject (mp_set p))"
  shows "\<exists>again. apply_metadata_patch result p = Ok again \<and> metadata_equal again result"
proof -
  from assms(1) obtain m where r: "result = JObject (remove_all (mp_remove p) (insert_all (mp_set p) m))"
    and c: "current = JObject m \<or> current = JNull \<and> m = []"
    by (rule apply_metadata_patch_ok)
  let ?once = "remove_all (mp_remove p) (insert_all (mp_set p) m)"
  let ?twice = "remove_all (mp_remove p) (insert_all (mp_set p) ?once)"
  from c assms(2,3) have d: "distinct (map fst m)" "distinct (map fst (mp_set p))"
    by (auto simp: normalize_def)
  then have d1: "distinct (map fst ?once)" by (simp add: insert_all_distinct remove_all_distinct)
  then have d2: "distinct (map fst ?twice)" by (simp add: insert_all_distinct remove_all_distinct)
  have "map_of ?twice = map_of ?once"
    using map_of_patched [OF d1 d(2)] map_of_patched [OF d] by (auto split: option.splits)
  moreover have a: "apply_metadata_patch result p = Ok (JObject ?twice)"
    by (simp add: r apply_metadata_patch_def)
  moreover have "json_wf result" using apply_metadata_patch_wf [OF assms] by simp
  then have "json_wf (normalize result)" by (simp add: r normalize_def)
  then have "json_wf (JObject ?twice)" using apply_metadata_patch_wf [OF a _ assms(3)] by simp
  ultimately have "json_eq (JObject ?twice) (JObject ?once)"
    using d1 d2 by (intro json_eq_objectI) (auto simp: list_all_iff)
  with a r show ?thesis by (simp add: metadata_equal_def normalize_def)
qed

theorem metadata_patch_idempotent_witness:
  "\<exists>again. apply_metadata_patch (JObject [(''k'', JBool True)])
       \<lparr>mp_set = [(''k'', JBool True)], mp_remove = [''gone'']\<rparr> = Ok again
     \<and> metadata_equal again (JObject [(''k'', JBool True)])"
proof -
  have a: "apply_metadata_patch JNull \<lparr>mp_set = [(''k'', JBool True)], mp_remove = [''gone'']\<rparr>
      = Ok (JObject [(''k'', JBool True)])"
    by code_simp
  show ?thesis
    by (rule metadata_patch_idempotent [OF a]) (simp_all add: normalize_def)
qed

end
