(* ===== verification/DomainTypes.thy ===== *)
theory DomainTypes
  imports Identifiers JsonValue "HOL-Library.Word"
begin

text \<open>
  The data of \<open>anystore-domain\<close>: objects (\<open>object.rs\<close>), upload sessions (\<open>upload.rs\<close>), changes
  (\<open>change.rs\<close>) and pages (\<open>page.rs\<close>). Field names carry a prefix per record. An instant is
  an integer number of nanoseconds. A constructor whose Rust name is used by two
  enumerations carries the enumeration's initials (\<open>CsReady\<close>, \<open>UsReady\<close>).
\<close>

type_synonym time = int
type_synonym revision = "64 word"

text \<open>\<open>DateTime::timestamp_micros\<close>, which rounds down.\<close>

definition timestamp_micros :: "time \<Rightarrow> int" where
  "timestamp_micros t = t div 1000"

definition INITIAL :: revision where
  "INITIAL = 1"

text \<open>\<open>Revision::next\<close> on the \<open>u64\<close>: the release build wraps.\<close>

definition next_revision :: "revision \<Rightarrow> revision" where
  "next_revision r = r + 1"

lemma unat_next_revision: "unat r < 2 ^ 64 - 1 \<Longrightarrow> unat (next_revision r) = unat r + 1"
  unfolding next_revision_def by (subst unat_plus_simple [THEN iffD1]) (auto simp: word_le_nat_alt unat_word_ariths)

section \<open>Objects\<close>

datatype object_kind = File | Folder

fun object_kind_as_str :: "object_kind \<Rightarrow> string" where
  "object_kind_as_str File = ''file''"
| "object_kind_as_str Folder = ''folder''"

definition object_kind_parse :: "string \<Rightarrow> object_kind option" where
  "object_kind_parse v =
     (if v = ''file'' then Some File else if v = ''folder'' then Some Folder else None)"

datatype content_state = CsNone | CsReady

fun content_state_as_str :: "content_state \<Rightarrow> string" where
  "content_state_as_str CsNone = ''none''"
| "content_state_as_str CsReady = ''ready''"

definition content_state_parse :: "string \<Rightarrow> content_state option" where
  "content_state_parse v =
     (if v = ''none'' then Some CsNone else if v = ''ready'' then Some CsReady else None)"

record object =
  o_id :: object_id
  o_revision :: revision
  o_kind :: object_kind
  o_name :: string
  o_parent_id :: "object_id option"
  o_content_type :: "string option"
  o_size :: "64 word option"
  o_sha256 :: "string option"
  o_content_state :: "content_state option"
  o_metadata :: json
  o_created_at :: time
  o_updated_at :: time

definition is_folder :: "object \<Rightarrow> bool" where
  "is_folder ob \<longleftrightarrow> o_kind ob = Folder"

definition is_file :: "object \<Rightarrow> bool" where
  "is_file ob \<longleftrightarrow> o_kind ob = File"

definition object_is_root :: "object \<Rightarrow> bool" where
  "object_is_root ob \<longleftrightarrow> is_root (o_id ob)"

definition has_ready_content :: "object \<Rightarrow> bool" where
  "has_ready_content ob \<longleftrightarrow> o_content_state ob = Some CsReady"

record object_view =
  ov_object :: object
  ov_path :: string

lemma kind_exhaust: "is_folder ob \<longleftrightarrow> \<not> is_file ob"
  by (cases "o_kind ob") (simp_all add: is_folder_def is_file_def)

section \<open>Upload sessions\<close>

datatype upload_mode = Single | Multipart

fun upload_mode_as_str :: "upload_mode \<Rightarrow> string" where
  "upload_mode_as_str Single = ''single''"
| "upload_mode_as_str Multipart = ''multipart''"

definition upload_mode_parse :: "string \<Rightarrow> upload_mode option" where
  "upload_mode_parse v =
     (if v = ''single'' then Some Single else if v = ''multipart'' then Some Multipart else None)"

datatype upload_state = UsInitiating | UsReady | UsCompleting | UsCompleted | UsAborted | UsExpired

fun upload_state_as_str :: "upload_state \<Rightarrow> string" where
  "upload_state_as_str UsInitiating = ''initiating''"
| "upload_state_as_str UsReady = ''ready''"
| "upload_state_as_str UsCompleting = ''completing''"
| "upload_state_as_str UsCompleted = ''completed''"
| "upload_state_as_str UsAborted = ''aborted''"
| "upload_state_as_str UsExpired = ''expired''"

definition upload_state_parse :: "string \<Rightarrow> upload_state option" where
  "upload_state_parse v =
     (if v = ''initiating'' then Some UsInitiating
      else if v = ''ready'' then Some UsReady
      else if v = ''completing'' then Some UsCompleting
      else if v = ''completed'' then Some UsCompleted
      else if v = ''aborted'' then Some UsAborted
      else if v = ''expired'' then Some UsExpired
      else None)"

definition is_completable :: "upload_state \<Rightarrow> bool" where
  "is_completable st \<longleftrightarrow> st \<in> {UsReady, UsCompleting, UsCompleted}"

definition is_terminal :: "upload_state \<Rightarrow> bool" where
  "is_terminal st \<longleftrightarrow> st \<in> {UsCompleted, UsAborted, UsExpired}"

record upload_record =
  u_id :: upload_id
  u_object_id :: object_id
  u_state :: upload_state
  u_mode :: upload_mode
  u_blob_backend :: string
  u_blob_ref :: string
  u_provider_upload_id :: "string option"
  u_expected_size :: "64 word"
  u_content_type :: string
  u_expected_sha256 :: "string option"
  u_provider_completed :: bool
  u_created_at :: time
  u_expires_at :: time
  u_completed_at :: "time option"
  u_aborted_at :: "time option"

section \<open>Changes\<close>

datatype change_action =
    Created | MetadataUpdated | Renamed | Moved | ContentReady | ContentReplaced | Deleted

fun change_action_as_str :: "change_action \<Rightarrow> string" where
  "change_action_as_str Created = ''created''"
| "change_action_as_str MetadataUpdated = ''metadata_updated''"
| "change_action_as_str Renamed = ''renamed''"
| "change_action_as_str Moved = ''moved''"
| "change_action_as_str ContentReady = ''content_ready''"
| "change_action_as_str ContentReplaced = ''content_replaced''"
| "change_action_as_str Deleted = ''deleted''"

definition change_action_parse :: "string \<Rightarrow> change_action option" where
  "change_action_parse v =
     (if v = ''created'' then Some Created
      else if v = ''metadata_updated'' then Some MetadataUpdated
      else if v = ''renamed'' then Some Renamed
      else if v = ''moved'' then Some Moved
      else if v = ''content_ready'' then Some ContentReady
      else if v = ''content_replaced'' then Some ContentReplaced
      else if v = ''deleted'' then Some Deleted
      else None)"

fun emission_order :: "change_action \<Rightarrow> nat" where
  "emission_order Created = 0"
| "emission_order Renamed = 1"
| "emission_order Moved = 2"
| "emission_order MetadataUpdated = 3"
| "emission_order ContentReady = 4"
| "emission_order ContentReplaced = 4"
| "emission_order Deleted = 5"

record change_record =
  c_change_id :: change_id
  c_object_id :: object_id
  c_revision :: revision
  c_action :: change_action
  c_changed_at :: time
  c_request_id :: request_id
  c_idempotency_key :: "idempotency_key option"
  c_tombstone :: bool

record pending_change =
  p_object_id :: object_id
  p_revision :: revision
  p_action :: change_action
  p_tombstone :: bool

definition pending_change_new :: "object_id \<Rightarrow> revision \<Rightarrow> change_action \<Rightarrow> pending_change" where
  "pending_change_new i r a =
     \<lparr>p_object_id = i, p_revision = r, p_action = a, p_tombstone = (a = Deleted)\<rparr>"

text \<open>The stored names of the enumerations read back as the value they were written for.\<close>

lemma as_str_parse [parse_simps]:
  "object_kind_parse (object_kind_as_str kd) = Some kd"
  "content_state_parse (content_state_as_str cs) = Some cs"
  "upload_mode_parse (upload_mode_as_str um) = Some um"
  "upload_state_parse (upload_state_as_str us) = Some us"
  "change_action_parse (change_action_as_str ca) = Some ca"
  by (cases kd; cases cs; cases um; cases us; cases ca;
      simp add: object_kind_parse_def content_state_parse_def upload_mode_parse_def
        upload_state_parse_def change_action_parse_def)+

section \<open>Pages\<close>

record 'a page =
  pg_items :: "'a list"
  pg_next_cursor :: "string option"
  pg_has_more :: bool

definition page_new :: "'a list \<Rightarrow> string option \<Rightarrow> bool \<Rightarrow> 'a page" where
  "page_new items next_cursor has_more =
     \<lparr>pg_items = items, pg_next_cursor = next_cursor, pg_has_more = has_more\<rparr>"

definition page_empty :: "'a page" where
  "page_empty = page_new [] None False"

record keyset_cursor =
  kc_k :: "string option"
  kc_i :: string

text \<open>
  \<open>encode_cursor\<close> and \<open>decode_cursor\<close>: the JSON and base64 codecs belong to third-party
  crates, so each direction is an argument; \<open>None\<close> is its failure.
\<close>

record cursor_codec =
  cc_serialize :: "keyset_cursor \<Rightarrow> string option"
  cc_deserialize :: "string \<Rightarrow> keyset_cursor option"
  cc_base64_encode :: "string \<Rightarrow> string"
  cc_base64_decode :: "string \<Rightarrow> string option"

definition encode_cursor :: "cursor_codec \<Rightarrow> keyset_cursor \<Rightarrow> string result" where
  "encode_cursor cc value =
     (case cc_serialize cc value of
        None \<Rightarrow> Err (Internal ''cursor encode failed'')
      | Some bytes \<Rightarrow> Ok (cc_base64_encode cc bytes))"

definition decode_cursor :: "cursor_codec \<Rightarrow> string \<Rightarrow> keyset_cursor result" where
  "decode_cursor cc cursor =
     (case cc_base64_decode cc cursor of
        None \<Rightarrow> Err (InvalidRequest ''Invalid cursor.'')
      | Some bytes \<Rightarrow>
          (case cc_deserialize cc bytes of
             None \<Rightarrow> Err (InvalidRequest ''Invalid cursor.'')
           | Some value \<Rightarrow> Ok value))"

text \<open>What the crates document: serialization succeeds, and decoding inverts encoding.\<close>

definition codec_ok :: "cursor_codec \<Rightarrow> bool" where
  "codec_ok cc \<longleftrightarrow>
     (\<forall>v. \<exists>b. cc_serialize cc v = Some b \<and> cc_deserialize cc b = Some v) \<and>
     (\<forall>b. cc_base64_decode cc (cc_base64_encode cc b) = Some b)"

lemma cursor_roundtrip:
  assumes "codec_ok cc"
  obtains c where "encode_cursor cc v = Ok c" "decode_cursor cc c = Ok v"
proof -
  from assms obtain b where "cc_serialize cc v = Some b" "cc_deserialize cc b = Some v"
    "cc_base64_decode cc (cc_base64_encode cc b) = Some b"
    unfolding codec_ok_def by blast
  then show ?thesis by (intro that [of "cc_base64_encode cc b"])
      (simp_all add: encode_cursor_def decode_cursor_def)
qed

definition clamp_limit :: "32 word option \<Rightarrow> 32 word \<Rightarrow> 32 word \<Rightarrow> 32 word" where
  "clamp_limit limit dflt max_limit =
     (let v = (case limit of None \<Rightarrow> dflt | Some l \<Rightarrow> l)
      in if v < 1 then 1 else if max_limit < v then max_limit else v)"

lemma clamp_limit_bounds:
  "1 \<le> max_limit \<Longrightarrow> 1 \<le> clamp_limit l d max_limit \<and> clamp_limit l d max_limit \<le> max_limit"
  unfolding clamp_limit_def Let_def by (smt (verit) linorder_not_less order_refl)

end
