(* ===== verification/PortTypes.thy ===== *)
theory PortTypes
  imports DomainTypes
begin

text \<open>
  The types of the metastore ports in \<open>anystore-metastore/src\<close>: the stored response, the
  query and mutation commands, and the requests and answers of the idempotency, change,
  upload and maintenance ports. A renderer is a function from the outcome to a response, as
  the \<open>Arc<dyn Fn>\<close> of \<open>response.rs\<close> is.
\<close>

section \<open>Responses\<close>

record stored_response =
  sr_status :: nat
  sr_headers :: "(string \<times> string) list"
  sr_body :: string

definition stored_response_json :: "nat \<Rightarrow> string \<Rightarrow> stored_response" where
  "stored_response_json st body =
     \<lparr>sr_status = st, sr_headers = [(''content-type'', ''application/json'')], sr_body = body\<rparr>"

definition no_content :: stored_response where
  "no_content = \<lparr>sr_status = 204, sr_headers = [], sr_body = []\<rparr>"

section \<open>Idempotency\<close>

record idempotency_context =
  ic_principal_id :: principal_id
  ic_operation :: string
  ic_key :: idempotency_key
  ic_request_hash :: string
  ic_owner_token :: string
  ic_resource_token :: string

record idempotency_acquire =
  ia_context :: idempotency_context
  ia_now :: time
  ia_lease_until :: time
  ia_expires_at :: time

datatype idempotency_decision =
    Owner string
  | Replay stored_response
  | Conflict

record idempotency_complete =
  ico_context :: idempotency_context
  ico_response :: stored_response
  ico_now :: time
  ico_expires_at :: time

record idempotency_release =
  ir_context :: idempotency_context

section \<open>Reads\<close>

datatype order_by = ByName | ByCreatedAt | ByUpdatedAt | BySize

definition order_by_parse :: "string \<Rightarrow> order_by option" where
  "order_by_parse v =
     (if v = ''name'' then Some ByName
      else if v = ''created_at'' then Some ByCreatedAt
      else if v = ''updated_at'' then Some ByUpdatedAt
      else if v = ''size'' then Some BySize
      else None)"

datatype list_order = Asc | Desc

definition list_order_parse :: "string \<Rightarrow> list_order option" where
  "list_order_parse v =
     (if v = ''asc'' then Some Asc else if v = ''desc'' then Some Desc else None)"

record list_children_cmd =
  lc_parent_id :: object_id
  lc_limit :: "32 word"
  lc_cursor :: "string option"
  lc_order_by :: order_by
  lc_order :: list_order

datatype metadata_condition = MetaEq json | MetaExists bool

record object_query =
  oq_kind :: "object_kind option"
  oq_name :: "string option"
  oq_parent_id :: "object_id option"
  oq_metadata :: "(string \<times> metadata_condition) list"
  oq_limit :: "32 word"
  oq_cursor :: "string option"

record content_pointer =
  cp_blob_backend :: string
  cp_blob_ref :: string

section \<open>Mutations\<close>

record mutation_outcome =
  mo_object :: "object_view option"
  mo_changes :: "change_record list"
  mo_no_op :: bool

type_synonym response_renderer = "mutation_outcome \<Rightarrow> stored_response result"

record mutation_context =
  mc_now :: time
  mc_request_id :: request_id
  mc_idempotency_key :: "idempotency_key option"
  mc_idempotency :: "idempotency_context option"
  mc_idempotency_expires_at :: time
  mc_render :: response_renderer

record create_object_commit =
  co_id :: object_id
  co_kind :: object_kind
  co_name :: string
  co_parent_id :: object_id
  co_content_type :: "string option"
  co_metadata :: json
  co_ctx :: mutation_context

record patch_object_commit =
  po_id :: object_id
  po_if_match :: "revision option"
  po_new_name :: "string option"
  po_new_parent_id :: "object_id option"
  po_metadata_patch :: "metadata_patch option"
  po_ctx :: mutation_context

record delete_object_commit =
  do_id :: object_id
  do_if_match :: "revision option"
  do_recursive :: bool
  do_ctx :: mutation_context

record commit_content_cmd =
  cm_upload_id :: upload_id
  cm_object_id :: object_id
  cm_if_match :: "revision option"
  cm_blob_backend :: string
  cm_blob_ref :: string
  cm_size :: "64 word"
  cm_content_type :: string
  cm_sha256 :: "string option"
  cm_gc_not_before :: time
  cm_ctx :: mutation_context

section \<open>Uploads\<close>

record create_upload_record_cmd =
  cu_id :: upload_id
  cu_object_id :: object_id
  cu_mode :: upload_mode
  cu_blob_backend :: string
  cu_blob_ref :: string
  cu_expected_size :: "64 word"
  cu_content_type :: string
  cu_expected_sha256 :: "string option"
  cu_created_at :: time
  cu_expires_at :: time

record create_upload_result =
  cur_upload :: upload_record
  cur_created :: bool

record update_upload_state_cmd =
  uu_id :: upload_id
  uu_state :: upload_state
  uu_provider_upload_id :: "string option"
  uu_provider_completed :: "bool option"

record abort_upload_record_cmd =
  au_id :: upload_id
  au_now :: time
  au_gc_not_before :: time

section \<open>Changes and maintenance\<close>

record read_changes_req =
  rc_cursor :: "cursor_id option"
  rc_limit :: "32 word"
  rc_now :: time
  rc_cursor_expires_at :: time

record change_page =
  cpg_items :: "change_record list"
  cpg_next_cursor :: cursor_id
  cpg_has_more :: bool
  cpg_lag :: nat

record blob_gc_entry =
  ge_blob_backend :: string
  ge_blob_ref :: string
  ge_attempts :: "32 word"

end
