(* ===== verification/MemState.thy ===== *)
theory MemState
  imports PortTypes
begin

text \<open>
  The state of the in-memory metastore (\<open>anystore-testkit/src/metastore.rs\<close>) and the helpers
  its operations share. The lock of \<open>InMemoryMetaStore\<close> makes every operation a function from
  the state to a result and the next state. There is no rollback: an operation that fails
  after a write keeps the write, so the state is returned beside the error as well.
\<close>

section \<open>State\<close>

record stored_object =
  so_object :: object
  so_blob_backend :: "string option"
  so_blob_ref :: "string option"
  so_deleted_at :: "time option"

definition is_live :: "stored_object \<Rightarrow> bool" where
  "is_live so \<longleftrightarrow> so_deleted_at so = None"

record idempotency_row =
  ir_request_hash :: string
  ir_created_at :: time
  ir_completed :: bool
  ir_owner_token :: "string option"
  ir_lease_until :: "time option"
  ir_response :: "stored_response option"
  ir_expires_at :: time

record cursor_row =
  cr_after_seq :: int
  cr_materialized :: bool
  cr_page_limit :: "32 word option"
  cr_page_end_seq :: "int option"
  cr_has_more :: "bool option"
  cr_next_cursor_id :: "cursor_id option"
  cr_expires_at :: time

record gc_row =
  gr_blob_backend :: string
  gr_blob_ref :: string
  gr_not_before :: time
  gr_attempts :: "32 word"

record mem_state =
  objects :: "(string, stored_object) table"
  changes :: "change_record list"
  cursors :: "(string, cursor_row) table"
  idempotency :: "(string \<times> string \<times> string, idempotency_row) table"
  uploads :: "(string, upload_record) table"
  gc :: "gc_row list"
  purged_through_seq :: int

text \<open>\<open>InMemoryMetaStore::new\<close>: the root folder and nothing else.\<close>

definition root_object :: "time \<Rightarrow> stored_object" where
  "root_object now =
     \<lparr>so_object =
        \<lparr>o_id = ROOT_ID, o_revision = INITIAL, o_kind = Folder, o_name = [], o_parent_id = None,
         o_content_type = None, o_size = None, o_sha256 = None, o_content_state = None,
         o_metadata = JObject [], o_created_at = now, o_updated_at = now\<rparr>,
      so_blob_backend = None, so_blob_ref = None, so_deleted_at = None\<rparr>"

definition mem_new :: "time \<Rightarrow> mem_state" where
  "mem_new now =
     \<lparr>objects = table_insert ''root'' (root_object now) [], changes = [], cursors = [],
      idempotency = [], uploads = [], gc = [], purged_through_seq = 0\<rparr>"

section \<open>Helpers\<close>

text \<open>\<open>state.objects.get(id).filter(|s| s.is_live())\<close>.\<close>

definition live_object :: "mem_state \<Rightarrow> object_id \<Rightarrow> stored_object option" where
  "live_object s i =
     (case table_get (objects s) i of
        None \<Rightarrow> None
      | Some so \<Rightarrow> if is_live so then Some so else None)"

text \<open>The loop of \<open>render_path\<close>, with the iterations left and the segments collected leaf-first.\<close>

fun render_loop :: "mem_state \<Rightarrow> nat \<Rightarrow> object_id \<Rightarrow> string list \<Rightarrow> string result" where
  "render_loop s 0 current segments = Err (Internal ''object tree is cyclic'')"
| "render_loop s (Suc n) current segments =
     (case table_get (objects s) current of
        None \<Rightarrow> Err ObjectNotFound
      | Some stored \<Rightarrow>
          (case o_parent_id (so_object stored) of
             None \<Rightarrow>
               Ok (if segments = [] then ''/'' else CHR ''/'' # join ''/'' (rev segments))
           | Some parent \<Rightarrow> render_loop s n parent (segments @ [o_name (so_object stored)])))"

definition render_path :: "mem_state \<Rightarrow> object_id \<Rightarrow> string result" where
  "render_path s i = render_loop s 1024 i []"

definition view_of :: "mem_state \<Rightarrow> object_id \<Rightarrow> object_view result" where
  "view_of s i =
     rbind (ok_or ObjectNotFound (live_object s i)) (\<lambda>stored.
     rbind (render_path s i) (\<lambda>path.
     Ok \<lparr>ov_object = so_object stored, ov_path = path\<rparr>))"

definition name_taken :: "mem_state \<Rightarrow> object_id option \<Rightarrow> string \<Rightarrow> string \<Rightarrow> bool" where
  "name_taken s parent name except =
     list_ex (\<lambda>so. is_live so \<and> o_id (so_object so) \<noteq> except
        \<and> o_parent_id (so_object so) = parent \<and> o_name (so_object so) = name)
       (table_values (objects s))"

fun ancestor_loop :: "mem_state \<Rightarrow> nat \<Rightarrow> object_id option \<Rightarrow> object_id \<Rightarrow> bool" where
  "ancestor_loop s 0 current subject = False"
| "ancestor_loop s (Suc n) current subject =
     (case current of
        None \<Rightarrow> False
      | Some i \<Rightarrow>
          if i = subject then True
          else ancestor_loop s n
            (case table_get (objects s) i of
               None \<Rightarrow> None
             | Some so \<Rightarrow> o_parent_id (so_object so)) subject)"

definition is_self_or_descendant :: "mem_state \<Rightarrow> object_id \<Rightarrow> object_id \<Rightarrow> bool" where
  "is_self_or_descendant s candidate subject = ancestor_loop s 1024 (Some candidate) subject"

text \<open>
  The worklist of \<open>descendants\<close>. The frontier is a stack whose top is the last element. The
  loop has no bound: on a cyclic tree it does not end, and its value is \<open>None\<close>.
\<close>

definition child_entries :: "mem_state \<Rightarrow> nat \<Rightarrow> object_id \<Rightarrow> (nat \<times> string) list" where
  "child_entries s depth i =
     map (\<lambda>so. (depth + 1, o_id (so_object so)))
       (filter (\<lambda>so. is_live so \<and> o_parent_id (so_object so) = Some i) (table_values (objects s)))"

partial_function (option) descend_loop ::
  "mem_state \<Rightarrow> (nat \<times> string) list \<Rightarrow> (nat \<times> string) list \<Rightarrow> (nat \<times> string) list option" where
  "descend_loop s found frontier =
     (if frontier = [] then Some found
      else descend_loop s
        (found @ child_entries s (fst (last frontier)) (snd (last frontier)))
        (butlast frontier @ child_entries s (fst (last frontier)) (snd (last frontier))))"

declare descend_loop.simps [code]

text \<open>
  The order tombstones are written in: the deeper entry first, then by id. It is an instance
  of the library's class of linear orders, so that sorting by it is the library's sort.
\<close>

datatype depth_entry = DepthEntry nat string

instantiation depth_entry :: linorder
begin

definition less_eq_depth_entry :: "depth_entry \<Rightarrow> depth_entry \<Rightarrow> bool" where
  "less_eq_depth_entry x y =
     (case (x, y) of (DepthEntry d i, DepthEntry e j) \<Rightarrow> e < d \<or> d = e \<and> i \<le> j)"

definition less_depth_entry :: "depth_entry \<Rightarrow> depth_entry \<Rightarrow> bool" where
  "less_depth_entry x y =
     (case (x, y) of (DepthEntry d i, DepthEntry e j) \<Rightarrow> e < d \<or> d = e \<and> i < j)"

instance
  by intro_classes (auto simp: less_eq_depth_entry_def less_depth_entry_def split: depth_entry.splits)

end

definition sort_depth_first :: "(nat \<times> string) list \<Rightarrow> (nat \<times> string) list" where
  "sort_depth_first es = sort_key (\<lambda>(d, i). DepthEntry d i) es"

definition descendants :: "mem_state \<Rightarrow> object_id \<Rightarrow> (nat \<times> string) list option" where
  "descendants s subject = map_option sort_depth_first (descend_loop s [(0, subject)] [(0, subject)])"

definition change_record_of :: "mutation_context \<Rightarrow> int \<Rightarrow> pending_change \<Rightarrow> change_record" where
  "change_record_of ctx seq p =
     \<lparr>c_change_id = change_id_from_seq seq, c_object_id = p_object_id p,
      c_revision = p_revision p, c_action = p_action p, c_changed_at = mc_now ctx,
      c_request_id = mc_request_id ctx, c_idempotency_key = mc_idempotency_key ctx,
      c_tombstone = p_tombstone p\<rparr>"

fun append_changes ::
  "pending_change list \<Rightarrow> mutation_context \<Rightarrow> mem_state \<Rightarrow> change_record list \<times> mem_state" where
  "append_changes [] ctx s = ([], s)"
| "append_changes (p # ps) ctx s =
     (let seq = int (length (changes s)) + 1;
          rec = change_record_of ctx seq p;
          (recs, s') = append_changes ps ctx (s\<lparr>changes := changes s @ [rec]\<rparr>)
      in (rec # recs, s'))"

definition enqueue_gc :: "string \<Rightarrow> string \<Rightarrow> time \<Rightarrow> mem_state \<Rightarrow> mem_state" where
  "enqueue_gc backend blob_ref not_before s =
     (if list_ex (\<lambda>g. gr_blob_backend g = backend \<and> gr_blob_ref g = blob_ref) (gc s) then s
      else s\<lparr>gc := gc s @ [\<lparr>gr_blob_backend = backend, gr_blob_ref = blob_ref,
               gr_not_before = not_before, gr_attempts = 0\<rparr>]\<rparr>)"

definition idempotency_row_key :: "idempotency_context \<Rightarrow> string \<times> string \<times> string" where
  "idempotency_row_key ic = (ic_principal_id ic, ic_operation ic, ic_key ic)"

text \<open>The update that completes a row: the response is kept and the lease is given up.\<close>

definition complete_row :: "stored_response \<Rightarrow> time \<Rightarrow> idempotency_row \<Rightarrow> idempotency_row" where
  "complete_row response expires_at row =
     row\<lparr>ir_completed := True, ir_response := Some response, ir_owner_token := None,
         ir_lease_until := None, ir_expires_at := expires_at\<rparr>"

definition finalize_idempotency ::
  "mutation_context \<Rightarrow> stored_response \<Rightarrow> mem_state \<Rightarrow> unit result \<times> mem_state" where
  "finalize_idempotency ctx response s =
     (case mc_idempotency ctx of
        None \<Rightarrow> (Ok (), s)
      | Some ictx \<Rightarrow>
          (case table_get (idempotency s) (idempotency_row_key ictx) of
             None \<Rightarrow> (Err (Internal ''idempotency record disappeared''), s)
           | Some row \<Rightarrow>
               if ir_owner_token row \<noteq> Some (ic_owner_token ictx)
               then (Err (Internal ''idempotency lease was lost during the mutation''), s)
               else (Ok (), s\<lparr>idempotency := table_insert (idempotency_row_key ictx)
                       (complete_row response (mc_idempotency_expires_at ctx) row)
                       (idempotency s)\<rparr>)))"

definition check_if_match :: "revision \<Rightarrow> revision option \<Rightarrow> unit result" where
  "check_if_match current if_match =
     (case if_match of
        Some expected \<Rightarrow> if expected \<noteq> current then Err (RevisionConflict current) else Ok ()
      | None \<Rightarrow> Ok ())"

text \<open>
  The end that every mutation shares: render the outcome, finalize the idempotency record in
  the same critical section, return the response.
\<close>

definition respond_with ::
  "mutation_context \<Rightarrow> mutation_outcome \<Rightarrow> mem_state \<Rightarrow> stored_response result \<times> mem_state" where
  "respond_with ctx outcome s =
     (case mc_render ctx outcome of
        Inl e \<Rightarrow> (Err e, s)
      | Inr response \<Rightarrow>
          (case finalize_idempotency ctx response s of
             (Inl e, s') \<Rightarrow> (Err e, s')
           | (Inr _, s') \<Rightarrow> (Ok response, s')))"

definition respond_with_view ::
  "mutation_context \<Rightarrow> object_id \<Rightarrow> change_record list \<Rightarrow> bool \<Rightarrow> mem_state \<Rightarrow>
   stored_response result \<times> mem_state" where
  "respond_with_view ctx i chs no_op s =
     (case view_of s i of
        Inl e \<Rightarrow> (Err e, s)
      | Inr view \<Rightarrow>
          respond_with ctx \<lparr>mo_object = Some view, mo_changes = chs, mo_no_op = no_op\<rparr> s)"

section \<open>Lemmas\<close>

lemma live_object_iff:
  "live_object s i = Some so \<longleftrightarrow> table_get (objects s) i = Some so \<and> is_live so"
  by (auto simp: live_object_def split: option.splits)

lemma live_object_cong: "objects s = objects s' \<Longrightarrow> live_object s = live_object s'"
  by (simp add: live_object_def fun_eq_iff)

lemma render_loop_cong: "objects s = objects s' \<Longrightarrow> render_loop s n i xs = render_loop s' n i xs"
  by (induction n arbitrary: i xs) (auto split: option.splits)

lemma view_of_cong: "objects s = objects s' \<Longrightarrow> view_of s i = view_of s' i"
  unfolding view_of_def render_path_def
  by (simp add: live_object_cong [of s s'] render_loop_cong [of s s'])

lemma view_of_live: "view_of s i = Ok v \<Longrightarrow> \<exists>so. live_object s i = Some so \<and> ov_object v = so_object so"
  by (auto simp: view_of_def rbind_Ok_iff)

text \<open>Changes are only ever appended, with consecutive sequence numbers.\<close>

fun records_from :: "mutation_context \<Rightarrow> int \<Rightarrow> pending_change list \<Rightarrow> change_record list" where
  "records_from ctx seq [] = []"
| "records_from ctx seq (p # ps) = change_record_of ctx seq p # records_from ctx (seq + 1) ps"

lemma append_changes_eq:
  "append_changes ps ctx s =
     (records_from ctx (int (length (changes s)) + 1) ps,
      s\<lparr>changes := changes s @ records_from ctx (int (length (changes s)) + 1) ps\<rparr>)"
  by (induction ps arbitrary: s) (simp_all add: Let_def add.commute)

lemma length_records_from [simp]: "length (records_from ctx seq ps) = length ps"
  by (induction ps arbitrary: seq) simp_all

lemma nth_records_from:
  "k < length ps \<Longrightarrow> records_from ctx seq ps ! k = change_record_of ctx (seq + int k) (ps ! k)"
proof (induction ps arbitrary: seq k)
  case (Cons p ps)
  then show ?case by (cases k) (auto simp: algebra_simps)
qed simp

lemma append_changes_frame [frame_simps]:
  "objects (snd (append_changes ps ctx s)) = objects s"
  "cursors (snd (append_changes ps ctx s)) = cursors s"
  "idempotency (snd (append_changes ps ctx s)) = idempotency s"
  "uploads (snd (append_changes ps ctx s)) = uploads s"
  "gc (snd (append_changes ps ctx s)) = gc s"
  "purged_through_seq (snd (append_changes ps ctx s)) = purged_through_seq s"
  "changes (snd (append_changes ps ctx s)) = changes s @ fst (append_changes ps ctx s)"
  by (simp_all add: append_changes_eq Let_def)

lemma append_changes_length [simp]: "length (fst (append_changes ps ctx s)) = length ps"
  by (simp add: append_changes_eq Let_def)

lemma enqueue_gc_frame [frame_simps]:
  "objects (enqueue_gc b r t s) = objects s"
  "changes (enqueue_gc b r t s) = changes s"
  "cursors (enqueue_gc b r t s) = cursors s"
  "idempotency (enqueue_gc b r t s) = idempotency s"
  "uploads (enqueue_gc b r t s) = uploads s"
  "purged_through_seq (enqueue_gc b r t s) = purged_through_seq s"
  by (simp_all add: enqueue_gc_def)

lemma finalize_frame [frame_simps]:
  "objects (snd (finalize_idempotency ctx r s)) = objects s"
  "changes (snd (finalize_idempotency ctx r s)) = changes s"
  "cursors (snd (finalize_idempotency ctx r s)) = cursors s"
  "uploads (snd (finalize_idempotency ctx r s)) = uploads s"
  "gc (snd (finalize_idempotency ctx r s)) = gc s"
  "purged_through_seq (snd (finalize_idempotency ctx r s)) = purged_through_seq s"
  by (simp_all add: finalize_idempotency_def split: option.splits)

lemma respond_with_frame [frame_simps]:
  "objects (snd (respond_with ctx out s)) = objects s"
  "changes (snd (respond_with ctx out s)) = changes s"
  "cursors (snd (respond_with ctx out s)) = cursors s"
  "uploads (snd (respond_with ctx out s)) = uploads s"
  "gc (snd (respond_with ctx out s)) = gc s"
  "purged_through_seq (snd (respond_with ctx out s)) = purged_through_seq s"
proof -
  have "snd (respond_with ctx out s) = s \<or>
      (\<exists>r. snd (respond_with ctx out s) = snd (finalize_idempotency ctx r s))"
    by (simp add: respond_with_def split: sum.split prod.split) (metis snd_conv)
  then show
    "objects (snd (respond_with ctx out s)) = objects s"
    "changes (snd (respond_with ctx out s)) = changes s"
    "cursors (snd (respond_with ctx out s)) = cursors s"
    "uploads (snd (respond_with ctx out s)) = uploads s"
    "gc (snd (respond_with ctx out s)) = gc s"
    "purged_through_seq (snd (respond_with ctx out s)) = purged_through_seq s"
    by (auto simp: frame_simps)
qed

lemma respond_with_view_frame [frame_simps]:
  "objects (snd (respond_with_view ctx i chs n s)) = objects s"
  "changes (snd (respond_with_view ctx i chs n s)) = changes s"
  "cursors (snd (respond_with_view ctx i chs n s)) = cursors s"
  "uploads (snd (respond_with_view ctx i chs n s)) = uploads s"
  "gc (snd (respond_with_view ctx i chs n s)) = gc s"
  "purged_through_seq (snd (respond_with_view ctx i chs n s)) = purged_through_seq s"
  by (simp_all add: respond_with_view_def frame_simps split: sum.splits)

lemma check_if_match_ok:
  "check_if_match current m = Ok () \<longleftrightarrow> m = None \<or> m = Some current"
  by (auto simp: check_if_match_def split: option.splits)

lemma check_if_match_cases:
  "check_if_match current m = Ok () \<or> check_if_match current m = Err (RevisionConflict current)"
  by (simp add: check_if_match_def split: option.splits)

end
