(* ===== verification/MemMutations.thy ===== *)
theory MemMutations
  imports MemState
begin

text \<open>
  The \<open>ObjectMutationStore\<close> of the in-memory metastore: \<open>create_object\<close>, \<open>patch_object\<close>,
  \<open>delete_object\<close> and \<open>commit_content\<close>, each as the function of the state that its critical
  section computes. A recursive delete walks the tree with an unbounded worklist, so deleting
  returns an option, with \<open>None\<close> where the walk does not end.
\<close>

section \<open>Create\<close>

definition created_object :: "create_object_commit \<Rightarrow> stored_object" where
  "created_object cmd =
     \<lparr>so_object =
        \<lparr>o_id = co_id cmd, o_revision = INITIAL, o_kind = co_kind cmd, o_name = co_name cmd,
         o_parent_id = Some (co_parent_id cmd), o_content_type = co_content_type cmd,
         o_size = None, o_sha256 = None,
         o_content_state = (case co_kind cmd of File \<Rightarrow> Some CsNone | Folder \<Rightarrow> None),
         o_metadata = co_metadata cmd, o_created_at = mc_now (co_ctx cmd),
         o_updated_at = mc_now (co_ctx cmd)\<rparr>,
      so_blob_backend = None, so_blob_ref = None, so_deleted_at = None\<rparr>"

definition create_object ::
  "create_object_commit \<Rightarrow> mem_state \<Rightarrow> stored_response result \<times> mem_state" where
  "create_object cmd s =
     (case live_object s (co_parent_id cmd) of
        None \<Rightarrow> (Err ObjectNotFound, s)
      | Some parent \<Rightarrow>
          if o_kind (so_object parent) \<noteq> Folder then (Err NotAFolder, s)
          else if name_taken s (Some (co_parent_id cmd)) (co_name cmd) (co_id cmd)
          then (Err NameConflict, s)
          else
            let s1 = s\<lparr>objects := table_insert (co_id cmd) (created_object cmd) (objects s)\<rparr>;
                (chs, s2) = append_changes [pending_change_new (co_id cmd) INITIAL Created]
                  (co_ctx cmd) s1
            in respond_with_view (co_ctx cmd) (co_id cmd) chs False s2)"

section \<open>Patch\<close>

record patch_target =
  pt_name :: string
  pt_parent :: "object_id option"
  pt_metadata :: json

definition patch_target_of :: "patch_object_commit \<Rightarrow> object \<Rightarrow> patch_target result" where
  "patch_target_of cmd ob =
     (let n = (case po_new_name cmd of None \<Rightarrow> o_name ob | Some n \<Rightarrow> n);
          p = (case po_new_parent_id cmd of None \<Rightarrow> o_parent_id ob | Some q \<Rightarrow> Some q)
      in case po_metadata_patch cmd of
           None \<Rightarrow> Ok \<lparr>pt_name = n, pt_parent = p, pt_metadata = o_metadata ob\<rparr>
         | Some patch \<Rightarrow>
             (case apply_metadata_patch (o_metadata ob) patch of
                Inl e \<Rightarrow> Err e
              | Inr m \<Rightarrow> Ok \<lparr>pt_name = n, pt_parent = p, pt_metadata = m\<rparr>))"

text \<open>The root may be neither moved nor renamed, whatever the new values are.\<close>

definition check_root_patch :: "patch_object_commit \<Rightarrow> object \<Rightarrow> unit result" where
  "check_root_patch cmd ob =
     (if object_is_root ob then
        if po_new_parent_id cmd \<noteq> None then Err (InvalidMove ''Root cannot be moved.'')
        else if po_new_name cmd \<noteq> None then Err (InvalidRequest ''Root cannot be renamed.'')
        else Ok ()
      else Ok ())"

definition name_changed :: "object \<Rightarrow> patch_target \<Rightarrow> bool" where
  "name_changed ob t \<longleftrightarrow> pt_name t \<noteq> o_name ob"

definition parent_changed :: "object \<Rightarrow> patch_target \<Rightarrow> bool" where
  "parent_changed ob t \<longleftrightarrow> pt_parent t \<noteq> o_parent_id ob"

definition metadata_changed :: "object \<Rightarrow> patch_target \<Rightarrow> bool" where
  "metadata_changed ob t \<longleftrightarrow> \<not> metadata_equal (pt_metadata t) (o_metadata ob)"

definition check_destination :: "mem_state \<Rightarrow> object \<Rightarrow> patch_target \<Rightarrow> unit result" where
  "check_destination s ob t =
     (if \<not> parent_changed ob t then Ok ()
      else case pt_parent t of
        None \<Rightarrow> Err (InvalidMove ''Destination is required.'')
      | Some destination \<Rightarrow>
          (case live_object s destination of
             None \<Rightarrow> Err ObjectNotFound
           | Some dest \<Rightarrow>
               if o_kind (so_object dest) \<noteq> Folder then Err NotAFolder
               else if is_folder ob \<and> is_self_or_descendant s destination (o_id ob)
               then Err (InvalidMove ''A folder cannot be moved into itself or one of its descendants.'')
               else Ok ()))"

definition patch_fields :: "patch_target \<Rightarrow> revision \<Rightarrow> time \<Rightarrow> stored_object \<Rightarrow> stored_object" where
  "patch_fields t r now so =
     so\<lparr>so_object := (so_object so)\<lparr>o_revision := r, o_name := pt_name t,
        o_parent_id := pt_parent t, o_metadata := pt_metadata t, o_updated_at := now\<rparr>\<rparr>"

definition patch_pending ::
  "object_id \<Rightarrow> revision \<Rightarrow> object \<Rightarrow> patch_target \<Rightarrow> pending_change list" where
  "patch_pending i r ob t =
     sort_key (\<lambda>p. emission_order (p_action p))
       ((if name_changed ob t then [pending_change_new i r Renamed] else []) @
        (if parent_changed ob t then [pending_change_new i r Moved] else []) @
        (if metadata_changed ob t then [pending_change_new i r MetadataUpdated] else []))"

definition write_patch ::
  "patch_object_commit \<Rightarrow> object \<Rightarrow> patch_target \<Rightarrow> mem_state \<Rightarrow>
   stored_response result \<times> mem_state" where
  "write_patch cmd ob t s =
     (let r = next_revision (o_revision ob);
          s1 = s\<lparr>objects := table_modify (po_id cmd) (patch_fields t r (mc_now (po_ctx cmd)))
                   (objects s)\<rparr>;
          (chs, s2) = append_changes (patch_pending (po_id cmd) r ob t) (po_ctx cmd) s1
      in respond_with_view (po_ctx cmd) (po_id cmd) chs False s2)"

definition patch_object ::
  "patch_object_commit \<Rightarrow> mem_state \<Rightarrow> stored_response result \<times> mem_state" where
  "patch_object cmd s =
     (case live_object s (po_id cmd) of
        None \<Rightarrow> (Err ObjectNotFound, s)
      | Some stored \<Rightarrow>
          (let ob = so_object stored in
           case rbind (check_if_match (o_revision ob) (po_if_match cmd)) (\<lambda>_.
                rbind (check_root_patch cmd ob) (\<lambda>_. patch_target_of cmd ob)) of
             Inl e \<Rightarrow> (Err e, s)
           | Inr t \<Rightarrow>
               if \<not> name_changed ob t \<and> \<not> parent_changed ob t \<and> \<not> metadata_changed ob t
               then respond_with_view (po_ctx cmd) (po_id cmd) [] True s
               else
                 (case check_destination s ob t of
                    Inl e \<Rightarrow> (Err e, s)
                  | Inr _ \<Rightarrow>
                      if name_taken s (pt_parent t) (pt_name t) (po_id cmd)
                      then (Err NameConflict, s)
                      else write_patch cmd ob t s)))"

section \<open>Delete\<close>

text \<open>
  The loop over the targets: each that is present and live gets its tombstone and one pending
  change; the blob it holds is collectable.
\<close>

definition tombstone :: "time \<Rightarrow> stored_object \<Rightarrow> stored_object" where
  "tombstone now so =
     so\<lparr>so_object := (so_object so)\<lparr>o_revision := next_revision (o_revision (so_object so)),
          o_updated_at := now\<rparr>,
        so_deleted_at := Some now\<rparr>"

definition blob_of :: "stored_object \<Rightarrow> (string \<times> string) option" where
  "blob_of so =
     (case so_blob_backend so of
        None \<Rightarrow> None
      | Some backend \<Rightarrow> map_option (\<lambda>r. (backend, r)) (so_blob_ref so))"

fun tombstone_all ::
  "time \<Rightarrow> string list \<Rightarrow> (string, stored_object) table \<Rightarrow>
   pending_change list \<times> (string \<times> string) list \<times> (string, stored_object) table" where
  "tombstone_all now [] objs = ([], [], objs)"
| "tombstone_all now (i # is) objs =
     (case table_get objs i of
        None \<Rightarrow> tombstone_all now is objs
      | Some entry \<Rightarrow>
          if \<not> is_live entry then tombstone_all now is objs
          else
            let entry' = tombstone now entry;
                (pending, collectable, objs') =
                  tombstone_all now is (table_insert i entry' objs)
            in (pending_change_new i (o_revision (so_object entry')) Deleted # pending,
                (case blob_of entry' of None \<Rightarrow> [] | Some b \<Rightarrow> [b]) @ collectable,
                objs'))"

definition has_children :: "mem_state \<Rightarrow> object_id \<Rightarrow> bool" where
  "has_children s i =
     list_ex (\<lambda>so. is_live so \<and> o_parent_id (so_object so) = Some i) (table_values (objects s))"

definition delete_targets ::
  "delete_object_commit \<Rightarrow> object \<Rightarrow> mem_state \<Rightarrow> string list result option" where
  "delete_targets cmd ob s =
     (if is_folder ob \<and> do_recursive cmd
      then map_option (\<lambda>es. Ok (map snd es)) (descendants s (do_id cmd))
      else if is_folder ob \<and> has_children s (do_id cmd) then Some (Err FolderNotEmpty)
      else Some (Ok [do_id cmd]))"

definition write_delete ::
  "delete_object_commit \<Rightarrow> string list \<Rightarrow> mem_state \<Rightarrow> stored_response result \<times> mem_state" where
  "write_delete cmd targets s =
     (let now = mc_now (do_ctx cmd);
          (pending, collectable, objs) = tombstone_all now targets (objects s);
          s1 = fold (\<lambda>(backend, blob_ref). enqueue_gc backend blob_ref now) collectable
                 (s\<lparr>objects := objs\<rparr>);
          (chs, s2) = append_changes pending (do_ctx cmd) s1
      in respond_with (do_ctx cmd) \<lparr>mo_object = None, mo_changes = chs, mo_no_op = False\<rparr> s2)"

definition delete_object ::
  "delete_object_commit \<Rightarrow> mem_state \<Rightarrow> (stored_response result \<times> mem_state) option" where
  "delete_object cmd s =
     (case live_object s (do_id cmd) of
        None \<Rightarrow> Some (Err ObjectNotFound, s)
      | Some stored \<Rightarrow>
          (let ob = so_object stored in
           case check_if_match (o_revision ob) (do_if_match cmd) of
             Inl e \<Rightarrow> Some (Err e, s)
           | Inr _ \<Rightarrow>
               if object_is_root ob then Some (Err (InvalidRequest ''Root cannot be deleted.''), s)
               else
                 (case delete_targets cmd ob s of
                    None \<Rightarrow> None
                  | Some (Inl e) \<Rightarrow> Some (Err e, s)
                  | Some (Inr targets) \<Rightarrow> Some (write_delete cmd targets s))))"

section \<open>Content\<close>

definition content_action :: "object \<Rightarrow> change_action" where
  "content_action ob =
     (case o_content_state ob of
        Some CsReady \<Rightarrow> ContentReplaced
      | Some CsNone \<Rightarrow> ContentReady
      | None \<Rightarrow> ContentReady)"

definition content_fields :: "commit_content_cmd \<Rightarrow> revision \<Rightarrow> stored_object \<Rightarrow> stored_object" where
  "content_fields cmd r so =
     so\<lparr>so_object := (so_object so)\<lparr>o_revision := r, o_size := Some (cm_size cmd),
          o_sha256 := cm_sha256 cmd, o_content_type := Some (cm_content_type cmd),
          o_content_state := Some CsReady, o_updated_at := mc_now (cm_ctx cmd)\<rparr>,
        so_blob_backend := Some (cm_blob_backend cmd), so_blob_ref := Some (cm_blob_ref cmd)\<rparr>"

text \<open>The blob that a commit replaces is queued, unless it is the committed one.\<close>

definition enqueue_replaced :: "commit_content_cmd \<Rightarrow> stored_object \<Rightarrow> mem_state \<Rightarrow> mem_state" where
  "enqueue_replaced cmd stored s =
     (case blob_of stored of
        None \<Rightarrow> s
      | Some (backend, previous) \<Rightarrow>
          if previous \<noteq> cm_blob_ref cmd
          then enqueue_gc backend previous (cm_gc_not_before cmd) s else s)"

definition complete_upload_row :: "time \<Rightarrow> upload_record \<Rightarrow> upload_record" where
  "complete_upload_row now u =
     u\<lparr>u_state := UsCompleted, u_provider_completed := True, u_completed_at := Some now\<rparr>"

definition write_content ::
  "commit_content_cmd \<Rightarrow> stored_object \<Rightarrow> mem_state \<Rightarrow> stored_response result \<times> mem_state" where
  "write_content cmd stored s =
     (let r = next_revision (o_revision (so_object stored));
          s1 = s\<lparr>objects := table_modify (cm_object_id cmd) (content_fields cmd r) (objects s)\<rparr>;
          s2 = enqueue_replaced cmd stored s1;
          s3 = s2\<lparr>uploads := table_modify (cm_upload_id cmd)
                     (complete_upload_row (mc_now (cm_ctx cmd))) (uploads s2)\<rparr>;
          s4 = s3\<lparr>gc := filter (\<lambda>row. gr_blob_backend row \<noteq> cm_blob_backend cmd
                                   \<or> gr_blob_ref row \<noteq> cm_blob_ref cmd) (gc s3)\<rparr>;
          (chs, s5) = append_changes
            [pending_change_new (cm_object_id cmd) r (content_action (so_object stored))]
            (cm_ctx cmd) s4
      in respond_with_view (cm_ctx cmd) (cm_object_id cmd) chs False s5)"

definition commit_content ::
  "commit_content_cmd \<Rightarrow> mem_state \<Rightarrow> stored_response result \<times> mem_state" where
  "commit_content cmd s =
     (case table_get (uploads s) (cm_upload_id cmd) of
        None \<Rightarrow> (Err UploadNotFound, s)
      | Some upload \<Rightarrow>
          if u_state upload \<notin> {UsReady, UsCompleting, UsCompleted} then (Err UploadNotFound, s)
          else
            (case live_object s (cm_object_id cmd) of
               None \<Rightarrow> (Err ObjectNotFound, s)
             | Some stored \<Rightarrow>
                 if \<not> is_file (so_object stored) then (Err NotAFile, s)
                 else
                   (case check_if_match (o_revision (so_object stored)) (cm_if_match cmd) of
                      Inl e \<Rightarrow> (Err e, s)
                    | Inr _ \<Rightarrow>
                        if u_state upload = UsCompleted
                        then respond_with_view (cm_ctx cmd) (cm_object_id cmd) [] True s
                        else write_content cmd stored s)))"

end
