(* ===== verification/TreeShape.thy ===== *)
theory TreeShape
  imports MemState
begin

text \<open>
  What makes the live objects a file tree, stated of the partial map from ids to live objects
  and proved to survive each kind of update: adding a node under a folder, changing a node in
  place, moving a node, and removing a set of nodes closed under children.
\<close>

type_synonym forest = "object_id \<Rightarrow> stored_object option"

definition parent_of :: "stored_object \<Rightarrow> object_id option" where
  "parent_of so = o_parent_id (so_object so)"

definition node_name :: "stored_object \<Rightarrow> string" where
  "node_name so = o_name (so_object so)"

definition node_kind :: "stored_object \<Rightarrow> object_kind" where
  "node_kind so = o_kind (so_object so)"

text \<open>The root is a live folder without a parent; any other node's parent is a live folder.\<close>

definition tree_shape :: "forest \<Rightarrow> bool" where
  "tree_shape L \<longleftrightarrow>
     (\<exists>r. L ROOT_ID = Some r \<and> node_kind r = Folder \<and> parent_of r = None) \<and>
     (\<forall>i so. L i = Some so \<longrightarrow> i \<noteq> ROOT_ID \<longrightarrow>
        (\<exists>p q. parent_of so = Some p \<and> L p = Some q \<and> node_kind q = Folder))"

text \<open>No folder holds two live objects of one name.\<close>

definition names_unique :: "forest \<Rightarrow> bool" where
  "names_unique L \<longleftrightarrow>
     (\<forall>i j a b. L i = Some a \<longrightarrow> L j = Some b \<longrightarrow> parent_of a = parent_of b \<longrightarrow>
        node_name a = node_name b \<longrightarrow> i = j)"

definition child_edges :: "forest \<Rightarrow> (object_id \<times> object_id) set" where
  "child_edges L = {(p, i). \<exists>so. L i = Some so \<and> parent_of so = Some p}"

text \<open>Every live object is reached from the root.\<close>

definition rooted :: "forest \<Rightarrow> bool" where
  "rooted L \<longleftrightarrow> (\<forall>i so. L i = Some so \<longrightarrow> (ROOT_ID, i) \<in> (child_edges L)\<^sup>*)"

definition subtree :: "forest \<Rightarrow> object_id \<Rightarrow> object_id set" where
  "subtree L i = {j. (i, j) \<in> (child_edges L)\<^sup>*}"

section \<open>Lemmas\<close>

lemma child_edges_iff: "(p, i) \<in> child_edges L \<longleftrightarrow> (\<exists>so. L i = Some so \<and> parent_of so = Some p)"
  by (simp add: child_edges_def)

lemma parent_unique: "(p, i) \<in> child_edges L \<Longrightarrow> (q, i) \<in> child_edges L \<Longrightarrow> p = q"
  by (auto simp: child_edges_iff)

lemma root_no_parent: "tree_shape L \<Longrightarrow> (p, ROOT_ID) \<notin> child_edges L"
  by (auto simp: tree_shape_def child_edges_iff)

lemma tree_shape_parent:
  assumes "tree_shape L" and "L j = Some a" and "j \<noteq> ROOT_ID"
  obtains p q where "parent_of a = Some p" "L p = Some q" "node_kind q = Folder"
  using assms unfolding tree_shape_def by blast

lemma subtree_refl [simp]: "i \<in> subtree L i"
  by (simp add: subtree_def)

lemma subtree_step: "p \<in> subtree L i \<Longrightarrow> (p, j) \<in> child_edges L \<Longrightarrow> j \<in> subtree L i"
  unfolding subtree_def by auto

lemma subtree_live: "j \<in> subtree L i \<Longrightarrow> j = i \<or> L j \<noteq> None"
  unfolding subtree_def by (auto elim: rtranclE simp: child_edges_iff)

text \<open>Above a node there is one chain: two ancestors of a node are comparable.\<close>

lemma ancestors_linear:
  assumes "(a, k) \<in> (child_edges L)\<^sup>*" and "(b, k) \<in> (child_edges L)\<^sup>*"
  shows "(a, b) \<in> (child_edges L)\<^sup>* \<or> (b, a) \<in> (child_edges L)\<^sup>*"
  using assms
proof (induction rule: rtrancl_induct)
  case base
  then show ?case by blast
next
  case (step y z)
  note upper = step.IH
  from step.prems show ?case
  proof (cases rule: rtranclE)
    case base
    with step.hyps show ?thesis by (auto intro: rtrancl_into_rtrancl)
  next
    case (step w)
    with \<open>(y, z) \<in> child_edges L\<close> have "w = y" using parent_unique by metis
    with step(1) upper show ?thesis by blast
  qed
qed

text \<open>A rooted tree has no cycle: no node is below itself.\<close>

lemma root_only_ancestor:
  assumes "tree_shape L" and "(a, ROOT_ID) \<in> (child_edges L)\<^sup>*"
  shows "a = ROOT_ID"
  using assms(2) by (cases rule: rtranclE) (use root_no_parent [OF assms(1)] in auto)

lemma rooted_acyclic:
  assumes "tree_shape L" and "rooted L"
  shows "(i, i) \<notin> (child_edges L)\<^sup>+"
proof
  assume cyc: "(i, i) \<in> (child_edges L)\<^sup>+"
  from cyc obtain y where "(y, i) \<in> child_edges L" by (cases rule: tranclE) auto
  then obtain so where "L i = Some so" by (auto simp: child_edges_iff)
  with assms(2) have "(ROOT_ID, i) \<in> (child_edges L)\<^sup>*" by (simp add: rooted_def)
  then have "(i, i) \<notin> (child_edges L)\<^sup>+"
  proof (induction rule: rtrancl_induct)
    case base
    show ?case
    proof
      assume "(ROOT_ID, ROOT_ID) \<in> (child_edges L)\<^sup>+"
      then show False by (cases rule: tranclE) (use root_no_parent [OF assms(1)] in auto)
    qed
  next
    case (step y z)
    show ?case
    proof
      assume "(z, z) \<in> (child_edges L)\<^sup>+"
      then obtain w where w: "(z, w) \<in> (child_edges L)\<^sup>*" "(w, z) \<in> child_edges L"
        by (meson tranclD2)
      with step.hyps(2) have "w = y" using parent_unique by metis
      with w step.hyps(2) have "(y, y) \<in> (child_edges L)\<^sup>+"
        by (meson rtrancl_into_trancl2)
      with step.IH show False by blast
    qed
  qed
  with cyc show False by blast
qed

section \<open>Adding a node\<close>

lemma tree_shape_insert:
  assumes "tree_shape L" and "i \<noteq> ROOT_ID" and "L i = None"
    and "parent_of so = Some p" and "L p = Some q" and "node_kind q = Folder"
  shows "tree_shape (L(i \<mapsto> so))"
  unfolding tree_shape_def
proof (intro conjI allI impI)
  show "\<exists>r. (L(i \<mapsto> so)) ROOT_ID = Some r \<and> node_kind r = Folder \<and> parent_of r = None"
    using assms by (auto simp: tree_shape_def)
next
  fix j a assume a: "(L(i \<mapsto> so)) j = Some a" "j \<noteq> ROOT_ID"
  obtain p' q' where "parent_of a = Some p'" "L p' = Some q'" "node_kind q' = Folder"
  proof (cases "j = i")
    case True
    with a assms(4-6) show thesis by (intro that) auto
  next
    case False
    with a have "L j = Some a" by simp
    from assms(1) this a(2) show thesis by (rule tree_shape_parent) (rule that)
  qed
  moreover from this assms(3) have "p' \<noteq> i" by auto
  ultimately show "\<exists>p q. parent_of a = Some p \<and> (L(i \<mapsto> so)) p = Some q \<and> node_kind q = Folder"
    by auto
qed

lemma child_edges_mono_insert: "L i = None \<Longrightarrow> child_edges L \<subseteq> child_edges (L(i \<mapsto> so))"
  by (auto simp: child_edges_iff)

lemma rooted_insert:
  assumes "rooted L" and "L i = None" and "parent_of so = Some p" and "L p = Some q"
  shows "rooted (L(i \<mapsto> so))"
  unfolding rooted_def
proof (intro allI impI)
  fix j a assume a: "(L(i \<mapsto> so)) j = Some a"
  have up: "(child_edges L)\<^sup>* \<subseteq> (child_edges (L(i \<mapsto> so)))\<^sup>*"
    using assms(2) by (intro rtrancl_mono child_edges_mono_insert)
  from assms have "(ROOT_ID, p) \<in> (child_edges L)\<^sup>*" by (simp add: rooted_def)
  with up have p: "(ROOT_ID, p) \<in> (child_edges (L(i \<mapsto> so)))\<^sup>*" by blast
  have "(p, i) \<in> child_edges (L(i \<mapsto> so))" using assms(3) by (simp add: child_edges_iff)
  with p have "(ROOT_ID, i) \<in> (child_edges (L(i \<mapsto> so)))\<^sup>*" by simp
  moreover have "(ROOT_ID, j) \<in> (child_edges (L(i \<mapsto> so)))\<^sup>*" if "j \<noteq> i"
  proof -
    from that a assms(1) have "(ROOT_ID, j) \<in> (child_edges L)\<^sup>*" by (simp add: rooted_def)
    with up show ?thesis by blast
  qed
  ultimately show "(ROOT_ID, j) \<in> (child_edges (L(i \<mapsto> so)))\<^sup>*" by blast
qed

text \<open>A name that no other live sibling has keeps the names unique, for a new node or an old one.\<close>

lemma names_unique_update:
  assumes "names_unique L"
    and "\<And>j b. L j = Some b \<Longrightarrow> j \<noteq> i \<Longrightarrow> parent_of b = parent_of so \<Longrightarrow> node_name b \<noteq> node_name so"
  shows "names_unique (L(i \<mapsto> so))"
  unfolding names_unique_def
proof (intro allI impI)
  fix j k a b
  assume a: "(L(i \<mapsto> so)) j = Some a" and b: "(L(i \<mapsto> so)) k = Some b"
    and same: "parent_of a = parent_of b" "node_name a = node_name b"
  consider "j = i" "k = i" | "j = i" "k \<noteq> i" | "j \<noteq> i" "k = i" | "j \<noteq> i" "k \<noteq> i" by blast
  then show "j = k"
  proof cases
    case 4
    with a b same assms(1) show ?thesis unfolding names_unique_def by auto
  qed (use a b same assms(2) [of j a] assms(2) [of k b] in auto)
qed

section \<open>Changing a node\<close>

text \<open>An update that keeps the node's kind and gives it a live folder as its parent.\<close>

lemma tree_shape_update:
  assumes "tree_shape L" and "L i = Some old" and "node_kind so = node_kind old"
    and "if i = ROOT_ID then parent_of so = None
         else \<exists>p q. parent_of so = Some p \<and> L p = Some q \<and> node_kind q = Folder"
  shows "tree_shape (L(i \<mapsto> so))"
  unfolding tree_shape_def
proof (intro conjI allI impI)
  show "\<exists>r. (L(i \<mapsto> so)) ROOT_ID = Some r \<and> node_kind r = Folder \<and> parent_of r = None"
    using assms by (auto simp: tree_shape_def)
next
  fix j a assume a: "(L(i \<mapsto> so)) j = Some a" "j \<noteq> ROOT_ID"
  obtain p q where pq: "parent_of a = Some p" "L p = Some q" "node_kind q = Folder"
  proof (cases "j = i")
    case True
    with a assms(4) show thesis by (auto intro: that)
  next
    case False
    with a have "L j = Some a" by simp
    from assms(1) this a(2) show thesis by (rule tree_shape_parent) (rule that)
  qed
  show "\<exists>p q. parent_of a = Some p \<and> (L(i \<mapsto> so)) p = Some q \<and> node_kind q = Folder"
    using pq assms(2,3) by (cases "p = i") auto
qed

lemma child_edges_same_parent:
  "L i = Some old \<Longrightarrow> parent_of so = parent_of old \<Longrightarrow> child_edges (L(i \<mapsto> so)) = child_edges L"
  by (auto simp: child_edges_def)

lemma rooted_same_parent:
  assumes "rooted L" and "L i = Some old" and "parent_of so = parent_of old"
  shows "rooted (L(i \<mapsto> so))"
  using assms by (auto simp: rooted_def child_edges_same_parent)

text \<open>A move to a place that is not below the moved node.\<close>

lemma rooted_move:
  assumes "rooted L" and "L i = Some old" and "parent_of so = Some d" and "L d = Some q"
    and "d \<notin> subtree L i"
  shows "rooted (L(i \<mapsto> so))"
proof -
  let ?L = "L(i \<mapsto> so)"
  have keep: "(p, j) \<in> child_edges ?L" if "(p, j) \<in> child_edges L" "j \<noteq> i" for p j
    using that by (simp add: child_edges_iff)
  have outside: "j \<notin> subtree L i \<longrightarrow> (ROOT_ID, j) \<in> (child_edges ?L)\<^sup>*"
    if "(ROOT_ID, j) \<in> (child_edges L)\<^sup>*" for j
    using that
  proof (induction rule: rtrancl_induct)
    case (step y z)
    then show ?case
      by (metis keep rtrancl.rtrancl_into_rtrancl subtree_refl subtree_step)
  qed simp
  from assms(1,4) have "(ROOT_ID, d) \<in> (child_edges L)\<^sup>*" by (simp add: rooted_def)
  with outside assms(5) have "(ROOT_ID, d) \<in> (child_edges ?L)\<^sup>*" by blast
  moreover have "(d, i) \<in> child_edges ?L" using assms(3) by (simp add: child_edges_iff)
  ultimately have i: "(ROOT_ID, i) \<in> (child_edges ?L)\<^sup>*" by simp
  have inside: "(ROOT_ID, j) \<in> (child_edges ?L)\<^sup>*" if "(i, j) \<in> (child_edges L)\<^sup>*" for j
    using that
  proof (induction rule: rtrancl_induct)
    case (step y z)
    show ?case
    proof (cases "z = i")
      case False
      with keep step.hyps(2) have "(y, z) \<in> child_edges ?L" by blast
      with step.IH show ?thesis by (rule rtrancl_into_rtrancl)
    qed (simp only: i)
  qed (rule i)
  show ?thesis
    unfolding rooted_def
  proof (intro allI impI)
    fix j a assume "?L j = Some a"
    then have "j = i \<or> (ROOT_ID, j) \<in> (child_edges L)\<^sup>*"
      using assms(1) by (cases "j = i") (auto simp: rooted_def)
    with i outside inside show "(ROOT_ID, j) \<in> (child_edges ?L)\<^sup>*"
      unfolding subtree_def by blast
  qed
qed

section \<open>Removing nodes\<close>

definition forest_without :: "object_id set \<Rightarrow> forest \<Rightarrow> forest" where
  "forest_without X L = (\<lambda>j. if j \<in> X then None else L j)"

definition closed_below :: "object_id set \<Rightarrow> forest \<Rightarrow> bool" where
  "closed_below X L \<longleftrightarrow> (\<forall>p j. p \<in> X \<longrightarrow> (p, j) \<in> child_edges L \<longrightarrow> j \<in> X)"

lemma closed_below_subtree: "closed_below (subtree L i) L"
  by (auto simp: closed_below_def intro: subtree_step)

lemma tree_shape_without:
  assumes "tree_shape L" and "closed_below X L" and "ROOT_ID \<notin> X"
  shows "tree_shape (forest_without X L)"
  unfolding tree_shape_def
proof (intro conjI allI impI)
  show "\<exists>r. forest_without X L ROOT_ID = Some r \<and> node_kind r = Folder \<and> parent_of r = None"
    using assms by (auto simp: tree_shape_def forest_without_def)
next
  fix j a assume "forest_without X L j = Some a" and r: "j \<noteq> ROOT_ID"
  then have j: "j \<notin> X" "L j = Some a" by (auto simp: forest_without_def split: if_splits)
  with r assms(1) obtain p q where pq: "parent_of a = Some p" "L p = Some q" "node_kind q = Folder"
    unfolding tree_shape_def by blast
  then have "(p, j) \<in> child_edges L" using j by (simp add: child_edges_iff)
  with assms(2) j have "p \<notin> X" unfolding closed_below_def by blast
  with pq show "\<exists>p q. parent_of a = Some p \<and> forest_without X L p = Some q \<and> node_kind q = Folder"
    by (auto simp: forest_without_def)
qed

lemma names_unique_without: "names_unique L \<Longrightarrow> names_unique (forest_without X L)"
  unfolding names_unique_def forest_without_def by (metis option.distinct(1))

lemma rooted_without:
  assumes "rooted L" and "closed_below X L"
  shows "rooted (forest_without X L)"
proof -
  have "j \<notin> X \<longrightarrow> (ROOT_ID, j) \<in> (child_edges (forest_without X L))\<^sup>*"
    if "(ROOT_ID, j) \<in> (child_edges L)\<^sup>*" for j
    using that
  proof (induction rule: rtrancl_induct)
    case (step y z)
    show ?case
    proof
      assume z: "z \<notin> X"
      with step.hyps(2) assms(2) have "y \<notin> X" unfolding closed_below_def by blast
      moreover have "(y, z) \<in> child_edges (forest_without X L)"
        using step.hyps(2) z by (auto simp: child_edges_iff forest_without_def)
      ultimately show "(ROOT_ID, z) \<in> (child_edges (forest_without X L))\<^sup>*"
        using step.IH by (auto intro: rtrancl_into_rtrancl)
    qed
  qed simp
  with assms(1) show ?thesis
    by (auto simp: rooted_def forest_without_def split: if_splits)
qed

end
