(* ===== verification/MemTree.thy ===== *)
theory MemTree
  imports MemMutations TreeShape
begin

text \<open>
  The file tree of the in-memory metastore. The invariant \<open>tree_ok\<close> is kept by every mutation;
  reachability from the root, which excludes cycles, is kept by every mutation whose
  destination lies within the bound of 1024 that \<open>render_path\<close> and \<open>is_self_or_descendant\<close>
  share, and makes the unbounded worklist of a recursive delete end.
\<close>

definition keys_ok :: "mem_state \<Rightarrow> bool" where
  "keys_ok s \<longleftrightarrow>
     table_ok (objects s) \<and> (\<forall>i so. table_get (objects s) i = Some so \<longrightarrow> o_id (so_object so) = i)"

definition tree_ok :: "mem_state \<Rightarrow> bool" where
  "tree_ok s \<longleftrightarrow> keys_ok s \<and> tree_shape (live_object s) \<and> names_unique (live_object s)"

definition tree_rooted :: "mem_state \<Rightarrow> bool" where
  "tree_rooted s \<longleftrightarrow> rooted (live_object s)"

lemma tree_ok_cong: "objects s = objects s' \<Longrightarrow> tree_ok s = tree_ok s'"
  by (simp add: tree_ok_def keys_ok_def live_object_cong [of s s'])

lemma tree_rooted_cong: "objects s = objects s' \<Longrightarrow> tree_rooted s = tree_rooted s'"
  by (simp add: tree_rooted_def live_object_cong [of s s'])

section \<open>Scans of the table\<close>

lemma live_values:
  assumes "keys_ok s"
  shows "so \<in> set (table_values (objects s)) \<and> is_live so \<longleftrightarrow>
         live_object s (o_id (so_object so)) = Some so"
proof -
  from assms have "so \<in> set (table_values (objects s)) \<longleftrightarrow> (\<exists>k. table_get (objects s) k = Some so)"
    by (intro table_values_iff) (simp add: keys_ok_def)
  with assms show ?thesis by (auto simp: live_object_iff keys_ok_def)
qed

lemma live_id: "keys_ok s \<Longrightarrow> live_object s i = Some so \<Longrightarrow> o_id (so_object so) = i"
  by (auto simp: live_object_iff keys_ok_def)

lemma live_scan:
  assumes "keys_ok s"
  shows "list_ex (\<lambda>so. is_live so \<and> P so) (table_values (objects s)) \<longleftrightarrow>
         (\<exists>i so. live_object s i = Some so \<and> P so)"
  unfolding list_all_ex_iff using live_values [OF assms] live_id [OF assms] by metis

lemma name_taken_iff:
  assumes "keys_ok s"
  shows "name_taken s parent name except \<longleftrightarrow>
         (\<exists>i so. live_object s i = Some so \<and> i \<noteq> except \<and> parent_of so = parent \<and> node_name so = name)"
  unfolding name_taken_def live_scan [OF assms] parent_of_def node_name_def
  using live_id [OF assms] by metis

lemma has_children_iff:
  assumes "keys_ok s"
  shows "has_children s i \<longleftrightarrow> (\<exists>j. (i, j) \<in> child_edges (live_object s))"
  unfolding has_children_def live_scan [OF assms] child_edges_iff parent_of_def by blast

lemma child_entries_set:
  assumes "keys_ok s"
  shows "set (child_entries s d i) = {(d + 1, j) | j. (i, j) \<in> child_edges (live_object s)}"
proof -
  have "(e, j) \<in> set (child_entries s d i) \<longleftrightarrow> e = d + 1 \<and> (i, j) \<in> child_edges (live_object s)" for e j
    unfolding child_entries_def child_edges_iff parent_of_def
    using live_values [OF assms] live_id [OF assms] by (auto simp: image_iff; metis)
  then show ?thesis by auto
qed

lemma child_entries_distinct:
  assumes "keys_ok s"
  shows "distinct (map snd (child_entries s d i))"
proof -
  have "distinct (map (\<lambda>e. o_id (so_object (snd e))) (objects s))"
  proof -
    have "o_id (so_object (snd e)) = fst e" if "e \<in> set (objects s)" for e
      using assms that map_of_is_SomeI [of "objects s" "fst e" "snd e"]
      by (simp add: keys_ok_def table_ok_def)
    then have eq: "map (\<lambda>e. o_id (so_object (snd e))) (objects s) = map fst (objects s)"
      by (intro map_cong) simp_all
    have "distinct (map fst (objects s))" using assms by (simp add: keys_ok_def table_ok_def)
    then show ?thesis by (simp only: eq)
  qed
  then have "distinct (map (\<lambda>so. o_id (so_object so)) (table_values (objects s)))"
    by (simp add: table_values_def comp_def)
  then show ?thesis unfolding child_entries_def by (simp add: comp_def distinct_map_filter)
qed

section \<open>The bounded walks\<close>

lemma live_parent:
  assumes "tree_ok s" and "live_object s i = Some so" and "o_parent_id (so_object so) = Some p"
  shows "\<exists>q. live_object s p = Some q \<and> is_folder (so_object q)"
proof -
  from assms(1) have t: "tree_shape (live_object s)" by (simp add: tree_ok_def)
  have "i \<noteq> ROOT_ID" using t assms(2,3) by (auto simp: tree_shape_def parent_of_def)
  from t assms(2) this obtain p' q where "parent_of so = Some p'" "live_object s p' = Some q"
      "node_kind q = Folder"
    by (rule tree_shape_parent)
  with assms(3) show ?thesis by (auto simp: parent_of_def node_kind_def is_folder_def)
qed

lemma ancestor_loop_sound:
  assumes "tree_ok s"
  shows "ancestor_loop s n (Some i) m \<Longrightarrow> live_object s i = Some so \<Longrightarrow>
         i \<in> subtree (live_object s) m"
proof (induction n arbitrary: i so)
  case (Suc n)
  show ?case
  proof (cases "i = m")
    case False
    from Suc.prems(2) have get: "table_get (objects s) i = Some so" by (simp add: live_object_iff)
    with Suc.prems(1) False have loop: "ancestor_loop s n (o_parent_id (so_object so)) m" by simp
    then obtain p where p: "o_parent_id (so_object so) = Some p"
      by (cases n; cases "o_parent_id (so_object so)") auto
    with live_parent [OF assms Suc.prems(2)] obtain q where "live_object s p = Some q" by blast
    with Suc.IH loop p have "p \<in> subtree (live_object s) m" by simp
    moreover have "(p, i) \<in> child_edges (live_object s)"
      using Suc.prems(2) p by (simp add: child_edges_iff parent_of_def)
    ultimately show ?thesis by (rule subtree_step)
  qed simp
qed simp

lemma ancestor_loop_complete:
  "is_ok (render_loop s n i xs) \<Longrightarrow> i \<in> subtree (live_object s) m \<Longrightarrow> ancestor_loop s n (Some i) m"
proof (induction n arbitrary: i xs)
  case (Suc n)
  show ?case
  proof (cases "i = m")
    case False
    with Suc.prems(2) obtain p where p: "p \<in> subtree (live_object s) m"
      and "(p, i) \<in> child_edges (live_object s)"
      unfolding subtree_def by (auto elim: rtranclE)
    then obtain so where so: "live_object s i = Some so" "o_parent_id (so_object so) = Some p"
      by (auto simp: child_edges_iff parent_of_def)
    from so have get: "table_get (objects s) i = Some so" by (simp add: live_object_iff)
    with Suc.prems(1) so have "is_ok (render_loop s n p (xs @ [o_name (so_object so)]))" by simp
    from Suc.IH [OF this p] get so False show ?thesis by simp
  qed simp
qed simp

text \<open>Within the bound the check on a move is exact.\<close>

lemma is_self_or_descendant_iff:
  assumes "tree_ok s" and "live_object s d = Some so" and "is_ok (render_path s d)"
  shows "is_self_or_descendant s d m \<longleftrightarrow> d \<in> subtree (live_object s) m"
  using ancestor_loop_sound [OF assms(1) _ assms(2)] ancestor_loop_complete assms(3)
  unfolding is_self_or_descendant_def render_path_def by blast

section \<open>The worklist\<close>

text \<open>
  The invariants of the worklist: what is found is below the start, the children of an entry
  that has been taken off the stack are found, and, where the tree has no cycle, no entry is
  found twice.
\<close>

definition worklist_ok ::
  "forest \<Rightarrow> object_id \<Rightarrow> (nat \<times> string) list \<Rightarrow> (nat \<times> string) list \<Rightarrow> bool" where
  "worklist_ok L i found frontier \<longleftrightarrow>
     i \<in> snd ` set found \<and> snd ` set frontier \<subseteq> snd ` set found \<and> snd ` set found \<subseteq> subtree L i \<and>
     (\<forall>p j. p \<in> snd ` set found - snd ` set frontier \<longrightarrow> (p, j) \<in> child_edges L \<longrightarrow> j \<in> snd ` set found)"

definition worklist_fresh ::
  "forest \<Rightarrow> object_id \<Rightarrow> (nat \<times> string) list \<Rightarrow> (nat \<times> string) list \<Rightarrow> bool" where
  "worklist_fresh L i found frontier \<longleftrightarrow>
     distinct (map snd found) \<and> distinct (map snd frontier) \<and>
     (\<forall>j \<in> snd ` set found. j = i \<or>
        (\<exists>p. (p, j) \<in> child_edges L \<and> p \<in> snd ` set found - snd ` set frontier))"

lemma worklist_start: "worklist_ok L i [(0, i)] [(0, i)]" "worklist_fresh L i [(0, i)] [(0, i)]"
  by (simp_all add: worklist_ok_def worklist_fresh_def)

lemma snd_child_entries:
  "keys_ok s \<Longrightarrow> snd ` set (child_entries s d p) = {j. (p, j) \<in> child_edges (live_object s)}"
  by (auto simp: child_entries_set image_iff)

lemma snd_set_last:
  "frontier \<noteq> [] \<Longrightarrow>
   snd ` set frontier = insert (snd (last frontier)) (snd ` set (butlast frontier))"
  by (cases frontier rule: rev_cases) auto

lemma worklist_ok_step:
  assumes k: "keys_ok s" and w: "worklist_ok (live_object s) i found frontier"
    and ne: "frontier \<noteq> []" and l: "last frontier = (d, p)"
  shows "worklist_ok (live_object s) i (found @ child_entries s d p)
           (butlast frontier @ child_entries s d p)"
proof -
  let ?E = "child_edges (live_object s)" and ?K = "snd ` set (child_entries s d p)"
  note K = snd_child_entries [OF k, of d p]
  have F: "snd ` set frontier = insert p (snd ` set (butlast frontier))"
    using snd_set_last [OF ne] l by simp
  from w F have p: "p \<in> subtree (live_object s) i" by (auto simp: worklist_ok_def)
  have "j \<in> snd ` set found \<union> ?K"
    if "q \<in> snd ` set found \<union> ?K" "q \<notin> snd ` set (butlast frontier) \<union> ?K" "(q, j) \<in> ?E" for q j
  proof (cases "q = p")
    case True
    with that(3) K show ?thesis by simp
  next
    case False
    with that(1,2) F have "q \<in> snd ` set found - snd ` set frontier" by simp
    with w that(3) have "j \<in> snd ` set found" unfolding worklist_ok_def by simp
    then show ?thesis by simp
  qed
  then have c: "\<forall>q j. q \<in> (snd ` set found \<union> ?K) - (snd ` set (butlast frontier) \<union> ?K) \<longrightarrow>
      (q, j) \<in> ?E \<longrightarrow> j \<in> snd ` set found \<union> ?K" by blast
  have "?K \<subseteq> subtree (live_object s) i"
    using K subtree_step [OF p] by auto
  with w F have "i \<in> snd ` set found \<union> ?K"
    "snd ` set (butlast frontier) \<union> ?K \<subseteq> snd ` set found \<union> ?K"
    "snd ` set found \<union> ?K \<subseteq> subtree (live_object s) i"
    by (auto simp: worklist_ok_def)
  with c show ?thesis unfolding worklist_ok_def set_append image_Un by simp
qed

lemma worklist_fresh_step:
  assumes k: "keys_ok s" and w: "worklist_ok (live_object s) i found frontier"
    and f: "worklist_fresh (live_object s) i found frontier"
    and acyclic: "(i, i) \<notin> (child_edges (live_object s))\<^sup>+"
    and ne: "frontier \<noteq> []" and l: "last frontier = (d, p)"
  shows "worklist_fresh (live_object s) i (found @ child_entries s d p)
           (butlast frontier @ child_entries s d p)"
proof -
  let ?E = "child_edges (live_object s)" and ?K = "snd ` set (child_entries s d p)"
  note K = snd_child_entries [OF k, of d p]
  have F: "snd ` set frontier = insert p (snd ` set (butlast frontier))"
    using snd_set_last [OF ne] l by simp
  have "map snd frontier = map snd (butlast frontier) @ [p]"
    using ne l by (cases frontier rule: rev_cases) auto
  with f have B: "distinct (map snd (butlast frontier))" "p \<notin> snd ` set (butlast frontier)"
    by (auto simp: worklist_fresh_def)
  from w F have p: "p \<in> subtree (live_object s) i" "p \<in> snd ` set found"
    by (auto simp: worklist_ok_def)
  have disj: "j \<notin> snd ` set found" if "j \<in> ?K" for j
  proof
    assume j: "j \<in> snd ` set found"
    from that K have e: "(p, j) \<in> ?E" by simp
    from f j consider "j = i" | q where "(q, j) \<in> ?E" "q \<notin> snd ` set frontier"
      unfolding worklist_fresh_def by blast
    then show False
    proof cases
      case 1
      with e p acyclic show False unfolding subtree_def by (auto intro: rtrancl_into_trancl1)
    next
      case 2
      with e have "q = p" using parent_unique by metis
      with 2 F show False by blast
    qed
  qed
  have sub: "snd ` set (butlast frontier) \<subseteq> snd ` set found" using w F by (auto simp: worklist_ok_def)
  have parents: "\<exists>q. (q, j) \<in> ?E \<and> q \<in> snd ` set found - (snd ` set (butlast frontier) \<union> ?K)"
    if "j \<in> snd ` set found \<union> ?K" "j \<noteq> i" for j
  proof (cases "j \<in> ?K")
    case True
    with K have "(p, j) \<in> ?E" by simp
    with B(2) p(2) disj show ?thesis by blast
  next
    case False
    with that(1) have "j \<in> snd ` set found" by blast
    with that(2) f obtain q where "(q, j) \<in> ?E" "q \<in> snd ` set found - snd ` set frontier"
      unfolding worklist_fresh_def by blast
    with F disj show ?thesis by blast
  qed
  moreover have "distinct (map snd (found @ child_entries s d p))"
    using f child_entries_distinct [OF k] disj by (auto simp: worklist_fresh_def)
  moreover have "distinct (map snd (butlast frontier @ child_entries s d p))"
  proof -
    have "snd ` set (butlast frontier) \<inter> ?K = {}"
    proof (rule equals0I)
      fix j assume j: "j \<in> snd ` set (butlast frontier) \<inter> ?K"
      from j sub have "j \<in> snd ` set found" by (metis IntD1 subsetD)
      moreover from j have "j \<in> ?K" by (rule IntD2)
      ultimately show False using disj by metis
    qed
    with B(1) child_entries_distinct [OF k, of d p] show ?thesis by simp
  qed
  moreover have "j = i \<or> (\<exists>q. (q, j) \<in> ?E \<and> q \<in> snd ` set (found @ child_entries s d p)
      - snd ` set (butlast frontier @ child_entries s d p))"
    if "j \<in> snd ` set (found @ child_entries s d p)" for j
  proof (cases "j = i")
    case False
    from that have "j \<in> snd ` set found \<union> ?K" by (simp only: set_append image_Un)
    from parents [OF this False] obtain q where "(q, j) \<in> ?E" "q \<in> snd ` set found"
      "q \<notin> snd ` set (butlast frontier) \<union> ?K" by blast
    then have "q \<in> snd ` set (found @ child_entries s d p)
      - snd ` set (butlast frontier @ child_entries s d p)"
      by (simp only: set_append image_Un Diff_iff Un_iff simp_thms)
    with \<open>(q, j) \<in> ?E\<close> show ?thesis by (intro disjI2 exI conjI)
  qed simp
  ultimately show ?thesis unfolding worklist_fresh_def by (intro conjI ballI)
qed

text \<open>A worklist that ends has found the subtree of its start.\<close>

lemma descend_loop_result:
  assumes "descend_loop s found frontier = Some r" and "keys_ok s"
    and "worklist_ok (live_object s) i found frontier"
  shows "snd ` set r = subtree (live_object s) i"
  using assms
proof (induction rule: descend_loop.raw_induct)
  case (1 loop s found frontier r)
  show ?case
  proof (cases "frontier = []")
    case True
    with 1 have r: "r = found" and w: "worklist_ok (live_object s) i r []" by auto
    have "j \<in> snd ` set r" if "(i, j) \<in> (child_edges (live_object s))\<^sup>*" for j
      using that
    proof (induction rule: rtrancl_induct)
      case (step y z)
      with w show ?case unfolding worklist_ok_def by simp
    qed (use w in \<open>simp add: worklist_ok_def\<close>)
    with w show ?thesis by (auto simp: worklist_ok_def subtree_def)
  next
    case False
    obtain d p where l: "last frontier = (d, p)" by (cases "last frontier")
    from 1(2) False l have "loop s (found @ child_entries s d p)
        (butlast frontier @ child_entries s d p) = Some r" by simp
    moreover from \<open>descend_loop s found frontier = Some r\<close> False l
    have "descend_loop s (found @ child_entries s d p)
        (butlast frontier @ child_entries s d p) = Some r"
      by (simp add: descend_loop.simps [of s found frontier])
    moreover note \<open>keys_ok s\<close>
    moreover have "worklist_ok (live_object s) i (found @ child_entries s d p)
        (butlast frontier @ child_entries s d p)"
      using \<open>keys_ok s\<close> \<open>worklist_ok (live_object s) i found frontier\<close> False l
      by (rule worklist_ok_step)
    ultimately show ?thesis by (rule 1(1))
  qed
qed (rule assms(1))

text \<open>Without a cycle it ends, after at most one round for each object, and finds no id twice.\<close>

lemma length_found:
  assumes "keys_ok s" and "distinct (map snd found)" and "snd ` set found \<subseteq> dom (live_object s)"
  shows "length found \<le> length (objects s)"
proof -
  have "dom (live_object s) \<subseteq> dom (table_get (objects s))"
    by (auto simp: live_object_iff)
  with assms(3) have "snd ` set found \<subseteq> fst ` set (objects s)"
    by (simp only: dom_map_of_conv_image_fst)
  then have "card (set (map snd found)) \<le> card (set (map fst (objects s)))"
    by (intro card_mono) auto
  moreover have "card (set (map snd found)) = length found"
    using distinct_card [OF assms(2)] by simp
  ultimately show ?thesis using card_length [of "map fst (objects s)"] by simp
qed

lemma descend_loop_terminates:
  assumes "keys_ok s" and "(i, i) \<notin> (child_edges (live_object s))\<^sup>+" and "live_object s i \<noteq> None"
    and "worklist_ok (live_object s) i found frontier"
    and "worklist_fresh (live_object s) i found frontier"
  shows "\<exists>r. descend_loop s found frontier = Some r \<and> distinct (map snd r)"
  using assms(4,5)
proof (induction "length (objects s) - length found + length frontier" arbitrary: found frontier
    rule: less_induct)
  case less
  show ?case
  proof (cases "frontier = []")
    case True
    with less.prems show ?thesis by (simp add: descend_loop.simps worklist_fresh_def)
  next
    case False
    obtain d p where l: "last frontier = (d, p)" by (cases "last frontier")
    let ?f = "found @ child_entries s d p" and ?g = "butlast frontier @ child_entries s d p"
    note w = worklist_ok_step [OF assms(1) less.prems(1) False l]
    note f = worklist_fresh_step [OF assms(1) less.prems(1,2) assms(2) False l]
    have "snd ` set ?f \<subseteq> subtree (live_object s) i" using w by (simp only: worklist_ok_def)
    also have "\<dots> \<subseteq> dom (live_object s)"
      using assms(3) subtree_live [of _ "live_object s" i] by blast
    finally have "snd ` set ?f \<subseteq> dom (live_object s)" .
    moreover have "distinct (map snd ?f)" using f by (simp only: worklist_fresh_def)
    ultimately have "length ?f \<le> length (objects s)"
      using assms(1) by (intro length_found)
    moreover have "length ?g + 1 = length frontier + length (child_entries s d p)"
      using False by (cases frontier rule: rev_cases) auto
    ultimately have "length (objects s) - length ?f + length ?g
        < length (objects s) - length found + length frontier"
      by simp
    from less.hyps [OF this w f] False l show ?thesis
      by (subst descend_loop.simps) simp
  qed
qed

end
