(* ===== verification/MemTreeOps.thy ===== *)
theory MemTreeOps
  imports MemTree
begin

text \<open>
  The mutations of the in-memory metastore on the file tree: for each the cases it
  distinguishes, what it writes, and that it keeps the invariant of the tree.
\<close>

section \<open>Writes to the table\<close>

lemma live_object_insert:
  "live_object (s\<lparr>objects := table_insert i so (objects s)\<rparr>) =
     (live_object s)(i := (if is_live so then Some so else None))"
  by (auto simp: live_object_def table_simps fun_eq_iff)

lemma live_object_modify:
  "table_get (objects s) i = Some old \<Longrightarrow>
   live_object (s\<lparr>objects := table_modify i f (objects s)\<rparr>) =
     (live_object s)(i := (if is_live (f old) then Some (f old) else None))"
  by (auto simp: live_object_def table_simps fun_eq_iff)

lemma keys_ok_insert:
  "keys_ok s \<Longrightarrow> o_id (so_object so) = i \<Longrightarrow> keys_ok (s\<lparr>objects := table_insert i so (objects s)\<rparr>)"
  by (auto simp: keys_ok_def table_simps)

lemma keys_ok_modify:
  assumes "keys_ok s" and "\<And>so. o_id (so_object (f so)) = o_id (so_object so)"
  shows "keys_ok (s\<lparr>objects := table_modify i f (objects s)\<rparr>)"
  using assms by (auto simp: keys_ok_def table_simps split: if_splits)

section \<open>Cases of the operations\<close>

definition created_change :: "create_object_commit \<Rightarrow> mem_state \<Rightarrow> change_record" where
  "created_change cmd s =
     change_record_of (co_ctx cmd) (int (length (changes s)) + 1)
       (pending_change_new (co_id cmd) INITIAL Created)"

lemma create_object_cases:
  obtains (refused) e where "create_object cmd s = (Err e, s)"
  | (written) parent where "live_object s (co_parent_id cmd) = Some parent"
      "o_kind (so_object parent) = Folder"
      "\<not> name_taken s (Some (co_parent_id cmd)) (co_name cmd) (co_id cmd)"
      "create_object cmd s = respond_with_view (co_ctx cmd) (co_id cmd) [created_change cmd s] False
         (s\<lparr>objects := table_insert (co_id cmd) (created_object cmd) (objects s),
            changes := changes s @ [created_change cmd s]\<rparr>)"
proof (cases "live_object s (co_parent_id cmd)")
  case None
  then show ?thesis by (intro refused) (simp add: create_object_def)
next
  case (Some parent)
  consider "o_kind (so_object parent) \<noteq> Folder"
    | "o_kind (so_object parent) = Folder"
      "name_taken s (Some (co_parent_id cmd)) (co_name cmd) (co_id cmd)"
    | "o_kind (so_object parent) = Folder"
      "\<not> name_taken s (Some (co_parent_id cmd)) (co_name cmd) (co_id cmd)" by blast
  then show ?thesis
  proof cases
    case 1
    with Some show ?thesis by (intro refused) (simp add: create_object_def)
  next
    case 2
    with Some show ?thesis by (intro refused) (simp add: create_object_def)
  next
    case 3
    with Some show ?thesis
      by (intro written) (simp_all add: create_object_def append_changes_eq Let_def created_change_def)
  qed
qed

definition patch_changes :: "patch_object_commit \<Rightarrow> object \<Rightarrow> patch_target \<Rightarrow> mem_state \<Rightarrow> change_record list" where
  "patch_changes cmd ob t s =
     records_from (po_ctx cmd) (int (length (changes s)) + 1)
       (patch_pending (po_id cmd) (next_revision (o_revision ob)) ob t)"

definition patched :: "patch_object_commit \<Rightarrow> object \<Rightarrow> patch_target \<Rightarrow> stored_object \<Rightarrow> stored_object" where
  "patched cmd ob t = patch_fields t (next_revision (o_revision ob)) (mc_now (po_ctx cmd))"

definition patch_no_op :: "object \<Rightarrow> patch_target \<Rightarrow> bool" where
  "patch_no_op ob t \<longleftrightarrow> \<not> name_changed ob t \<and> \<not> parent_changed ob t \<and> \<not> metadata_changed ob t"

lemma patch_object_cases:
  obtains (refused) e where "patch_object cmd s = (Err e, s)"
  | (unchanged) stored t where "live_object s (po_id cmd) = Some stored"
      "check_if_match (o_revision (so_object stored)) (po_if_match cmd) = Ok ()"
      "check_root_patch cmd (so_object stored) = Ok ()"
      "patch_target_of cmd (so_object stored) = Ok t" "patch_no_op (so_object stored) t"
      "patch_object cmd s = respond_with_view (po_ctx cmd) (po_id cmd) [] True s"
  | (written) stored t where "live_object s (po_id cmd) = Some stored"
      "check_if_match (o_revision (so_object stored)) (po_if_match cmd) = Ok ()"
      "check_root_patch cmd (so_object stored) = Ok ()"
      "patch_target_of cmd (so_object stored) = Ok t" "\<not> patch_no_op (so_object stored) t"
      "check_destination s (so_object stored) t = Ok ()"
      "\<not> name_taken s (pt_parent t) (pt_name t) (po_id cmd)"
      "patch_object cmd s = respond_with_view (po_ctx cmd) (po_id cmd)
         (patch_changes cmd (so_object stored) t s) False
         (s\<lparr>objects := table_modify (po_id cmd) (patched cmd (so_object stored) t) (objects s),
            changes := changes s @ patch_changes cmd (so_object stored) t s\<rparr>)"
proof (cases "live_object s (po_id cmd)")
  case None
  then show ?thesis by (intro refused) (simp add: patch_object_def)
next
  case (Some stored)
  let ?ob = "so_object stored"
  let ?r = "rbind (check_if_match (o_revision ?ob) (po_if_match cmd)) (\<lambda>_.
      rbind (check_root_patch cmd ?ob) (\<lambda>_. patch_target_of cmd ?ob))"
  show ?thesis
  proof (cases ?r)
    case (Inl e)
    with Some show ?thesis by (intro refused) (simp add: patch_object_def)
  next
    case (Inr t)
    then have g: "check_if_match (o_revision ?ob) (po_if_match cmd) = Ok ()"
      "check_root_patch cmd ?ob = Ok ()" "patch_target_of cmd ?ob = Ok t"
      by (auto simp: rbind_Ok_iff)
    show ?thesis
    proof (cases "patch_no_op ?ob t")
      case True
      with Some g show ?thesis
        by (intro unchanged) (simp_all add: patch_object_def patch_no_op_def)
    next
      case False
      then have body: "patch_object cmd s =
          (case check_destination s ?ob t of
             Inl e \<Rightarrow> (Err e, s)
           | Inr _ \<Rightarrow>
               if name_taken s (pt_parent t) (pt_name t) (po_id cmd) then (Err NameConflict, s)
               else write_patch cmd ?ob t s)"
        unfolding patch_object_def patch_no_op_def Let_def using Some g by auto
      show ?thesis
      proof (cases "check_destination s ?ob t = Ok () \<and> \<not> name_taken s (pt_parent t) (pt_name t) (po_id cmd)")
        case True
        with body have "patch_object cmd s = write_patch cmd ?ob t s" by simp
        with Some g False True show ?thesis
          by (intro written [of stored t])
            (simp_all add: write_patch_def append_changes_eq Let_def patch_changes_def patched_def)
      next
        case False
        with body show ?thesis
          by (cases "check_destination s ?ob t") (auto intro: refused)
      qed
    qed
  qed
qed

lemma delete_object_cases:
  assumes "delete_object cmd s = Some (res, s')"
  obtains (refused) e where "res = Err e" "s' = s"
  | (written) stored targets where "live_object s (do_id cmd) = Some stored"
      "check_if_match (o_revision (so_object stored)) (do_if_match cmd) = Ok ()"
      "\<not> object_is_root (so_object stored)"
      "delete_targets cmd (so_object stored) s = Some (Ok targets)"
      "(res, s') = write_delete cmd targets s"
  using assms unfolding delete_object_def Let_def
  by (simp split: option.splits sum.splits if_splits) (metis refused | metis written)+

lemma commit_content_cases:
  obtains (refused) e where "commit_content cmd s = (Err e, s)"
  | (unchanged) upload stored where "table_get (uploads s) (cm_upload_id cmd) = Some upload"
      "u_state upload = UsCompleted"
      "live_object s (cm_object_id cmd) = Some stored" "is_file (so_object stored)"
      "check_if_match (o_revision (so_object stored)) (cm_if_match cmd) = Ok ()"
      "commit_content cmd s = respond_with_view (cm_ctx cmd) (cm_object_id cmd) [] True s"
  | (written) upload stored where "table_get (uploads s) (cm_upload_id cmd) = Some upload"
      "u_state upload = UsReady \<or> u_state upload = UsCompleting"
      "live_object s (cm_object_id cmd) = Some stored" "is_file (so_object stored)"
      "check_if_match (o_revision (so_object stored)) (cm_if_match cmd) = Ok ()"
      "commit_content cmd s = write_content cmd stored s"
proof (cases "table_get (uploads s) (cm_upload_id cmd)")
  case None
  then show ?thesis by (intro refused) (simp add: commit_content_def)
next
  case u: (Some upload)
  show ?thesis
  proof (cases "u_state upload \<in> {UsReady, UsCompleting, UsCompleted}")
    case False
    with u show ?thesis by (intro refused) (simp add: commit_content_def)
  next
    case st: True
    show ?thesis
    proof (cases "live_object s (cm_object_id cmd)")
      case None
      with u st show ?thesis by (intro refused) (simp add: commit_content_def)
    next
      case o: (Some stored)
      let ?m = "check_if_match (o_revision (so_object stored)) (cm_if_match cmd)"
      consider "\<not> is_file (so_object stored)" | e where "is_file (so_object stored)" "?m = Err e"
        | "is_file (so_object stored)" "?m = Ok ()" "u_state upload = UsCompleted"
        | "is_file (so_object stored)" "?m = Ok ()" "u_state upload = UsReady \<or> u_state upload = UsCompleting"
        using st by (cases ?m) auto
      then show ?thesis
      proof cases
        case 1
        with u st o show ?thesis by (intro refused) (simp add: commit_content_def)
      next
        case (2 e)
        with u st o show ?thesis by (intro refused [of e]) (simp add: commit_content_def)
      next
        case 3
        with u st o show ?thesis by (intro unchanged) (simp_all add: commit_content_def)
      next
        case 4
        with u st o show ?thesis by (intro written) (auto simp: commit_content_def)
      qed
    qed
  qed
qed

section \<open>The invariant is kept\<close>

text \<open>
  An operation's value is its result and the state: only the objects matter to the tree, and
  the end of an operation does not touch them.
\<close>

lemma tree_ok_objects:
  "objects s' = objs \<Longrightarrow> tree_ok s' = tree_ok (s\<lparr>objects := objs\<rparr>)"
  by (rule tree_ok_cong) simp

lemma tree_rooted_objects:
  "objects s' = objs \<Longrightarrow> tree_rooted s' = tree_rooted (s\<lparr>objects := objs\<rparr>)"
  by (rule tree_rooted_cong) simp

lemma created_object_simps [simp]:
  "is_live (created_object cmd)" "o_id (so_object (created_object cmd)) = co_id cmd"
  "parent_of (created_object cmd) = Some (co_parent_id cmd)"
  "node_name (created_object cmd) = co_name cmd" "node_kind (created_object cmd) = co_kind cmd"
  "blob_of (created_object cmd) = None"
  by (simp_all add: created_object_def is_live_def parent_of_def node_name_def node_kind_def blob_of_def)

lemma create_object_tree_ok:
  assumes "tree_ok s" and "table_get (objects s) (co_id cmd) = None"
  shows "tree_ok (snd (create_object cmd s))"
proof (cases rule: create_object_cases [of cmd s])
  case (refused e)
  with assms(1) show ?thesis by simp
next
  case (written parent)
  let ?L = "live_object s" and ?new = "created_object cmd"
  from assms(1) have t: "keys_ok s" "tree_shape ?L" "names_unique ?L" by (auto simp: tree_ok_def)
  from assms(2) have fresh: "?L (co_id cmd) = None" by (simp add: live_object_def)
  with t(2) have nr: "co_id cmd \<noteq> ROOT_ID" by (auto simp: tree_shape_def)
  have "tree_shape (?L(co_id cmd \<mapsto> ?new))"
    using t(2) nr fresh _ written(1) by (rule tree_shape_insert) (use written(2) in \<open>simp_all add: node_kind_def\<close>)
  moreover have "names_unique (?L(co_id cmd \<mapsto> ?new))"
    using t(3) written(3) unfolding name_taken_iff [OF t(1)] by (intro names_unique_update) auto
  ultimately have "tree_ok (s\<lparr>objects := table_insert (co_id cmd) ?new (objects s)\<rparr>)"
    using keys_ok_insert [OF t(1), of ?new] by (simp add: tree_ok_def live_object_insert)
  with written(4) show ?thesis
    by (subst tree_ok_objects [where s = s]) (simp_all add: frame_simps)
qed

lemma create_object_rooted:
  assumes "tree_rooted s" and "table_get (objects s) (co_id cmd) = None"
  shows "tree_rooted (snd (create_object cmd s))"
proof (cases rule: create_object_cases [of cmd s])
  case (refused e)
  with assms(1) show ?thesis by simp
next
  case (written parent)
  from assms(2) have "live_object s (co_id cmd) = None" by (simp add: live_object_def)
  with assms(1) written(1) have "rooted ((live_object s)(co_id cmd \<mapsto> created_object cmd))"
    unfolding tree_rooted_def by (intro rooted_insert [where p = "co_parent_id cmd"]) auto
  then have "tree_rooted (s\<lparr>objects := table_insert (co_id cmd) (created_object cmd) (objects s)\<rparr>)"
    by (simp add: tree_rooted_def live_object_insert)
  with written(4) show ?thesis
    by (subst tree_rooted_objects [where s = s]) (simp_all add: frame_simps)
qed

lemma patched_simps [simp]:
  "is_live (patched cmd ob t so) = is_live so"
  "o_id (so_object (patched cmd ob t so)) = o_id (so_object so)"
  "parent_of (patched cmd ob t so) = pt_parent t"
  "node_name (patched cmd ob t so) = pt_name t"
  "node_kind (patched cmd ob t so) = node_kind so"
  "blob_of (patched cmd ob t so) = blob_of so"
  "o_parent_id (so_object (patched cmd ob t so)) = pt_parent t"
  by (simp_all add: patched_def patch_fields_def is_live_def parent_of_def node_name_def
      node_kind_def blob_of_def split: option.split)

lemma patch_target_parent:
  "patch_target_of cmd ob = Ok t \<Longrightarrow>
   pt_parent t = (case po_new_parent_id cmd of None \<Rightarrow> o_parent_id ob | Some q \<Rightarrow> Some q)
   \<and> pt_name t = (case po_new_name cmd of None \<Rightarrow> o_name ob | Some n \<Rightarrow> n)"
  by (auto simp: patch_target_of_def Let_def split: option.splits sum.splits)

lemma check_destination_ok:
  assumes "check_destination s ob t = Ok ()" and "parent_changed ob t"
  obtains d dest where "pt_parent t = Some d" "live_object s d = Some dest"
    "o_kind (so_object dest) = Folder" "is_folder ob \<longrightarrow> \<not> is_self_or_descendant s d (o_id ob)"
  using assms by (auto simp: check_destination_def split: option.splits if_splits)

lemma patch_object_tree_ok:
  assumes "tree_ok s"
  shows "tree_ok (snd (patch_object cmd s))"
proof (cases rule: patch_object_cases [of cmd s])
  case (refused e)
  with assms show ?thesis by simp
next
  case (unchanged stored t)
  with assms show ?thesis
    using tree_ok_cong [of s "snd (patch_object cmd s)"] by (simp add: frame_simps)
next
  case (written stored t)
  let ?L = "live_object s" and ?i = "po_id cmd" and ?new = "patched cmd (so_object stored) t stored"
  from assms have k: "keys_ok s" "tree_shape ?L" "names_unique ?L" by (auto simp: tree_ok_def)
  from written(1) have get: "table_get (objects s) ?i = Some stored" and live: "is_live stored"
    by (simp_all add: live_object_iff)
  note tp = patch_target_parent [OF written(4)]
  have parent: "if ?i = ROOT_ID then parent_of ?new = None
      else \<exists>p q. parent_of ?new = Some p \<and> ?L p = Some q \<and> node_kind q = Folder"
  proof (cases "?i = ROOT_ID")
    case True
    with live_id [OF k(1) written(1)] have "object_is_root (so_object stored)"
      by (simp add: object_is_root_def is_root_def)
    with written(3) tp have "pt_parent t = parent_of stored"
      by (auto simp: check_root_patch_def parent_of_def split: if_splits)
    with k(2) True written(1) show ?thesis by (auto simp: tree_shape_def)
  next
    case False
    show ?thesis
    proof (cases "parent_changed (so_object stored) t")
      case True
      with written(6) False show ?thesis
        by (auto elim!: check_destination_ok simp: node_kind_def)
    next
      case same: False
      obtain p q where "parent_of stored = Some p" "?L p = Some q" "node_kind q = Folder"
        using k(2) written(1) False by (rule tree_shape_parent)
      with same False show ?thesis by (auto simp: parent_changed_def parent_of_def)
    qed
  qed
  have "tree_shape (?L(?i \<mapsto> ?new))"
    by (rule tree_shape_update [OF k(2) written(1) _ parent]) simp
  moreover have "names_unique (?L(?i \<mapsto> ?new))"
    using k(3) written(7) unfolding name_taken_iff [OF k(1)] by (intro names_unique_update) auto
  ultimately have "tree_ok (s\<lparr>objects := table_modify ?i (patched cmd (so_object stored) t) (objects s)\<rparr>)"
    using keys_ok_modify [OF k(1)] get live by (simp add: tree_ok_def live_object_modify)
  with written(8) show ?thesis
    by (subst tree_ok_objects [where s = s]) (simp_all add: frame_simps)
qed

text \<open>
  A move keeps the tree free of cycles where the destination is within the bound of the
  ancestor check, that is, where its path renders.
\<close>

lemma destination_outside:
  assumes "tree_ok s" and "live_object s (po_id cmd) = Some stored"
    and "patch_target_of cmd (so_object stored) = Ok t"
    and "check_destination s (so_object stored) t = Ok ()" and "parent_changed (so_object stored) t"
    and "\<And>d. po_new_parent_id cmd = Some d \<Longrightarrow> live_object s d \<noteq> None \<Longrightarrow> is_ok (render_path s d)"
  obtains d dest where "pt_parent t = Some d" "live_object s d = Some dest"
    "o_kind (so_object dest) = Folder" "d \<notin> subtree (live_object s) (po_id cmd)"
proof -
  let ?L = "live_object s" and ?i = "po_id cmd"
  have id: "o_id (so_object stored) = ?i" using live_id [OF _ assms(2)] assms(1) by (simp add: tree_ok_def)
  from assms(4,5) obtain d dest where d: "pt_parent t = Some d" "?L d = Some dest"
    "o_kind (so_object dest) = Folder"
    "is_folder (so_object stored) \<longrightarrow> \<not> is_self_or_descendant s d (o_id (so_object stored))"
    by (rule check_destination_ok)
  have "d \<notin> subtree ?L ?i"
  proof (cases "is_folder (so_object stored)")
    case fold: True
    from assms(5) d(1) patch_target_parent [OF assms(3)] have "po_new_parent_id cmd = Some d"
      by (auto simp: parent_changed_def split: option.splits)
    with assms(6) d(2) have "is_ok (render_path s d)" by blast
    with is_self_or_descendant_iff [OF assms(1) d(2)] d(4) fold id show ?thesis by simp
  next
    case doc: False
    show ?thesis
    proof
      assume "d \<in> subtree ?L ?i"
      then show False
      proof (cases "d = ?i")
        case True
        with assms(2) d(2,3) doc show False by (simp add: is_folder_def)
      next
        case ne: False
        with \<open>d \<in> subtree ?L ?i\<close> obtain j where "(?i, j) \<in> child_edges ?L"
          unfolding subtree_def by (auto elim: converse_rtranclE)
        then obtain so where "?L j = Some so" "o_parent_id (so_object so) = Some ?i"
          by (auto simp: child_edges_iff parent_of_def)
        with live_parent [OF assms(1)] assms(2) doc show False by fastforce
      qed
    qed
  qed
  with d that show thesis by blast
qed

lemma patch_object_rooted:
  assumes "tree_ok s" and "tree_rooted s"
    and "\<And>d. po_new_parent_id cmd = Some d \<Longrightarrow> live_object s d \<noteq> None \<Longrightarrow> is_ok (render_path s d)"
  shows "tree_rooted (snd (patch_object cmd s))"
proof (cases rule: patch_object_cases [of cmd s])
  case (refused e)
  with assms show ?thesis by simp
next
  case (unchanged stored t)
  with assms show ?thesis
    using tree_rooted_cong [of s "snd (patch_object cmd s)"] by (simp add: frame_simps)
next
  case (written stored t)
  let ?L = "live_object s" and ?i = "po_id cmd" and ?new = "patched cmd (so_object stored) t stored"
  from assms(1) have k: "keys_ok s" "tree_shape ?L" by (auto simp: tree_ok_def)
  from written(1) have get: "table_get (objects s) ?i = Some stored" and live: "is_live stored"
    by (simp_all add: live_object_iff)
  have "rooted (?L(?i \<mapsto> ?new))"
  proof (cases "parent_changed (so_object stored) t")
    case False
    then have "parent_of ?new = parent_of stored" by (simp add: parent_changed_def parent_of_def)
    with assms(2) written(1) show ?thesis
      unfolding tree_rooted_def by (intro rooted_same_parent)
  next
    case True
    obtain d dest where d: "pt_parent t = Some d" "?L d = Some dest" "d \<notin> subtree ?L ?i"
      using assms(1) written(1,4,6) True assms(3) by (rule destination_outside)
    with assms(2) written(1) d show ?thesis
      unfolding tree_rooted_def by (intro rooted_move [where d = d]) auto
  qed
  with get live have "tree_rooted (s\<lparr>objects := table_modify ?i (patched cmd (so_object stored) t) (objects s)\<rparr>)"
    by (simp add: tree_rooted_def live_object_modify)
  with written(8) show ?thesis
    by (subst tree_rooted_objects [where s = s]) (simp_all add: frame_simps)
qed

section \<open>Deletion\<close>

lemma tombstone_simps [simp]:
  "\<not> is_live (tombstone now so)" "o_id (so_object (tombstone now so)) = o_id (so_object so)"
  "blob_of (tombstone now so) = blob_of so"
  "o_revision (so_object (tombstone now so)) = next_revision (o_revision (so_object so))"
  by (simp_all add: tombstone_def is_live_def blob_of_def split: option.split)

lemma tombstone_all_get:
  "table_get (snd (snd (tombstone_all now is objs))) j =
     (if j \<in> set is
      then map_option (\<lambda>so. if is_live so then tombstone now so else so) (table_get objs j)
      else table_get objs j)"
proof (induction "is" arbitrary: objs)
  case (Cons i "is")
  show ?case
  proof (cases "table_get objs i")
    case None
    with Cons show ?thesis by auto
  next
    case (Some entry)
    with Cons show ?thesis
      by (cases "is_live entry") (auto simp: Let_def split_def table_simps)
  qed
qed simp

lemma tombstone_all_table_ok:
  "table_ok objs \<Longrightarrow> table_ok (snd (snd (tombstone_all now is objs)))"
  by (induction now "is" objs rule: tombstone_all.induct)
    (auto simp: Let_def split_def split: option.split)

text \<open>One pending tombstone, and at most one collectable blob, for each live target in turn.\<close>

definition live_targets :: "string list \<Rightarrow> mem_state \<Rightarrow> (string \<times> stored_object) list" where
  "live_targets is s =
     List.map_filter (\<lambda>i. map_option (Pair i) (live_object s i)) is"

lemma live_targets_cong:
  "(\<And>i. i \<in> set is \<Longrightarrow> live_object s i = live_object s' i) \<Longrightarrow> live_targets is s = live_targets is s'"
  by (induction "is") (simp_all add: live_targets_def List.map_filter_simps split: option.split)

lemma tombstone_all_lists:
  assumes "distinct is"
  shows "fst (tombstone_all now is (objects s)) =
           map (\<lambda>(i, so). pending_change_new i (next_revision (o_revision (so_object so))) Deleted)
             (live_targets is s)
       \<and> fst (snd (tombstone_all now is (objects s))) =
           List.map_filter (\<lambda>(i, so). blob_of so) (live_targets is s)"
  using assms
proof (induction "is" arbitrary: s)
  case Nil
  then show ?case by (simp add: live_targets_def List.map_filter_simps)
next
  case (Cons i "is")
  show ?case
  proof (cases "live_object s i")
    case None
    then have "tombstone_all now (i # is) (objects s) = tombstone_all now is (objects s)"
      by (auto simp: live_object_def split: option.splits if_splits)
    moreover from None have "live_targets (i # is) s = live_targets is s"
      by (simp add: live_targets_def List.map_filter_simps)
    ultimately show ?thesis using Cons by simp
  next
    case (Some entry)
    let ?s = "s\<lparr>objects := table_insert i (tombstone now entry) (objects s)\<rparr>"
    have "live_targets is ?s = live_targets is s"
      using Cons.prems by (intro live_targets_cong) (auto simp: live_object_insert)
    moreover from Some have "live_targets (i # is) s = (i, entry) # live_targets is s"
      by (simp add: live_targets_def List.map_filter_simps)
    moreover from Some have "table_get (objects s) i = Some entry" "is_live entry"
      by (simp_all add: live_object_iff)
    ultimately show ?thesis using Cons.IH [of ?s] Cons.prems
      by (simp add: Let_def split_def List.map_filter_simps split: option.split)
  qed
qed

lemma enqueue_fold_frame [frame_simps]:
  "objects (fold (\<lambda>p. enqueue_gc (fst p) (snd p) now) bs s) = objects s"
  "changes (fold (\<lambda>p. enqueue_gc (fst p) (snd p) now) bs s) = changes s"
  "cursors (fold (\<lambda>p. enqueue_gc (fst p) (snd p) now) bs s) = cursors s"
  "idempotency (fold (\<lambda>p. enqueue_gc (fst p) (snd p) now) bs s) = idempotency s"
  "uploads (fold (\<lambda>p. enqueue_gc (fst p) (snd p) now) bs s) = uploads s"
  "purged_through_seq (fold (\<lambda>p. enqueue_gc (fst p) (snd p) now) bs s) = purged_through_seq s"
  by (induction bs arbitrary: s) (simp_all add: split_def frame_simps)

lemma write_delete_frame:
  "objects (snd (write_delete cmd targets s)) =
     snd (snd (tombstone_all (mc_now (do_ctx cmd)) targets (objects s)))"
  "uploads (snd (write_delete cmd targets s)) = uploads s"
  "cursors (snd (write_delete cmd targets s)) = cursors s"
  "purged_through_seq (snd (write_delete cmd targets s)) = purged_through_seq s"
  "changes (snd (write_delete cmd targets s)) = changes s @
     records_from (do_ctx cmd) (int (length (changes s)) + 1)
       (fst (tombstone_all (mc_now (do_ctx cmd)) targets (objects s)))"
  by (simp_all add: write_delete_def Let_def split_def frame_simps append_changes_eq)

lemma live_object_delete:
  "live_object (snd (write_delete cmd targets s)) = forest_without (set targets) (live_object s)"
  by (auto simp: live_object_def forest_without_def write_delete_frame tombstone_all_get fun_eq_iff
      split: option.split)

lemma keys_ok_delete: "keys_ok s \<Longrightarrow> keys_ok (snd (write_delete cmd targets s))"
  by (auto simp: keys_ok_def write_delete_frame tombstone_all_get tombstone_all_table_ok
      split: if_splits)

text \<open>The targets of a delete are the whole subtree, and never the root.\<close>

lemma delete_targets_subtree:
  assumes "tree_ok s" and "live_object s (do_id cmd) = Some stored"
    and "delete_targets cmd (so_object stored) s = Some (Ok targets)"
  shows "set targets = subtree (live_object s) (do_id cmd)"
proof (cases "is_folder (so_object stored) \<and> do_recursive cmd")
  case True
  from assms(1) have k: "keys_ok s" by (simp add: tree_ok_def)
  from True assms(3) obtain r where r: "descend_loop s [(0, do_id cmd)] [(0, do_id cmd)] = Some r"
    and t: "targets = map snd (sort_depth_first r)"
    by (auto simp: delete_targets_def descendants_def)
  from r k worklist_start(1) have "snd ` set r = subtree (live_object s) (do_id cmd)"
    by (rule descend_loop_result)
  with t show ?thesis by (simp add: sort_depth_first_def)
next
  case False
  have "(do_id cmd, j) \<notin> child_edges (live_object s)" for j
  proof
    assume e: "(do_id cmd, j) \<in> child_edges (live_object s)"
    then obtain so where "live_object s j = Some so" "o_parent_id (so_object so) = Some (do_id cmd)"
      by (auto simp: child_edges_iff parent_of_def)
    with live_parent [OF assms(1)] assms(2) have "is_folder (so_object stored)" by fastforce
    moreover from e assms(1) have "has_children s (do_id cmd)"
      by (auto simp: has_children_iff tree_ok_def)
    ultimately show False using False assms(3) by (auto simp: delete_targets_def)
  qed
  then have "subtree (live_object s) (do_id cmd) = {do_id cmd}"
    unfolding subtree_def by (auto elim: converse_rtranclE)
  moreover from False assms(3) have "targets = [do_id cmd]"
    by (auto simp: delete_targets_def split: if_splits)
  ultimately show ?thesis by simp
qed

lemma delete_not_root:
  assumes "tree_ok s" and "live_object s (do_id cmd) = Some stored"
    and "\<not> object_is_root (so_object stored)"
  shows "ROOT_ID \<notin> subtree (live_object s) (do_id cmd)"
proof
  assume "ROOT_ID \<in> subtree (live_object s) (do_id cmd)"
  with assms(1) have "do_id cmd = ROOT_ID"
    using root_only_ancestor by (auto simp: tree_ok_def subtree_def)
  with assms live_id [of s "do_id cmd" stored] show False
    by (simp add: tree_ok_def object_is_root_def is_root_def)
qed

lemma delete_object_tree_ok:
  assumes "tree_ok s" and "delete_object cmd s = Some (res, s')"
  shows "tree_ok s' \<and> (tree_rooted s \<longrightarrow> tree_rooted s')"
  using assms(2)
proof (cases rule: delete_object_cases)
  case (refused e)
  with assms(1) show ?thesis by simp
next
  case (written stored targets)
  let ?X = "subtree (live_object s) (do_id cmd)"
  from written(5) have s': "s' = snd (write_delete cmd targets s)" by (metis snd_conv)
  have live: "live_object s' = forest_without ?X (live_object s)"
    unfolding s' live_object_delete delete_targets_subtree [OF assms(1) written(1,4)] ..
  from assms(1) have "keys_ok s'" unfolding s' by (simp add: tree_ok_def keys_ok_delete)
  moreover have "tree_shape (live_object s')"
    unfolding live using assms(1) closed_below_subtree delete_not_root [OF assms(1) written(1,3)]
    by (intro tree_shape_without) (simp_all add: tree_ok_def)
  moreover have "names_unique (live_object s')"
    unfolding live using assms(1) by (simp add: tree_ok_def names_unique_without)
  moreover have "tree_rooted s'" if "tree_rooted s"
    using that closed_below_subtree unfolding tree_rooted_def live by (rule rooted_without)
  ultimately show ?thesis by (simp add: tree_ok_def)
qed

section \<open>Content\<close>

lemma content_fields_simps [simp]:
  "is_live (content_fields cmd r so) = is_live so"
  "o_id (so_object (content_fields cmd r so)) = o_id (so_object so)"
  "parent_of (content_fields cmd r so) = parent_of so"
  "node_name (content_fields cmd r so) = node_name so"
  "node_kind (content_fields cmd r so) = node_kind so"
  "blob_of (content_fields cmd r so) = Some (cm_blob_backend cmd, cm_blob_ref cmd)"
  "o_revision (so_object (content_fields cmd r so)) = r"
  by (simp_all add: content_fields_def is_live_def parent_of_def node_name_def node_kind_def blob_of_def)

lemma enqueue_replaced_frame [frame_simps]:
  "objects (enqueue_replaced cmd stored s) = objects s"
  "changes (enqueue_replaced cmd stored s) = changes s"
  "cursors (enqueue_replaced cmd stored s) = cursors s"
  "idempotency (enqueue_replaced cmd stored s) = idempotency s"
  "uploads (enqueue_replaced cmd stored s) = uploads s"
  "purged_through_seq (enqueue_replaced cmd stored s) = purged_through_seq s"
  by (simp_all add: enqueue_replaced_def frame_simps split: option.split prod.split)

lemma write_content_frame:
  "objects (snd (write_content cmd stored s)) =
     table_modify (cm_object_id cmd)
       (content_fields cmd (next_revision (o_revision (so_object stored)))) (objects s)"
  "uploads (snd (write_content cmd stored s)) =
     table_modify (cm_upload_id cmd) (complete_upload_row (mc_now (cm_ctx cmd))) (uploads s)"
  "cursors (snd (write_content cmd stored s)) = cursors s"
  "purged_through_seq (snd (write_content cmd stored s)) = purged_through_seq s"
  "changes (snd (write_content cmd stored s)) = changes s @
     [change_record_of (cm_ctx cmd) (int (length (changes s)) + 1)
       (pending_change_new (cm_object_id cmd) (next_revision (o_revision (so_object stored)))
         (content_action (so_object stored)))]"
  by (simp_all add: write_content_def Let_def split_def frame_simps append_changes_eq)

text \<open>A node whose place in the tree does not change keeps the tree as it is.\<close>

lemma tree_update_in_place:
  assumes "tree_ok s" and "live_object s i = Some old"
    and "is_live (f old)" "parent_of (f old) = parent_of old" "node_name (f old) = node_name old"
    and "node_kind (f old) = node_kind old" "\<And>so. o_id (so_object (f so)) = o_id (so_object so)"
  shows "tree_ok (s\<lparr>objects := table_modify i f (objects s)\<rparr>)"
    and "tree_rooted s \<Longrightarrow> tree_rooted (s\<lparr>objects := table_modify i f (objects s)\<rparr>)"
proof -
  let ?L = "live_object s"
  from assms(1) have k: "keys_ok s" "tree_shape ?L" "names_unique ?L" by (auto simp: tree_ok_def)
  from assms(2,3) have live: "live_object (s\<lparr>objects := table_modify i f (objects s)\<rparr>) = ?L(i \<mapsto> f old)"
    by (simp add: live_object_iff live_object_modify)
  have "if i = ROOT_ID then parent_of (f old) = None
      else \<exists>p q. parent_of (f old) = Some p \<and> ?L p = Some q \<and> node_kind q = Folder"
    using k(2) assms(2,4) by (auto simp: tree_shape_def)
  then have "tree_shape (?L(i \<mapsto> f old))"
    using k(2) assms(2,6) by (intro tree_shape_update)
  moreover have "names_unique (?L(i \<mapsto> f old))"
    using k(3) assms(2,4,5) by (intro names_unique_update) (auto simp: names_unique_def)
  ultimately show "tree_ok (s\<lparr>objects := table_modify i f (objects s)\<rparr>)"
    using keys_ok_modify [OF k(1) assms(7)] by (simp add: tree_ok_def live)
  show "tree_rooted (s\<lparr>objects := table_modify i f (objects s)\<rparr>)" if "tree_rooted s"
    using that assms(2,4) unfolding tree_rooted_def live by (rule rooted_same_parent)
qed

lemma commit_content_tree_ok:
  assumes "tree_ok s"
  shows "tree_ok (snd (commit_content cmd s)) \<and>
    (tree_rooted s \<longrightarrow> tree_rooted (snd (commit_content cmd s)))"
proof (cases rule: commit_content_cases [of cmd s])
  case (refused e)
  with assms show ?thesis by simp
next
  case (unchanged upload stored)
  then have "objects (snd (commit_content cmd s)) = objects s" by (simp add: frame_simps)
  with assms show ?thesis by (metis tree_ok_cong tree_rooted_cong)
next
  case (written upload stored)
  let ?f = "content_fields cmd (next_revision (o_revision (so_object stored)))"
  from written(3) have live: "is_live stored" by (simp add: live_object_iff)
  then have "tree_ok (s\<lparr>objects := table_modify (cm_object_id cmd) ?f (objects s)\<rparr>)"
    "tree_rooted s \<longrightarrow> tree_rooted (s\<lparr>objects := table_modify (cm_object_id cmd) ?f (objects s)\<rparr>)"
    using tree_update_in_place [OF assms written(3), of ?f] by simp_all
  moreover have "objects (snd (commit_content cmd s)) = table_modify (cm_object_id cmd) ?f (objects s)"
    using written(6) by (simp add: write_content_frame)
  ultimately show ?thesis by (metis tree_ok_objects tree_rooted_objects)
qed

text \<open>The store starts as a tree that holds the root alone.\<close>

lemma mem_new_tree: "tree_ok (mem_new now) \<and> tree_rooted (mem_new now)"
proof -
  have live: "live_object (mem_new now) = [ROOT_ID \<mapsto> root_object now]"
    by (auto simp: live_object_def mem_new_def root_object_def ROOT_ID_def is_live_def fun_eq_iff)
  have "keys_ok (mem_new now)"
    by (auto simp: keys_ok_def table_ok_def mem_new_def root_object_def ROOT_ID_def split: if_splits)
  then show ?thesis
    unfolding tree_ok_def tree_rooted_def live
    by (auto simp: tree_shape_def names_unique_def rooted_def node_kind_def parent_of_def
        root_object_def split: if_splits)
qed

end
