(* ===== verification/MemUploads.thy ===== *)
theory MemUploads
  imports MemState
begin

text \<open>
  The \<open>UploadRepository\<close> of the in-memory metastore and the state machine of an upload
  session: the relation \<open>upload_move\<close> says which changes of a session's state the store can
  make, and the lemmas show what can never happen to a session again.
\<close>

definition new_upload :: "create_upload_record_cmd \<Rightarrow> upload_record" where
  "new_upload cmd =
     \<lparr>u_id = cu_id cmd, u_object_id = cu_object_id cmd, u_state = UsInitiating,
      u_mode = cu_mode cmd, u_blob_backend = cu_blob_backend cmd, u_blob_ref = cu_blob_ref cmd,
      u_provider_upload_id = None, u_expected_size = cu_expected_size cmd,
      u_content_type = cu_content_type cmd, u_expected_sha256 = cu_expected_sha256 cmd,
      u_provider_completed = False, u_created_at = cu_created_at cmd,
      u_expires_at = cu_expires_at cmd, u_completed_at = None, u_aborted_at = None\<rparr>"

text \<open>Resuming a crashed attempt does not create a second session.\<close>

definition create_upload_record ::
  "create_upload_record_cmd \<Rightarrow> mem_state \<Rightarrow> create_upload_result result \<times> mem_state" where
  "create_upload_record cmd s =
     (case table_get (uploads s) (cu_id cmd) of
        Some existing \<Rightarrow> (Ok \<lparr>cur_upload = existing, cur_created = False\<rparr>, s)
      | None \<Rightarrow>
          (Ok \<lparr>cur_upload = new_upload cmd, cur_created = True\<rparr>,
           s\<lparr>uploads := table_insert (cu_id cmd) (new_upload cmd) (uploads s)\<rparr>))"

definition get_upload :: "upload_id \<Rightarrow> mem_state \<Rightarrow> upload_record option result" where
  "get_upload i s = Ok (table_get (uploads s) i)"

definition transition_allowed :: "upload_state \<Rightarrow> upload_state \<Rightarrow> bool" where
  "transition_allowed old new =
     (case new of
        UsReady \<Rightarrow> old = UsInitiating \<or> old = UsReady
      | UsCompleting \<Rightarrow> old = UsReady \<or> old = UsCompleting
      | _ \<Rightarrow> False)"

definition update_upload_row :: "update_upload_state_cmd \<Rightarrow> upload_record \<Rightarrow> upload_record" where
  "update_upload_row cmd u =
     (let u1 = u\<lparr>u_state := uu_state cmd\<rparr>;
          u2 = (case uu_provider_upload_id cmd of
                  Some p \<Rightarrow> u1\<lparr>u_provider_upload_id := Some p\<rparr> | None \<Rightarrow> u1)
      in case uu_provider_completed cmd of
           Some c \<Rightarrow> u2\<lparr>u_provider_completed := c\<rparr> | None \<Rightarrow> u2)"

definition update_upload_state ::
  "update_upload_state_cmd \<Rightarrow> mem_state \<Rightarrow> unit result \<times> mem_state" where
  "update_upload_state cmd s =
     (case table_get (uploads s) (uu_id cmd) of
        None \<Rightarrow> (Err UploadNotFound, s)
      | Some upload \<Rightarrow>
          if \<not> transition_allowed (u_state upload) (uu_state cmd) then (Err UploadNotFound, s)
          else (Ok (), s\<lparr>uploads := table_insert (uu_id cmd) (update_upload_row cmd upload) (uploads s)\<rparr>))"

definition abort_upload_record ::
  "abort_upload_record_cmd \<Rightarrow> mem_state \<Rightarrow> unit result \<times> mem_state" where
  "abort_upload_record cmd s =
     (case table_get (uploads s) (au_id cmd) of
        None \<Rightarrow> (Ok (), s)
      | Some upload \<Rightarrow>
          if u_state upload = UsCompleted then (Ok (), s)
          else
            (Ok (), enqueue_gc (u_blob_backend upload) (u_blob_ref upload) (au_gc_not_before cmd)
               (s\<lparr>uploads := table_insert (au_id cmd)
                   (upload\<lparr>u_state := UsAborted, u_aborted_at := Some (au_now cmd)\<rparr>) (uploads s)\<rparr>)))"

section \<open>The state machine of a session\<close>

inductive upload_move :: "upload_state \<Rightarrow> upload_state \<Rightarrow> bool" where
  stay: "upload_move st st"
| initiated: "upload_move UsInitiating UsReady"
| finishing: "upload_move UsReady UsCompleting"
| committed: "st \<in> {UsReady, UsCompleting} \<Longrightarrow> upload_move st UsCompleted"
| aborted: "st \<noteq> UsCompleted \<Longrightarrow> upload_move st UsAborted"
| expired: "\<not> is_terminal st \<Longrightarrow> upload_move st UsExpired"

inductive_cases upload_move_from_completed: "upload_move UsCompleted st"
inductive_cases upload_move_from_aborted: "upload_move UsAborted st"
inductive_cases upload_move_from_expired: "upload_move UsExpired st"
inductive_simps upload_move_to_completed: "upload_move st UsCompleted"
inductive_simps upload_move_to_ready: "upload_move st UsReady"
inductive_simps upload_move_to_completing: "upload_move st UsCompleting"

definition dead_upload :: "upload_state \<Rightarrow> bool" where
  "dead_upload st \<longleftrightarrow> st \<in> {UsAborted, UsExpired}"

lemma upload_move_completed: "upload_move\<^sup>*\<^sup>* UsCompleted st \<Longrightarrow> st = UsCompleted"
  by (induction rule: rtranclp_induct)
    (auto elim: upload_move_from_completed simp: is_terminal_def)

lemma upload_move_dead: "upload_move\<^sup>*\<^sup>* old new \<Longrightarrow> dead_upload old \<Longrightarrow> dead_upload new"
proof (induction rule: rtranclp_induct)
  case (step y z)
  then show ?case
    by (cases y) (auto simp: dead_upload_def elim!: upload_move_from_aborted upload_move_from_expired)
qed simp

lemma dead_not_completable: "dead_upload st \<Longrightarrow> \<not> is_completable st"
  by (auto simp: dead_upload_def is_completable_def)

text \<open>How one step may change a session: its state moves, its identity and blob stay.\<close>

definition upload_evolves :: "upload_record \<Rightarrow> upload_record \<Rightarrow> bool" where
  "upload_evolves u v \<longleftrightarrow>
     upload_move (u_state u) (u_state v) \<and> u_id v = u_id u \<and> u_object_id v = u_object_id u
     \<and> u_blob_backend v = u_blob_backend u \<and> u_blob_ref v = u_blob_ref u
     \<and> u_expected_size v = u_expected_size u \<and> u_expires_at v = u_expires_at u"

definition uploads_evolve :: "mem_state \<Rightarrow> mem_state \<Rightarrow> bool" where
  "uploads_evolve s s' \<longleftrightarrow>
     (\<forall>i u. table_get (uploads s) i = Some u \<longrightarrow>
        (\<exists>v. table_get (uploads s') i = Some v \<and> upload_evolves u v))"

lemma upload_evolves_refl [simp]: "upload_evolves u u"
  by (simp add: upload_evolves_def upload_move.stay)

lemma uploads_evolve_same: "uploads s' = uploads s \<Longrightarrow> uploads_evolve s s'"
  by (simp add: uploads_evolve_def)

lemma uploads_evolve_insert:
  assumes "uploads s' = table_insert i v (uploads s)"
    and "\<And>u. table_get (uploads s) i = Some u \<Longrightarrow> upload_evolves u v"
  shows "uploads_evolve s s'"
  using assms by (auto simp: uploads_evolve_def table_simps)

lemma uploads_evolve_modify:
  assumes "uploads s' = table_modify i f (uploads s)"
    and "\<And>u. table_get (uploads s) i = Some u \<Longrightarrow> upload_evolves u (f u)"
  shows "uploads_evolve s s'"
  using assms by (auto simp: uploads_evolve_def table_simps)

lemma create_upload_evolves: "uploads_evolve s (snd (create_upload_record cmd s))"
proof (cases "table_get (uploads s) (cu_id cmd)")
  case None
  then show ?thesis
    by (intro uploads_evolve_insert [where i = "cu_id cmd" and v = "new_upload cmd"])
      (simp_all add: create_upload_record_def)
next
  case (Some u)
  then show ?thesis by (simp add: create_upload_record_def uploads_evolve_same)
qed

lemma update_upload_row_keeps:
  "u_state (update_upload_row cmd u) = uu_state cmd" "u_id (update_upload_row cmd u) = u_id u"
  "u_object_id (update_upload_row cmd u) = u_object_id u"
  "u_blob_backend (update_upload_row cmd u) = u_blob_backend u"
  "u_blob_ref (update_upload_row cmd u) = u_blob_ref u"
  "u_expected_size (update_upload_row cmd u) = u_expected_size u"
  "u_expires_at (update_upload_row cmd u) = u_expires_at u"
  by (simp_all add: update_upload_row_def Let_def split: option.split)

lemma transition_is_move: "transition_allowed a b \<Longrightarrow> upload_move a b"
  by (cases b) (auto simp: transition_allowed_def intro: upload_move.intros)

lemma update_upload_evolves: "uploads_evolve s (snd (update_upload_state cmd s))"
proof (cases "table_get (uploads s) (uu_id cmd)")
  case None
  then show ?thesis by (simp add: update_upload_state_def uploads_evolve_same)
next
  case (Some u)
  show ?thesis
  proof (cases "transition_allowed (u_state u) (uu_state cmd)")
    case True
    with Some show ?thesis
      by (intro uploads_evolve_insert [where i = "uu_id cmd" and v = "update_upload_row cmd u"])
        (simp_all add: update_upload_state_def upload_evolves_def update_upload_row_keeps transition_is_move)
  next
    case False
    with Some show ?thesis by (simp add: update_upload_state_def uploads_evolve_same)
  qed
qed

lemma abort_upload_evolves: "uploads_evolve s (snd (abort_upload_record cmd s))"
proof (cases "table_get (uploads s) (au_id cmd)")
  case None
  then show ?thesis by (simp add: abort_upload_record_def uploads_evolve_same)
next
  case (Some u)
  show ?thesis
  proof (cases "u_state u = UsCompleted")
    case True
    with Some show ?thesis by (simp add: abort_upload_record_def uploads_evolve_same)
  next
    case False
    with Some show ?thesis
      by (intro uploads_evolve_insert [where i = "au_id cmd"
            and v = "u\<lparr>u_state := UsAborted, u_aborted_at := Some (au_now cmd)\<rparr>"])
        (simp_all add: abort_upload_record_def frame_simps upload_evolves_def upload_move.aborted)
  qed
qed

lemma upload_frames [frame_simps]:
  "objects (snd (create_upload_record c s)) = objects s"
  "changes (snd (create_upload_record c s)) = changes s"
  "gc (snd (create_upload_record c s)) = gc s"
  "cursors (snd (create_upload_record c s)) = cursors s"
  "idempotency (snd (create_upload_record c s)) = idempotency s"
  "purged_through_seq (snd (create_upload_record c s)) = purged_through_seq s"
  "objects (snd (update_upload_state u s)) = objects s"
  "changes (snd (update_upload_state u s)) = changes s"
  "gc (snd (update_upload_state u s)) = gc s"
  "cursors (snd (update_upload_state u s)) = cursors s"
  "idempotency (snd (update_upload_state u s)) = idempotency s"
  "purged_through_seq (snd (update_upload_state u s)) = purged_through_seq s"
  "objects (snd (abort_upload_record a s)) = objects s"
  "changes (snd (abort_upload_record a s)) = changes s"
  "cursors (snd (abort_upload_record a s)) = cursors s"
  "idempotency (snd (abort_upload_record a s)) = idempotency s"
  "purged_through_seq (snd (abort_upload_record a s)) = purged_through_seq s"
  by (simp_all add: create_upload_record_def update_upload_state_def abort_upload_record_def
      frame_simps split: option.split)

end
