(* ===== verification/MemMaintenance.thy ===== *)
theory MemMaintenance
  imports MemMutations MemUploads
begin

text \<open>
  The \<open>MaintenanceStore\<close> of the in-memory metastore: the blob queue, the expiry of upload
  sessions, and the purges. A duration of five minutes is in nanoseconds.
\<close>

definition gc_lease :: time where
  "gc_lease = 5 * 60 * 1000000000"

definition live_blobs :: "mem_state \<Rightarrow> (string \<times> string) list" where
  "live_blobs s = List.map_filter blob_of (filter is_live (table_values (objects s)))"

definition gc_entry_of :: "gc_row \<Rightarrow> blob_gc_entry" where
  "gc_entry_of row =
     \<lparr>ge_blob_backend = gr_blob_backend row, ge_blob_ref = gr_blob_ref row,
      ge_attempts = gr_attempts row\<rparr>"

text \<open>The loop over the queue, with the number of entries that may still be claimed.\<close>

fun claim_rows ::
  "(string \<times> string) list \<Rightarrow> time \<Rightarrow> nat \<Rightarrow> gc_row list \<Rightarrow> blob_gc_entry list \<times> gc_row list" where
  "claim_rows live now n [] = ([], [])"
| "claim_rows live now n (row # rows) =
     (if n = 0 then ([], row # rows)
      else if gr_not_before row \<le> now \<and> (gr_blob_backend row, gr_blob_ref row) \<notin> set live
      then (case claim_rows live now (n - 1) rows of
              (es, rows') \<Rightarrow> (gc_entry_of row # es, row\<lparr>gr_not_before := now + gc_lease\<rparr> # rows'))
      else (case claim_rows live now n rows of (es, rows') \<Rightarrow> (es, row # rows')))"

definition claim_gc_batch ::
  "time \<Rightarrow> 32 word \<Rightarrow> mem_state \<Rightarrow> blob_gc_entry list result \<times> mem_state" where
  "claim_gc_batch now limit s =
     (case claim_rows (live_blobs s) now (unat limit) (gc s) of
        (es, rows) \<Rightarrow> (Ok es, s\<lparr>gc := rows\<rparr>))"

definition same_blob :: "gc_row \<Rightarrow> blob_gc_entry \<Rightarrow> bool" where
  "same_blob g e \<longleftrightarrow> gr_blob_backend g = ge_blob_backend e \<and> gr_blob_ref g = ge_blob_ref e"

definition finish_gc :: "blob_gc_entry \<Rightarrow> mem_state \<Rightarrow> unit result \<times> mem_state" where
  "finish_gc e s = (Ok (), s\<lparr>gc := filter (\<lambda>g. \<not> same_blob g e) (gc s)\<rparr>)"

fun fail_first :: "blob_gc_entry \<Rightarrow> time \<Rightarrow> gc_row list \<Rightarrow> gc_row list" where
  "fail_first e retry_at [] = []"
| "fail_first e retry_at (g # gs) =
     (if same_blob g e
      then g\<lparr>gr_attempts := gr_attempts g + 1, gr_not_before := retry_at\<rparr> # gs
      else g # fail_first e retry_at gs)"

definition fail_gc :: "blob_gc_entry \<Rightarrow> string \<Rightarrow> time \<Rightarrow> mem_state \<Rightarrow> unit result \<times> mem_state" where
  "fail_gc e err retry_at s = (Ok (), s\<lparr>gc := fail_first e retry_at (gc s)\<rparr>)"

definition upload_overdue :: "time \<Rightarrow> upload_record \<Rightarrow> bool" where
  "upload_overdue now u \<longleftrightarrow>
     u_expires_at u \<le> now \<and> u_state u \<in> {UsInitiating, UsReady, UsCompleting}"

fun expire_rows ::
  "time \<Rightarrow> nat \<Rightarrow> (string, upload_record) table \<Rightarrow>
   upload_record list \<times> (string, upload_record) table" where
  "expire_rows now n [] = ([], [])"
| "expire_rows now n ((i, u) # t) =
     (if n = 0 then ([], (i, u) # t)
      else if upload_overdue now u
      then (case expire_rows now (n - 1) t of
              (us, t') \<Rightarrow> (u\<lparr>u_state := UsExpired\<rparr> # us, (i, u\<lparr>u_state := UsExpired\<rparr>) # t'))
      else (case expire_rows now n t of (us, t') \<Rightarrow> (us, (i, u) # t')))"

definition claim_expired_uploads ::
  "time \<Rightarrow> 32 word \<Rightarrow> mem_state \<Rightarrow> upload_record list result \<times> mem_state" where
  "claim_expired_uploads now limit s =
     (case expire_rows now (unat limit) (uploads s) of
        (expired, t) \<Rightarrow>
          (Ok expired,
           fold (\<lambda>u. enqueue_gc (u_blob_backend u) (u_blob_ref u) now) expired (s\<lparr>uploads := t\<rparr>)))"

definition purge_idempotency_records :: "time \<Rightarrow> mem_state \<Rightarrow> nat result \<times> mem_state" where
  "purge_idempotency_records now s =
     (let kept = table_retain (\<lambda>_ row. now < ir_expires_at row) (idempotency s)
      in (Ok (length (idempotency s) - length kept), s\<lparr>idempotency := kept\<rparr>))"

definition purge_change_cursors :: "time \<Rightarrow> mem_state \<Rightarrow> nat result \<times> mem_state" where
  "purge_change_cursors now s =
     (let kept = table_retain (\<lambda>_ row. now < cr_expires_at row) (cursors s)
      in (Ok (length (cursors s) - length kept), s\<lparr>cursors := kept\<rparr>))"

text \<open>The leading changes that are too old: their number and the watermark they raise.\<close>

fun purge_loop :: "time \<Rightarrow> int \<Rightarrow> change_record list \<Rightarrow> nat \<Rightarrow> int \<Rightarrow> nat \<times> int" where
  "purge_loop older_than index [] purged watermark = (purged, watermark)"
| "purge_loop older_than index (c # cs) purged watermark =
     (if c_changed_at c < older_than
      then purge_loop older_than (index + 1) cs (purged + 1) (max watermark (index + 1))
      else (purged, watermark))"

definition purge_changes :: "time \<Rightarrow> mem_state \<Rightarrow> nat result \<times> mem_state" where
  "purge_changes older_than s =
     (case purge_loop older_than 0 (changes s) 0 (purged_through_seq s) of
        (purged, watermark) \<Rightarrow> (Ok purged, s\<lparr>purged_through_seq := watermark\<rparr>))"

definition count_pending_gc :: "mem_state \<Rightarrow> nat result" where
  "count_pending_gc s = Ok (length (gc s))"

section \<open>Accessors for tests\<close>

definition all_changes :: "mem_state \<Rightarrow> change_record list" where
  "all_changes s = changes s"

definition changes_for :: "object_id \<Rightarrow> mem_state \<Rightarrow> change_record list" where
  "changes_for i s = filter (\<lambda>c. c_object_id c = i) (all_changes s)"

definition pending_gc :: "mem_state \<Rightarrow> nat" where
  "pending_gc s = length (gc s)"

definition idempotency_key_count :: "mem_state \<Rightarrow> nat" where
  "idempotency_key_count s = length (idempotency s)"

definition record_for :: "idempotency_key \<Rightarrow> mem_state \<Rightarrow> bool" where
  "record_for key s = list_ex (\<lambda>((_, _, k), _). k = key) (idempotency s)"

section \<open>Lemmas\<close>

text \<open>A queue refers to blobs; the order, the leases and the attempts do not matter here.\<close>

definition gr_blob :: "gc_row \<Rightarrow> string \<times> string" where
  "gr_blob g = (gr_blob_backend g, gr_blob_ref g)"

definition gc_blobs :: "mem_state \<Rightarrow> (string \<times> string) set" where
  "gc_blobs s = set (map gr_blob (gc s))"

lemma gc_blobs_enqueue: "gc_blobs (enqueue_gc b r t s) = insert (b, r) (gc_blobs s)"
  by (force simp: gc_blobs_def gr_blob_def enqueue_gc_def list_all_ex_iff)

lemma claim_rows_blobs: "map gr_blob (snd (claim_rows live now n rows)) = map gr_blob rows"
  by (induction live now n rows rule: claim_rows.induct) (auto simp: gr_blob_def split: prod.splits)

lemma claim_rows_claimed:
  "e \<in> set (fst (claim_rows live now n rows)) \<Longrightarrow>
     (ge_blob_backend e, ge_blob_ref e) \<notin> set live \<and>
     (\<exists>g\<in>set rows. same_blob g e \<and> gr_not_before g \<le> now)"
  by (induction live now n rows rule: claim_rows.induct)
    (auto simp: gc_entry_of_def same_blob_def split: prod.splits if_splits)

lemma claim_rows_limit: "length (fst (claim_rows live now n rows)) \<le> n"
  by (induction live now n rows rule: claim_rows.induct) (auto split: prod.splits)

lemma fail_first_blobs: "map gr_blob (fail_first e t rows) = map gr_blob rows"
  by (induction e t rows rule: fail_first.induct) (auto simp: gr_blob_def)

lemma gc_blobs_claim: "gc_blobs (snd (claim_gc_batch now limit s)) = gc_blobs s"
  by (simp add: claim_gc_batch_def gc_blobs_def claim_rows_blobs split_def del: set_map)

lemma gc_blobs_finish: "gc_blobs (snd (finish_gc e s)) = gc_blobs s - {(ge_blob_backend e, ge_blob_ref e)}"
  by (auto simp: finish_gc_def gc_blobs_def same_blob_def gr_blob_def)

lemma gc_blobs_fail: "gc_blobs (snd (fail_gc e err t s)) = gc_blobs s"
  by (simp add: fail_gc_def gc_blobs_def fail_first_blobs del: set_map)

lemma live_blobs_iff: "(b, r) \<in> set (live_blobs s) \<longleftrightarrow>
    (\<exists>so\<in>set (table_values (objects s)). is_live so \<and> blob_of so = Some (b, r))"
  by (force simp: live_blobs_def List.map_filter_def)

lemma expire_rows_get:
  assumes "table_ok t"
  shows "table_ok (snd (expire_rows now n t)) \<and>
    (\<forall>i. table_get (snd (expire_rows now n t)) i = table_get t i \<or>
      (\<exists>u. table_get t i = Some u \<and> upload_overdue now u \<and>
         table_get (snd (expire_rows now n t)) i = Some (u\<lparr>u_state := UsExpired\<rparr>)))"
proof -
  have keys: "map fst (snd (expire_rows now n t)) = map fst t"
    by (induction now n t rule: expire_rows.induct) (auto split: prod.splits)
  have "table_get (snd (expire_rows now n t)) i = table_get t i \<or>
      (\<exists>u. table_get t i = Some u \<and> upload_overdue now u \<and>
         table_get (snd (expire_rows now n t)) i = Some (u\<lparr>u_state := UsExpired\<rparr>))" for i
    by (induction now n t rule: expire_rows.induct) (auto split: prod.splits)
  with keys assms show ?thesis by (simp add: table_ok_def)
qed

lemma enqueue_uploads_frame [frame_simps]:
  "objects (fold (\<lambda>u. enqueue_gc (u_blob_backend u) (u_blob_ref u) now) us s) = objects s"
  "changes (fold (\<lambda>u. enqueue_gc (u_blob_backend u) (u_blob_ref u) now) us s) = changes s"
  "cursors (fold (\<lambda>u. enqueue_gc (u_blob_backend u) (u_blob_ref u) now) us s) = cursors s"
  "idempotency (fold (\<lambda>u. enqueue_gc (u_blob_backend u) (u_blob_ref u) now) us s) = idempotency s"
  "uploads (fold (\<lambda>u. enqueue_gc (u_blob_backend u) (u_blob_ref u) now) us s) = uploads s"
  "purged_through_seq (fold (\<lambda>u. enqueue_gc (u_blob_backend u) (u_blob_ref u) now) us s) = purged_through_seq s"
  "gc_blobs (fold (\<lambda>u. enqueue_gc (u_blob_backend u) (u_blob_ref u) now) us s)
     = gc_blobs s \<union> (\<lambda>u. (u_blob_backend u, u_blob_ref u)) ` set us"
  by (induction us arbitrary: s) (simp_all add: frame_simps gc_blobs_enqueue)

lemma purge_loop_watermark:
  "0 \<le> index \<Longrightarrow> w \<le> snd (purge_loop t index cs p w) \<and>
   snd (purge_loop t index cs p w) \<le> max w (index + int (length cs))"
proof (induction t index cs p w rule: purge_loop.induct)
  case (2 older_than index c cs purged watermark)
  then show ?case by (cases "c_changed_at c < older_than") (auto simp: max_def split: if_splits)
qed simp

text \<open>
  A blob that any live object refers to is never handed to the collector, in any state of
  the store; a batch holds at most the requested number of entries, each due, and claiming
  drops no entry from the queue.
\<close>

theorem claim_gc_batch_safe:
  assumes "claim_gc_batch now limit s = (Ok batch, s')"
  shows "length batch \<le> unat limit \<and> gc_blobs s' = gc_blobs s \<and>
    (\<forall>e \<in> set batch. (\<exists>g\<in>set (gc s). same_blob g e \<and> gr_not_before g \<le> now) \<and>
       (\<forall>so \<in> set (table_values (objects s)).
          is_live so \<longrightarrow> blob_of so \<noteq> Some (ge_blob_backend e, ge_blob_ref e)))"
proof -
  from assms have b: "batch = fst (claim_rows (live_blobs s) now (unat limit) (gc s))"
    and s': "s' = snd (claim_gc_batch now limit s)"
    by (auto simp: claim_gc_batch_def split_def)
  have "gc_blobs s' = gc_blobs s" by (simp add: s' gc_blobs_claim)
  moreover have "length batch \<le> unat limit" unfolding b by (rule claim_rows_limit)
  ultimately show ?thesis
    using claim_rows_claimed [of _ "live_blobs s" now "unat limit" "gc s"] unfolding b live_blobs_iff
    by blast
qed

end
