(* ===== verification/BlobOwnership.thy ===== *)
theory BlobOwnership
  imports MemTreeOps MemMaintenance
begin

text \<open>
  Which blobs the live objects and the collector's queue refer to, and why they never meet:
  every blob belongs to one upload session, a live object refers only to the blob of a
  completed session for that very object, and a blob is queued only when its session is over
  and no live object refers to it. A blob that is retired in this sense stays retired.
\<close>

type_synonym sessions = "upload_id \<Rightarrow> upload_record option"

definition upload_blob :: "upload_record \<Rightarrow> string \<times> string" where
  "upload_blob u = (u_blob_backend u, u_blob_ref u)"

definition sessions_of :: "mem_state \<Rightarrow> sessions" where
  "sessions_of s = table_get (uploads s)"

definition blobs_distinct :: "sessions \<Rightarrow> bool" where
  "blobs_distinct U \<longleftrightarrow>
     (\<forall>i j u v. U i = Some u \<longrightarrow> U j = Some v \<longrightarrow> upload_blob u = upload_blob v \<longrightarrow> i = j)"

definition refers :: "forest \<Rightarrow> string \<times> string \<Rightarrow> bool" where
  "refers L b \<longleftrightarrow> (\<exists>k so. L k = Some so \<and> blob_of so = Some b)"

definition blobs_owned :: "sessions \<Rightarrow> forest \<Rightarrow> bool" where
  "blobs_owned U L \<longleftrightarrow>
     (\<forall>k so b. L k = Some so \<longrightarrow> blob_of so = Some b \<longrightarrow>
        (\<exists>i u. U i = Some u \<and> upload_blob u = b \<and> u_state u = UsCompleted \<and> u_object_id u = k))"

definition retired :: "sessions \<Rightarrow> forest \<Rightarrow> string \<times> string \<Rightarrow> bool" where
  "retired U L b \<longleftrightarrow>
     (\<exists>i u. U i = Some u \<and> upload_blob u = b \<and> is_terminal (u_state u)) \<and> \<not> refers L b"

definition ownership :: "sessions \<Rightarrow> forest \<Rightarrow> (string \<times> string) set \<Rightarrow> bool" where
  "ownership U L G \<longleftrightarrow> blobs_distinct U \<and> blobs_owned U L \<and> (\<forall>b\<in>G. retired U L b)"

lemma upload_move_terminal: "upload_move a b \<Longrightarrow> is_terminal a \<Longrightarrow> is_terminal b"
  by (cases rule: upload_move.cases) (auto simp: is_terminal_def)

text \<open>Sessions move along the state machine and new ones bring blobs of their own.\<close>

definition sessions_grow :: "sessions \<Rightarrow> sessions \<Rightarrow> bool" where
  "sessions_grow U U' \<longleftrightarrow>
     blobs_distinct U' \<and> (\<forall>i u. U i = Some u \<longrightarrow> (\<exists>v. U' i = Some v \<and> upload_evolves u v))"

lemma sessions_grow_terminal:
  assumes "sessions_grow U U'" and "U i = Some u" and "is_terminal (u_state u)"
  obtains v where "U' i = Some v" "upload_blob v = upload_blob u" "is_terminal (u_state v)"
    "u_object_id v = u_object_id u" "u_state u = UsCompleted \<longrightarrow> u_state v = UsCompleted"
proof -
  from assms(1,2) obtain v where v: "U' i = Some v" "upload_evolves u v"
    unfolding sessions_grow_def by blast
  then have m: "upload_move (u_state u) (u_state v)" by (simp add: upload_evolves_def)
  from m assms(3) have "is_terminal (u_state v)" by (rule upload_move_terminal)
  moreover from m have "u_state v = UsCompleted" if "u_state u = UsCompleted"
    using that by (auto elim: upload_move_from_completed simp: is_terminal_def)
  ultimately show thesis using v that by (auto simp: upload_evolves_def upload_blob_def)
qed

text \<open>A step that gives no live object a new blob.\<close>

lemma blobs_owned_shrink:
  assumes "sessions_grow U U'" and "blobs_owned U L"
    and "\<And>k so b. L' k = Some so \<Longrightarrow> blob_of so = Some b \<Longrightarrow> \<exists>so0. L k = Some so0 \<and> blob_of so0 = Some b"
  shows "blobs_owned U' L'"
  unfolding blobs_owned_def
proof (intro allI impI)
  fix k so b assume "L' k = Some so" "blob_of so = Some b"
  with assms(2,3) obtain i u where u: "U i = Some u" "upload_blob u = b" "u_state u = UsCompleted"
    "u_object_id u = k" unfolding blobs_owned_def by blast
  have "is_terminal (u_state u)" using u(3) by (simp add: is_terminal_def)
  from assms(1) u(1) this obtain v where "U' i = Some v" "upload_blob v = upload_blob u"
    "u_object_id v = u_object_id u" "u_state u = UsCompleted \<longrightarrow> u_state v = UsCompleted"
    by (rule sessions_grow_terminal)
  with u show "\<exists>i u. U' i = Some u \<and> upload_blob u = b \<and> u_state u = UsCompleted \<and> u_object_id u = k"
    by auto
qed

lemma retired_shrink:
  assumes "sessions_grow U U'" and "retired U L b"
    and "\<And>k so. L' k = Some so \<Longrightarrow> blob_of so = Some b \<Longrightarrow> refers L b"
  shows "retired U' L' b"
proof -
  from assms(2) obtain i u where u: "U i = Some u" "upload_blob u = b" "is_terminal (u_state u)"
    and n: "\<not> refers L b" unfolding retired_def by blast
  from assms(1) u(1,3) obtain v where "U' i = Some v" "upload_blob v = upload_blob u"
    "is_terminal (u_state v)" by (rule sessions_grow_terminal)
  moreover have "\<not> refers L' b" using n assms(3) unfolding refers_def by blast
  ultimately show ?thesis using u(2) unfolding retired_def by blast
qed

text \<open>A live blob has one live object: two would share the completed session.\<close>

lemma owner_unique:
  assumes "blobs_distinct U" and "blobs_owned U L"
    and "L k = Some a" "blob_of a = Some b" and "L j = Some c" "blob_of c = Some b"
  shows "j = k"
proof -
  from assms(2-4) obtain i u where u: "U i = Some u" "upload_blob u = b" "u_object_id u = k"
    unfolding blobs_owned_def by blast
  from assms(2,5,6) obtain i' u' where u': "U i' = Some u'" "upload_blob u' = b" "u_object_id u' = j"
    unfolding blobs_owned_def by blast
  from assms(1) u u' have "i = i'" unfolding blobs_distinct_def by blast
  with u u' show ?thesis by simp
qed

section \<open>The content commit\<close>

text \<open>
  Committing the blob of a session that is not over: the session completes, the object takes
  the blob, and the blob that it gives up is retired.
\<close>

lemma ownership_commit:
  assumes own: "ownership U L G" and up: "U i = Some u" and st: "\<not> is_terminal (u_state u)"
    and obj: "L k = Some old" "u_object_id u = k" and new: "blob_of so = Some (upload_blob u)"
    and closed: "u_state v = UsCompleted" "upload_blob v = upload_blob u" "u_object_id v = u_object_id u"
    and G': "G' \<subseteq> G \<union> {b. blob_of old = Some b}"
  shows "ownership (U(i \<mapsto> v)) (L(k \<mapsto> so)) G'"
    and "retired U L b \<Longrightarrow> retired (U(i \<mapsto> v)) (L(k \<mapsto> so)) b"
proof -
  let ?U = "U(i \<mapsto> v)" and ?L = "L(k \<mapsto> so)"
  from own have d: "blobs_distinct U" and o: "blobs_owned U L" and g: "\<forall>b\<in>G. retired U L b"
    by (simp_all add: ownership_def)
  have d': "blobs_distinct ?U"
    using d up closed(2) unfolding blobs_distinct_def by (metis fun_upd_apply option.inject)
  have fresh: "upload_blob u \<noteq> b" if "U j = Some w" "upload_blob w = b" "is_terminal (u_state w)" for j w b
    using that up st d unfolding blobs_distinct_def by (metis option.inject)
  have o': "blobs_owned ?U ?L"
    unfolding blobs_owned_def
  proof (intro allI impI)
    fix k' so' b assume l: "?L k' = Some so'" and b: "blob_of so' = Some b"
    show "\<exists>i' w. ?U i' = Some w \<and> upload_blob w = b \<and> u_state w = UsCompleted \<and> u_object_id w = k'"
    proof (cases "k' = k")
      case True
      with l b new closed obj(2) show ?thesis by (intro exI [of _ i] exI [of _ v]) auto
    next
      case False
      with l have "L k' = Some so'" by simp
      with b o obtain i' w where w: "U i' = Some w" "upload_blob w = b" "u_state w = UsCompleted"
        "u_object_id w = k'" unfolding blobs_owned_def by blast
      with up st have "i' \<noteq> i" by (auto simp: is_terminal_def)
      with w show ?thesis by (intro exI [of _ i'] exI [of _ w]) simp
    qed
  qed
  have keep: "retired ?U ?L b" if "retired U L b" for b
  proof -
    from that obtain j w where w: "U j = Some w" "upload_blob w = b" "is_terminal (u_state w)"
      and n: "\<not> refers L b" unfolding retired_def by blast
    with up st have "j \<noteq> i" by auto
    moreover have "\<not> refers ?L b"
      using n fresh [OF w] new unfolding refers_def by (auto split: if_splits)
    ultimately show ?thesis using w unfolding retired_def by auto
  qed
  then show "retired U L b \<Longrightarrow> retired (U(i \<mapsto> v)) (L(k \<mapsto> so)) b" .
  have "retired ?U ?L b" if b: "blob_of old = Some b" for b
  proof -
    from o obj(1) b obtain j w where w: "U j = Some w" "upload_blob w = b" "u_state w = UsCompleted"
      unfolding blobs_owned_def by blast
    then have t: "is_terminal (u_state w)" by (simp add: is_terminal_def)
    with w up st have "j \<noteq> i" by auto
    moreover have "\<not> refers ?L b"
    proof
      assume "refers ?L b"
      then obtain k' so' where r: "?L k' = Some so'" "blob_of so' = Some b" by (auto simp: refers_def)
      show False
      proof (cases "k' = k")
        case True
        with r new fresh [OF w(1,2) t] show False by simp
      next
        case False
        with r owner_unique [OF d o obj(1) b] show False by auto
      qed
    qed
    ultimately show ?thesis using w t unfolding retired_def by auto
  qed
  with keep g G' have "\<forall>b\<in>G'. retired ?U ?L b" by blast
  with d' o' show "ownership ?U ?L G'" by (simp add: ownership_def)
qed

end
