(* ===== verification/MemChanges.thy ===== *)
theory MemChanges
  imports MemState
begin

text \<open>
  The \<open>ChangeStore\<close> of the in-memory metastore. The sequence number of a change is its index
  plus one. A fresh cursor id is a ULID and so an argument. The value \<open>None\<close> is a panic: the
  code expects a materialized cursor to name its successor.
\<close>

text \<open>The changes with a sequence number above the first bound and up to the second.\<close>

definition changes_between :: "int \<Rightarrow> int \<Rightarrow> change_record list \<Rightarrow> change_record list" where
  "changes_between after end_seq chs =
     map snd (filter (\<lambda>(n, c). after < int n + 1 \<and> int n + 1 \<le> end_seq) (enumerate 0 chs))"

definition expired_cursor :: "cursor_row \<Rightarrow> read_changes_req \<Rightarrow> mem_state \<Rightarrow> bool" where
  "expired_cursor row req s \<longleftrightarrow> cr_expires_at row \<le> rc_now req \<or> cr_after_seq row < purged_through_seq s"

text \<open>Where the read starts, and the row of the cursor it reads.\<close>

definition resolve_cursor ::
  "read_changes_req \<Rightarrow> mem_state \<Rightarrow> (int \<times> (cursor_id \<times> cursor_row) option) result" where
  "resolve_cursor req s =
     (case rc_cursor req of
        None \<Rightarrow> Ok (purged_through_seq s, None)
      | Some cursor \<Rightarrow>
          if \<not> cursor_well_formed cursor then Err (InvalidRequest ''Invalid cursor.'')
          else
            (case table_get (cursors s) cursor of
               None \<Rightarrow> Err ChangesCursorExpired
             | Some row \<Rightarrow>
                 if expired_cursor row req s then Err ChangesCursorExpired
                 else Ok (cr_after_seq row, Some (cursor, row))))"

text \<open>Reading a cursor again: the page is the one that was materialized.\<close>

definition reread_page :: "int \<Rightarrow> cursor_row \<Rightarrow> mem_state \<Rightarrow> change_page option" where
  "reread_page after row s =
     (let end_seq = (case cr_page_end_seq row of None \<Rightarrow> after | Some e \<Rightarrow> e) in
      case cr_next_cursor_id row of
        None \<Rightarrow> None
      | Some next_cursor \<Rightarrow>
          Some \<lparr>cpg_items = changes_between after end_seq (changes s), cpg_next_cursor = next_cursor,
                cpg_has_more = (case cr_has_more row of None \<Rightarrow> False | Some h \<Rightarrow> h),
                cpg_lag = nat (max (int (length (changes s)) - end_seq) 0)\<rparr>)"

definition fresh_cursor_row :: "int \<Rightarrow> time \<Rightarrow> cursor_row" where
  "fresh_cursor_row after expires_at =
     \<lparr>cr_after_seq = after, cr_materialized = False, cr_page_limit = None, cr_page_end_seq = None,
      cr_has_more = None, cr_next_cursor_id = None, cr_expires_at = expires_at\<rparr>"

definition materialize_row :: "32 word \<Rightarrow> int \<Rightarrow> bool \<Rightarrow> cursor_id \<Rightarrow> cursor_row \<Rightarrow> cursor_row" where
  "materialize_row limit end_seq has_more next_cursor row =
     row\<lparr>cr_materialized := True, cr_page_limit := Some limit, cr_page_end_seq := Some end_seq,
         cr_has_more := Some has_more, cr_next_cursor_id := Some next_cursor\<rparr>"

text \<open>A first read: the page ends at a snapshot of the feed, and the cursor remembers it.\<close>

definition first_read ::
  "cursor_id \<Rightarrow> read_changes_req \<Rightarrow> int \<Rightarrow> cursor_id option \<Rightarrow> mem_state \<Rightarrow> change_page \<times> mem_state" where
  "first_read next_cursor req after cursor s =
     (let snapshot = int (length (changes s));
          items = take (unat (rc_limit req)) (changes_between after snapshot (changes s));
          end_seq = after + int (length items);
          has_more = (end_seq < snapshot);
          inserted = table_insert next_cursor (fresh_cursor_row end_seq (rc_cursor_expires_at req))
            (cursors s);
          cursors' =
            (case cursor of
               None \<Rightarrow> inserted
             | Some c \<Rightarrow> table_modify c (materialize_row (rc_limit req) end_seq has_more next_cursor) inserted)
      in (\<lparr>cpg_items = items, cpg_next_cursor = next_cursor, cpg_has_more = has_more,
           cpg_lag = nat (max (snapshot - end_seq) 0)\<rparr>,
          s\<lparr>cursors := cursors'\<rparr>))"

definition read_changes ::
  "string \<Rightarrow> read_changes_req \<Rightarrow> mem_state \<Rightarrow> (change_page result \<times> mem_state) option" where
  "read_changes ulid req s =
     (case resolve_cursor req s of
        Inl e \<Rightarrow> Some (Err e, s)
      | Inr (after, materialized) \<Rightarrow>
          (case materialized of
             Some (cursor, row) \<Rightarrow>
               if cr_materialized row then
                 if cr_page_limit row \<noteq> Some (rc_limit req)
                 then Some (Err (InvalidRequest
                   ''This cursor was already read with a different limit.''), s)
                 else map_option (\<lambda>page. (Ok page, s)) (reread_page after row s)
               else
                 (case first_read (generate_cursor_id ulid) req after (Some cursor) s of
                    (page, s') \<Rightarrow> Some (Ok page, s'))
           | None \<Rightarrow>
               (case first_read (generate_cursor_id ulid) req after None s of
                  (page, s') \<Rightarrow> Some (Ok page, s'))))"

section \<open>Slices of the feed\<close>

lemma changes_between_eq:
  assumes "0 \<le> after" and "after \<le> end_seq"
  shows "changes_between after end_seq chs = take (nat (end_seq - after)) (drop (nat after) chs)"
proof -
  have "map snd (filter (\<lambda>(n, c). a \<le> n \<and> n < e) (enumerate k xs)) = take (e - max a k) (drop (a - k) xs)"
    if "k \<le> e" for a e k :: nat and xs :: "change_record list"
    using that
  proof (induction xs arbitrary: k)
    case (Cons x xs)
    show ?case
    proof (cases "k < e")
      case True
      with Cons.IH [of "Suc k"] show ?thesis
        by (cases "a \<le> k"; cases "a = Suc k") (auto simp: Suc_diff_le take_Cons' drop_Cons' max_def)
    next
      case False
      have "filter (\<lambda>(n, c). a \<le> n \<and> n < e) (enumerate k (x # xs)) = []"
        using False by (auto simp: filter_empty_conv in_set_enumerate_eq)
      with False show ?thesis by simp
    qed
  qed simp
  note slice = this [of 0 "nat end_seq" "nat after" chs]
  have "(\<lambda>(n, c :: change_record). after < int n + 1 \<and> int n + 1 \<le> end_seq)
      = (\<lambda>(n, c). nat after \<le> n \<and> n < nat end_seq)"
    using assms by (auto simp: fun_eq_iff)
  then have "changes_between after end_seq chs
      = map snd (filter (\<lambda>(n, c). nat after \<le> n \<and> n < nat end_seq) (enumerate 0 chs))"
    by (simp add: changes_between_def)
  with slice assms show ?thesis by (simp add: nat_diff_distrib)
qed

lemma changes_between_append:
  assumes "0 \<le> after" and "after \<le> end_seq" and "end_seq \<le> int (length chs)"
  shows "changes_between after end_seq (chs @ later) = changes_between after end_seq chs"
  using assms by (simp add: changes_between_eq)

text \<open>Consecutive slices join.\<close>

lemma changes_between_join:
  assumes "0 \<le> a" and "a \<le> b" and "b \<le> c" and "c \<le> int (length chs)"
  shows "changes_between a b chs @ changes_between b c chs = changes_between a c chs"
proof -
  have "take (nat (b - a)) (drop (nat a) chs) @ take (nat (c - b)) (drop (nat (b - a)) (drop (nat a) chs))
      = take (nat (b - a) + nat (c - b)) (drop (nat a) chs)"
    by (simp add: take_add)
  moreover have "nat (b - a) + nat (c - b) = nat (c - a)" "nat (b - a) + nat a = nat b"
    using assms by auto
  ultimately show ?thesis using assms by (simp add: changes_between_eq)
qed

lemma length_changes_between:
  assumes "0 \<le> a" and "a \<le> b" and "b \<le> int (length chs)"
  shows "int (length (changes_between a b chs)) = b - a"
  using assms by (simp add: changes_between_eq)

lemma take_changes_between:
  assumes "0 \<le> a" and "a \<le> b" and "b \<le> int (length chs)"
  shows "take n (changes_between a b chs)
      = changes_between a (min b (a + int n)) chs"
  using assms by (simp add: changes_between_eq min_def) (auto simp: min_def intro!: arg_cong2 [where f = take])

lemma read_changes_frame:
  assumes "read_changes ulid req s = Some (r, s')"
  shows "objects s' = objects s \<and> changes s' = changes s \<and> uploads s' = uploads s \<and> gc s' = gc s
    \<and> idempotency s' = idempotency s \<and> purged_through_seq s' = purged_through_seq s"
  using assms
  by (auto simp: read_changes_def first_read_def Let_def split: sum.splits option.splits if_splits prod.splits)

end
