(* ===== verification/ChangeFeed.thy ===== *)
theory ChangeFeed
  imports Prelude
begin

text \<open>
  The contract of a change feed, as \<open>anystore-metastore/src/changes.rs\<close> promises it to a reader
  that keeps polling: a cursor stands for a position in a log that only grows, a page is the
  slice of the log from that position, and the next cursor stands for the end of the page. From
  it follows what a reader relies on: however reads interleave with other steps, what the
  reader has received is a contiguous part of the log.
\<close>

text \<open>
  A reader that started at a position: what it has received, the state, and the cursor it
  holds. Other steps happen between its reads; a cursor that they drop ends the reading.
\<close>

inductive follows ::
  "('q \<Rightarrow> 'c option \<Rightarrow> 's \<Rightarrow> ('r list \<times> 'c \<times> 's) option) \<Rightarrow> ('q \<Rightarrow> 's \<Rightarrow> bool) \<Rightarrow> ('s \<Rightarrow> 's \<Rightarrow> bool) \<Rightarrow>
   ('s \<Rightarrow> nat) \<Rightarrow> ('s \<Rightarrow> 'c \<Rightarrow> nat option) \<Rightarrow> ('s \<Rightarrow> bool) \<Rightarrow> nat \<Rightarrow> 'r list \<Rightarrow> 's \<Rightarrow> 'c \<Rightarrow> bool"
  for read admissible env start position inv where
  first: "inv s \<Longrightarrow> admissible q s \<Longrightarrow> read q None s = Some (items, c, s') \<Longrightarrow>
    follows read admissible env start position inv (start s) items s' c"
| other: "follows read admissible env start position inv a xs s c \<Longrightarrow> env s s' \<Longrightarrow>
    position s c \<noteq> None \<Longrightarrow> position s' c \<noteq> None \<Longrightarrow>
    follows read admissible env start position inv a xs s' c"
| next_page: "follows read admissible env start position inv a xs s c \<Longrightarrow> admissible q s \<Longrightarrow>
    read q (Some c) s = Some (items, c', s') \<Longrightarrow>
    follows read admissible env start position inv a (xs @ items) s' c'"

locale change_feed =
  fixes read :: "'q \<Rightarrow> 'c option \<Rightarrow> 's \<Rightarrow> ('r list \<times> 'c \<times> 's) option"
    and admissible :: "'q \<Rightarrow> 's \<Rightarrow> bool"
    and env :: "'s \<Rightarrow> 's \<Rightarrow> bool"
    and start :: "'s \<Rightarrow> nat"
    and position :: "'s \<Rightarrow> 'c \<Rightarrow> nat option"
    and log_of :: "'s \<Rightarrow> 'r list"
    and inv :: "'s \<Rightarrow> bool"
  assumes env_inv: "inv s \<Longrightarrow> env s s' \<Longrightarrow> inv s'"
    and env_log: "inv s \<Longrightarrow> env s s' \<Longrightarrow> \<exists>later. log_of s' = log_of s @ later"
    and env_position: "inv s \<Longrightarrow> env s s' \<Longrightarrow> position s c = Some a \<Longrightarrow> position s' c = Some b \<Longrightarrow> b = a"
    and read_position: "inv s \<Longrightarrow> read q (Some c) s = Some (items, c', s') \<Longrightarrow> position s c \<noteq> None"
    and read_page: "inv s \<Longrightarrow> admissible q s \<Longrightarrow> read q cur s = Some (items, c', s') \<Longrightarrow>
        (case cur of None \<Rightarrow> Some (start s) | Some c \<Rightarrow> position s c) = Some a \<Longrightarrow>
        inv s' \<and> log_of s' = log_of s \<and>
        (\<exists>b. a \<le> b \<and> b \<le> length (log_of s) \<and> items = take (b - a) (drop a (log_of s)) \<and>
             (\<forall>b'. position s' c' = Some b' \<longrightarrow> b' = b))"
begin

lemma follows_exact:
  assumes "follows read admissible env start position inv a xs s c"
  shows "inv s \<and> (\<exists>b. a \<le> b \<and> b \<le> length (log_of s) \<and> xs = take (b - a) (drop a (log_of s)) \<and>
           (\<forall>b'. position s c = Some b' \<longrightarrow> b' = b))"
  using assms
proof (induction rule: follows.induct)
  case (first s q items c s')
  from read_page [OF first(1-3)] show ?case by auto
next
  case (other a xs s c s')
  then obtain b where b: "inv s" "a \<le> b" "b \<le> length (log_of s)"
    "xs = take (b - a) (drop a (log_of s))" "\<forall>b'. position s c = Some b' \<longrightarrow> b' = b" by blast
  from env_log [OF b(1) other(2)] obtain later where l: "log_of s' = log_of s @ later" by blast
  from other(3,4) obtain x y where "position s c = Some x" "position s' c = Some y" by blast
  with env_position [OF b(1) other(2)] b(5) have "\<forall>b'. position s' c = Some b' \<longrightarrow> b' = b" by simp
  moreover from l b have "xs = take (b - a) (drop a (log_of s'))" by simp
  moreover from l b(3) have "b \<le> length (log_of s')" by simp
  ultimately show ?case using env_inv [OF b(1) other(2)] b(2) by blast
next
  case (next_page a xs s c q items c' s')
  then obtain b where b: "inv s" "a \<le> b" "b \<le> length (log_of s)"
    "xs = take (b - a) (drop a (log_of s))" "\<forall>b'. position s c = Some b' \<longrightarrow> b' = b" by blast
  from read_position [OF b(1) next_page(3)] b(5) have "position s c = Some b" by auto
  with read_page [OF b(1) next_page(2,3), of b] obtain e where e: "inv s'" "log_of s' = log_of s"
    "b \<le> e" "e \<le> length (log_of s)" "items = take (e - b) (drop b (log_of s))"
    "\<forall>b'. position s' c' = Some b' \<longrightarrow> b' = e" by auto
  have "take (b - a) (drop a (log_of s)) @ take (e - b) (drop b (log_of s))
      = take ((b - a) + (e - b)) (drop a (log_of s))"
    unfolding take_add drop_drop using b(2) by simp
  moreover have "(b - a) + (e - b) = e - a" using b(2) e(3) by simp
  ultimately have "xs @ items = take (e - a) (drop a (log_of s))"
    using b(4) e(5) by simp
  with e b(2) show ?case by (metis le_trans)
qed

end

end
