(* ===== verification/Samples.thy ===== *)
theory Samples
  imports MemMutations MemUploads
begin

text \<open>
  A small concrete history, shared by the witnesses: a folder, a file in it, and two upload
  sessions of which the second replaces the content of the first. Evaluation of the model on it
  is by the simplifier.
\<close>

definition sample_render :: response_renderer where
  "sample_render outcome = Ok (stored_response_json 200 (if mo_no_op outcome then ''same'' else ''new''))"

definition sample_ctx :: "time \<Rightarrow> mutation_context" where
  "sample_ctx now =
     \<lparr>mc_now = now, mc_request_id = ''r'', mc_idempotency_key = None, mc_idempotency = None,
      mc_idempotency_expires_at = now, mc_render = sample_render\<rparr>"

definition sample_folder :: create_object_commit where
  "sample_folder =
     \<lparr>co_id = ''d'', co_kind = Folder, co_name = ''docs'', co_parent_id = ROOT_ID,
      co_content_type = None, co_metadata = JObject [], co_ctx = sample_ctx 1\<rparr>"

definition sample_file :: create_object_commit where
  "sample_file =
     \<lparr>co_id = ''f'', co_kind = File, co_name = ''a.txt'', co_parent_id = ''d'',
      co_content_type = Some ''text/plain'', co_metadata = JObject [], co_ctx = sample_ctx 2\<rparr>"

definition sample_upload :: "string \<Rightarrow> create_upload_record_cmd" where
  "sample_upload u =
     \<lparr>cu_id = u, cu_object_id = ''f'', cu_mode = Single, cu_blob_backend = ''b'', cu_blob_ref = ''x'' @ u,
      cu_expected_size = 3, cu_content_type = ''text/plain'', cu_expected_sha256 = None,
      cu_created_at = 3, cu_expires_at = 100\<rparr>"

definition sample_ready :: "string \<Rightarrow> update_upload_state_cmd" where
  "sample_ready u =
     \<lparr>uu_id = u, uu_state = UsReady, uu_provider_upload_id = None, uu_provider_completed = None\<rparr>"

definition sample_commit :: "string \<Rightarrow> commit_content_cmd" where
  "sample_commit u =
     \<lparr>cm_upload_id = u, cm_object_id = ''f'', cm_if_match = None, cm_blob_backend = ''b'',
      cm_blob_ref = ''x'' @ u, cm_size = 3, cm_content_type = ''text/plain'', cm_sha256 = None,
      cm_gc_not_before = 9, cm_ctx = sample_ctx 4\<rparr>"

definition sample_delete :: delete_object_commit where
  "sample_delete =
     \<lparr>do_id = ''d'', do_if_match = None, do_recursive = True, do_ctx = sample_ctx 5\<rparr>"

definition sample_patch :: patch_object_commit where
  "sample_patch =
     \<lparr>po_id = ''f'', po_if_match = Some 1, po_new_name = Some ''b.txt'', po_new_parent_id = Some ROOT_ID,
      po_metadata_patch = None, po_ctx = sample_ctx 6\<rparr>"

definition sample_tree :: mem_state where
  "sample_tree = snd (create_object sample_file (snd (create_object sample_folder (mem_new 0))))"

definition sample_open :: "string \<Rightarrow> mem_state \<Rightarrow> mem_state" where
  "sample_open u s = snd (update_upload_state (sample_ready u) (snd (create_upload_record (sample_upload u) s)))"

definition sample_first :: mem_state where
  "sample_first = snd (commit_content (sample_commit ''1'') (sample_open ''1'' sample_tree))"

definition sample_second :: mem_state where
  "sample_second = snd (commit_content (sample_commit ''2'') (sample_open ''2'' sample_first))"

text \<open>The states themselves, computed once.\<close>

definition sample_object :: "object_id \<Rightarrow> object_kind \<Rightarrow> string \<Rightarrow> object_id \<Rightarrow> time \<Rightarrow> stored_object" where
  "sample_object i k n p now = created_object
     \<lparr>co_id = i, co_kind = k, co_name = n, co_parent_id = p,
      co_content_type = (if k = File then Some ''text/plain'' else None),
      co_metadata = JObject [], co_ctx = sample_ctx now\<rparr>"

lemma sample_tree_live:
  "live_object sample_tree ''d'' = Some (sample_object ''d'' Folder ''docs'' ROOT_ID 1)"
  "live_object sample_tree ''f'' = Some (sample_object ''f'' File ''a.txt'' ''d'' 2)"
  by code_simp+

lemma sample_fresh:
  "table_get (objects (mem_new 0)) ''d'' = None"
  "table_get (objects (snd (create_object sample_folder (mem_new 0)))) ''f'' = None"
  by code_simp+

end
