(* ===== verification/MemFeed.thy ===== *)
theory MemFeed
  imports MemChanges ChangeFeed Samples
begin

text \<open>
  The in-memory change store keeps the contract of a change feed. A cursor's position is its
  sequence number; the invariant says that a materialized cursor remembers a page inside the
  feed and that the cursor it names as the next one, while it is retained, starts where that
  page ends.
\<close>

definition page_recorded :: "int \<Rightarrow> (string, cursor_row) table \<Rightarrow> cursor_row \<Rightarrow> 32 word \<Rightarrow> int \<Rightarrow> bool \<Rightarrow> cursor_id \<Rightarrow> bool" where
  "page_recorded len t row limit e h nxt \<longleftrightarrow>
     cr_page_limit row = Some limit \<and> cr_page_end_seq row = Some e \<and>
     cr_has_more row = Some h \<and> cr_next_cursor_id row = Some nxt \<and>
     cr_after_seq row \<le> e \<and> e \<le> len \<and> e - cr_after_seq row \<le> int (unat limit) \<and>
     (\<forall>row'. table_get t nxt = Some row' \<longrightarrow> cr_after_seq row' = e)"

definition cursor_row_ok :: "int \<Rightarrow> (string, cursor_row) table \<Rightarrow> cursor_row \<Rightarrow> bool" where
  "cursor_row_ok len t row \<longleftrightarrow>
     0 \<le> cr_after_seq row \<and> cr_after_seq row \<le> len \<and>
     (if cr_materialized row then \<exists>limit e h nxt. page_recorded len t row limit e h nxt
      else cr_next_cursor_id row = None)"

definition cursors_ok :: "mem_state \<Rightarrow> bool" where
  "cursors_ok s \<longleftrightarrow>
     table_ok (cursors s) \<and> 0 \<le> purged_through_seq s \<and> purged_through_seq s \<le> int (length (changes s)) \<and>
     (\<forall>c row. table_get (cursors s) c = Some row \<longrightarrow>
        cursor_row_ok (int (length (changes s))) (cursors s) row)"

text \<open>A cursor id that no retained row has or names.\<close>

definition fresh_cursor :: "cursor_id \<Rightarrow> mem_state \<Rightarrow> bool" where
  "fresh_cursor c s \<longleftrightarrow>
     table_get (cursors s) c = None \<and>
     (\<forall>d row. table_get (cursors s) d = Some row \<longrightarrow> cr_next_cursor_id row \<noteq> Some c)"

section \<open>One read\<close>

lemma materialize_row_after [simp]: "cr_after_seq (materialize_row l e h n row) = cr_after_seq row"
  by (simp add: materialize_row_def)

lemma resolve_cursor_ok:
  assumes "resolve_cursor req s = Ok (after, m)"
  shows "(case rc_cursor req of
       None \<Rightarrow> after = purged_through_seq s \<and> m = None
     | Some c \<Rightarrow> \<exists>row. table_get (cursors s) c = Some row \<and> after = cr_after_seq row \<and> m = Some (c, row)
         \<and> \<not> expired_cursor row req s)"
  using assms by (auto simp: resolve_cursor_def split: option.splits if_splits)

lemma first_read_page:
  assumes "cursors_ok s" and "0 \<le> after" and "after \<le> int (length (changes s))"
    and "first_read nxt req after cur s = (page, s')"
  obtains e where "e = min (int (length (changes s))) (after + int (unat (rc_limit req)))"
    "after \<le> e" "e \<le> int (length (changes s))"
    "cpg_items page = changes_between after e (changes s)" "cpg_next_cursor page = nxt"
    "cpg_has_more page \<longleftrightarrow> e < int (length (changes s))"
    "cursors s' = (case cur of
         None \<Rightarrow> table_insert nxt (fresh_cursor_row e (rc_cursor_expires_at req)) (cursors s)
       | Some c \<Rightarrow> table_modify c (materialize_row (rc_limit req) e (cpg_has_more page) nxt)
           (table_insert nxt (fresh_cursor_row e (rc_cursor_expires_at req)) (cursors s)))"
proof -
  define len where "len = int (length (changes s))"
  define e where "e = min len (after + int (unat (rc_limit req)))"
  have items: "take (unat (rc_limit req)) (changes_between after len (changes s))
      = changes_between after e (changes s)"
    unfolding e_def using assms(2,3) len_def by (intro take_changes_between) simp_all
  have bounds: "after \<le> e" "e \<le> len" using assms(3) by (simp_all add: e_def len_def)
  have end_seq: "after + int (length (changes_between after e (changes s))) = e"
    using assms(2) bounds unfolding len_def by (subst length_changes_between) auto
  have "first_read nxt req after cur s =
      (\<lparr>cpg_items = changes_between after e (changes s), cpg_next_cursor = nxt,
        cpg_has_more = (e < len), cpg_lag = nat (max (len - e) 0)\<rparr>,
       s\<lparr>cursors := (case cur of
         None \<Rightarrow> table_insert nxt (fresh_cursor_row e (rc_cursor_expires_at req)) (cursors s)
       | Some c \<Rightarrow> table_modify c (materialize_row (rc_limit req) e (e < len) nxt)
           (table_insert nxt (fresh_cursor_row e (rc_cursor_expires_at req)) (cursors s)))\<rparr>)"
    unfolding first_read_def Let_def len_def [symmetric] items end_seq ..
  with assms(4) have page: "page = \<lparr>cpg_items = changes_between after e (changes s), cpg_next_cursor = nxt,
        cpg_has_more = (e < len), cpg_lag = nat (max (len - e) 0)\<rparr>"
    and curs: "cursors s' = (case cur of
         None \<Rightarrow> table_insert nxt (fresh_cursor_row e (rc_cursor_expires_at req)) (cursors s)
       | Some c \<Rightarrow> table_modify c (materialize_row (rc_limit req) e (e < len) nxt)
           (table_insert nxt (fresh_cursor_row e (rc_cursor_expires_at req)) (cursors s)))"
    by auto
  have "cpg_has_more page = (e < len)" by (simp add: page)
  with curs bounds page show thesis
    by (intro that [of e]) (simp_all only: e_def len_def change_page.simps)
qed

lemma cursor_row_ok_cong:
  assumes "cursor_row_ok len t row" and "len \<le> len'"
    and "\<And>nxt r'. cr_next_cursor_id row = Some nxt \<Longrightarrow> table_get t' nxt = Some r' \<Longrightarrow>
           \<exists>r. table_get t nxt = Some r \<and> cr_after_seq r' = cr_after_seq r"
  shows "cursor_row_ok len' t' row"
proof (cases "cr_materialized row")
  case True
  with assms(1) obtain limit e h nxt where r: "page_recorded len t row limit e h nxt"
    by (auto simp: cursor_row_ok_def)
  have "page_recorded len' t' row limit e h nxt"
    using r assms(2) assms(3) [of nxt] unfolding page_recorded_def by auto
  with True assms(1,2) show ?thesis unfolding cursor_row_ok_def by auto
next
  case False
  with assms(1,2) show ?thesis by (simp add: cursor_row_ok_def)
qed

text \<open>Publishing a fresh cursor at the end of a page keeps the invariant.\<close>

lemma cursors_ok_publish:
  assumes inv: "cursors_ok s" and fresh: "fresh_cursor nxt s"
    and e: "0 \<le> e" "e \<le> int (length (changes s))"
  shows "cursors_ok (s\<lparr>cursors := table_insert nxt (fresh_cursor_row e t) (cursors s)\<rparr>)"
proof -
  let ?t = "table_insert nxt (fresh_cursor_row e t) (cursors s)" and ?len = "int (length (changes s))"
  have "cursor_row_ok ?len ?t row" if g: "table_get ?t c = Some row" for c row
  proof (cases "c = nxt")
    case True
    with g have r: "row = fresh_cursor_row e t" by (simp add: table_simps)
    show ?thesis unfolding r using e by (simp add: cursor_row_ok_def fresh_cursor_row_def)
  next
    case False
    with g have old: "table_get (cursors s) c = Some row" by (simp add: table_simps)
    with inv have ok: "cursor_row_ok ?len (cursors s) row" by (simp add: cursors_ok_def)
    from old fresh have ne: "cr_next_cursor_id row \<noteq> Some nxt" by (auto simp: fresh_cursor_def)
    show ?thesis
    proof (rule cursor_row_ok_cong [OF ok order_refl])
      fix n r' assume n: "cr_next_cursor_id row = Some n" and r': "table_get ?t n = Some r'"
      from n ne have "n \<noteq> nxt" by blast
      with r' have "table_get (cursors s) n = Some r'" by (simp add: table_simps)
      then show "\<exists>r. table_get (cursors s) n = Some r \<and> cr_after_seq r' = cr_after_seq r" by blast
    qed
  qed
  with inv show ?thesis by (simp add: cursors_ok_def)
qed

lemma cursors_ok_materialize:
  assumes inv: "cursors_ok s" and row: "table_get (cursors s) c = Some row"
    and nxt: "\<And>r. table_get (cursors s) nxt = Some r \<Longrightarrow> cr_after_seq r = e"
    and e: "cr_after_seq row \<le> e" "e \<le> int (length (changes s))"
      "e - cr_after_seq row \<le> int (unat limit)" and ne: "c \<noteq> nxt"
  shows "cursors_ok (s\<lparr>cursors := table_modify c (materialize_row limit e h nxt) (cursors s)\<rparr>)"
proof -
  let ?t = "table_modify c (materialize_row limit e h nxt) (cursors s)" and ?len = "int (length (changes s))"
  have after: "\<exists>r. table_get (cursors s) d = Some r \<and> cr_after_seq r' = cr_after_seq r"
    if "table_get ?t d = Some r'" for d r'
    using that by (auto simp: table_simps materialize_row_def split: if_splits)
  have "cursor_row_ok ?len ?t r" if g: "table_get ?t d = Some r" for d r
  proof (cases "d = c")
    case True
    from inv row have old: "0 \<le> cr_after_seq row" "cr_after_seq row \<le> ?len"
      by (auto simp: cursors_ok_def cursor_row_ok_def)
    from True g row have r: "r = materialize_row limit e h nxt row" by (simp add: table_simps)
    moreover have "cr_after_seq r' = e" if "table_get ?t nxt = Some r'" for r'
      using after [OF that] nxt by auto
    ultimately have "page_recorded ?len ?t r limit e h nxt"
      using e by (simp add: page_recorded_def materialize_row_def)
    moreover have "cr_materialized r" "cr_after_seq r = cr_after_seq row"
      by (simp_all add: r materialize_row_def)
    ultimately show ?thesis using old unfolding cursor_row_ok_def by auto
  next
    case False
    with g have "table_get (cursors s) d = Some r" by (simp add: table_simps)
    with inv have "cursor_row_ok ?len (cursors s) r" by (simp add: cursors_ok_def)
    then show ?thesis
      by (rule cursor_row_ok_cong) (use after in auto)
  qed
  with inv show ?thesis by (simp add: cursors_ok_def)
qed

lemma cursors_ok_cong:
  "cursors s' = cursors s \<Longrightarrow> changes s' = changes s \<Longrightarrow>
   purged_through_seq s' = purged_through_seq s \<Longrightarrow> cursors_ok s' = cursors_ok s"
  by (simp add: cursors_ok_def)

text \<open>The position a request reads from.\<close>

definition read_position :: "read_changes_req \<Rightarrow> mem_state \<Rightarrow> int option" where
  "read_position req s =
     (case rc_cursor req of
        None \<Rightarrow> Some (purged_through_seq s)
      | Some c \<Rightarrow> map_option cr_after_seq (table_get (cursors s) c))"

lemma read_changes_cases:
  assumes "read_changes ulid req s = Some (Ok page, s')"
  obtains (reread) c row where "rc_cursor req = Some c" "table_get (cursors s) c = Some row"
      "\<not> expired_cursor row req s" "cr_materialized row" "cr_page_limit row = Some (rc_limit req)"
      "reread_page (cr_after_seq row) row s = Some page" "s' = s"
  | (first_cursor) c row where "rc_cursor req = Some c" "table_get (cursors s) c = Some row"
      "\<not> expired_cursor row req s" "\<not> cr_materialized row"
      "first_read (generate_cursor_id ulid) req (cr_after_seq row) (Some c) s = (page, s')"
  | (oldest) "rc_cursor req = None"
      "first_read (generate_cursor_id ulid) req (purged_through_seq s) None s = (page, s')"
proof (cases "resolve_cursor req s")
  case (Inl e)
  with assms show ?thesis by (simp add: read_changes_def)
next
  case (Inr am)
  obtain after m where am: "am = (after, m)" by (cases am)
  note res = resolve_cursor_ok [of req s after m]
  show ?thesis
  proof (cases "rc_cursor req")
    case None
    with Inr am res have "after = purged_through_seq s" "m = None" by simp_all
    with None Inr am assms show ?thesis
      by (intro oldest) (simp_all add: read_changes_def split: prod.splits)
  next
    case (Some c)
    with Inr am res obtain row where row: "table_get (cursors s) c = Some row"
      "after = cr_after_seq row" "m = Some (c, row)" "\<not> expired_cursor row req s" by auto
    show ?thesis
    proof (cases "cr_materialized row")
      case True
      with Inr am row assms have "cr_page_limit row = Some (rc_limit req)"
        "reread_page (cr_after_seq row) row s = Some page" "s' = s"
        by (auto simp: read_changes_def split: if_splits)
      with Some row True show ?thesis by (intro reread)
    next
      case False
      with Inr am row assms have "first_read (generate_cursor_id ulid) req (cr_after_seq row) (Some c) s = (page, s')"
        by (auto simp: read_changes_def split: prod.splits)
      with Some row False show ?thesis by (intro first_cursor)
    qed
  qed
qed

lemma reread_recorded:
  assumes "cursors_ok s" and "table_get (cursors s) c = Some row" and "cr_materialized row"
    and "reread_page (cr_after_seq row) row s = Some page"
  obtains e where "0 \<le> cr_after_seq row" "cr_after_seq row \<le> e" "e \<le> int (length (changes s))"
    "cr_page_end_seq row = Some e" "cpg_items page = changes_between (cr_after_seq row) e (changes s)"
    "cr_next_cursor_id row = Some (cpg_next_cursor page)" "cr_has_more row = Some (cpg_has_more page)"
    "\<forall>row'. table_get (cursors s) (cpg_next_cursor page) = Some row' \<longrightarrow> cr_after_seq row' = e"
proof -
  from assms(1,2) have "cursor_row_ok (int (length (changes s))) (cursors s) row"
    by (simp add: cursors_ok_def)
  with assms(3) obtain limit e h nxt where
    r: "page_recorded (int (length (changes s))) (cursors s) row limit e h nxt" and z: "0 \<le> cr_after_seq row"
    by (auto simp: cursor_row_ok_def)
  with assms(4) show thesis
    by (intro that [of e]) (auto simp: page_recorded_def reread_page_def)
qed

text \<open>
  One successful read: the invariant is kept, no retained cursor changes its position, the
  page is the slice of the feed from the position read, and the next cursor stands at its end.
\<close>

lemma read_changes_step:
  assumes inv: "cursors_ok s" and fresh: "fresh_cursor (generate_cursor_id ulid) s"
    and read: "read_changes ulid req s = Some (Ok page, s')"
    and a: "read_position req s = Some a"
  shows "cursors_ok s' \<and> changes s' = changes s \<and>
    (\<forall>c row row'. table_get (cursors s) c = Some row \<longrightarrow> table_get (cursors s') c = Some row' \<longrightarrow>
       cr_after_seq row' = cr_after_seq row) \<and>
    (\<exists>e. 0 \<le> a \<and> a \<le> e \<and> e \<le> int (length (changes s)) \<and>
       cpg_items page = changes_between a e (changes s) \<and>
       (\<forall>row'. table_get (cursors s') (cpg_next_cursor page) = Some row' \<longrightarrow> cr_after_seq row' = e))"
  using read
proof (cases rule: read_changes_cases)
  case (reread c row)
  from inv reread(2,4,6) show ?thesis
    by (rule reread_recorded) (use a reread inv in \<open>auto simp: read_position_def\<close>)
next
  case (first_cursor c row)
  let ?n = "generate_cursor_id ulid"
  from fresh have fn: "table_get (cursors s) ?n = None" by (simp add: fresh_cursor_def)
  from inv first_cursor(2) have b: "0 \<le> cr_after_seq row" "cr_after_seq row \<le> int (length (changes s))"
    by (auto simp: cursors_ok_def cursor_row_ok_def)
  from inv b first_cursor(5) obtain e where
    e: "e = min (int (length (changes s))) (cr_after_seq row + int (unat (rc_limit req)))"
      "cr_after_seq row \<le> e" "e \<le> int (length (changes s))"
      "cpg_items page = changes_between (cr_after_seq row) e (changes s)" "cpg_next_cursor page = ?n"
      "cursors s' = table_modify c (materialize_row (rc_limit req) e (cpg_has_more page) ?n)
         (table_insert ?n (fresh_cursor_row e (rc_cursor_expires_at req)) (cursors s))"
    by (rule first_read_page) simp
  let ?s1 = "s\<lparr>cursors := table_insert ?n (fresh_cursor_row e (rc_cursor_expires_at req)) (cursors s)\<rparr>"
  from fn first_cursor(2) have ne: "c \<noteq> ?n" by auto
  have "cursors_ok ?s1" using inv fresh b(1) e(2,3) by (intro cursors_ok_publish) auto
  moreover have "e - cr_after_seq row \<le> int (unat (rc_limit req))" using e(1) by linarith
  ultimately have "cursors_ok (?s1\<lparr>cursors := table_modify c
      (materialize_row (rc_limit req) e (cpg_has_more page) ?n) (cursors ?s1)\<rparr>)"
    using ne first_cursor(2) e(2,3)
    by (intro cursors_ok_materialize [where row = row]) (auto simp: table_simps fresh_cursor_row_def)
  moreover have frame: "changes s' = changes s" "purged_through_seq s' = purged_through_seq s"
    using read_changes_frame [OF read] by simp_all
  ultimately have cok: "cursors_ok s'"
    by (subst cursors_ok_cong [where s = "?s1\<lparr>cursors := table_modify c
      (materialize_row (rc_limit req) e (cpg_has_more page) ?n) (cursors ?s1)\<rparr>"]) (simp_all add: e(6))
  have nxt: "cr_after_seq row' = e"
    if "table_get (cursors s') ?n = Some row'" for row'
    using that ne by (auto simp: e(6) table_simps fresh_cursor_row_def)
  have pos: "cr_after_seq row'' = cr_after_seq row'"
    if "table_get (cursors s) d = Some row'" "table_get (cursors s') d = Some row''" for d row' row''
  proof -
    from that(1) fn have d: "d \<noteq> ?n" by auto
    have "table_get (cursors s') d = (if d = c then map_option (materialize_row (rc_limit req) e
        (cpg_has_more page) ?n) (table_get (cursors s) d) else table_get (cursors s) d)"
      using d ne by (simp only: e(6) table_get_modify table_get_insert if_False simp_thms cong: if_cong)
    with that show ?thesis by (auto split: if_splits)
  qed
  have aeq: "a = cr_after_seq row" using a first_cursor(1,2) by (simp add: read_position_def)
  show ?thesis
    using cok frame(1) pos nxt b(1) e(2-4) unfolding e(5) aeq by (intro conjI allI impI exI [of _ e])
next
  case oldest
  let ?n = "generate_cursor_id ulid"
  from fresh have fn: "table_get (cursors s) ?n = None" by (simp add: fresh_cursor_def)
  from inv have b: "0 \<le> purged_through_seq s" "purged_through_seq s \<le> int (length (changes s))"
    by (auto simp: cursors_ok_def)
  from inv b oldest(2) obtain e where
    m: "e = min (int (length (changes s))) (purged_through_seq s + int (unat (rc_limit req)))" and
    e: "purged_through_seq s \<le> e" "e \<le> int (length (changes s))"
      "cpg_items page = changes_between (purged_through_seq s) e (changes s)" "cpg_next_cursor page = ?n"
      "cursors s' = table_insert ?n (fresh_cursor_row e (rc_cursor_expires_at req)) (cursors s)"
    by (rule first_read_page) simp
  have frame: "changes s' = changes s" "purged_through_seq s' = purged_through_seq s"
    using read_changes_frame [OF read] by simp_all
  have "cursors_ok (s\<lparr>cursors := table_insert ?n (fresh_cursor_row e (rc_cursor_expires_at req)) (cursors s)\<rparr>)"
    using inv fresh b(1) e(1,2) by (intro cursors_ok_publish) auto
  then have cok: "cursors_ok s'"
    by (subst cursors_ok_cong [where s = "s\<lparr>cursors := table_insert ?n
      (fresh_cursor_row e (rc_cursor_expires_at req)) (cursors s)\<rparr>"]) (simp_all add: e(5) frame)
  have nxt: "cr_after_seq row' = e" if "table_get (cursors s') ?n = Some row'" for row'
    using that by (auto simp: e(5) table_simps fresh_cursor_row_def)
  have pos: "cr_after_seq row'' = cr_after_seq row'"
    if "table_get (cursors s) d = Some row'" "table_get (cursors s') d = Some row''" for d row' row''
    using that fn by (cases "d = ?n") (auto simp: e(5) table_simps)
  have aeq: "a = purged_through_seq s" using a oldest(1) by (simp add: read_position_def)
  show ?thesis
    using cok frame(1) pos nxt b(1) e(1-3) unfolding e(4) aeq by (intro conjI allI impI exI [of _ e])
qed

section \<open>The contract\<close>

record read_params =
  rp_ulid :: string
  rp_limit :: "32 word"
  rp_now :: time
  rp_expires_at :: time

definition read_request :: "read_params \<Rightarrow> cursor_id option \<Rightarrow> read_changes_req" where
  "read_request q c =
     \<lparr>rc_cursor = c, rc_limit = rp_limit q, rc_now = rp_now q, rc_cursor_expires_at = rp_expires_at q\<rparr>"

definition feed_read ::
  "read_params \<Rightarrow> cursor_id option \<Rightarrow> mem_state \<Rightarrow> (change_record list \<times> cursor_id \<times> mem_state) option" where
  "feed_read q c s =
     (case read_changes (rp_ulid q) (read_request q c) s of
        Some (Inr page, s') \<Rightarrow> Some (cpg_items page, cpg_next_cursor page, s')
      | _ \<Rightarrow> None)"

definition feed_fresh :: "read_params \<Rightarrow> mem_state \<Rightarrow> bool" where
  "feed_fresh q s \<longleftrightarrow> fresh_cursor (generate_cursor_id (rp_ulid q)) s"

definition feed_start :: "mem_state \<Rightarrow> nat" where
  "feed_start s = nat (purged_through_seq s)"

definition feed_position :: "mem_state \<Rightarrow> cursor_id \<Rightarrow> nat option" where
  "feed_position s c = map_option (\<lambda>row. nat (cr_after_seq row)) (table_get (cursors s) c)"

text \<open>What any other step may do to the feed: append changes, drop or add cursors, raise the watermark.\<close>

definition feed_env :: "mem_state \<Rightarrow> mem_state \<Rightarrow> bool" where
  "feed_env s s' \<longleftrightarrow>
     cursors_ok s' \<and> (\<exists>later. changes s' = changes s @ later) \<and>
     (\<forall>c row row'. table_get (cursors s) c = Some row \<longrightarrow> table_get (cursors s') c = Some row' \<longrightarrow>
        cr_after_seq row' = cr_after_seq row)"

lemma feed_read_position:
  assumes "feed_read q cur s = Some (items, c', s')"
  obtains page a where "read_changes (rp_ulid q) (read_request q cur) s = Some (Ok page, s')"
    "items = cpg_items page" "c' = cpg_next_cursor page" "read_position (read_request q cur) s = Some a"
proof -
  from assms obtain page where p: "read_changes (rp_ulid q) (read_request q cur) s = Some (Ok page, s')"
    "items = cpg_items page" "c' = cpg_next_cursor page"
    by (auto simp: feed_read_def split: option.splits prod.splits sum.splits)
  from p(1) have "\<exists>a. read_position (read_request q cur) s = Some a"
    by (cases rule: read_changes_cases) (auto simp: read_position_def)
  with p that show thesis by blast
qed

interpretation mem_feed: change_feed feed_read feed_fresh feed_env feed_start feed_position changes cursors_ok
proof unfold_locales
  fix s s' :: mem_state and c :: cursor_id and a b :: nat
  assume "cursors_ok s" and env: "feed_env s s'"
  then show "cursors_ok s'" by (simp add: feed_env_def)
  from env show "\<exists>later. changes s' = changes s @ later" by (simp add: feed_env_def)
  assume "feed_position s c = Some a" "feed_position s' c = Some b"
  then obtain row row' where r: "table_get (cursors s) c = Some row" "a = nat (cr_after_seq row)"
    "table_get (cursors s') c = Some row'" "b = nat (cr_after_seq row')"
    by (auto simp: feed_position_def)
  with env have "cr_after_seq row' = cr_after_seq row" unfolding feed_env_def by blast
  with r show "b = a" by simp
next
  fix s s' :: mem_state and q c items c'
  assume "feed_read q (Some c) s = Some (items, c', s')"
  then show "feed_position s c \<noteq> None"
    by (rule feed_read_position) (auto simp: read_position_def read_request_def feed_position_def)
next
  fix s s' :: mem_state and q cur items c' and a :: nat
  assume inv: "cursors_ok s" and fresh: "feed_fresh q s" and read: "feed_read q cur s = Some (items, c', s')"
    and a: "(case cur of None \<Rightarrow> Some (feed_start s) | Some c \<Rightarrow> feed_position s c) = Some a"
  from read obtain page x where p: "read_changes (rp_ulid q) (read_request q cur) s = Some (Ok page, s')"
    "items = cpg_items page" "c' = cpg_next_cursor page" and x: "read_position (read_request q cur) s = Some x"
    by (rule feed_read_position)
  from fresh have "fresh_cursor (generate_cursor_id (rp_ulid q)) s" by (simp add: feed_fresh_def)
  from read_changes_step [OF inv this p(1) x] obtain e where
    step: "cursors_ok s'" "changes s' = changes s" "0 \<le> x" "x \<le> e" "e \<le> int (length (changes s))"
      "cpg_items page = changes_between x e (changes s)"
      "\<forall>row'. table_get (cursors s') (cpg_next_cursor page) = Some row' \<longrightarrow> cr_after_seq row' = e"
    by blast
  from a x have ax: "a = nat x"
    by (auto simp: feed_start_def feed_position_def read_position_def read_request_def split: option.splits)
  have "items = take (nat e - a) (drop a (changes s))"
    using step(3,4,6) p(2) ax by (simp add: changes_between_eq nat_diff_distrib)
  moreover have "a \<le> nat e" "nat e \<le> length (changes s)" using step ax by auto
  moreover have "\<forall>b'. feed_position s' c' = Some b' \<longrightarrow> b' = nat e"
    using step(7) p(3) by (auto simp: feed_position_def)
  ultimately show "cursors_ok s' \<and> changes s' = changes s \<and>
      (\<exists>b. a \<le> b \<and> b \<le> length (changes s) \<and> items = take (b - a) (drop a (changes s)) \<and>
        (\<forall>b'. feed_position s' c' = Some b' \<longrightarrow> b' = b))"
    using step(1,2) by blast
qed

text \<open>
  C6: a client that polls the change feed by following cursors receives every change exactly
  once and in commit order, however its reads - repeated ones included - interleave with
  mutations, purges and the reads of other clients: what it has received so far is the
  contiguous part of the feed from its starting point, with no gap and no duplicate.
\<close>

theorem feed_follower_exact:
  assumes "follows feed_read feed_fresh feed_env feed_start feed_position cursors_ok a received s c"
  shows "\<exists>b. a \<le> b \<and> b \<le> length (changes s) \<and> received = take (b - a) (drop a (changes s)) \<and>
           (\<forall>b'. feed_position s c = Some b' \<longrightarrow> b' = b)"
  using mem_feed.follows_exact [OF assms] by blast

definition sample_poll :: "string \<Rightarrow> read_params" where
  "sample_poll u = \<lparr>rp_ulid = u, rp_limit = 1, rp_now = 7, rp_expires_at = 99\<rparr>"

lemma sample_cursors: "cursors_ok sample_tree" "feed_fresh (sample_poll u) sample_tree"
proof -
  have c: "cursors sample_tree = []" "purged_through_seq sample_tree = 0" by code_simp+
  then show "cursors_ok sample_tree" "feed_fresh (sample_poll u) sample_tree"
    by (simp_all add: cursors_ok_def feed_fresh_def fresh_cursor_def)
qed

theorem feed_follower_exact_witness:
  "\<exists>s c x. follows feed_read feed_fresh feed_env feed_start feed_position cursors_ok 0 [x] s c
     \<and> c_action x = Created \<and> (\<exists>b\<le>length (changes s). [x] = take b (changes s))"
proof -
  have start: "feed_start sample_tree = 0" by code_simp
  have "\<exists>x s c. feed_read (sample_poll ''u'') None sample_tree = Some ([x], c, s) \<and> c_action x = Created"
  proof -
    have "map_option (\<lambda>(xs, c, s). map c_action xs) (feed_read (sample_poll ''u'') None sample_tree) = Some [Created]"
      by code_simp
    then obtain xs c s where r: "feed_read (sample_poll ''u'') None sample_tree = Some (xs, c, s)"
      "map c_action xs = [Created]" by auto
    then obtain x where "xs = [x]" "c_action x = Created" by (cases xs) auto
    with r show ?thesis by blast
  qed
  then obtain x s c where r: "feed_read (sample_poll ''u'') None sample_tree = Some ([x], c, s)"
    and x: "c_action x = Created" by blast
  have "follows feed_read feed_fresh feed_env feed_start feed_position cursors_ok
      (feed_start sample_tree) [x] s c"
    using sample_cursors r by (rule follows.first)
  then have f: "follows feed_read feed_fresh feed_env feed_start feed_position cursors_ok 0 [x] s c"
    by (simp only: start)
  from feed_follower_exact [OF f] obtain b where "b \<le> length (changes s)" "[x] = take b (changes s)"
    by auto
  with f x show ?thesis by blast
qed

text \<open>
  A materialized page is stable: once a cursor has been read, reading it again with the
  same limit returns the same items, the same next cursor and the same flag, without changing
  the store, whatever has been appended in between - as long as the cursor is retained, not
  expired and not behind the watermark. Another limit is refused.
\<close>

theorem read_changes_replay:
  assumes "cursors_ok s" and "fresh_cursor (generate_cursor_id ulid) s"
    and "rc_cursor req = Some c" and "read_changes ulid req s = Some (Ok page, s1)"
    and "changes s2 = changes s1 @ later" and "table_get (cursors s2) c = table_get (cursors s1) c"
    and "rc_cursor req2 = Some c" and "\<And>row. table_get (cursors s2) c = Some row \<Longrightarrow> \<not> expired_cursor row req2 s2"
  shows "if rc_limit req2 = rc_limit req
         then \<exists>page2. read_changes ulid2 req2 s2 = Some (Ok page2, s2) \<and> cpg_items page2 = cpg_items page
           \<and> cpg_next_cursor page2 = cpg_next_cursor page \<and> cpg_has_more page2 = cpg_has_more page
         else \<exists>msg. read_changes ulid2 req2 s2 = Some (Err (InvalidRequest msg), s2)"
proof -
  from assms(4) have wf: "cursor_well_formed c"
    by (cases "cursor_well_formed c") (simp_all add: read_changes_def resolve_cursor_def assms(3))
  obtain row e where row: "table_get (cursors s1) c = Some row" "cr_materialized row"
      "cr_page_limit row = Some (rc_limit req)" "cr_page_end_seq row = Some e"
      "cr_next_cursor_id row = Some (cpg_next_cursor page)" "cr_has_more row = Some (cpg_has_more page)"
    and e: "0 \<le> cr_after_seq row" "cr_after_seq row \<le> e" "e \<le> int (length (changes s))"
      "cpg_items page = changes_between (cr_after_seq row) e (changes s)"
    using assms(4)
  proof (cases rule: read_changes_cases)
    case (reread d row)
    from assms(1) reread(2,4,6) show thesis
      by (rule reread_recorded) (use reread assms(3) that in auto)
  next
    case (first_cursor d row)
    let ?n = "generate_cursor_id ulid"
    from assms(1) first_cursor(2) have b: "0 \<le> cr_after_seq row" "cr_after_seq row \<le> int (length (changes s))"
      by (auto simp: cursors_ok_def cursor_row_ok_def)
    from assms(1) b first_cursor(5) obtain e where
      m: "e = min (int (length (changes s))) (cr_after_seq row + int (unat (rc_limit req)))" and
      e: "cr_after_seq row \<le> e" "e \<le> int (length (changes s))"
        "cpg_items page = changes_between (cr_after_seq row) e (changes s)" "cpg_next_cursor page = ?n"
        "cursors s1 = table_modify d (materialize_row (rc_limit req) e (cpg_has_more page) ?n)
           (table_insert ?n (fresh_cursor_row e (rc_cursor_expires_at req)) (cursors s))"
      by (rule first_read_page) simp
    from assms(2) first_cursor(2) have "d \<noteq> ?n" by (auto simp: fresh_cursor_def)
    with e(5) first_cursor(1,2) assms(3)
    have "table_get (cursors s1) c = Some (materialize_row (rc_limit req) e (cpg_has_more page) ?n row)"
      by (simp add: table_simps)
    then show thesis
      by (rule that) (use e b in \<open>simp_all add: materialize_row_def\<close>)
  next
    case oldest
    with assms(3) show thesis by simp
  qed
  have frame: "changes s1 = changes s" using read_changes_frame [OF assms(4)] by simp
  have "table_get (cursors s2) c = Some row" using row(1) assms(6) by simp
  with assms(7,8) wf have res: "resolve_cursor req2 s2 = Ok (cr_after_seq row, Some (c, row))"
    by (simp add: resolve_cursor_def)
  have "changes_between (cr_after_seq row) e (changes s2) = cpg_items page"
    using e frame assms(5) by (simp add: changes_between_append)
  with res row show ?thesis
    by (auto simp: read_changes_def reread_page_def)
qed

definition sample_cursor :: cursor_id where
  "sample_cursor = ''chgcur_u''"

definition sample_polled :: mem_state where
  "sample_polled = (case feed_read (sample_poll ''u'') None sample_tree of Some (_, _, s) \<Rightarrow> s | None \<Rightarrow> sample_tree)"

definition sample_request :: read_changes_req where
  "sample_request = read_request (sample_poll ''v'') (Some sample_cursor)"

theorem read_changes_replay_witness:
  "\<exists>page s1 page2. read_changes ''v'' sample_request sample_polled = Some (Ok page, s1)
     \<and> read_changes ''w'' sample_request (s1\<lparr>changes := changes s1 @ take 1 (changes s1)\<rparr>)
         = Some (Ok page2, s1\<lparr>changes := changes s1 @ take 1 (changes s1)\<rparr>)
     \<and> cpg_items page2 = cpg_items page"
proof -
  let ?row = "fresh_cursor_row 1 99"
  have cs: "cursors sample_polled = [(sample_cursor, ?row)]" "length (changes sample_polled) = 2"
    "purged_through_seq sample_polled = 0" by code_simp+
  have inv: "cursors_ok sample_polled"
    by (simp add: cursors_ok_def cs table_ok_def cursor_row_ok_def fresh_cursor_row_def)
  have fresh: "fresh_cursor (generate_cursor_id ''v'') sample_polled"
  proof -
    have "generate_cursor_id ''v'' \<noteq> sample_cursor" by code_simp
    then show ?thesis by (auto simp: fresh_cursor_def cs fresh_cursor_row_def split: if_splits)
  qed
  have "map_option (\<lambda>(r, s). (is_ok r, map (\<lambda>(c, row). (c, cr_expires_at row, cr_after_seq row)) (cursors s),
      purged_through_seq s)) (read_changes ''v'' sample_request sample_polled)
      = Some (True, [(sample_cursor, 99, 1), (''chgcur_v'', 99, 2)], 0)"
    by code_simp
  then obtain page s1 where r: "read_changes ''v'' sample_request sample_polled = Some (Ok page, s1)"
    and c: "map (\<lambda>(c, row). (c, cr_expires_at row, cr_after_seq row)) (cursors s1)
        = [(sample_cursor, 99, 1), (''chgcur_v'', 99, 2)]" "purged_through_seq s1 = 0"
    by (auto simp: is_ok_iff)
  let ?s2 = "s1\<lparr>changes := changes s1 @ take 1 (changes s1)\<rparr>"
  from c(1) obtain row rest where row: "cursors s1 = (sample_cursor, row) # rest" "cr_expires_at row = 99"
    "cr_after_seq row = 1" by auto
  have "\<not> expired_cursor row' sample_request ?s2" if "table_get (cursors ?s2) sample_cursor = Some row'" for row'
    using that row c(2) by (simp add: expired_cursor_def sample_request_def read_request_def sample_poll_def)
  moreover have "rc_cursor sample_request = Some sample_cursor" by (simp add: sample_request_def read_request_def)
  ultimately have "if rc_limit sample_request = rc_limit sample_request
      then \<exists>page2. read_changes ''w'' sample_request ?s2 = Some (Ok page2, ?s2) \<and> cpg_items page2 = cpg_items page
        \<and> cpg_next_cursor page2 = cpg_next_cursor page \<and> cpg_has_more page2 = cpg_has_more page
      else \<exists>msg. read_changes ''w'' sample_request ?s2 = Some (Err (InvalidRequest msg), ?s2)"
    using inv fresh r by (intro read_changes_replay [where s = sample_polled and ?s1.0 = s1]) simp_all
  with r show ?thesis by auto
qed

text \<open>The panic that the code's \<open>expect\<close> would be is unreachable.\<close>

lemma read_changes_total:
  assumes "cursors_ok s"
  shows "read_changes ulid req s \<noteq> None"
proof
  assume none: "read_changes ulid req s = None"
  then obtain after c row where r: "resolve_cursor req s = Ok (after, Some (c, row))"
    "cr_materialized row" "reread_page after row s = None"
    by (auto simp: read_changes_def split: sum.splits prod.splits option.splits if_splits)
  with resolve_cursor_ok [OF r(1)] have "table_get (cursors s) c = Some row"
    by (auto split: option.splits)
  with assms have "cursor_row_ok (int (length (changes s))) (cursors s) row" by (simp add: cursors_ok_def)
  with r show False by (auto simp: cursor_row_ok_def page_recorded_def reread_page_def Let_def)
qed

end
