(* ===== verification/MemIdempotency.thy ===== *)
theory MemIdempotency
  imports MemState
begin

text \<open>
  The \<open>IdempotencyStore\<close> of the in-memory metastore: claiming a key, finalizing it outside a
  mutation and releasing it.
\<close>

definition new_idempotency_row :: "idempotency_acquire \<Rightarrow> idempotency_row" where
  "new_idempotency_row req =
     \<lparr>ir_request_hash = ic_request_hash (ia_context req), ir_created_at = ia_now req,
      ir_completed = False, ir_owner_token = Some (ic_owner_token (ia_context req)),
      ir_lease_until = Some (ia_lease_until req), ir_response = None,
      ir_expires_at = ia_expires_at req\<rparr>"

definition lease_free :: "idempotency_row \<Rightarrow> time \<Rightarrow> bool" where
  "lease_free row now = (case ir_lease_until row of None \<Rightarrow> True | Some until \<Rightarrow> until \<le> now)"

definition acquire ::
  "idempotency_acquire \<Rightarrow> mem_state \<Rightarrow> idempotency_decision result \<times> mem_state" where
  "acquire req s =
     (let ctx = ia_context req; key = idempotency_row_key ctx in
      case table_get (idempotency s) key of
        None \<Rightarrow>
          (Ok (Owner (dec_int (timestamp_micros (ia_now req)))),
           s\<lparr>idempotency := table_insert key (new_idempotency_row req) (idempotency s)\<rparr>)
      | Some row \<Rightarrow>
          if ir_request_hash row \<noteq> ic_request_hash ctx then (Ok Conflict, s)
          else if ir_completed row
          then (Ok (Replay (case ir_response row of None \<Rightarrow> no_content | Some r \<Rightarrow> r)), s)
          else if lease_free row (ia_now req)
          then (Ok (Owner (dec_int (timestamp_micros (ir_created_at row)))),
                s\<lparr>idempotency := table_insert key
                     (row\<lparr>ir_owner_token := Some (ic_owner_token ctx),
                          ir_lease_until := Some (ia_lease_until req)\<rparr>) (idempotency s)\<rparr>)
          else (Err RateLimited, s))"

definition complete :: "idempotency_complete \<Rightarrow> mem_state \<Rightarrow> unit result \<times> mem_state" where
  "complete req s =
     (let ctx = ico_context req; key = idempotency_row_key ctx in
      case table_get (idempotency s) key of
        None \<Rightarrow> (Err (Internal ''idempotency record disappeared''), s)
      | Some row \<Rightarrow>
          if ir_owner_token row \<noteq> Some (ic_owner_token ctx)
          then (Err (Internal ''idempotency lease was lost during the operation''), s)
          else (Ok (), s\<lparr>idempotency := table_insert key
                  (complete_row (ico_response req) (ico_expires_at req) row) (idempotency s)\<rparr>))"

definition fail_or_release :: "idempotency_release \<Rightarrow> mem_state \<Rightarrow> unit result \<times> mem_state" where
  "fail_or_release req s =
     (let ctx = ir_context req; key = idempotency_row_key ctx in
      case table_get (idempotency s) key of
        None \<Rightarrow> (Ok (), s)
      | Some row \<Rightarrow>
          if \<not> ir_completed row \<and> ir_owner_token row = Some (ic_owner_token ctx)
          then (Ok (), s\<lparr>idempotency := table_remove key (idempotency s)\<rparr>)
          else (Ok (), s))"

lemma idempotency_frames [frame_simps]:
  "objects (snd (acquire a s)) = objects s" "changes (snd (acquire a s)) = changes s"
  "uploads (snd (acquire a s)) = uploads s" "gc (snd (acquire a s)) = gc s"
  "cursors (snd (acquire a s)) = cursors s"
  "purged_through_seq (snd (acquire a s)) = purged_through_seq s"
  "objects (snd (complete c s)) = objects s" "changes (snd (complete c s)) = changes s"
  "uploads (snd (complete c s)) = uploads s" "gc (snd (complete c s)) = gc s"
  "cursors (snd (complete c s)) = cursors s"
  "purged_through_seq (snd (complete c s)) = purged_through_seq s"
  "objects (snd (fail_or_release r s)) = objects s" "changes (snd (fail_or_release r s)) = changes s"
  "uploads (snd (fail_or_release r s)) = uploads s" "gc (snd (fail_or_release r s)) = gc s"
  "cursors (snd (fail_or_release r s)) = cursors s"
  "purged_through_seq (snd (fail_or_release r s)) = purged_through_seq s"
  by (simp_all add: acquire_def complete_def fail_or_release_def Let_def split: option.split)

end
