(* ===== verification/MemSystem.thy ===== *)
theory MemSystem
  imports BlobOwnership MemFeed MemIdempotency
begin

text \<open>
  The in-memory metastore as a transition system: every operation of the store is a step, in
  any order and with any arguments within what its callers guarantee - generated ids are new,
  a content commit carries the fields of its upload session, and a move goes to a folder within
  the depth bound. Invariants hold in every reachable state, by rule induction.
\<close>

section \<open>Steps\<close>

text \<open>A new session stores its bytes in a blob of its own.\<close>

definition fresh_upload :: "create_upload_record_cmd \<Rightarrow> mem_state \<Rightarrow> bool" where
  "fresh_upload cmd s \<longleftrightarrow>
     (\<forall>i u. table_get (uploads s) i = Some u \<longrightarrow> i \<noteq> cu_id cmd \<longrightarrow>
        upload_blob u \<noteq> (cu_blob_backend cmd, cu_blob_ref cmd))"

definition commit_matches :: "commit_content_cmd \<Rightarrow> mem_state \<Rightarrow> bool" where
  "commit_matches cmd s \<longleftrightarrow>
     (\<forall>u. table_get (uploads s) (cm_upload_id cmd) = Some u \<longrightarrow>
        cm_object_id cmd = u_object_id u \<and>
        (cm_blob_backend cmd, cm_blob_ref cmd) = upload_blob u)"

definition move_within_bound :: "patch_object_commit \<Rightarrow> mem_state \<Rightarrow> bool" where
  "move_within_bound cmd s \<longleftrightarrow>
     (\<forall>d. po_new_parent_id cmd = Some d \<longrightarrow> live_object s d \<noteq> None \<longrightarrow> is_ok (render_path s d))"

inductive mem_step :: "mem_state \<Rightarrow> mem_state \<Rightarrow> bool" where
  create: "table_get (objects s) (co_id c) = None \<Longrightarrow> mem_step s (snd (create_object c s))"
| patch: "move_within_bound p s \<Longrightarrow> mem_step s (snd (patch_object p s))"
| delete: "delete_object d s = Some (r, s') \<Longrightarrow> mem_step s s'"
| commit: "commit_matches m s \<Longrightarrow> mem_step s (snd (commit_content m s))"
| create_upload: "fresh_upload cu s \<Longrightarrow> mem_step s (snd (create_upload_record cu s))"
| update_upload: "mem_step s (snd (update_upload_state uu s))"
| abort_upload: "mem_step s (snd (abort_upload_record au s))"
| acquire_key: "mem_step s (snd (acquire ia s))"
| complete_key: "mem_step s (snd (complete ic s))"
| release_key: "mem_step s (snd (fail_or_release ir s))"
| read_feed: "fresh_cursor (generate_cursor_id u) s \<Longrightarrow> read_changes u rc s = Some (rr, s') \<Longrightarrow>
    mem_step s s'"
| claim_gc: "mem_step s (snd (claim_gc_batch now limit s))"
| finish: "mem_step s (snd (finish_gc e s))"
| fail: "mem_step s (snd (fail_gc e err t s))"
| claim_expired: "mem_step s (snd (claim_expired_uploads now limit s))"
| purge_keys: "mem_step s (snd (purge_idempotency_records now s))"
| purge_cursors: "mem_step s (snd (purge_change_cursors now s))"
| purge_feed: "mem_step s (snd (purge_changes t s))"

inductive_cases mem_step_elim: "mem_step s s'"

inductive mem_reachable :: "mem_state \<Rightarrow> bool" where
  start: "mem_reachable (mem_new now)"
| step: "mem_reachable s \<Longrightarrow> mem_step s s' \<Longrightarrow> mem_reachable s'"

section \<open>The tree\<close>

lemma maintenance_frames [frame_simps]:
  "objects (snd (claim_gc_batch now limit s)) = objects s"
  "objects (snd (finish_gc e s)) = objects s" "objects (snd (fail_gc e err t s)) = objects s"
  "objects (snd (claim_expired_uploads now limit s)) = objects s"
  "objects (snd (purge_idempotency_records now s)) = objects s"
  "objects (snd (purge_change_cursors now s)) = objects s"
  "objects (snd (purge_changes t s)) = objects s"
  "changes (snd (claim_gc_batch now limit s)) = changes s"
  "changes (snd (finish_gc e s)) = changes s" "changes (snd (fail_gc e err t s)) = changes s"
  "changes (snd (claim_expired_uploads now limit s)) = changes s"
  "changes (snd (purge_idempotency_records now s)) = changes s"
  "changes (snd (purge_change_cursors now s)) = changes s"
  "changes (snd (purge_changes t s)) = changes s"
  "uploads (snd (claim_gc_batch now limit s)) = uploads s"
  "uploads (snd (finish_gc e s)) = uploads s" "uploads (snd (fail_gc e err t s)) = uploads s"
  "uploads (snd (purge_idempotency_records now s)) = uploads s"
  "uploads (snd (purge_change_cursors now s)) = uploads s"
  "uploads (snd (purge_changes t s)) = uploads s"
  "uploads (snd (claim_expired_uploads now limit s)) = snd (expire_rows now (unat limit) (uploads s))"
  "cursors (snd (claim_gc_batch now limit s)) = cursors s"
  "cursors (snd (finish_gc e s)) = cursors s" "cursors (snd (fail_gc e err t s)) = cursors s"
  "cursors (snd (claim_expired_uploads now limit s)) = cursors s"
  "cursors (snd (purge_idempotency_records now s)) = cursors s"
  "cursors (snd (purge_changes t s)) = cursors s"
  "gc (snd (purge_idempotency_records now s)) = gc s"
  "gc (snd (purge_change_cursors now s)) = gc s" "gc (snd (purge_changes t s)) = gc s"
  "purged_through_seq (snd (claim_gc_batch now limit s)) = purged_through_seq s"
  "purged_through_seq (snd (finish_gc e s)) = purged_through_seq s"
  "purged_through_seq (snd (fail_gc e err t s)) = purged_through_seq s"
  "purged_through_seq (snd (claim_expired_uploads now limit s)) = purged_through_seq s"
  "purged_through_seq (snd (purge_idempotency_records now s)) = purged_through_seq s"
  "purged_through_seq (snd (purge_change_cursors now s)) = purged_through_seq s"
  by (simp_all add: claim_gc_batch_def finish_gc_def fail_gc_def claim_expired_uploads_def
      purge_idempotency_records_def purge_change_cursors_def purge_changes_def Let_def split_def frame_simps)

lemma tree_frame:
  "objects s' = objects s \<Longrightarrow> tree_ok s \<Longrightarrow> tree_rooted s \<Longrightarrow> tree_ok s' \<and> tree_rooted s'"
  by (metis tree_ok_cong tree_rooted_cong)

lemma tree_step:
  assumes "mem_step s s'" and "tree_ok s" and "tree_rooted s"
  shows "tree_ok s' \<and> tree_rooted s'"
  using assms(1)
proof cases
  case (create c)
  with assms(2,3) show ?thesis by (simp add: create_object_tree_ok create_object_rooted)
next
  case (patch p)
  with assms(2,3) show ?thesis
    by (auto simp: move_within_bound_def intro: patch_object_tree_ok patch_object_rooted)
next
  case (delete d r)
  with delete_object_tree_ok [OF assms(2)] assms(3) show ?thesis by blast
next
  case (commit m)
  with commit_content_tree_ok [OF assms(2)] assms(3) show ?thesis by simp
next
  case (read_feed u rc rr)
  then have "objects s' = objects s" using read_changes_frame by blast
  then show ?thesis by (rule tree_frame [OF _ assms(2,3)])
qed (rule tree_frame [OF _ assms(2,3)], simp add: frame_simps)+

lemma reachable_is_tree:
  assumes "mem_reachable s"
  shows "tree_ok s" and "tree_rooted s"
proof -
  from assms have "tree_ok s \<and> tree_rooted s"
  proof (induction rule: mem_reachable.induct)
    case (start now)
    show ?case by (rule mem_new_tree)
  next
    case (step s s')
    then show ?case using tree_step by blast
  qed
  then show "tree_ok s" and "tree_rooted s" by simp_all
qed


lemma sample_reachable: "mem_reachable sample_tree"
proof -
  have "mem_step (mem_new 0) (snd (create_object sample_folder (mem_new 0)))"
    using sample_fresh(1) by (intro mem_step.create) (simp add: sample_folder_def)
  with mem_reachable.start have "mem_reachable (snd (create_object sample_folder (mem_new 0)))"
    by (rule mem_reachable.step)
  moreover have "mem_step (snd (create_object sample_folder (mem_new 0))) sample_tree"
    unfolding sample_tree_def using sample_fresh(2) by (intro mem_step.create) (simp add: sample_file_def)
  ultimately show ?thesis by (rule mem_reachable.step)
qed


section \<open>The feed\<close>

text \<open>Every mutation only appends to the feed, and leaves cursors and watermark alone.\<close>

lemma create_object_feed:
  "\<exists>later. changes (snd (create_object c s)) = changes s @ later"
  "cursors (snd (create_object c s)) = cursors s"
  "purged_through_seq (snd (create_object c s)) = purged_through_seq s"
  by (cases rule: create_object_cases [of c s]; simp add: frame_simps)+

lemma patch_object_feed:
  "\<exists>later. changes (snd (patch_object p s)) = changes s @ later"
  "cursors (snd (patch_object p s)) = cursors s"
  "purged_through_seq (snd (patch_object p s)) = purged_through_seq s"
  by (cases rule: patch_object_cases [of p s]; simp add: frame_simps)+

lemma delete_object_feed:
  assumes "delete_object d s = Some (r, s')"
  shows "(\<exists>later. changes s' = changes s @ later) \<and> cursors s' = cursors s \<and>
         purged_through_seq s' = purged_through_seq s \<and> uploads s' = uploads s"
  using assms
proof (cases rule: delete_object_cases)
  case (written stored targets)
  then have "s' = snd (write_delete d targets s)" by (metis snd_conv)
  then show ?thesis by (simp add: write_delete_frame)
qed simp

lemma commit_content_feed:
  "\<exists>later. changes (snd (commit_content m s)) = changes s @ later"
  "cursors (snd (commit_content m s)) = cursors s"
  "purged_through_seq (snd (commit_content m s)) = purged_through_seq s"
  by (cases rule: commit_content_cases [of m s]; simp add: frame_simps write_content_frame)+

lemmas mutation_feed = create_object_feed patch_object_feed commit_content_feed

text \<open>Appending to the feed keeps the cursors in order.\<close>

lemma cursors_ok_grow:
  assumes "cursors_ok s" and "changes s' = changes s @ later" and "cursors s' = cursors s"
    and "purged_through_seq s' = purged_through_seq s"
  shows "feed_env s s'"
proof -
  have "cursor_row_ok (int (length (changes s'))) (cursors s') row"
    if "table_get (cursors s) c = Some row" for c row
  proof (rule cursor_row_ok_cong)
    show "cursor_row_ok (int (length (changes s))) (cursors s) row"
      using assms(1) that by (simp add: cursors_ok_def)
  qed (use assms(2,3) in simp_all)
  with assms have "cursors_ok s'" by (simp add: cursors_ok_def)
  with assms(2,3) show ?thesis by (auto simp: feed_env_def)
qed

lemma purge_cursors_env:
  assumes "cursors_ok s"
  shows "feed_env s (snd (purge_change_cursors now s))"
proof -
  let ?t = "table_retain (\<lambda>_ row. now < cr_expires_at row) (cursors s)"
  have ok: "table_ok (cursors s)" using assms by (simp add: cursors_ok_def)
  have sub: "table_get (cursors s) c = Some row" if "table_get ?t c = Some row" for c row
    using that by (simp add: table_get_retain [OF ok] split: option.splits if_splits)
  have "cursor_row_ok (int (length (changes s))) ?t row" if "table_get ?t c = Some row" for c row
  proof (rule cursor_row_ok_cong [OF _ order_refl])
    show "cursor_row_ok (int (length (changes s))) (cursors s) row"
      using assms sub [OF that] by (simp add: cursors_ok_def)
  qed (use sub in blast)
  then have "cursors_ok (snd (purge_change_cursors now s))"
    using assms by (simp add: cursors_ok_def purge_change_cursors_def Let_def)
  moreover have "cr_after_seq row' = cr_after_seq row"
    if "table_get (cursors s) c = Some row" "table_get ?t c = Some row'" for c row row'
    using that(1) sub [OF that(2)] by simp
  moreover have "cursors (snd (purge_change_cursors now s)) = ?t"
    "changes (snd (purge_change_cursors now s)) = changes s @ []"
    by (simp_all add: purge_change_cursors_def Let_def)
  ultimately show ?thesis unfolding feed_env_def by metis
qed

lemma purge_feed_env:
  assumes "cursors_ok s"
  shows "feed_env s (snd (purge_changes t s))"
  using assms purge_loop_watermark [of 0 "purged_through_seq s" t "changes s" 0]
  by (auto simp: feed_env_def cursors_ok_def purge_changes_def split_def)

lemma feed_env_refl: "cursors_ok s \<Longrightarrow> feed_env s s"
  by (auto simp: feed_env_def)

lemma read_feed_env:
  assumes "cursors_ok s" and "fresh_cursor (generate_cursor_id u) s" and "read_changes u req s = Some (r, s')"
  shows "feed_env s s'"
proof (cases r)
  case (Inl e)
  with assms(3) have "s' = s"
    by (auto simp: read_changes_def split: sum.splits prod.splits option.splits if_splits)
  with assms(1) show ?thesis by (simp add: feed_env_refl)
next
  case (Inr page)
  with assms(3) have read: "read_changes u req s = Some (Ok page, s')" by simp
  then have "\<exists>a. read_position req s = Some a"
    by (cases rule: read_changes_cases) (auto simp: read_position_def)
  with read_changes_step [OF assms(1,2) read] show ?thesis
    unfolding feed_env_def by (metis append_Nil2)
qed

text \<open>Every step of the system is one that a reader of the feed allows for.\<close>

lemma feed_step:
  assumes "mem_step s s'" and "cursors_ok s"
  shows "feed_env s s'"
  using assms(1)
proof cases
  case (create c)
  with mutation_feed(1-3) [of c s] show ?thesis by (auto intro: cursors_ok_grow [OF assms(2)])
next
  case (patch p)
  with patch_object_feed [of p s] show ?thesis by (auto intro: cursors_ok_grow [OF assms(2)])
next
  case (delete d r)
  with delete_object_feed show ?thesis by (blast intro: cursors_ok_grow [OF assms(2)])
next
  case (commit m)
  with commit_content_feed [of m s] show ?thesis by (auto intro: cursors_ok_grow [OF assms(2)])
next
  case (read_feed u rc rr)
  with read_feed_env [OF assms(2)] show ?thesis by blast
next
  case (purge_cursors now)
  with purge_cursors_env [OF assms(2)] show ?thesis by simp
next
  case (purge_feed t)
  with purge_feed_env [OF assms(2)] show ?thesis by simp
qed (rule cursors_ok_grow [OF assms(2), of _ "[]"]; simp add: frame_simps)+

lemma mem_new_cursors: "cursors_ok (mem_new now)"
  by (simp add: cursors_ok_def mem_new_def)

lemma reachable_cursors: "mem_reachable s \<Longrightarrow> cursors_ok s"
proof (induction rule: mem_reachable.induct)
  case (step s s')
  with feed_step show ?case by (auto simp: feed_env_def)
qed (rule mem_new_cursors)

end
