(* ===== verification/MemGc.thy ===== *)
theory MemGc
  imports MemSystem
begin

text \<open>
  Garbage collection is safe in the in-memory metastore: the ownership of blobs is an invariant
  of the system, so a queued blob is referred to by no live object, and never will be again.
\<close>

definition owned_state :: "mem_state \<Rightarrow> bool" where
  "owned_state s \<longleftrightarrow>
     table_ok (uploads s) \<and> ownership (sessions_of s) (live_object s) (gc_blobs s)"

definition blob_retired :: "mem_state \<Rightarrow> string \<times> string \<Rightarrow> bool" where
  "blob_retired s b \<longleftrightarrow> retired (sessions_of s) (live_object s) b"

definition retains :: "mem_state \<Rightarrow> mem_state \<Rightarrow> bool" where
  "retains s s' \<longleftrightarrow> owned_state s' \<and> (\<forall>b. blob_retired s b \<longrightarrow> blob_retired s' b)"

text \<open>A step that gives no live object a blob, and queues only blobs that it retires.\<close>

lemma retains_shrink:
  assumes own: "owned_state s" and ok: "table_ok (uploads s')"
    and grow: "sessions_grow (sessions_of s) (sessions_of s')"
    and live: "\<And>k so b. live_object s' k = Some so \<Longrightarrow> blob_of so = Some b \<Longrightarrow>
        \<exists>so0. live_object s k = Some so0 \<and> blob_of so0 = Some b"
    and queue: "gc_blobs s' \<subseteq> gc_blobs s \<union> N" and N: "\<And>b. b \<in> N \<Longrightarrow> blob_retired s' b"
  shows "retains s s'"
proof -
  have keep: "blob_retired s' b" if "blob_retired s b" for b
    using grow that unfolding blob_retired_def
    by (rule retired_shrink) (use live in \<open>unfold refers_def, blast\<close>)
  have "blobs_owned (sessions_of s') (live_object s')"
    using grow _ live by (rule blobs_owned_shrink) (use own in \<open>auto simp: owned_state_def ownership_def\<close>)
  moreover have "blobs_distinct (sessions_of s')" using grow by (simp add: sessions_grow_def)
  moreover have "\<forall>b\<in>gc_blobs s'. retired (sessions_of s') (live_object s') b"
    using queue N keep own unfolding owned_state_def ownership_def blob_retired_def by blast
  ultimately show ?thesis
    using ok keep by (simp add: retains_def owned_state_def ownership_def)
qed

lemma sessions_grow_refl: "owned_state s \<Longrightarrow> sessions_of s' = sessions_of s \<Longrightarrow> sessions_grow (sessions_of s) (sessions_of s')"
  by (auto simp: sessions_grow_def owned_state_def ownership_def)

lemma retains_frame:
  assumes "owned_state s" and "uploads s' = uploads s" and "objects s' = objects s"
    and "gc_blobs s' \<subseteq> gc_blobs s"
  shows "retains s s'"
proof (rule retains_shrink [where N = "{}"])
  show "table_ok (uploads s')" using assms(1,2) by (simp add: owned_state_def)
  show "sessions_grow (sessions_of s) (sessions_of s')"
    using assms(1,2) by (intro sessions_grow_refl) (simp_all add: sessions_of_def)
qed (use assms live_object_cong [OF assms(3)] in auto)

lemma sessions_grow_evolve:
  assumes "owned_state s"
    and "\<And>i v. sessions_of s' i = Some v \<Longrightarrow> \<exists>u. sessions_of s i = Some u \<and> upload_evolves u v"
    and "\<And>i u. sessions_of s i = Some u \<Longrightarrow> sessions_of s' i \<noteq> None"
  shows "sessions_grow (sessions_of s) (sessions_of s')"
proof -
  have d: "blobs_distinct (sessions_of s)" using assms(1) by (simp add: owned_state_def ownership_def)
  have "i = j" if "sessions_of s' i = Some u" "sessions_of s' j = Some v" "upload_blob u = upload_blob v" for i j u v
  proof -
    from assms(2) [OF that(1)] assms(2) [OF that(2)] obtain u0 v0 where
      o: "sessions_of s i = Some u0" "upload_evolves u0 u" "sessions_of s j = Some v0" "upload_evolves v0 v"
      by blast
    then have "upload_blob u0 = upload_blob v0" using that(3) by (simp add: upload_evolves_def upload_blob_def)
    with d o show ?thesis unfolding blobs_distinct_def by blast
  qed
  then have "blobs_distinct (sessions_of s')" unfolding blobs_distinct_def by blast
  moreover have "\<exists>v. sessions_of s' i = Some v \<and> upload_evolves u v" if "sessions_of s i = Some u" for i u
    using assms(2,3) that by fastforce
  ultimately show ?thesis by (simp add: sessions_grow_def)
qed

text \<open>No live object refers to the blob of a session that has not completed.\<close>

lemma unfinished_not_referred:
  assumes "owned_state s" and "sessions_of s i = Some u" and "u_state u \<noteq> UsCompleted"
  shows "\<not> refers (live_object s) (upload_blob u)"
proof
  assume "refers (live_object s) (upload_blob u)"
  then obtain k so where "live_object s k = Some so" "blob_of so = Some (upload_blob u)"
    by (auto simp: refers_def)
  with assms(1) obtain j v where "sessions_of s j = Some v" "upload_blob v = upload_blob u"
    "u_state v = UsCompleted"
    unfolding owned_state_def ownership_def blobs_owned_def by blast
  with assms show False unfolding owned_state_def ownership_def blobs_distinct_def
    by (metis option.inject)
qed

section \<open>Uploads\<close>

lemma create_upload_retains:
  assumes own: "owned_state s" and fresh: "fresh_upload cmd s"
  shows "retains s (snd (create_upload_record cmd s))"
proof (cases "table_get (uploads s) (cu_id cmd)")
  case (Some u)
  with own show ?thesis by (intro retains_frame) (simp_all add: create_upload_record_def)
next
  case None
  let ?s = "snd (create_upload_record cmd s)"
  have U: "sessions_of ?s = (sessions_of s)(cu_id cmd \<mapsto> new_upload cmd)"
    using None by (simp add: create_upload_record_def sessions_of_def table_simps fun_eq_iff)
  have d: "blobs_distinct (sessions_of s)" using own by (simp add: owned_state_def ownership_def)
  have new: "upload_blob v \<noteq> upload_blob (new_upload cmd)" if "sessions_of s i = Some v" "i \<noteq> cu_id cmd" for i v
    using fresh that by (auto simp: fresh_upload_def sessions_of_def upload_blob_def new_upload_def)
  have "blobs_distinct (sessions_of ?s)"
    unfolding blobs_distinct_def U
  proof (intro allI impI)
    fix i j u v
    assume a: "((sessions_of s)(cu_id cmd \<mapsto> new_upload cmd)) i = Some u"
      "((sessions_of s)(cu_id cmd \<mapsto> new_upload cmd)) j = Some v" "upload_blob u = upload_blob v"
    show "i = j"
    proof (cases "i = cu_id cmd \<or> j = cu_id cmd")
      case True
      with a new [of i u] new [of j v] show ?thesis by (auto split: if_splits)
    next
      case False
      with a d show ?thesis unfolding blobs_distinct_def by auto
    qed
  qed
  moreover have "(sessions_of s) (cu_id cmd) = None" using None by (simp add: sessions_of_def)
  ultimately have "sessions_grow (sessions_of s) (sessions_of ?s)"
    unfolding sessions_grow_def U by auto
  moreover have "table_ok (uploads ?s)" using own None by (simp add: owned_state_def create_upload_record_def)
  moreover have "gc_blobs ?s = gc_blobs s" by (simp add: gc_blobs_def frame_simps)
  moreover have "live_object ?s = live_object s" by (rule live_object_cong) (simp add: frame_simps)
  ultimately show ?thesis using own by (intro retains_shrink [where N = "{}"]) auto
qed

lemma sessions_insert:
  assumes "owned_state s" and "uploads s' = table_insert i v (uploads s)"
    and "table_get (uploads s) i = Some u" and "upload_evolves u v"
  shows "sessions_grow (sessions_of s) (sessions_of s') \<and> table_ok (uploads s')"
proof
  show "sessions_grow (sessions_of s) (sessions_of s')"
    using assms by (intro sessions_grow_evolve) (auto simp: sessions_of_def table_simps split: if_splits)
qed (use assms(1,2) in \<open>simp add: owned_state_def\<close>)

lemma update_upload_retains:
  assumes own: "owned_state s"
  shows "retains s (snd (update_upload_state cmd s))"
proof (cases "\<exists>u. table_get (uploads s) (uu_id cmd) = Some u \<and> transition_allowed (u_state u) (uu_state cmd)")
  case False
  then have "snd (update_upload_state cmd s) = s"
    by (auto simp: update_upload_state_def split: option.splits)
  with own show ?thesis by (intro retains_frame) simp_all
next
  case True
  then obtain u where u: "table_get (uploads s) (uu_id cmd) = Some u"
    "transition_allowed (u_state u) (uu_state cmd)" by blast
  let ?s = "snd (update_upload_state cmd s)"
  have e: "upload_evolves u (update_upload_row cmd u)"
    using transition_is_move [OF u(2)] by (simp add: upload_evolves_def update_upload_row_keeps)
  have "uploads ?s = table_insert (uu_id cmd) (update_upload_row cmd u) (uploads s)"
    using u by (simp add: update_upload_state_def)
  from sessions_insert [OF own this u(1) e] have
    "sessions_grow (sessions_of s) (sessions_of ?s)" "table_ok (uploads ?s)" by simp_all
  moreover have "gc_blobs ?s = gc_blobs s" by (simp add: gc_blobs_def frame_simps)
  moreover have "live_object ?s = live_object s" by (rule live_object_cong) (simp add: frame_simps)
  ultimately show ?thesis using own by (intro retains_shrink [where N = "{}"]) auto
qed

lemma abort_upload_retains:
  assumes own: "owned_state s"
  shows "retains s (snd (abort_upload_record cmd s))"
proof (cases "\<exists>u. table_get (uploads s) (au_id cmd) = Some u \<and> u_state u \<noteq> UsCompleted")
  case False
  then have "snd (abort_upload_record cmd s) = s"
    by (auto simp: abort_upload_record_def split: option.splits)
  with own show ?thesis by (intro retains_frame) simp_all
next
  case True
  then obtain u where u: "table_get (uploads s) (au_id cmd) = Some u" "u_state u \<noteq> UsCompleted" by blast
  let ?s = "snd (abort_upload_record cmd s)"
  let ?v = "u\<lparr>u_state := UsAborted, u_aborted_at := Some (au_now cmd)\<rparr>"
  have e: "upload_evolves u ?v" using u(2) by (simp add: upload_evolves_def upload_move.aborted)
  have U: "uploads ?s = table_insert (au_id cmd) ?v (uploads s)"
    using u by (simp add: abort_upload_record_def frame_simps)
  from sessions_insert [OF own U u(1) e] have
    grow: "sessions_grow (sessions_of s) (sessions_of ?s)" "table_ok (uploads ?s)" by simp_all
  have live: "live_object ?s = live_object s" by (rule live_object_cong) (simp add: frame_simps)
  have "gc_blobs ?s = insert (upload_blob u) (gc_blobs s)"
    using u by (simp add: abort_upload_record_def gc_blobs_enqueue upload_blob_def)
      (simp add: gc_blobs_def)
  moreover have "\<not> refers (live_object s) (upload_blob u)"
    using own _ u(2) by (rule unfinished_not_referred [where i = "au_id cmd"]) (simp add: sessions_of_def u(1))
  then have "blob_retired ?s (upload_blob u)"
    unfolding blob_retired_def retired_def live
    by (intro conjI exI [of _ "au_id cmd"] exI [of _ ?v])
      (simp_all add: sessions_of_def U table_simps upload_blob_def is_terminal_def)
  ultimately show ?thesis
    using own grow live by (intro retains_shrink [where N = "{upload_blob u}"]) auto
qed

lemma expire_rows_list:
  assumes "table_ok t" and "v \<in> set (fst (expire_rows now n t))"
  obtains i u where "table_get t i = Some u" "upload_overdue now u" "v = u\<lparr>u_state := UsExpired\<rparr>"
    "table_get (snd (expire_rows now n t)) i = Some v"
proof -
  have "\<exists>i u. (i, u) \<in> set t \<and> upload_overdue now u \<and> v = u\<lparr>u_state := UsExpired\<rparr> \<and>
      (i, v) \<in> set (snd (expire_rows now n t))"
    using assms(2)
    by (induction now n t rule: expire_rows.induct) (auto split: prod.splits if_splits)
  moreover have "table_ok (snd (expire_rows now n t))" using expire_rows_get [OF assms(1)] by blast
  ultimately show thesis using assms(1) that by (auto simp: table_ok_def)
qed

lemma claim_expired_retains:
  assumes own: "owned_state s"
  shows "retains s (snd (claim_expired_uploads now limit s))"
proof -
  let ?s = "snd (claim_expired_uploads now limit s)" and ?r = "expire_rows now (unat limit) (uploads s)"
  have ok: "table_ok (uploads s)" using own by (simp add: owned_state_def)
  note get = expire_rows_get [OF ok, of now "unat limit"]
  have U: "uploads ?s = snd ?r" by (simp add: frame_simps)
  have evolve: "upload_evolves u (u\<lparr>u_state := UsExpired\<rparr>)" if "upload_overdue now u" for u
    using that by (auto simp: upload_evolves_def upload_overdue_def is_terminal_def intro: upload_move.expired)
  have grow: "sessions_grow (sessions_of s) (sessions_of ?s)"
  proof (rule sessions_grow_evolve [OF own])
    fix i v assume "sessions_of ?s i = Some v"
    with get evolve show "\<exists>u. sessions_of s i = Some u \<and> upload_evolves u v"
      unfolding sessions_of_def U by (metis option.inject upload_evolves_refl)
  next
    fix i u assume "sessions_of s i = Some u"
    with get show "sessions_of ?s i \<noteq> None"
      unfolding sessions_of_def U by (metis option.distinct(1))
  qed
  have live: "live_object ?s = live_object s" by (rule live_object_cong) (simp add: frame_simps)
  have queue: "gc_blobs ?s = gc_blobs s \<union> upload_blob ` set (fst ?r)"
    by (simp add: claim_expired_uploads_def split_def frame_simps upload_blob_def [abs_def])
      (simp add: gc_blobs_def)
  have "blob_retired ?s b" if "b \<in> upload_blob ` set (fst ?r)" for b
  proof -
    from that obtain v where v: "v \<in> set (fst ?r)" "b = upload_blob v" by blast
    from ok v(1) obtain i u where u: "table_get (uploads s) i = Some u" "upload_overdue now u"
      "v = u\<lparr>u_state := UsExpired\<rparr>" "table_get (snd ?r) i = Some v" by (rule expire_rows_list)
    have "\<not> refers (live_object s) (upload_blob u)"
      using own by (rule unfinished_not_referred [where i = i]) (use u in \<open>auto simp: sessions_of_def upload_overdue_def\<close>)
    with u v show ?thesis unfolding blob_retired_def retired_def live
      by (intro conjI exI [of _ i] exI [of _ v]) (simp_all add: sessions_of_def U upload_blob_def is_terminal_def)
  qed
  with grow live queue get U own show ?thesis
    by (intro retains_shrink [where N = "upload_blob ` set (fst ?r)"]) auto
qed

section \<open>Objects\<close>

lemma create_object_retains:
  assumes own: "owned_state s" and fresh: "table_get (objects s) (co_id cmd) = None"
  shows "retains s (snd (create_object cmd s))"
proof (cases rule: create_object_cases [of cmd s])
  case (refused e)
  with own show ?thesis by (intro retains_frame) simp_all
next
  case (written parent)
  let ?s = "snd (create_object cmd s)"
  have U: "uploads ?s = uploads s" and G: "gc_blobs ?s = gc_blobs s"
    using written(4) by (simp_all add: gc_blobs_def frame_simps)
  have "live_object ?s = live_object (s\<lparr>objects := table_insert (co_id cmd) (created_object cmd) (objects s)\<rparr>)"
    using written(4) by (intro live_object_cong) (simp add: frame_simps)
  then have L: "live_object ?s = (live_object s)(co_id cmd \<mapsto> created_object cmd)"
    by (simp add: live_object_insert)
  show ?thesis
  proof (rule retains_shrink [where N = "{}", OF own])
    show "sessions_grow (sessions_of s) (sessions_of ?s)"
      using own U by (intro sessions_grow_refl) (simp_all add: sessions_of_def)
  qed (use own U G L in \<open>auto simp: owned_state_def split: if_splits\<close>)
qed

lemma patch_object_retains:
  assumes own: "owned_state s"
  shows "retains s (snd (patch_object cmd s))"
proof (cases rule: patch_object_cases [of cmd s])
  case (refused e)
  with own show ?thesis by (intro retains_frame) simp_all
next
  case (unchanged stored t)
  with own show ?thesis by (intro retains_frame) (simp_all add: gc_blobs_def frame_simps)
next
  case (written stored t)
  let ?s = "snd (patch_object cmd s)"
  have U: "uploads ?s = uploads s" and G: "gc_blobs ?s = gc_blobs s"
    using written(8) by (simp_all add: gc_blobs_def frame_simps)
  have "live_object ?s = live_object (s\<lparr>objects := table_modify (po_id cmd)
      (patched cmd (so_object stored) t) (objects s)\<rparr>)"
    using written(8) by (intro live_object_cong) (simp add: frame_simps)
  then have L: "live_object ?s = (live_object s)(po_id cmd \<mapsto> patched cmd (so_object stored) t stored)"
    using written(1) by (simp add: live_object_iff live_object_modify)
  show ?thesis
  proof (rule retains_shrink [where N = "{}", OF own])
    show "sessions_grow (sessions_of s) (sessions_of ?s)"
      using own U by (intro sessions_grow_refl) (simp_all add: sessions_of_def)
    fix k so b assume "live_object ?s k = Some so" "blob_of so = Some b"
    with written(1) show "\<exists>so0. live_object s k = Some so0 \<and> blob_of so0 = Some b"
      unfolding L by (cases "k = po_id cmd") auto
  qed (use own U G in \<open>auto simp: owned_state_def\<close>)
qed

lemma tombstone_all_blobs:
  "b \<in> set (fst (snd (tombstone_all now is objs))) \<Longrightarrow>
   \<exists>i so. i \<in> set is \<and> table_get objs i = Some so \<and> is_live so \<and> blob_of so = Some b"
proof (induction now "is" objs rule: tombstone_all.induct)
  case (2 now i "is" objs)
  show ?case
  proof (cases "table_get objs i")
    case None
    with 2 show ?thesis by auto
  next
    case (Some entry)
    show ?thesis
    proof (cases "is_live entry")
      case False
      with Some 2 show ?thesis by auto
    next
      case True
      let ?objs = "table_insert i (tombstone now entry) objs"
      from 2(4) Some True consider "blob_of entry = Some b"
        | "b \<in> set (fst (snd (tombstone_all now is ?objs)))"
        by (auto simp: Let_def split_def split: option.splits)
      then show ?thesis
      proof cases
        case 1
        with Some True show ?thesis by auto
      next
        case 2
        with "2.IH"(3) [OF Some] True obtain j so where j: "j \<in> set is" "table_get ?objs j = Some so"
          "is_live so" "blob_of so = Some b" by auto
        then have "j \<noteq> i" by (auto simp: table_simps)
        with j show ?thesis by (auto simp: table_simps)
      qed
    qed
  qed
qed simp

lemma gc_blobs_fold:
  "gc_blobs (fold (\<lambda>p. enqueue_gc (fst p) (snd p) now) bs s) = gc_blobs s \<union> set bs"
  by (induction bs arbitrary: s) (auto simp: gc_blobs_enqueue)

lemma delete_object_retains:
  assumes own: "owned_state s" and tree: "tree_ok s" and del: "delete_object cmd s = Some (res, s')"
  shows "retains s s'"
  using del
proof (cases rule: delete_object_cases)
  case (refused e)
  with own show ?thesis by (intro retains_frame) simp_all
next
  case (written stored targets)
  let ?bs = "fst (snd (tombstone_all (mc_now (do_ctx cmd)) targets (objects s)))"
  from written(5) have s': "s' = snd (write_delete cmd targets s)" by (metis snd_conv)
  have U: "uploads s' = uploads s" by (simp add: s' write_delete_frame)
  have L: "live_object s' = forest_without (set targets) (live_object s)"
    by (simp add: s' live_object_delete)
  have "gc s' = gc (fold (\<lambda>p. enqueue_gc (fst p) (snd p) (mc_now (do_ctx cmd))) ?bs
      (s\<lparr>objects := snd (snd (tombstone_all (mc_now (do_ctx cmd)) targets (objects s)))\<rparr>))"
    by (simp add: s' write_delete_def Let_def split_def frame_simps)
  then have "gc_blobs s' = gc_blobs (fold (\<lambda>p. enqueue_gc (fst p) (snd p) (mc_now (do_ctx cmd))) ?bs
      (s\<lparr>objects := snd (snd (tombstone_all (mc_now (do_ctx cmd)) targets (objects s)))\<rparr>))"
    by (simp add: gc_blobs_def)
  then have G: "gc_blobs s' = gc_blobs s \<union> set ?bs"
    unfolding gc_blobs_fold by (simp add: gc_blobs_def)
  have o: "blobs_distinct (sessions_of s)" "blobs_owned (sessions_of s) (live_object s)"
    using own by (simp_all add: owned_state_def ownership_def)
  show ?thesis
  proof (rule retains_shrink [where N = "set ?bs", OF own])
    show "sessions_grow (sessions_of s) (sessions_of s')"
      using own U by (intro sessions_grow_refl) (simp_all add: sessions_of_def)
    fix b assume "b \<in> set ?bs"
    from tombstone_all_blobs [OF this] obtain i so where
      i: "i \<in> set targets" "live_object s i = Some so" "blob_of so = Some b"
      by (auto simp: live_object_iff)
    with o(2) obtain j u where u: "sessions_of s j = Some u" "upload_blob u = b" "u_state u = UsCompleted"
      unfolding blobs_owned_def by blast
    have "\<not> refers (live_object s') b"
    proof
      assume "refers (live_object s') b"
      then obtain k so' where k: "k \<notin> set targets" "live_object s k = Some so'" "blob_of so' = Some b"
        by (auto simp: refers_def L forest_without_def split: if_splits)
      with owner_unique [OF o i(2,3)] i(1) show False by blast
    qed
    with u U show "blob_retired s' b"
      by (auto simp: blob_retired_def retired_def sessions_of_def is_terminal_def)
  qed (use own U G L in \<open>auto simp: owned_state_def forest_without_def split: if_splits\<close>)
qed

lemma commit_content_retains:
  assumes own: "owned_state s" and match: "commit_matches cmd s"
  shows "retains s (snd (commit_content cmd s))"
proof (cases rule: commit_content_cases [of cmd s])
  case (refused e)
  with own show ?thesis by (intro retains_frame) simp_all
next
  case (unchanged up stored)
  with own show ?thesis by (intro retains_frame) (simp_all add: gc_blobs_def frame_simps)
next
  case (written up stored)
  let ?s = "snd (commit_content cmd s)"
  let ?f = "content_fields cmd (next_revision (o_revision (so_object stored)))"
  let ?v = "complete_upload_row (mc_now (cm_ctx cmd)) up"
  have L: "live_object ?s = (live_object s)(cm_object_id cmd \<mapsto> ?f stored)"
  proof -
    have "live_object ?s = live_object (s\<lparr>objects := table_modify (cm_object_id cmd) ?f (objects s)\<rparr>)"
      using written(6) by (intro live_object_cong) (simp add: write_content_frame)
    with written(3) show ?thesis by (simp add: live_object_iff live_object_modify)
  qed
  have U: "sessions_of ?s = (sessions_of s)(cm_upload_id cmd \<mapsto> ?v)"
    using written(1,6) by (auto simp: sessions_of_def write_content_frame table_simps fun_eq_iff)
  have G: "gc_blobs ?s \<subseteq> gc_blobs s \<union> {b. blob_of stored = Some b}"
    using written(6)
    by (auto simp: write_content_def Let_def split_def frame_simps gc_blobs_def enqueue_replaced_def
        enqueue_gc_def gr_blob_def split: option.splits if_splits)
  from match written(1) have m: "u_object_id up = cm_object_id cmd"
    "(cm_blob_backend cmd, cm_blob_ref cmd) = upload_blob up" by (simp_all add: commit_matches_def)
  from own have o: "ownership (sessions_of s) (live_object s) (gc_blobs s)" by (simp add: owned_state_def)
  have up: "sessions_of s (cm_upload_id cmd) = Some up" using written(1) by (simp add: sessions_of_def)
  have st: "\<not> is_terminal (u_state up)" using written(2) by (auto simp: is_terminal_def)
  have nb: "blob_of (?f stored) = Some (upload_blob up)" using m(2) by simp
  have v: "u_state ?v = UsCompleted" "upload_blob ?v = upload_blob up" "u_object_id ?v = u_object_id up"
    by (simp_all add: complete_upload_row_def upload_blob_def)
  note step = ownership_commit [OF o up st written(3) m(1) nb v G]
  have "table_ok (uploads ?s)" using own written(6) by (simp add: write_content_frame owned_state_def)
  with step show ?thesis by (simp add: retains_def owned_state_def blob_retired_def L U)
qed

section \<open>The system\<close>

lemma gc_step:
  assumes "mem_step s s'" and own: "owned_state s" and "tree_ok s"
  shows "retains s s'"
  using assms(1)
proof cases
  case (create c)
  with create_object_retains [OF own] show ?thesis by simp
next
  case (patch p)
  with patch_object_retains [OF own] show ?thesis by simp
next
  case (delete d r)
  with delete_object_retains [OF own assms(3)] show ?thesis by simp
next
  case (commit m)
  with commit_content_retains [OF own] show ?thesis by simp
next
  case (create_upload cu)
  with create_upload_retains [OF own] show ?thesis by simp
next
  case (update_upload uu)
  with update_upload_retains [OF own] show ?thesis by simp
next
  case (abort_upload au)
  with abort_upload_retains [OF own] show ?thesis by simp
next
  case (claim_expired now limit)
  with claim_expired_retains [OF own] show ?thesis by simp
next
  case (read_feed u rc rr)
  from read_changes_frame [OF read_feed(2)] own show ?thesis
    by (intro retains_frame) (simp_all add: gc_blobs_def)
next
  case (claim_gc now limit)
  with own show ?thesis by (intro retains_frame) (simp_all add: frame_simps gc_blobs_claim)
next
  case (finish e)
  with own show ?thesis by (intro retains_frame) (simp_all add: frame_simps gc_blobs_finish)
next
  case (fail e err t)
  with own show ?thesis by (intro retains_frame) (simp_all add: frame_simps gc_blobs_fail)
qed (rule retains_frame [OF own]; simp add: frame_simps gc_blobs_def)+

lemma mem_new_owned: "owned_state (mem_new now)"
proof -
  have "live_object (mem_new now) = [ROOT_ID \<mapsto> root_object now]"
    by (auto simp: live_object_def mem_new_def root_object_def ROOT_ID_def is_live_def fun_eq_iff)
  then show ?thesis
    by (auto simp: owned_state_def ownership_def blobs_distinct_def blobs_owned_def sessions_of_def
        gc_blobs_def mem_new_def root_object_def blob_of_def split: if_splits)
qed

lemma reachable_owned: "mem_reachable s \<Longrightarrow> owned_state s"
proof (induction rule: mem_reachable.induct)
  case (step s s')
  with reachable_is_tree gc_step show ?case by (auto simp: retains_def)
qed (rule mem_new_owned)

text \<open>
  C7: garbage collection never loses content: once a blob is in the collector's queue, no live
  object refers to it, and no live object ever will, whatever steps follow - so deleting its
  bytes is safe however late the collector gets to it, and also after its entry is gone.
\<close>

theorem queued_blob_never_live:
  assumes "mem_reachable s" and "b \<in> gc_blobs s" and "mem_step\<^sup>*\<^sup>* s s'"
    and "live_object s' i = Some so"
  shows "blob_of so \<noteq> Some b"
proof -
  have "mem_reachable s' \<and> blob_retired s' b"
    using assms(3)
  proof (induction rule: rtranclp_induct)
    case base
    from reachable_owned [OF assms(1)] assms(2) have "blob_retired s b"
      by (auto simp: owned_state_def ownership_def blob_retired_def)
    with assms(1) show ?case by blast
  next
    case (step y z)
    then have "retains y z" using gc_step reachable_owned reachable_is_tree by blast
    then have "blob_retired z b" using step.IH unfolding retains_def by blast
    moreover have "mem_reachable z" using step.IH step.hyps(2) by (blast intro: mem_reachable.step)
    ultimately show ?case by blast
  qed
  with assms(4) show ?thesis
    by (auto simp: blob_retired_def retired_def refers_def)
qed

text \<open>A checkable form of the guards of the steps.\<close>

lemma fresh_uploadI:
  "list_all (\<lambda>(i, u). i = cu_id cmd \<or> upload_blob u \<noteq> (cu_blob_backend cmd, cu_blob_ref cmd)) (uploads s) \<Longrightarrow>
   fresh_upload cmd s"
  by (fastforce simp: fresh_upload_def list_all_iff dest: map_of_SomeD)

lemma commit_matchesI:
  "(case table_get (uploads s) (cm_upload_id cmd) of None \<Rightarrow> True
    | Some u \<Rightarrow> cm_object_id cmd = u_object_id u \<and> (cm_blob_backend cmd, cm_blob_ref cmd) = upload_blob u) \<Longrightarrow>
   commit_matches cmd s"
  by (auto simp: commit_matches_def split: option.splits)

lemma sample_second_reachable: "mem_reachable sample_second"
proof -
  have opened: "mem_reachable (sample_open u s)" if "mem_reachable s" "fresh_upload (sample_upload u) s" for u s
    using that unfolding sample_open_def
    by (blast intro: mem_reachable.step mem_step.create_upload mem_step.update_upload)
  have "fresh_upload (sample_upload ''1'') sample_tree" by (rule fresh_uploadI) code_simp
  with sample_reachable have "mem_reachable (sample_open ''1'' sample_tree)" by (rule opened)
  moreover have "commit_matches (sample_commit ''1'') (sample_open ''1'' sample_tree)"
    by (rule commit_matchesI) code_simp
  ultimately have "mem_reachable sample_first" unfolding sample_first_def
    by (blast intro: mem_reachable.step mem_step.commit)
  moreover have "fresh_upload (sample_upload ''2'') sample_first" by (rule fresh_uploadI) code_simp
  ultimately have "mem_reachable (sample_open ''2'' sample_first)" by (rule opened)
  moreover have "commit_matches (sample_commit ''2'') (sample_open ''2'' sample_first)"
    by (rule commit_matchesI) code_simp
  ultimately show ?thesis unfolding sample_second_def
    by (blast intro: mem_reachable.step mem_step.commit)
qed

theorem queued_blob_never_live_witness:
  "(''b'', ''x1'') \<in> gc_blobs sample_second \<and>
   (\<exists>so. live_object sample_second ''f'' = Some so \<and> blob_of so \<noteq> Some (''b'', ''x1''))"
proof
  have q: "map gr_blob (gc sample_second) = [(''b'', ''x1'')]" by code_simp
  then show g: "(''b'', ''x1'') \<in> gc_blobs sample_second" unfolding gc_blobs_def q by simp
  have "live_object sample_second ''f'' \<noteq> None" by code_simp
  then obtain so where live: "live_object sample_second ''f'' = Some so" by blast
  from queued_blob_never_live [OF sample_second_reachable g rtranclp.rtrancl_refl live] live
  show "\<exists>so. live_object sample_second ''f'' = Some so \<and> blob_of so \<noteq> Some (''b'', ''x1'')" by blast
qed

theorem claim_gc_batch_safe_witness:
  "\<exists>batch s'. claim_gc_batch 10 5 sample_second = (Ok batch, s') \<and> length batch = 1
     \<and> gc_blobs s' = gc_blobs sample_second"
proof -
  have "(case fst (claim_gc_batch 10 5 sample_second) of Inl _ \<Rightarrow> 0 | Inr b \<Rightarrow> length b) = 1" by code_simp
  then obtain batch s' where c: "claim_gc_batch 10 5 sample_second = (Ok batch, s')" "length batch = 1"
    by (cases "claim_gc_batch 10 5 sample_second") (auto split: sum.splits)
  with claim_gc_batch_safe [OF c(1)] show ?thesis by blast
qed

end
