(* ===== verification/MemMutationProps.thy ===== *)
theory MemMutationProps
  imports MemTreeOps Samples
begin

text \<open>
  What the mutations of the in-memory metastore do, branch by branch: the changes they append,
  the revisions they write, what a refusal leaves, and the order of a recursive delete.
\<close>

section \<open>The end of a mutation\<close>

lemma finalize_ok:
  assumes "finalize_idempotency ctx r s = (Ok u, s')"
  shows "(case mc_idempotency ctx of
      None \<Rightarrow> s' = s
    | Some ic \<Rightarrow> (\<exists>row. table_get (idempotency s) (idempotency_row_key ic) = Some row
        \<and> ir_owner_token row = Some (ic_owner_token ic)
        \<and> s' = s\<lparr>idempotency := table_insert (idempotency_row_key ic)
             (complete_row r (mc_idempotency_expires_at ctx) row) (idempotency s)\<rparr>))"
  using assms by (auto simp: finalize_idempotency_def split: option.splits if_splits)

lemma respond_with_ok:
  assumes "respond_with ctx out s = (Ok r, s')"
  shows "mc_render ctx out = Ok r \<and> finalize_idempotency ctx r s = (Ok (), s')"
  using assms by (auto simp: respond_with_def split: sum.splits prod.splits)

lemma respond_with_view_ok:
  assumes "respond_with_view ctx i chs n s = (Ok r, s')"
  obtains view where "view_of s i = Ok view"
    "mc_render ctx \<lparr>mo_object = Some view, mo_changes = chs, mo_no_op = n\<rparr> = Ok r"
    "finalize_idempotency ctx r s = (Ok (), s')"
  using assms by (auto simp: respond_with_view_def split: sum.splits dest!: respond_with_ok)

section \<open>Change records\<close>

lemma patch_pending_eq:
  "patch_pending i r ob t =
     (if name_changed ob t then [pending_change_new i r Renamed] else []) @
     (if parent_changed ob t then [pending_change_new i r Moved] else []) @
     (if metadata_changed ob t then [pending_change_new i r MetadataUpdated] else [])"
  by (simp add: patch_pending_def pending_change_new_def)

lemma records_from_fields:
  "map c_action (records_from ctx n ps) = map p_action ps"
  "map c_object_id (records_from ctx n ps) = map p_object_id ps"
  "map c_revision (records_from ctx n ps) = map p_revision ps"
  "map c_tombstone (records_from ctx n ps) = map p_tombstone ps"
  by (induction ps arbitrary: n) (simp_all add: change_record_of_def)

definition patch_actions :: "object \<Rightarrow> patch_target \<Rightarrow> change_action list" where
  "patch_actions ob t =
     (if name_changed ob t then [Renamed] else []) @
     (if parent_changed ob t then [Moved] else []) @
     (if metadata_changed ob t then [MetadataUpdated] else [])"

lemma patch_changes_fields:
  "map c_action (patch_changes cmd ob t s) = patch_actions ob t"
  "list_all (\<lambda>c. c_object_id c = po_id cmd \<and> c_revision c = next_revision (o_revision ob)
      \<and> \<not> c_tombstone c) (patch_changes cmd ob t s)"
  by (simp_all add: patch_changes_def records_from_fields patch_pending_eq patch_actions_def
      pending_change_new_def change_record_of_def)

text \<open>
  C14: a successful PATCH either changes nothing - when name, parent and metadata are already
  the requested ones - or moves the object to its next revision and appends one change for
  each aspect that differs, in the order renamed, moved, metadata updated, all with that
  revision and none a tombstone. The rest of the objects is untouched.
\<close>

theorem patch_object_outcome:
  assumes "patch_object cmd s = (Ok response, s')" and "live_object s (po_id cmd) = Some stored"
  shows "\<exists>t. patch_target_of cmd (so_object stored) = Ok t \<and>
    (if patch_no_op (so_object stored) t
     then objects s' = objects s \<and> changes s' = changes s
     else live_object s' = (live_object s)(po_id cmd \<mapsto> patched cmd (so_object stored) t stored)
       \<and> o_revision (so_object (patched cmd (so_object stored) t stored))
           = next_revision (o_revision (so_object stored))
       \<and> (\<exists>recs. changes s' = changes s @ recs \<and> map c_action recs = patch_actions (so_object stored) t
            \<and> list_all (\<lambda>c. c_object_id c = po_id cmd \<and> \<not> c_tombstone c
                 \<and> c_revision c = next_revision (o_revision (so_object stored))) recs))"
proof (cases rule: patch_object_cases [of cmd s])
  case (refused e)
  with assms(1) show ?thesis by simp
next
  case (unchanged st t)
  with assms have "st = stored" "s' = snd (respond_with_view (po_ctx cmd) (po_id cmd) [] True s)"
    by simp_all
  with unchanged show ?thesis by (intro exI [of _ t]) (simp add: frame_simps)
next
  case (written st t)
  from written(1) assms(2) have st: "st = stored" by simp
  let ?chs = "patch_changes cmd (so_object stored) t s"
  let ?s1 = "s\<lparr>objects := table_modify (po_id cmd) (patched cmd (so_object stored) t) (objects s),
      changes := changes s @ ?chs\<rparr>"
  from assms(1) written(8) st
  have s': "s' = snd (respond_with_view (po_ctx cmd) (po_id cmd) ?chs False ?s1)" by simp
  from assms(2) have get: "table_get (objects s) (po_id cmd) = Some stored" "is_live stored"
    by (simp_all add: live_object_iff)
  have "live_object s' = live_object (s\<lparr>objects := objects s'\<rparr>)" by (rule live_object_cong) simp
  also have "\<dots> = (live_object s)(po_id cmd \<mapsto> patched cmd (so_object stored) t stored)"
    using get by (simp add: s' frame_simps live_object_modify)
  finally have "live_object s' = \<dots>" .
  moreover have "changes s' = changes s @ ?chs" by (simp add: s' frame_simps)
  moreover have "list_all (\<lambda>c. c_object_id c = po_id cmd \<and> \<not> c_tombstone c
      \<and> c_revision c = next_revision (o_revision (so_object stored))) ?chs"
    using patch_changes_fields(2) [of cmd "so_object stored" t s] by (simp add: list_all_iff)
  moreover have "o_revision (so_object (patched cmd (so_object stored) t stored))
      = next_revision (o_revision (so_object stored))"
    by (simp add: patched_def patch_fields_def)
  ultimately show ?thesis
    using written(4,5) st patch_changes_fields(1) by (intro exI [of _ t]) auto
qed

theorem patch_object_outcome_witness:
  "patch_object sample_patch sample_tree
     = (Ok (stored_response_json 200 ''new''), snd (patch_object sample_patch sample_tree)) \<and>
   (\<exists>recs. changes (snd (patch_object sample_patch sample_tree)) = changes sample_tree @ recs
      \<and> map c_action recs = [Renamed, Moved])"
proof
  have "fst (patch_object sample_patch sample_tree) = Ok (stored_response_json 200 ''new'')"
    by code_simp
  then show p: "patch_object sample_patch sample_tree
     = (Ok (stored_response_json 200 ''new''), snd (patch_object sample_patch sample_tree))"
    by (metis prod.collapse)
  have live: "live_object sample_tree (po_id sample_patch) = Some (sample_object ''f'' File ''a.txt'' ''d'' 2)"
    using sample_tree_live by (simp add: sample_patch_def)
  have t: "patch_target_of sample_patch (so_object (sample_object ''f'' File ''a.txt'' ''d'' 2))
      = Ok \<lparr>pt_name = ''b.txt'', pt_parent = Some ROOT_ID, pt_metadata = JObject []\<rparr>"
    by code_simp
  have "\<not> patch_no_op (so_object (sample_object ''f'' File ''a.txt'' ''d'' 2))
      \<lparr>pt_name = ''b.txt'', pt_parent = Some ROOT_ID, pt_metadata = JObject []\<rparr> \<and>
      patch_actions (so_object (sample_object ''f'' File ''a.txt'' ''d'' 2))
      \<lparr>pt_name = ''b.txt'', pt_parent = Some ROOT_ID, pt_metadata = JObject []\<rparr> = [Renamed, Moved]"
    by code_simp
  with patch_object_outcome [OF p live] t
  show "\<exists>recs. changes (snd (patch_object sample_patch sample_tree)) = changes sample_tree @ recs
      \<and> map c_action recs = [Renamed, Moved]"
    by auto
qed

section \<open>Optimistic concurrency\<close>

text \<open>
  C17: a mutation that carries an If-Match revision other than the current one is refused with
  the current revision and changes nothing at all: no object, change, upload, idempotency
  row or queue entry.
\<close>

theorem stale_if_match_refused:
  assumes "live_object s i = Some stored" and "expected \<noteq> o_revision (so_object stored)"
  shows "(po_id p = i \<longrightarrow> po_if_match p = Some expected \<longrightarrow>
           patch_object p s = (Err (RevisionConflict (o_revision (so_object stored))), s)) \<and>
         (do_id d = i \<longrightarrow> do_if_match d = Some expected \<longrightarrow>
           delete_object d s = Some (Err (RevisionConflict (o_revision (so_object stored))), s)) \<and>
         (cm_object_id c = i \<longrightarrow> cm_if_match c = Some expected \<longrightarrow> is_file (so_object stored) \<longrightarrow>
           table_get (uploads s) (cm_upload_id c) = Some up \<longrightarrow> is_completable (u_state up) \<longrightarrow>
           commit_content c s = (Err (RevisionConflict (o_revision (so_object stored))), s))"
  using assms
  by (simp add: patch_object_def delete_object_def commit_content_def check_if_match_def
      is_completable_def Let_def)

theorem stale_if_match_refused_witness:
  "delete_object (sample_delete\<lparr>do_if_match := Some 7\<rparr>) sample_tree
     = Some (Err (RevisionConflict 1), sample_tree)"
proof -
  have r: "o_revision (so_object (sample_object ''d'' Folder ''docs'' ROOT_ID 1)) = 1" by code_simp
  have "(7 :: revision) \<noteq> o_revision (so_object (sample_object ''d'' Folder ''docs'' ROOT_ID 1))"
    unfolding r by simp
  from stale_if_match_refused [OF sample_tree_live(1) this]
  show ?thesis unfolding r by (simp add: sample_delete_def)
qed

section \<open>Recursive delete\<close>

text \<open>Each entry that the worklist finds below its start is one level below its parent's entry.\<close>

definition worklist_depths :: "forest \<Rightarrow> object_id \<Rightarrow> (nat \<times> string) list \<Rightarrow> (nat \<times> string) list \<Rightarrow> bool" where
  "worklist_depths L i found frontier \<longleftrightarrow>
     set frontier \<subseteq> set found \<and>
     (\<forall>(d, j) \<in> set found. (d, j) = (0, i) \<or>
        (\<exists>e p. d = Suc e \<and> (e, p) \<in> set found \<and> (p, j) \<in> child_edges L))"

lemma worklist_depths_start: "worklist_depths L i [(0, i)] [(0, i)]"
  by (simp add: worklist_depths_def)

lemma worklist_depths_step:
  assumes k: "keys_ok s" and w: "worklist_depths (live_object s) i found frontier"
    and ne: "frontier \<noteq> []" and l: "last frontier = (d, p)"
  shows "worklist_depths (live_object s) i (found @ child_entries s d p)
           (butlast frontier @ child_entries s d p)"
proof -
  from ne l have "(d, p) \<in> set frontier" by (metis last_in_set)
  with w have dp: "(d, p) \<in> set found" by (auto simp: worklist_depths_def)
  have sub: "set (butlast frontier) \<subseteq> set found"
    using w by (auto simp: worklist_depths_def dest: in_set_butlastD)
  have "(e, j) = (0, i) \<or> (\<exists>e' q. e = Suc e' \<and> (e', q) \<in> set found \<union> set (child_entries s d p)
      \<and> (q, j) \<in> child_edges (live_object s))"
    if "(e, j) \<in> set found \<union> set (child_entries s d p)" for e j
  proof (cases "(e, j) \<in> set found")
    case True
    with w show ?thesis unfolding worklist_depths_def by blast
  next
    case False
    with that have "e = d + 1" "(p, j) \<in> child_edges (live_object s)"
      by (auto simp: child_entries_set [OF k])
    with dp show ?thesis by auto
  qed
  with sub show ?thesis unfolding worklist_depths_def set_append by blast
qed

lemma descend_loop_depths:
  assumes "descend_loop s found frontier = Some r" and "keys_ok s"
    and "worklist_depths (live_object s) i found frontier"
  shows "worklist_depths (live_object s) i r []"
  using assms
proof (induction s found frontier r rule: descend_loop.raw_induct)
  case (1 loop s found frontier r)
  show ?case
  proof (cases "frontier = []")
    case True
    with 1 show ?thesis by simp
  next
    case False
    obtain d p where l: "last frontier = (d, p)" by (cases "last frontier")
    from 1(2) False l have "loop s (found @ child_entries s d p)
        (butlast frontier @ child_entries s d p) = Some r" by simp
    moreover from \<open>descend_loop s found frontier = Some r\<close> False l
    have "descend_loop s (found @ child_entries s d p)
        (butlast frontier @ child_entries s d p) = Some r"
      by (simp add: descend_loop.simps [of s found frontier])
    moreover note \<open>keys_ok s\<close>
    moreover have "worklist_depths (live_object s) i (found @ child_entries s d p)
        (butlast frontier @ child_entries s d p)"
      using \<open>keys_ok s\<close> \<open>worklist_depths (live_object s) i found frontier\<close> False l
      by (rule worklist_depths_step)
    ultimately show ?thesis by (rule 1(1))
  qed
qed (rule assms(1))

text \<open>Sorting by depth puts no parent before one of its children.\<close>

lemma sort_depth_first_order:
  assumes "k < l" and "l < length es"
  shows "fst (sort_depth_first es ! l) \<le> fst (sort_depth_first es ! k)"
proof -
  let ?xs = "sort_depth_first es" and ?f = "\<lambda>(d, i). DepthEntry d i"
  have "sorted (map ?f ?xs)" by (simp add: sort_depth_first_def)
  moreover have "length ?xs = length es" by (simp add: sort_depth_first_def)
  ultimately have "?f (?xs ! k) \<le> ?f (?xs ! l)"
    using assms sorted_nth_mono [of "map ?f ?xs" k l] by simp
  then show ?thesis
    by (cases "?xs ! k"; cases "?xs ! l") (auto simp: less_eq_depth_entry_def)
qed

lemma descendants_order:
  assumes t: "keys_ok s" "tree_shape (live_object s)" "rooted (live_object s)"
    and r: "descendants s i = Some es" and d: "distinct (map snd es)"
    and kl: "k < l" "l < length es"
  shows "(snd (es ! k), snd (es ! l)) \<notin> child_edges (live_object s)"
proof
  assume e: "(snd (es ! k), snd (es ! l)) \<in> child_edges (live_object s)"
  from r obtain f where f: "descend_loop s [(0, i)] [(0, i)] = Some f" "es = sort_depth_first f"
    by (auto simp: descendants_def)
  from f(1) t(1) have "worklist_depths (live_object s) i f []"
    by (rule descend_loop_depths) (rule worklist_depths_start)
  then have depths: "(x, j) = (0, i) \<or> (\<exists>y p. x = Suc y \<and> (y, p) \<in> set es \<and> (p, j) \<in> child_edges (live_object s))"
    if "(x, j) \<in> set es" for x j
    using that f(2) by (auto simp: worklist_depths_def sort_depth_first_def)
  have below: "snd ` set es = subtree (live_object s) i"
    using descend_loop_result [OF f(1) t(1) worklist_start(1)] f(2) by (simp add: sort_depth_first_def)
  have mem: "es ! k \<in> set es" "es ! l \<in> set es" using kl by simp_all
  have "snd (es ! l) \<noteq> i"
  proof
    assume "snd (es ! l) = i"
    moreover from mem(1) below have "snd (es ! k) \<in> subtree (live_object s) i" by blast
    ultimately have "(i, i) \<in> (child_edges (live_object s))\<^sup>+"
      using e by (auto simp: subtree_def intro: rtrancl_into_trancl1)
    with rooted_acyclic [OF t(2,3)] show False by blast
  qed
  with depths [of "fst (es ! l)" "snd (es ! l)"] mem(2) obtain y p where
    y: "fst (es ! l) = Suc y" "(y, p) \<in> set es" "(p, snd (es ! l)) \<in> child_edges (live_object s)"
    by auto
  with e have "p = snd (es ! k)" using parent_unique by metis
  with d y(2) mem(1) have "y = fst (es ! k)"
    by (metis eq_key_imp_eq_value map_of_eq_Some_iff prod.collapse distinct_map inj_onD snd_conv fst_conv)
  moreover have "fst (es ! l) \<le> fst (es ! k)"
    using sort_depth_first_order [of k l f] kl f(2) by (simp add: sort_depth_first_def)
  ultimately show False using y(1) by simp
qed

text \<open>The worklist of a delete ends on a tree without cycles, with every target once.\<close>

lemma descendants_total:
  assumes "tree_ok s" and "tree_rooted s" and "live_object s i \<noteq> None"
  shows "\<exists>es. descendants s i = Some es \<and> distinct (map snd es)"
proof -
  from assms(1,2) have t: "keys_ok s" "tree_shape (live_object s)" "rooted (live_object s)"
    by (simp_all add: tree_ok_def tree_rooted_def)
  obtain r where r: "descend_loop s [(0, i)] [(0, i)] = Some r" "distinct (map snd r)"
    using descend_loop_terminates [OF t(1) rooted_acyclic [OF t(2,3)] assms(3) worklist_start] by blast
  have "mset (map snd (sort_depth_first r)) = mset (map snd r)"
    unfolding sort_depth_first_def mset_map mset_sort ..
  with r(2) have "distinct (map snd (sort_depth_first r))"
    by (metis mset_eq_imp_distinct_iff)
  with r(1) show ?thesis by (simp add: descendants_def)
qed

definition tombstone_change :: "mem_state \<Rightarrow> object_id \<Rightarrow> pending_change" where
  "tombstone_change s i =
     pending_change_new i
       (case live_object s i of None \<Rightarrow> INITIAL | Some so \<Rightarrow> next_revision (o_revision (so_object so)))
       Deleted"

lemma live_targets_map:
  "(\<And>i. i \<in> set is \<Longrightarrow> live_object s i \<noteq> None) \<Longrightarrow>
   map (\<lambda>(i, so). pending_change_new i (next_revision (o_revision (so_object so))) Deleted)
     (live_targets is s) = map (tombstone_change s) is"
proof (induction "is")
  case (Cons a "is")
  then obtain so where "live_object s a = Some so" by fastforce
  with Cons show ?case by (simp add: live_targets_def List.map_filter_simps tombstone_change_def)
qed (simp add: live_targets_def List.map_filter_simps)

text \<open>
  C15: deleting an object of a tree without cycles always returns, although the walk over the
  tree is an unbounded worklist. Unless it is refused, it removes exactly the subtree of the
  object from the live objects and appends one tombstone for each removed object, at the next
  revision of that object, with no parent before one of its children.
\<close>

theorem delete_object_outcome:
  assumes "tree_ok s" and "tree_rooted s" and "live_object s (do_id cmd) = Some stored"
    and "do_if_match cmd = None \<or> do_if_match cmd = Some (o_revision (so_object stored))"
    and "do_id cmd \<noteq> ROOT_ID" and "do_recursive cmd \<or> \<not> has_children s (do_id cmd)"
  shows "\<exists>res s' targets. delete_object cmd s = Some (res, s')
     \<and> distinct targets \<and> set targets = subtree (live_object s) (do_id cmd)
     \<and> live_object s' = forest_without (subtree (live_object s) (do_id cmd)) (live_object s)
     \<and> changes s' = changes s @ records_from (do_ctx cmd) (int (length (changes s)) + 1)
          (map (tombstone_change s) targets)
     \<and> (\<forall>l<length targets. \<forall>k<l. (targets ! k, targets ! l) \<notin> child_edges (live_object s))"
proof -
  from assms(1,2) have t: "keys_ok s" "tree_shape (live_object s)" "rooted (live_object s)"
    by (simp_all add: tree_ok_def tree_rooted_def)
  let ?ob = "so_object stored"
  from live_id [OF t(1) assms(3)] assms(5) have nr: "\<not> object_is_root ?ob"
    by (simp add: object_is_root_def is_root_def)
  obtain targets where tg: "delete_targets cmd ?ob s = Some (Ok targets)" "distinct targets"
    and order: "\<forall>l<length targets. \<forall>k<l. (targets ! k, targets ! l) \<notin> child_edges (live_object s)"
  proof (cases "is_folder ?ob \<and> do_recursive cmd")
    case True
    obtain es where es: "descendants s (do_id cmd) = Some es" "distinct (map snd es)"
      using descendants_total [OF assms(1,2)] assms(3) by blast
    have "\<forall>l<length (map snd es). \<forall>k<l. (map snd es ! k, map snd es ! l) \<notin> child_edges (live_object s)"
      using descendants_order [OF t es] by auto
    with True es show thesis by (intro that [of "map snd es"]) (simp_all add: delete_targets_def)
  next
    case False
    then have "delete_targets cmd ?ob s = Some (Ok [do_id cmd])"
      using assms(6) by (auto simp: delete_targets_def)
    then show thesis by (intro that [of "[do_id cmd]"]) simp_all
  qed
  have sub: "set targets = subtree (live_object s) (do_id cmd)"
    using assms(1,3) tg(1) by (rule delete_targets_subtree)
  obtain res s' where w: "write_delete cmd targets s = (res, s')" by (cases "write_delete cmd targets s")
  have del: "delete_object cmd s = Some (res, s')"
    using assms(3,4) nr tg(1) w by (auto simp: delete_object_def check_if_match_def)
  from w have s': "s' = snd (write_delete cmd targets s)" by simp
  have live: "live_object s i \<noteq> None" if "i \<in> set targets" for i
    using that sub assms(3) subtree_live by fastforce
  have "changes s' = changes s @ records_from (do_ctx cmd) (int (length (changes s)) + 1)
      (map (tombstone_change s) targets)"
    using tombstone_all_lists [OF tg(2), of "mc_now (do_ctx cmd)" s] live_targets_map [of targets s] live
    by (simp add: s' write_delete_frame)
  moreover have "live_object s' = forest_without (subtree (live_object s) (do_id cmd)) (live_object s)"
    by (simp add: s' live_object_delete sub)
  ultimately show ?thesis using del tg(2) sub order by blast
qed

lemma sample_tree_ok: "tree_ok sample_tree \<and> tree_rooted sample_tree"
proof -
  let ?s = "snd (create_object sample_folder (mem_new 0))"
  have f: "table_get (objects (mem_new 0)) (co_id sample_folder) = None"
    "table_get (objects ?s) (co_id sample_file) = None"
    using sample_fresh by (simp_all add: sample_folder_def sample_file_def)
  have "tree_ok ?s \<and> tree_rooted ?s"
    using mem_new_tree f(1) by (simp add: create_object_tree_ok create_object_rooted)
  with f(2) show ?thesis
    unfolding sample_tree_def by (simp add: create_object_tree_ok create_object_rooted)
qed

theorem delete_object_outcome_witness:
  "\<exists>res s'. delete_object sample_delete sample_tree = Some (res, s')
     \<and> ''d'' \<notin> dom (live_object s') \<and> ''f'' \<notin> dom (live_object s')"
proof -
  have e: "(''d'', ''f'') \<in> child_edges (live_object sample_tree)"
    using sample_tree_live(2)
    by (simp add: child_edges_iff parent_of_def sample_object_def created_object_def)
  have live: "live_object sample_tree (do_id sample_delete) = Some (sample_object ''d'' Folder ''docs'' ROOT_ID 1)"
    using sample_tree_live(1) by (simp add: sample_delete_def)
  have c: "do_if_match sample_delete = None \<or> do_if_match sample_delete
      = Some (o_revision (so_object (sample_object ''d'' Folder ''docs'' ROOT_ID 1)))"
    "do_id sample_delete \<noteq> ROOT_ID" "do_recursive sample_delete \<or> \<not> has_children sample_tree (do_id sample_delete)"
    by (simp_all add: sample_delete_def ROOT_ID_def)
  from delete_object_outcome [OF sample_tree_ok [THEN conjunct1] sample_tree_ok [THEN conjunct2] live c]
  obtain res s' where r: "delete_object sample_delete sample_tree = Some (res, s')"
    "live_object s' = forest_without (subtree (live_object sample_tree) ''d'') (live_object sample_tree)"
    by (auto simp: sample_delete_def)
  have "''f'' \<in> subtree (live_object sample_tree) ''d''"
    using subtree_step [OF subtree_refl e] .
  with r show ?thesis by (auto simp: forest_without_def dom_def)
qed

section \<open>Content\<close>



end
