(* ===== verification/MemReads.thy ===== *)
theory MemReads
  imports DomainTypes MemTree Samples "HOL-Library.Product_Lexorder"
begin

text \<open>
  The reads of the in-memory store, and before them the contract of their listings.

  The contract of a listing that is read in pages: a cursor stands for a position in the
  listing, a page holds the items from its cursor's position on, and its next cursor, if any,
  stands for the position after them. The client's guarantee is proved once: following the
  cursors from the first page on ends, and has then read the listing exactly.
\<close>

text \<open>A client that follows cursors, for at most the given number of pages.\<close>

fun follow_pages :: "(string option \<Rightarrow> 'a page result) \<Rightarrow> nat \<Rightarrow> string option \<Rightarrow> 'a list option" where
  "follow_pages fetch 0 c = None"
| "follow_pages fetch (Suc n) c =
     (case fetch c of
        Inl _ \<Rightarrow> None
      | Inr p \<Rightarrow>
          (case pg_next_cursor p of
             None \<Rightarrow> Some (pg_items p)
           | Some c' \<Rightarrow> map_option ((@) (pg_items p)) (follow_pages fetch n (Some c'))))"

locale keyset_pages =
  fixes fetch :: "'q \<Rightarrow> string option \<Rightarrow> 'a page result"
    and listing :: "'q \<Rightarrow> 'a list"
    and mark :: "'q \<Rightarrow> string option \<Rightarrow> nat option"
    and ok :: "'q \<Rightarrow> bool"
  assumes first_page: "ok q \<Longrightarrow> mark q None = Some 0"
    and next_page: "ok q \<Longrightarrow> mark q c = Some k \<Longrightarrow> k \<le> length (listing q) \<Longrightarrow>
      \<exists>p. fetch q c = Ok p \<and>
        (case pg_next_cursor p of
           None \<Rightarrow> \<not> pg_has_more p \<and> pg_items p = drop k (listing q)
         | Some c' \<Rightarrow> pg_has_more p \<and> (\<exists>m. k < m \<and> m \<le> length (listing q) \<and> mark q (Some c') = Some m \<and>
             pg_items p = take (m - k) (drop k (listing q))))"
begin

lemma follow_from:
  assumes "ok q" and "mark q c = Some k" and "k \<le> length (listing q)" and "length (listing q) - k < n"
  shows "follow_pages (fetch q) n c = Some (drop k (listing q))"
  using assms(2-4)
proof (induction n arbitrary: c k)
  case 0
  then show ?case by simp
next
  case (Suc n)
  from next_page [OF assms(1) Suc.prems(1,2)] obtain p where p: "fetch q c = Ok p"
    "case pg_next_cursor p of
       None \<Rightarrow> \<not> pg_has_more p \<and> pg_items p = drop k (listing q)
     | Some c' \<Rightarrow> pg_has_more p \<and> (\<exists>m. k < m \<and> m \<le> length (listing q) \<and> mark q (Some c') = Some m \<and>
         pg_items p = take (m - k) (drop k (listing q)))" by blast
  show ?case
  proof (cases "pg_next_cursor p")
    case None
    with p show ?thesis by simp
  next
    case (Some c')
    with p(2) obtain m where m: "k < m" "m \<le> length (listing q)" "mark q (Some c') = Some m"
      "pg_items p = take (m - k) (drop k (listing q))" by auto
    with Suc.prems(3) have "follow_pages (fetch q) n (Some c') = Some (drop m (listing q))"
      by (intro Suc.IH) simp_all
    moreover have "take (m - k) (drop k (listing q)) @ drop m (listing q) = drop k (listing q)"
      using m(1) append_take_drop_id [of "m - k" "drop k (listing q)"] by simp
    ultimately show ?thesis using p(1) Some m(4) by simp
  qed
qed

text \<open>One request more than the listing has items is enough, whatever the page size.\<close>

lemma follow_all:
  "ok q \<Longrightarrow> follow_pages (fetch q) (length (listing q) + 1) None = Some (listing q)"
  using follow_from [of q None 0] first_page by (simp del: follow_pages.simps)

end

text \<open>
  The \<open>ObjectRepository\<close> of the in-memory metastore: reading one object, listing a folder,
  resolving a path and querying metadata. The listing's pages are cut by a keyset cursor; that
  following the cursors walks the whole listing is the main theorem. Formatting an instant for
  the cursor's sort key is the third-party \<open>to_rfc3339\<close>, an argument.
\<close>

section \<open>Sorting\<close>

definition position :: "('a \<Rightarrow> bool) \<Rightarrow> 'a list \<Rightarrow> nat option" where
  "position P xs =
     (let n = length (takeWhile (\<lambda>x. \<not> P x) xs) in if n < length xs then Some n else None)"

text \<open>
  What a listing is ordered by: text for names, numbers for the rest. Values of one listing are
  of one sort, so the order between the sorts does not matter.
\<close>

datatype sort_value = SortText string | SortNumber int

instantiation sort_value :: linorder
begin

fun less_eq_sort_value :: "sort_value \<Rightarrow> sort_value \<Rightarrow> bool" where
  "less_eq_sort_value (SortText a) (SortText b) \<longleftrightarrow> a \<le> b"
| "less_eq_sort_value (SortNumber a) (SortNumber b) \<longleftrightarrow> a \<le> b"
| "less_eq_sort_value (SortText _) (SortNumber _) \<longleftrightarrow> True"
| "less_eq_sort_value (SortNumber _) (SortText _) \<longleftrightarrow> False"

definition less_sort_value :: "sort_value \<Rightarrow> sort_value \<Rightarrow> bool" where
  "less_sort_value a b \<longleftrightarrow> a \<le> b \<and> \<not> b \<le> a"

instance
proof
  fix x y z :: sort_value
  show "x < y \<longleftrightarrow> x \<le> y \<and> \<not> y \<le> x" by (simp add: less_sort_value_def)
  show "x \<le> x" by (cases x) simp_all
  show "x \<le> y \<Longrightarrow> y \<le> z \<Longrightarrow> x \<le> z" by (cases x; cases y; cases z) simp_all
  show "x \<le> y \<Longrightarrow> y \<le> x \<Longrightarrow> x = y" by (cases x; cases y) simp_all
  show "x \<le> y \<or> y \<le> x" by (cases x; cases y) auto
qed

end

text \<open>
  \<open>size as i64\<close> reads the 64-bit word as a signed number, so a size from \<open>2 ^ 63\<close> on sorts
  before every other.
\<close>

definition size_key :: "object \<Rightarrow> int" where
  "size_key ob = (case o_size ob of None \<Rightarrow> - 1 | Some z \<Rightarrow> sint z)"

definition listing_key :: "order_by \<Rightarrow> object_view \<Rightarrow> sort_value \<times> string" where
  "listing_key order_by v =
     (let ob = ov_object v in
      (case order_by of
         ByName \<Rightarrow> SortText (o_name ob)
       | ByCreatedAt \<Rightarrow> SortNumber (o_created_at ob)
       | ByUpdatedAt \<Rightarrow> SortNumber (o_updated_at ob)
       | BySize \<Rightarrow> SortNumber (size_key ob), o_id ob))"

text \<open>A stable sort by a comparison, and by the reversed comparison.\<close>

definition sort_listing :: "list_order \<Rightarrow> ('a \<Rightarrow> 'k::linorder) \<Rightarrow> 'a list \<Rightarrow> 'a list" where
  "sort_listing order f xs =
     (case order of Asc \<Rightarrow> sort_key f xs | Desc \<Rightarrow> rev (sort_key f (rev xs)))"

section \<open>Pages\<close>

definition cursor_sort_key ::
  "(time \<Rightarrow> string) \<Rightarrow> object_view \<Rightarrow> order_by option \<Rightarrow> string option" where
  "cursor_sort_key rfc3339 v order_by =
     (case order_by of
        None \<Rightarrow> None
      | Some ByName \<Rightarrow> Some (o_name (ov_object v))
      | Some ByCreatedAt \<Rightarrow> Some (rfc3339 (o_created_at (ov_object v)))
      | Some ByUpdatedAt \<Rightarrow> Some (rfc3339 (o_updated_at (ov_object v)))
      | Some BySize \<Rightarrow> Some (dec_int (size_key (ov_object v))))"

definition after_cursor ::
  "cursor_codec \<Rightarrow> string option \<Rightarrow> object_view list \<Rightarrow> object_view list result" where
  "after_cursor cc cursor items =
     (case cursor of
        None \<Rightarrow> Ok items
      | Some c \<Rightarrow>
          rbind (decode_cursor cc c) (\<lambda>kc.
            Ok (case position (\<lambda>v. o_id (ov_object v) = kc_i kc) items of
                  Some index \<Rightarrow> drop (index + 1) items
                | None \<Rightarrow> [])))"

definition paginate ::
  "cursor_codec \<Rightarrow> (time \<Rightarrow> string) \<Rightarrow> object_view list \<Rightarrow> 32 word \<Rightarrow> string option \<Rightarrow>
   order_by option \<Rightarrow> object_view page result" where
  "paginate cc rfc3339 listing limit cursor order_by =
     rbind (after_cursor cc cursor listing) (\<lambda>rest.
       let has_more = unat limit < length rest;
           items = take (unat limit) rest
       in rbind
            (if has_more \<and> items \<noteq> []
             then rbind (encode_cursor cc
                    \<lparr>kc_k = cursor_sort_key rfc3339 (last items) order_by,
                     kc_i = o_id (ov_object (last items))\<rparr>) (\<lambda>c. Ok (Some c))
             else Ok None)
            (\<lambda>next_cursor. Ok (page_new items next_cursor has_more)))"

section \<open>Operations\<close>

definition get_object :: "object_id \<Rightarrow> mem_state \<Rightarrow> object_view option" where
  "get_object i s = (case view_of s i of Inl _ \<Rightarrow> None | Inr v \<Rightarrow> Some v)"

definition content_pointer_of :: "object_id \<Rightarrow> mem_state \<Rightarrow> content_pointer option" where
  "content_pointer_of i s =
     (case live_object s i of
        None \<Rightarrow> None
      | Some so \<Rightarrow>
          if has_ready_content (so_object so)
          then (case (so_blob_backend so, so_blob_ref so) of
                  (Some backend, Some r) \<Rightarrow> Some \<lparr>cp_blob_backend = backend, cp_blob_ref = r\<rparr>
                | _ \<Rightarrow> None)
          else None)"

definition view_stored :: "mem_state \<Rightarrow> stored_object \<Rightarrow> object_view result" where
  "view_stored s so =
     rbind (render_path s (o_id (so_object so))) (\<lambda>path.
       Ok \<lparr>ov_object = so_object so, ov_path = path\<rparr>)"

definition children_of :: "mem_state \<Rightarrow> object_id \<Rightarrow> stored_object list" where
  "children_of s parent =
     filter (\<lambda>so. is_live so \<and> o_parent_id (so_object so) = Some parent) (table_values (objects s))"

definition sorted_children :: "list_children_cmd \<Rightarrow> mem_state \<Rightarrow> object_view list result" where
  "sorted_children q s =
     rbind (rmap (view_stored s) (children_of s (lc_parent_id q))) (\<lambda>items.
       Ok (sort_listing (lc_order q) (listing_key (lc_order_by q)) items))"

definition list_children ::
  "cursor_codec \<Rightarrow> (time \<Rightarrow> string) \<Rightarrow> list_children_cmd \<Rightarrow> mem_state \<Rightarrow> object_view page result" where
  "list_children cc rfc3339 q s =
     rbind (sorted_children q s) (\<lambda>items.
       paginate cc rfc3339 items (lc_limit q) (lc_cursor q) (Some (lc_order_by q)))"

definition child_named :: "mem_state \<Rightarrow> object_id \<Rightarrow> string \<Rightarrow> stored_object option" where
  "child_named s current segment =
     find (\<lambda>so. is_live so \<and> o_parent_id (so_object so) = Some current
              \<and> o_name (so_object so) = segment) (table_values (objects s))"

fun resolve_segments :: "mem_state \<Rightarrow> object_id \<Rightarrow> string list \<Rightarrow> object_id option" where
  "resolve_segments s current [] = Some current"
| "resolve_segments s current (segment # rest) =
     (case child_named s current segment of
        None \<Rightarrow> None
      | Some stored \<Rightarrow> resolve_segments s (o_id (so_object stored)) rest)"

definition resolve_path :: "string \<Rightarrow> mem_state \<Rightarrow> object_view option result" where
  "resolve_path path s =
     rbind (split_path path) (\<lambda>segments.
       Ok (case resolve_segments s ROOT_ID segments of
             None \<Rightarrow> None
           | Some i \<Rightarrow> get_object i s))"

definition condition_holds :: "json \<Rightarrow> string \<times> metadata_condition \<Rightarrow> bool" where
  "condition_holds metadata e =
     (case snd e of
        MetaEq expected \<Rightarrow>
          (case json_get metadata (fst e) of None \<Rightarrow> False | Some v \<Rightarrow> json_eq v expected)
      | MetaExists expected \<Rightarrow> (json_get metadata (fst e) \<noteq> None) = expected)"

definition is_none_or :: "'a option \<Rightarrow> ('a \<Rightarrow> bool) \<Rightarrow> bool" where
  "is_none_or x P = (case x of None \<Rightarrow> True | Some v \<Rightarrow> P v)"

definition query_matches :: "object_query \<Rightarrow> object \<Rightarrow> bool" where
  "query_matches q ob \<longleftrightarrow>
     is_none_or (oq_kind q) (\<lambda>k. o_kind ob = k) \<and>
     is_none_or (oq_name q) (\<lambda>n. o_name ob = n) \<and>
     is_none_or (oq_parent_id q) (\<lambda>p. o_parent_id ob = Some p) \<and>
     list_all (condition_holds (o_metadata ob)) (oq_metadata q)"

definition query_objects ::
  "cursor_codec \<Rightarrow> (time \<Rightarrow> string) \<Rightarrow> object_query \<Rightarrow> mem_state \<Rightarrow> object_view page result" where
  "query_objects cc rfc3339 q s =
     rbind (rmap (view_stored s) (filter (\<lambda>so. is_live so \<and> query_matches q (so_object so))
         (table_values (objects s))))
       (\<lambda>items. paginate cc rfc3339 (sort_key (\<lambda>v. o_id (ov_object v)) items)
                  (oq_limit q) (oq_cursor q) None)"

section \<open>Following the pages\<close>

lemma position_nth:
  assumes "distinct (map f xs)" and "i < length xs"
  shows "position (\<lambda>x. f x = f (xs ! i)) xs = Some i"
proof -
  have "takeWhile (\<lambda>x. f x \<noteq> f (xs ! i)) xs = take i xs"
  proof (rule takeWhile_eq_take_P_nth)
    fix j assume "j < i" "j < length xs"
    with assms show "f (xs ! j) \<noteq> f (xs ! i)"
      by (metis distinct_conv_nth length_map nat_less_le nth_map)
  qed (use assms in simp)
  with assms(2) show ?thesis by (simp add: position_def Let_def)
qed

definition view_id :: "object_view \<Rightarrow> object_id" where
  "view_id v = o_id (ov_object v)"

text \<open>The position that a cursor stands for in a listing.\<close>

definition cursor_mark :: "cursor_codec \<Rightarrow> object_view list \<Rightarrow> string option \<Rightarrow> nat option" where
  "cursor_mark cc items cursor =
     (case cursor of
        None \<Rightarrow> Some 0
      | Some c \<Rightarrow>
          (case decode_cursor cc c of
             Inl _ \<Rightarrow> None
           | Inr kc \<Rightarrow> map_option Suc (position (\<lambda>v. view_id v = kc_i kc) items)))"

lemma after_cursor_mark:
  "cursor_mark cc items c = Some k \<Longrightarrow> after_cursor cc c items = Ok (drop k items)"
  by (auto simp: cursor_mark_def after_cursor_def view_id_def split: option.splits sum.splits)

lemma paginate_page:
  assumes "codec_ok cc" and "distinct (map view_id items)" and "0 < unat limit"
    and "cursor_mark cc items c = Some k" and "k \<le> length items"
  shows "\<exists>p. paginate cc rfc3339 items limit c ob = Ok p \<and>
    (case pg_next_cursor p of
       None \<Rightarrow> \<not> pg_has_more p \<and> pg_items p = drop k items
     | Some c' \<Rightarrow> pg_has_more p \<and> (\<exists>m. k < m \<and> m \<le> length items \<and> cursor_mark cc items (Some c') = Some m \<and>
         pg_items p = take (m - k) (drop k items)))"
proof (cases "unat limit < length (drop k items)")
  case False
  with after_cursor_mark [OF assms(4)] show ?thesis
    by (simp add: paginate_def page_new_def)
next
  case True
  define m where "m = k + unat limit"
  from True assms(3) have m: "k < m" "m \<le> length items" by (simp_all add: m_def)
  let ?page = "take (unat limit) (drop k items)"
  have ne: "?page \<noteq> []" using True assms(3) by auto
  have l: "last ?page = items ! (m - 1)"
    using True assms(3) by (simp add: m_def last_conv_nth min_absorb2)
  obtain c' where c': "encode_cursor cc
      \<lparr>kc_k = cursor_sort_key rfc3339 (last ?page) ob, kc_i = o_id (ov_object (last ?page))\<rparr> = Ok c'"
    "decode_cursor cc c' = Ok
      \<lparr>kc_k = cursor_sort_key rfc3339 (last ?page) ob, kc_i = o_id (ov_object (last ?page))\<rparr>"
    by (rule cursor_roundtrip [OF assms(1)])
  have "position (\<lambda>v. view_id v = view_id (items ! (m - 1))) items = Some (m - 1)"
    using m by (intro position_nth [OF assms(2)]) simp
  with c'(2) l m(1) have mark: "cursor_mark cc items (Some c') = Some m"
    by (simp add: cursor_mark_def view_id_def)
  have "paginate cc rfc3339 items limit c ob = Ok (page_new ?page (Some c') True)"
    using True ne c'(1) after_cursor_mark [OF assms(4)] by (simp add: paginate_def)
  with m mark show ?thesis by (auto simp: page_new_def m_def)
qed

text \<open>The two listings of the store, with the query that asks for them.\<close>

definition matching_views :: "object_query \<Rightarrow> mem_state \<Rightarrow> object_view list result" where
  "matching_views q s =
     rbind (rmap (view_stored s) (filter (\<lambda>so. is_live so \<and> query_matches q (so_object so))
         (table_values (objects s))))
       (\<lambda>items. Ok (sort_key (\<lambda>v. o_id (ov_object v)) items))"

record 'q listing_request =
  lr_codec :: cursor_codec
  lr_format :: "time \<Rightarrow> string"
  lr_query :: 'q
  lr_state :: mem_state

definition ok_list :: "'a list result \<Rightarrow> 'a list" where
  "ok_list r = (case r of Inl _ \<Rightarrow> [] | Inr xs \<Rightarrow> xs)"

definition fetch_children ::
  "list_children_cmd listing_request \<Rightarrow> string option \<Rightarrow> object_view page result" where
  "fetch_children r c =
     list_children (lr_codec r) (lr_format r) ((lr_query r)\<lparr>lc_cursor := c\<rparr>) (lr_state r)"

definition children_listing :: "list_children_cmd listing_request \<Rightarrow> object_view list" where
  "children_listing r = ok_list (sorted_children (lr_query r) (lr_state r))"

definition children_request_ok :: "list_children_cmd listing_request \<Rightarrow> bool" where
  "children_request_ok r \<longleftrightarrow> codec_ok (lr_codec r) \<and> keys_ok (lr_state r) \<and> 0 < unat (lc_limit (lr_query r))
     \<and> is_ok (sorted_children (lr_query r) (lr_state r))"

definition fetch_matches ::
  "object_query listing_request \<Rightarrow> string option \<Rightarrow> object_view page result" where
  "fetch_matches r c =
     query_objects (lr_codec r) (lr_format r) ((lr_query r)\<lparr>oq_cursor := c\<rparr>) (lr_state r)"

definition matches_listing :: "object_query listing_request \<Rightarrow> object_view list" where
  "matches_listing r = ok_list (matching_views (lr_query r) (lr_state r))"

definition matches_request_ok :: "object_query listing_request \<Rightarrow> bool" where
  "matches_request_ok r \<longleftrightarrow> codec_ok (lr_codec r) \<and> keys_ok (lr_state r) \<and> 0 < unat (oq_limit (lr_query r))
     \<and> is_ok (matching_views (lr_query r) (lr_state r))"

text \<open>What the scans collect: one view of each matching live object.\<close>

lemma collect_views_ok:
  "rmap (view_stored s) sos = Ok vs \<Longrightarrow>
   map ov_object vs = map so_object sos \<and> (\<forall>v \<in> set vs. render_path s (view_id v) = Ok (ov_path v))"
proof (induction sos arbitrary: vs)
  case (Cons so sos)
  from Cons.prems obtain v vs' where v: "view_stored s so = Ok v" "vs = v # vs'"
    "rmap (view_stored s) sos = Ok vs'"
    by (auto split: sum.splits)
  from v(1) have "ov_object v = so_object so" "render_path s (view_id v) = Ok (ov_path v)"
    by (auto simp: view_stored_def view_id_def rbind_Ok_iff)
  with Cons.IH [OF v(3)] v(2) show ?case by auto
qed simp

lemma values_ids_distinct:
  assumes "keys_ok s"
  shows "distinct (map (\<lambda>so. o_id (so_object so)) (table_values (objects s)))"
proof -
  have "map (\<lambda>so. o_id (so_object so)) (table_values (objects s)) = map fst (objects s)"
    unfolding table_values_def map_map using assms
    by (intro map_cong refl) (auto simp: keys_ok_def table_ok_def)
  with assms show ?thesis by (simp add: keys_ok_def table_ok_def)
qed

lemma collect_views_distinct:
  assumes "keys_ok s" and "rmap (view_stored s) (filter P (table_values (objects s))) = Ok vs"
  shows "distinct (map view_id vs)"
proof -
  have "map view_id vs = map o_id (map ov_object vs)" by (simp add: view_id_def)
  also have "\<dots> = map o_id (map so_object (filter P (table_values (objects s))))"
    using collect_views_ok [OF assms(2)] by simp
  also have "\<dots> = map (\<lambda>so. o_id (so_object so)) (filter P (table_values (objects s)))" by simp
  finally have "map view_id vs = map (\<lambda>so. o_id (so_object so)) (filter P (table_values (objects s)))" .
  with values_ids_distinct [OF assms(1)] show ?thesis
    using distinct_map_filter by metis
qed

lemma mset_sort_listing [simp]: "mset (sort_listing order f xs) = mset xs"
  by (cases order) (simp_all add: sort_listing_def)

lemma sorted_children_ids:
  assumes "keys_ok s" and "sorted_children q s = Ok items"
  shows "distinct (map view_id items)"
proof -
  from assms(2) obtain vs where vs: "rmap (view_stored s) (children_of s (lc_parent_id q)) = Ok vs"
    "items = sort_listing (lc_order q) (listing_key (lc_order_by q)) vs"
    by (auto simp: sorted_children_def rbind_Ok_iff)
  have "distinct (map view_id vs)"
    using collect_views_distinct [OF assms(1)] vs(1) by (simp add: children_of_def)
  moreover have "mset (map view_id items) = mset (map view_id vs)" using vs(2) by simp
  ultimately show ?thesis using mset_eq_imp_distinct_iff by metis
qed

lemma matching_views_ids:
  assumes "keys_ok s" and "matching_views q s = Ok items"
  shows "distinct (map view_id items)"
proof -
  from assms(2) obtain vs where vs: "rmap (view_stored s) (filter (\<lambda>so. is_live so \<and> query_matches q (so_object so))
         (table_values (objects s))) = Ok vs"
    "items = sort_key (\<lambda>v. o_id (ov_object v)) vs"
    by (auto simp: matching_views_def rbind_Ok_iff)
  have "mset (map view_id items) = mset (map view_id vs)" using vs(2) by simp
  with collect_views_distinct [OF assms(1) vs(1)] show ?thesis using mset_eq_imp_distinct_iff by metis
qed

interpretation children: keyset_pages fetch_children children_listing
  "\<lambda>r. cursor_mark (lr_codec r) (children_listing r)" children_request_ok
proof
  fix r c k assume ok: "children_request_ok r"
    and c: "cursor_mark (lr_codec r) (children_listing r) c = Some k" "k \<le> length (children_listing r)"
  from ok obtain items where items: "sorted_children (lr_query r) (lr_state r) = Ok items"
    by (auto simp: children_request_ok_def is_ok_iff)
  then have l: "children_listing r = items" by (simp add: children_listing_def ok_list_def)
  have eq: "sorted_children (q\<lparr>lc_cursor := c\<rparr>) s = sorted_children q s" for q s
    by (simp add: sorted_children_def)
  have "fetch_children r c = paginate (lr_codec r) (lr_format r) items (lc_limit (lr_query r)) c
      (Some (lc_order_by (lr_query r)))"
    by (simp add: fetch_children_def list_children_def eq items)
  then show "\<exists>p. fetch_children r c = Ok p \<and>
        (case pg_next_cursor p of
           None \<Rightarrow> \<not> pg_has_more p \<and> pg_items p = drop k (children_listing r)
         | Some c' \<Rightarrow> pg_has_more p \<and> (\<exists>m. k < m \<and> m \<le> length (children_listing r) \<and>
             cursor_mark (lr_codec r) (children_listing r) (Some c') = Some m \<and>
             pg_items p = take (m - k) (drop k (children_listing r))))"
    using paginate_page [of "lr_codec r" items "lc_limit (lr_query r)" c k] ok c l items
      sorted_children_ids by (auto simp: children_request_ok_def)
qed (simp add: cursor_mark_def)

interpretation matches: keyset_pages fetch_matches matches_listing
  "\<lambda>r. cursor_mark (lr_codec r) (matches_listing r)" matches_request_ok
proof
  fix r c k assume ok: "matches_request_ok r"
    and c: "cursor_mark (lr_codec r) (matches_listing r) c = Some k" "k \<le> length (matches_listing r)"
  from ok obtain items where items: "matching_views (lr_query r) (lr_state r) = Ok items"
    by (auto simp: matches_request_ok_def is_ok_iff)
  then have l: "matches_listing r = items" by (simp add: matches_listing_def ok_list_def)
  have eq: "query_matches (q\<lparr>oq_cursor := c\<rparr>) = query_matches q" for q
    by (simp add: query_matches_def fun_eq_iff)
  have "fetch_matches r c = paginate (lr_codec r) (lr_format r) items (oq_limit (lr_query r)) c None"
    using items by (auto simp: fetch_matches_def query_objects_def eq matching_views_def rbind_Ok_iff)
  then show "\<exists>p. fetch_matches r c = Ok p \<and>
        (case pg_next_cursor p of
           None \<Rightarrow> \<not> pg_has_more p \<and> pg_items p = drop k (matches_listing r)
         | Some c' \<Rightarrow> pg_has_more p \<and> (\<exists>m. k < m \<and> m \<le> length (matches_listing r) \<and>
             cursor_mark (lr_codec r) (matches_listing r) (Some c') = Some m \<and>
             pg_items p = take (m - k) (drop k (matches_listing r))))"
    using paginate_page [of "lr_codec r" items "oq_limit (lr_query r)" c k] ok c l items
      matching_views_ids by (auto simp: matches_request_ok_def)
qed (simp add: cursor_mark_def)

end
