(* ===== verification/MemPaths.thy ===== *)
theory MemPaths
  imports MemReads MemMutationProps
begin

text \<open>
  Paths and objects determine each other: \<open>render_path\<close> climbs from an object to the root,
  \<open>resolve_path\<close> descends by name, and on a file tree each undoes the other. And what a
  listing read page by page returns.
\<close>

section \<open>Climbing and descending\<close>

lemma join_render: "segs \<noteq> [] \<Longrightarrow> CHR ''/'' # join ''/'' segs = render_segments segs"
proof (induction segs)
  case (Cons x xs)
  then show ?case by (cases xs) (auto simp: render_segments_def)
qed simp

lemma child_named_iff:
  assumes "tree_ok s"
  shows "child_named s p n = Some so \<longleftrightarrow>
         (\<exists>i. live_object s i = Some so \<and> parent_of so = Some p \<and> node_name so = n)"
proof -
  from assms have k: "keys_ok s" and u: "names_unique (live_object s)" by (simp_all add: tree_ok_def)
  let ?P = "\<lambda>so. is_live so \<and> o_parent_id (so_object so) = Some p \<and> o_name (so_object so) = n"
  have found: "so' \<in> set (table_values (objects s)) \<and> ?P so' \<longleftrightarrow>
      (\<exists>i. live_object s i = Some so' \<and> parent_of so' = Some p \<and> node_name so' = n)" for so'
    using live_values [OF k, of so'] live_id [OF k] by (auto simp: parent_of_def node_name_def)
  have uniq: "a = b" if "live_object s i = Some a" "live_object s j = Some b" "parent_of a = Some p"
    "parent_of b = Some p" "node_name a = n" "node_name b = n" for i j a b
  proof -
    from u that have "i = j" unfolding names_unique_def by metis
    with that(1,2) show ?thesis by simp
  qed
  show ?thesis
  proof
    assume "child_named s p n = Some so"
    with find_SomeD [of ?P "table_values (objects s)" so] found [of so]
    show "\<exists>i. live_object s i = Some so \<and> parent_of so = Some p \<and> node_name so = n"
      unfolding child_named_def by blast
  next
    assume "\<exists>i. live_object s i = Some so \<and> parent_of so = Some p \<and> node_name so = n"
    then obtain i where so: "live_object s i = Some so" "parent_of so = Some p" "node_name so = n" by blast
    show "child_named s p n = Some so" unfolding child_named_def
    proof (rule find_unique)
      show "so \<in> set (table_values (objects s))" "?P so" using found [of so] so by blast+
    next
      fix y assume "y \<in> set (table_values (objects s))" "?P y"
      then obtain j where "live_object s j = Some y" "parent_of y = Some p" "node_name y = n"
        using found [of y] by blast
      with so show "y = so" using uniq by blast
    qed
  qed
qed

lemma resolve_segments_append:
  "resolve_segments s i (xs @ ys) =
     (case resolve_segments s i xs of None \<Rightarrow> None | Some j \<Rightarrow> resolve_segments s j ys)"
  by (induction xs arbitrary: i) (auto split: option.splits)

lemma resolve_segments_snoc:
  assumes "tree_ok s"
  shows "resolve_segments s i (xs @ [n]) = Some j \<longleftrightarrow>
     (\<exists>p so. resolve_segments s i xs = Some p \<and> live_object s j = Some so \<and>
        parent_of so = Some p \<and> node_name so = n)"
proof -
  have k: "keys_ok s" using assms by (simp add: tree_ok_def)
  have one: "resolve_segments s q [n] = Some j \<longleftrightarrow>
      (\<exists>so. live_object s j = Some so \<and> parent_of so = Some q \<and> node_name so = n)" for q
  proof (cases "child_named s q n")
    case None
    with child_named_iff [OF assms, of q n] show ?thesis by auto
  next
    case (Some so)
    then obtain m where m: "live_object s m = Some so" "parent_of so = Some q" "node_name so = n"
      using child_named_iff [OF assms] by blast
    have i: "o_id (so_object so) = m" by (rule live_id [OF k m(1)])
    have "(\<exists>so'. live_object s j = Some so' \<and> parent_of so' = Some q \<and> node_name so' = n) \<longleftrightarrow> m = j"
    proof
      assume "\<exists>so'. live_object s j = Some so' \<and> parent_of so' = Some q \<and> node_name so' = n"
      then obtain so' where so': "live_object s j = Some so'" "parent_of so' = Some q" "node_name so' = n"
        by blast
      then have "child_named s q n = Some so'" using child_named_iff [OF assms] by blast
      with Some have "so' = so" by simp
      with so'(1) i live_id [OF k] show "m = j" by metis
    qed (use m in blast)
    with Some i show ?thesis by simp
  qed
  show ?thesis
    unfolding resolve_segments_append
    by (cases "resolve_segments s i xs") (simp_all only: option.case one option.inject, auto)
qed

text \<open>The climb finds the segments by which the descent from the root comes back.\<close>

lemma render_loop_resolves:
  assumes "tree_ok s"
  shows "render_loop s n i acc = Ok p \<Longrightarrow> live_object s i = Some so \<Longrightarrow>
    \<exists>segs. resolve_segments s ROOT_ID segs = Some i \<and> p = render_segments (segs @ rev acc)"
proof (induction n arbitrary: i acc so)
  case 0
  then show ?case by simp
next
  case (Suc n)
  from Suc.prems(2) have g: "table_get (objects s) i = Some so" by (simp add: live_object_iff)
  show ?case
  proof (cases "o_parent_id (so_object so)")
    case None
    have "i = ROOT_ID"
    proof (rule ccontr)
      assume "i \<noteq> ROOT_ID"
      with assms Suc.prems(2) None show False
        using tree_shape_parent [of "live_object s" i so] unfolding tree_ok_def parent_of_def by auto
    qed
    moreover have "p = render_segments (rev acc)"
      using Suc.prems(1) g None join_render [of "rev acc"]
      by (auto simp: render_segments_def split: if_splits)
    ultimately show ?thesis by (intro exI [of _ "[]"]) simp
  next
    case (Some q)
    with Suc.prems(1) g have r: "render_loop s n q (acc @ [o_name (so_object so)]) = Ok p" by simp
    from live_parent [OF assms Suc.prems(2) Some] obtain qo where "live_object s q = Some qo" by blast
    from Suc.IH [OF r this] obtain segs where segs: "resolve_segments s ROOT_ID segs = Some q"
      "p = render_segments (segs @ o_name (so_object so) # rev acc)" by auto
    have "resolve_segments s ROOT_ID (segs @ [node_name so]) = Some i"
      using segs(1) Suc.prems(2) Some resolve_segments_snoc [OF assms] by (auto simp: parent_of_def)
    with segs(2) show ?thesis
      by (intro exI [of _ "segs @ [node_name so]"]) (simp add: node_name_def)
  qed
qed

text \<open>An object is reached by one sequence of names only.\<close>

lemma resolve_segments_inj:
  assumes "tree_ok s"
  shows "resolve_segments s ROOT_ID xs = Some i \<Longrightarrow> resolve_segments s ROOT_ID ys = Some i \<Longrightarrow> xs = ys"
proof (induction xs arbitrary: i ys rule: rev_induct)
  case Nil
  then have "i = ROOT_ID" by simp
  show ?case
  proof (cases ys rule: rev_cases)
    case (snoc zs n)
    with Nil.prems(2) \<open>i = ROOT_ID\<close> obtain so p where "live_object s ROOT_ID = Some so" "parent_of so = Some p"
      using resolve_segments_snoc [OF assms] by auto
    with assms show ?thesis by (auto simp: tree_ok_def tree_shape_def)
  qed simp
next
  case (snoc n xs)
  from snoc.prems(1) obtain p so where so: "resolve_segments s ROOT_ID xs = Some p"
    "live_object s i = Some so" "parent_of so = Some p" "node_name so = n"
    using resolve_segments_snoc [OF assms] by auto
  show ?case
  proof (cases ys rule: rev_cases)
    case Nil
    with snoc.prems(2) so(2,3) assms show ?thesis by (auto simp: tree_ok_def tree_shape_def)
  next
    case (snoc zs m)
    with snoc.prems(2) so obtain "resolve_segments s ROOT_ID zs = Some p" "m = n"
      using resolve_segments_snoc [OF assms] by auto
    with snoc.IH [OF so(1)] snoc show ?thesis by simp
  qed
qed

lemma resolve_segments_names:
  assumes "tree_ok s" and "\<And>j so. live_object s j = Some so \<Longrightarrow> j \<noteq> ROOT_ID \<Longrightarrow> valid_name (node_name so)"
  shows "resolve_segments s ROOT_ID segs = Some i \<Longrightarrow> list_all valid_name segs"
proof (induction segs arbitrary: i rule: rev_induct)
  case (snoc n xs)
  then obtain p so where so: "resolve_segments s ROOT_ID xs = Some p" "live_object s i = Some so"
    "parent_of so = Some p" "node_name so = n"
    using resolve_segments_snoc [OF assms(1)] by auto
  then have "i \<noteq> ROOT_ID" using assms(1) by (auto simp: tree_ok_def tree_shape_def)
  with snoc.IH [OF so(1)] assms(2) [OF so(2)] so(4) show ?case by simp
qed simp

lemma view_of_iff:
  "view_of s i = Ok v \<longleftrightarrow>
     (\<exists>so. live_object s i = Some so \<and> render_path s i = Ok (ov_path v) \<and> ov_object v = so_object so)"
  by (cases v) (auto simp: view_of_def rbind_Ok_iff ok_or_def split: option.splits)

lemma get_object_iff: "get_object i s = Some v \<longleftrightarrow> view_of s i = Ok v"
  by (simp add: get_object_def split: sum.splits)

text \<open>
  C20: paths name objects. The path that an object of the tree is shown with resolves to that
  object; and whatever object a path resolves to, the path it is shown with is the normal form
  of the path that was asked for. (Names are the validated ones; an object deeper than the
  bound of 1024 has no path, and resolves to nothing.)
\<close>

theorem paths_name_objects:
  assumes "tree_ok s"
    and "\<And>j so. live_object s j = Some so \<Longrightarrow> j \<noteq> ROOT_ID \<Longrightarrow> valid_name (node_name so)"
  shows "(get_object i s = Some v \<longrightarrow> resolve_path (ov_path v) s = Ok (Some v)) \<and>
     (resolve_path p s = Ok (Some w) \<longrightarrow>
        (\<exists>segs. split_path p = Ok segs \<and> ov_path w = render_segments segs \<and>
           get_object (view_id w) s = Some w))"
proof (intro conjI impI)
  assume "get_object i s = Some v"
  then obtain so where v: "live_object s i = Some so" "render_path s i = Ok (ov_path v)"
    by (auto simp: get_object_iff view_of_iff)
  with render_loop_resolves [OF assms(1), of 1024 i "[]" "ov_path v" so] obtain segs
    where segs: "resolve_segments s ROOT_ID segs = Some i" "ov_path v = render_segments segs"
    by (auto simp: render_path_def)
  have "list_all valid_name segs" by (rule resolve_segments_names [OF assms(1) _ segs(1)]) (rule assms(2))
  with segs \<open>get_object i s = Some v\<close> show "resolve_path (ov_path v) s = Ok (Some v)"
    by (simp add: resolve_path_def split_path_render)
next
  assume "resolve_path p s = Ok (Some w)"
  then obtain segs j where j: "split_path p = Ok segs" "resolve_segments s ROOT_ID segs = Some j"
    "get_object j s = Some w"
    by (auto simp: resolve_path_def rbind_Ok_iff split: option.splits)
  then obtain so where w: "live_object s j = Some so" "render_path s j = Ok (ov_path w)"
    "ov_object w = so_object so"
    by (auto simp: get_object_iff view_of_iff)
  with render_loop_resolves [OF assms(1), of 1024 j "[]" "ov_path w" so] obtain segs'
    where segs': "resolve_segments s ROOT_ID segs' = Some j" "ov_path w = render_segments segs'"
    by (auto simp: render_path_def)
  have "segs' = segs" by (rule resolve_segments_inj [OF assms(1) segs'(1) j(2)])
  moreover have "view_id w = j"
    using live_id [of s j so] w assms(1) by (simp add: view_id_def tree_ok_def)
  ultimately show "\<exists>segs. split_path p = Ok segs \<and> ov_path w = render_segments segs \<and>
           get_object (view_id w) s = Some w"
    using j segs' by blast
qed

theorem paths_name_objects_witness:
  "map_option ov_path (get_object ''f'' sample_tree) = Some ''/docs/a.txt'' \<and>
   (\<exists>v. get_object ''f'' sample_tree = Some v \<and> resolve_path (ov_path v) sample_tree = Ok (Some v))"
proof -
  have rows: "map (\<lambda>(i, so). (i, o_id (so_object so), node_name so, is_live so, node_kind so, parent_of so))
      (objects sample_tree)
      = [(''root'', ''root'', [], True, Folder, None), (''d'', ''d'', ''docs'', True, Folder, Some ''root''),
         (''f'', ''f'', ''a.txt'', True, File, Some ''d'')]"
    by code_simp
  have ok: "tree_ok sample_tree" using sample_tree_ok by simp
  have valid: "valid_name (node_name so)"
    if "live_object sample_tree j = Some so" "j \<noteq> ROOT_ID" for j so
  proof -
    from that(1) have "(j, so) \<in> set (objects sample_tree)"
      by (simp add: live_object_iff map_of_SomeD)
    then have "(j, o_id (so_object so), node_name so, is_live so, node_kind so, parent_of so) \<in>
        set (map (\<lambda>(i, so). (i, o_id (so_object so), node_name so, is_live so, node_kind so, parent_of so))
          (objects sample_tree))"
      by (force simp: image_iff)
    with that(2) have "node_name so = ''docs'' \<or> node_name so = ''a.txt''"
      unfolding rows by (auto simp: ROOT_ID_def)
    moreover have "valid_name ''docs''" "valid_name ''a.txt''" by code_simp+
    ultimately show ?thesis by metis
  qed
  have p: "map_option ov_path (get_object ''f'' sample_tree) = Some ''/docs/a.txt''" by code_simp
  then obtain v where v: "get_object ''f'' sample_tree = Some v" by auto
  have "resolve_path (ov_path v) sample_tree = Ok (Some v)"
    using paths_name_objects [of sample_tree "''f''" v, OF ok] valid v by blast
  with v p show ?thesis by blast
qed

section \<open>Walking a listing\<close>

lemma sorted_sort_listing:
  "sorted (map f (case order of Asc \<Rightarrow> sort_listing order f xs | Desc \<Rightarrow> rev (sort_listing order f xs)))"
  by (cases order) (simp_all add: sort_listing_def)

text \<open>
  C21: following the cursors of a folder's listing from the first page on ends, and reads every
  live child of the folder exactly once and nothing else, in the order that was asked for,
  whatever the limit and whatever the cursor's encoding.
\<close>

theorem children_pages_complete:
  assumes "codec_ok cc" and "tree_ok s" and "0 < unat (lc_limit q)" and "sorted_children q s = Ok items"
  shows "follow_pages (\<lambda>c. list_children cc rfc3339 (q\<lparr>lc_cursor := c\<rparr>) s) (length items + 1) None
       = Some items
     \<and> distinct (map view_id items)
     \<and> set (map ov_object items) =
         {so_object so | i so. live_object s i = Some so \<and> parent_of so = Some (lc_parent_id q)}
     \<and> sorted (map (listing_key (lc_order_by q)) (case lc_order q of Asc \<Rightarrow> items | Desc \<Rightarrow> rev items))"
proof (intro conjI)
  let ?r = "\<lparr>lr_codec = cc, lr_format = rfc3339, lr_query = q, lr_state = s\<rparr>"
  have k: "keys_ok s" using assms(2) by (simp add: tree_ok_def)
  with assms have "children_request_ok ?r" by (simp add: children_request_ok_def)
  moreover have "children_listing ?r = items" by (simp add: children_listing_def assms(4) ok_list_def)
  moreover have "fetch_children ?r = (\<lambda>c. list_children cc rfc3339 (q\<lparr>lc_cursor := c\<rparr>) s)"
    by (simp add: fetch_children_def fun_eq_iff)
  ultimately show "follow_pages (\<lambda>c. list_children cc rfc3339 (q\<lparr>lc_cursor := c\<rparr>) s) (length items + 1) None
       = Some items" using children.follow_all by metis
  show "distinct (map view_id items)" by (rule sorted_children_ids [OF k assms(4)])
  from assms(4) obtain vs where
    vs: "rmap (view_stored s) (children_of s (lc_parent_id q)) = Ok vs"
    and items: "items = sort_listing (lc_order q) (listing_key (lc_order_by q)) vs"
    by (auto simp: sorted_children_def rbind_Ok_iff)
  have "map ov_object vs = map so_object (children_of s (lc_parent_id q))"
    using collect_views_ok [OF vs] by simp
  moreover have "set items = set vs" unfolding items by (metis mset_sort_listing set_mset_mset)
  ultimately have "set (map ov_object items) = so_object ` set (children_of s (lc_parent_id q))"
    by (metis list.set_map)
  also have "set (children_of s (lc_parent_id q)) =
      {so. \<exists>i. live_object s i = Some so \<and> parent_of so = Some (lc_parent_id q)}"
    using live_values [OF k] live_id [OF k] by (auto simp: children_of_def parent_of_def)
  finally show "set (map ov_object items) =
         {so_object so | i so. live_object s i = Some so \<and> parent_of so = Some (lc_parent_id q)}"
    by blast
  show "sorted (map (listing_key (lc_order_by q)) (case lc_order q of Asc \<Rightarrow> items | Desc \<Rightarrow> rev items))"
    unfolding items by (rule sorted_sort_listing)
qed

text \<open>A codec with the laws of the third-party ones: the length of the key in unary, then both.\<close>

definition sample_codec :: cursor_codec where
  "sample_codec =
     \<lparr>cc_serialize = (\<lambda>kc. Some (case kc_k kc of
        None \<Rightarrow> CHR ''n'' # kc_i kc
      | Some k \<Rightarrow> replicate (length k) (CHR ''s'') @ CHR ''/'' # k @ kc_i kc)),
      cc_deserialize = (\<lambda>b. Some
        (if b \<noteq> [] \<and> hd b = CHR ''n'' then \<lparr>kc_k = None, kc_i = tl b\<rparr>
         else let n = length (takeWhile (\<lambda>c. c = CHR ''s'') b); r = drop (n + 1) b
              in \<lparr>kc_k = Some (take n r), kc_i = drop n r\<rparr>)),
      cc_base64_encode = id, cc_base64_decode = Some\<rparr>"

lemma sample_codec_ok: "codec_ok sample_codec"
proof -
  have "\<exists>b. cc_serialize sample_codec v = Some b \<and> cc_deserialize sample_codec b = Some v" for v
  proof (cases "kc_k v")
    case None
    then show ?thesis by (cases v) (simp add: sample_codec_def)
  next
    case (Some k)
    have "takeWhile (\<lambda>c. c = CHR ''s'') (replicate (length k) (CHR ''s'') @ CHR ''/'' # k @ kc_i v)
        = replicate (length k) (CHR ''s'')" by (subst takeWhile_append2) simp_all
    with Some show ?thesis
      by (cases v; cases "length k") (simp_all add: sample_codec_def hd_append Let_def)
  qed
  then show ?thesis by (simp add: codec_ok_def sample_codec_def)
qed

definition sample_listing :: list_children_cmd where
  "sample_listing =
     \<lparr>lc_parent_id = ''root'', lc_limit = 1, lc_cursor = None, lc_order_by = ByName, lc_order = Desc\<rparr>"

definition sample_wide :: mem_state where
  "sample_wide = snd (create_object (sample_file\<lparr>co_id := ''g'', co_parent_id := ROOT_ID\<rparr>) sample_tree)"

theorem children_pages_complete_witness:
  "\<exists>v w. follow_pages (\<lambda>c. list_children sample_codec dec_int (sample_listing\<lparr>lc_cursor := c\<rparr>) sample_wide)
      3 None = Some [v, w] \<and> view_id v = ''d'' \<and> view_id w = ''g''"
proof -
  have ids: "map_option (map view_id) (case sorted_children sample_listing sample_wide of Inl _ \<Rightarrow> None | Inr vs \<Rightarrow> Some vs)
      = Some [''d'', ''g'']"
    by code_simp
  then obtain vs where vs: "sorted_children sample_listing sample_wide = Ok vs" "map view_id vs = [''d'', ''g'']"
    by (auto split: sum.splits)
  have fresh: "table_get (objects sample_tree) ''g'' = None" by code_simp
  have ok: "tree_ok sample_wide"
    unfolding sample_wide_def using sample_tree_ok fresh by (intro create_object_tree_ok) simp_all
  have limit: "0 < unat (lc_limit sample_listing)" by (simp add: sample_listing_def)
  have "follow_pages (\<lambda>c. list_children sample_codec dec_int (sample_listing\<lparr>lc_cursor := c\<rparr>) sample_wide)
      (length vs + 1) None = Some vs"
    using children_pages_complete [OF sample_codec_ok ok limit vs(1), of dec_int] by (rule conjunct1)
  moreover have "length vs = 2" using vs(2) by (metis length_map length_Cons list.size(3) numeral_2_eq_2)
  ultimately show ?thesis using vs(2) by (auto simp: length_Suc_conv numeral_2_eq_2 numeral_3_eq_3)
qed

end
