(* ===== verification/Calls.thy ===== *)
theory Calls
  imports PortTypes
begin

text \<open>
  Calls through the ports. A call on a state either does not return (\<open>None\<close>: a loop without
  end, or a panic) or returns a result and the next state; the state is kept when the result is
  an error, since nothing in the code rolls it back. The combinators are those the code writes
  as \<open>?\<close>, as \<open>match ... { Err(error) => ... }\<close> and as \<open>let _ = ...\<close>.
\<close>

type_synonym ('s, 'a) call = "'s \<Rightarrow> ('a result \<times> 's) option"

definition call_ok :: "'a \<Rightarrow> ('s, 'a) call" where
  "call_ok a s = Some (Ok a, s)"

definition call_err :: "domain_error \<Rightarrow> ('s, 'a) call" where
  "call_err e s = Some (Err e, s)"

definition call_result :: "'a result \<Rightarrow> ('s, 'a) call" where
  "call_result r s = Some (r, s)"

definition call_panic :: "('s, 'a) call" where
  "call_panic s = None"

definition call_bind :: "('s, 'a) call \<Rightarrow> ('a \<Rightarrow> ('s, 'b) call) \<Rightarrow> ('s, 'b) call" where
  "call_bind m f s =
     (case m s of
        None \<Rightarrow> None
      | Some (Inl e, s') \<Rightarrow> Some (Err e, s')
      | Some (Inr a, s') \<Rightarrow> f a s')"

definition call_then :: "('s, 'a) call \<Rightarrow> ('s, 'b) call \<Rightarrow> ('s, 'b) call" where
  "call_then m m' = call_bind m (\<lambda>_. m')"

text \<open>Handling an error: \<open>call_catch\<close> continues with the handler, \<open>call_ignore\<close> drops it.\<close>

definition call_catch :: "('s, 'a) call \<Rightarrow> (domain_error \<Rightarrow> ('s, 'a) call) \<Rightarrow> ('s, 'a) call" where
  "call_catch m h s =
     (case m s of
        None \<Rightarrow> None
      | Some (Inl e, s') \<Rightarrow> h e s'
      | Some (Inr a, s') \<Rightarrow> Some (Ok a, s'))"

definition call_try :: "('s, 'a) call \<Rightarrow> ('s, 'a result) call" where
  "call_try m s = map_option (\<lambda>(r, s'). (Ok r, s')) (m s)"

definition call_ignore :: "('s, 'a) call \<Rightarrow> ('s, unit) call" where
  "call_ignore m s = map_option (\<lambda>(r, s'). (Ok (), s')) (m s)"

definition call_unless :: "bool \<Rightarrow> domain_error \<Rightarrow> ('s, unit) call" where
  "call_unless b e = (if b then call_err e else call_ok ())"

text \<open>A call that always returns, from a function of the state; and a read.\<close>

definition call_of :: "('s \<Rightarrow> 'a result \<times> 's) \<Rightarrow> ('s, 'a) call" where
  "call_of f s = Some (f s)"

definition call_read :: "('s \<Rightarrow> 'a result) \<Rightarrow> ('s, 'a) call" where
  "call_read f s = Some (f s, s)"

named_theorems call_simps \<open>the combinators applied to a state\<close>

lemma call_simps_basic [call_simps]:
  "call_ok a s = Some (Ok a, s)" "call_err e s = Some (Err e, s)" "call_result r s = Some (r, s)"
  "call_of f s = Some (f s)" "call_read g s = Some (g s, s)" "call_panic s = None"
  by (simp_all add: call_ok_def call_err_def call_result_def call_of_def call_read_def call_panic_def)

lemma call_unless_simps [call_simps]:
  "call_unless True e s = Some (Err e, s)" "call_unless False e s = Some (Ok (), s)"
  by (simp_all add: call_unless_def call_simps)

lemma call_bind_Ok_iff:
  "call_bind m f s = Some (Ok b, t) \<longleftrightarrow> (\<exists>a s'. m s = Some (Ok a, s') \<and> f a s' = Some (Ok b, t))"
  by (auto simp: call_bind_def split: option.splits sum.splits)

lemma call_bind_Some_iff:
  "call_bind m f s = Some (r, t) \<longleftrightarrow>
     (\<exists>e. m s = Some (Err e, t) \<and> r = Err e) \<or> (\<exists>a s'. m s = Some (Ok a, s') \<and> f a s' = Some (r, t))"
  by (auto simp: call_bind_def split: option.splits sum.splits)

lemma call_bind_step [call_simps]:
  "m s = Some (Ok a, s') \<Longrightarrow> call_bind m f s = f a s'"
  "m s = Some (Err e, s') \<Longrightarrow> call_bind m f s = Some (Err e, s')"
  by (simp_all add: call_bind_def)

lemma call_then_step [call_simps]:
  "m s = Some (Ok a, s') \<Longrightarrow> call_then m m' s = m' s'"
  "m s = Some (Err e, s') \<Longrightarrow> call_then m m' s = Some (Err e, s')"
  by (simp_all add: call_then_def call_simps)

lemma call_catch_step [call_simps]:
  "m s = Some (Ok a, s') \<Longrightarrow> call_catch m h s = Some (Ok a, s')"
  "m s = Some (Err e, s') \<Longrightarrow> call_catch m h s = h e s'"
  by (simp_all add: call_catch_def)

lemma call_catch_Ok_iff:
  "call_catch m h s = Some (Ok b, t) \<longleftrightarrow>
     m s = Some (Ok b, t) \<or> (\<exists>e s'. m s = Some (Err e, s') \<and> h e s' = Some (Ok b, t))"
  by (auto simp: call_catch_def split: option.splits sum.splits)

lemma call_ignore_step [call_simps]: "m s = Some (r, s') \<Longrightarrow> call_ignore m s = Some (Ok (), s')"
  by (simp add: call_ignore_def)

lemma call_try_step [call_simps]: "m s = Some (r, s') \<Longrightarrow> call_try m s = Some (Ok r, s')"
  by (simp add: call_try_def)

lemma call_then_Ok_iff:
  "call_then m m' s = Some (Ok b, t) \<longleftrightarrow> (\<exists>a s'. m s = Some (Ok a, s') \<and> m' s' = Some (Ok b, t))"
  by (simp add: call_then_def call_bind_Ok_iff)

lemma call_unless_Ok_iff: "call_unless b e s = Some (Ok u, t) \<longleftrightarrow> \<not> b \<and> t = s"
  by (auto simp: call_unless_def call_simps)

lemma call_bind_try_Ok_iff:
  "call_bind (call_try m) f s = Some (Ok b, t) \<longleftrightarrow> (\<exists>a u. m s = Some (a, u) \<and> f a u = Some (Ok b, t))"
  by (auto simp: call_bind_def call_try_def split: option.splits)

lemmas call_inversions = call_bind_Ok_iff call_then_Ok_iff call_unless_Ok_iff

section \<open>What a call keeps\<close>

text \<open>A part of the state that a call leaves as it is, however it returns.\<close>

definition call_keeps :: "('s \<Rightarrow> 'c) \<Rightarrow> ('s, 'a) call \<Rightarrow> bool" where
  "call_keeps f m \<longleftrightarrow> (\<forall>s r s'. m s = Some (r, s') \<longrightarrow> f s' = f s)"

named_theorems call_frames \<open>what each call leaves unchanged\<close>

lemma call_keepsD: "call_keeps f m \<Longrightarrow> m s = Some (r, s') \<Longrightarrow> f s' = f s"
  unfolding call_keeps_def by blast

lemma call_keeps_atoms [call_frames]:
  "call_keeps f (call_ok a)" "call_keeps f (call_err e)" "call_keeps f (call_result r)"
  "call_keeps f call_panic" "call_keeps f (call_unless b e)" "call_keeps f (call_read g)"
  by (auto simp: call_keeps_def call_simps call_unless_def split: if_splits)

lemma call_keeps_bind [call_frames]:
  "call_keeps f m \<Longrightarrow> (\<And>a. call_keeps f (g a)) \<Longrightarrow> call_keeps f (call_bind m g)"
  unfolding call_keeps_def call_bind_Some_iff by (blast intro: trans)

lemma call_keeps_then [call_frames]:
  "call_keeps f m \<Longrightarrow> call_keeps f m' \<Longrightarrow> call_keeps f (call_then m m')"
  unfolding call_then_def by (rule call_keeps_bind)

lemma call_keeps_ignore [call_frames]: "call_keeps f m \<Longrightarrow> call_keeps f (call_ignore m)"
  by (auto simp: call_keeps_def call_ignore_def)

lemma call_keeps_try [call_frames]: "call_keeps f m \<Longrightarrow> call_keeps f (call_try m)"
  by (auto simp: call_keeps_def call_try_def)

lemma call_keeps_catch [call_frames]:
  "call_keeps f m \<Longrightarrow> (\<And>e. call_keeps f (h e)) \<Longrightarrow> call_keeps f (call_catch m h)"
  by (auto simp: call_keeps_def call_catch_def split: option.splits sum.splits)

end
