(* ===== verification/IdempotencyContract.thy ===== *)
theory IdempotencyContract
  imports Calls
begin

text \<open>
  The contract of the idempotency port. A key is free, claimed by an owner under a lease, or
  done with a stored response; the laws say what acquiring, completing and releasing do to the
  status of a key, and that they leave every other key alone. From them follow the guarantees a
  client relies on: a completed key is replayed for ever, and while a lease runs nobody else
  gets to own the key.
\<close>

type_synonym idem_key = "string \<times> string \<times> string"

datatype idem_status =
    Free
  | Claimed string string time
  | Completed string stored_response

definition scope_key :: "idempotency_context \<Rightarrow> idem_key" where
  "scope_key ic = (ic_principal_id ic, ic_operation ic, ic_key ic)"

fun claimed_by :: "string \<Rightarrow> idem_status \<Rightarrow> bool" where
  "claimed_by token (Claimed _ owner _) \<longleftrightarrow> owner = token"
| "claimed_by token _ \<longleftrightarrow> False"

fun refuses :: "string \<Rightarrow> time \<Rightarrow> idem_status \<Rightarrow> bool" where
  "refuses token now (Claimed _ owner lease) \<longleftrightarrow> owner \<noteq> token \<and> now < lease"
| "refuses token now _ \<longleftrightarrow> False"

text \<open>The operations on the port that an attempt can perform.\<close>

datatype idem_op =
    Acquire idempotency_acquire
  | Complete idempotency_complete
  | Release idempotency_release

fun op_context :: "idem_op \<Rightarrow> idempotency_context" where
  "op_context (Acquire a) = ia_context a"
| "op_context (Complete c) = ico_context c"
| "op_context (Release r) = ir_context r"

text \<open>The status that an operation on its own key leaves.\<close>

fun next_status :: "idem_op \<Rightarrow> idem_status \<Rightarrow> idem_status" where
  "next_status (Acquire a) Free = Claimed (ic_request_hash (ia_context a)) (ic_owner_token (ia_context a)) (ia_lease_until a)"
| "next_status (Acquire a) (Claimed h owner lease) =
     (if h = ic_request_hash (ia_context a) \<and> lease \<le> ia_now a
      then Claimed h (ic_owner_token (ia_context a)) (ia_lease_until a) else Claimed h owner lease)"
| "next_status (Complete c) (Claimed h owner lease) =
     (if owner = ic_owner_token (ico_context c) then Completed h (ico_response c) else Claimed h owner lease)"
| "next_status (Release r) (Claimed h owner lease) =
     (if owner = ic_owner_token (ir_context r) then Free else Claimed h owner lease)"
| "next_status _ st = st"

text \<open>The answer that acquiring gives; the resource token is the store's.\<close>

fun acquire_answer :: "idempotency_acquire \<Rightarrow> idem_status \<Rightarrow> idempotency_decision result \<Rightarrow> bool" where
  "acquire_answer a Free r \<longleftrightarrow> (\<exists>t. r = Ok (Owner t))"
| "acquire_answer a (Claimed h owner lease) r \<longleftrightarrow>
     (if h \<noteq> ic_request_hash (ia_context a) then r = Ok Conflict
      else if lease \<le> ia_now a then \<exists>t. r = Ok (Owner t)
      else r = Err RateLimited)"
| "acquire_answer a (Completed h response) r \<longleftrightarrow>
     (if h \<noteq> ic_request_hash (ia_context a) then r = Ok Conflict else r = Ok (Replay response))"

locale idempotency_port =
  fixes acquire_call :: "idempotency_acquire \<Rightarrow> ('m, idempotency_decision) call"
    and complete_call :: "idempotency_complete \<Rightarrow> ('m, unit) call"
    and release_call :: "idempotency_release \<Rightarrow> ('m, unit) call"
    and status :: "'m \<Rightarrow> idem_key \<Rightarrow> idem_status"
    and ok :: "'m \<Rightarrow> bool"
  assumes acquire_law: "ok m \<Longrightarrow> \<exists>r m'. acquire_call a m = Some (r, m') \<and> ok m' \<and>
      acquire_answer a (status m (scope_key (ia_context a))) r \<and>
      status m' = (status m)(scope_key (ia_context a) :=
        next_status (Acquire a) (status m (scope_key (ia_context a))))"
    and complete_law: "ok m \<Longrightarrow> \<exists>r m'. complete_call c m = Some (r, m') \<and> ok m' \<and>
      (is_ok r \<longleftrightarrow> claimed_by (ic_owner_token (ico_context c)) (status m (scope_key (ico_context c)))) \<and>
      status m' = (status m)(scope_key (ico_context c) :=
        next_status (Complete c) (status m (scope_key (ico_context c))))"
    and release_law: "ok m \<Longrightarrow> \<exists>m'. release_call r m = Some (Ok (), m') \<and> ok m' \<and>
      status m' = (status m)(scope_key (ir_context r) :=
        next_status (Release r) (status m (scope_key (ir_context r))))"
begin

fun run_op :: "idem_op \<Rightarrow> 'm \<Rightarrow> 'm option" where
  "run_op (Acquire a) m = map_option snd (acquire_call a m)"
| "run_op (Complete c) m = map_option snd (complete_call c m)"
| "run_op (Release r) m = map_option snd (release_call r m)"

fun run_ops :: "idem_op list \<Rightarrow> 'm \<Rightarrow> 'm option" where
  "run_ops [] m = Some m"
| "run_ops (x # xs) m = (case run_op x m of None \<Rightarrow> None | Some m' \<Rightarrow> run_ops xs m')"

lemma run_op_status:
  assumes "ok m"
  shows "\<exists>m'. run_op x m = Some m' \<and> ok m' \<and>
    status m' = (status m)(scope_key (op_context x) := next_status x (status m (scope_key (op_context x))))"
proof (cases x)
  case (Acquire a)
  from acquire_law [OF assms, of a] Acquire show ?thesis by auto
next
  case (Complete c)
  from complete_law [OF assms, of c] Complete show ?thesis by auto
next
  case (Release r)
  from release_law [OF assms, of r] Release show ?thesis by auto
qed

text \<open>Operations always return, and a completed key stays as it is.\<close>

lemma run_ops_completed:
  "ok m \<Longrightarrow> status m k = Completed h response \<Longrightarrow>
   \<exists>m'. run_ops xs m = Some m' \<and> ok m' \<and> status m' k = Completed h response"
proof (induction xs arbitrary: m)
  case (Cons x xs)
  from run_op_status [OF Cons.prems(1), of x] obtain m' where m': "run_op x m = Some m'" "ok m'"
    "status m' = (status m)(scope_key (op_context x) := next_status x (status m (scope_key (op_context x))))"
    by blast
  have "status m' k = Completed h response"
    using m'(3) Cons.prems(2) by (cases x) auto
  with Cons.IH [OF m'(2)] m'(1) show ?case by simp
qed simp

lemma completed_replayed:
  assumes "ok m" and "status m (scope_key (ia_context a)) = Completed h response"
  shows "\<exists>m' m''. run_ops xs m = Some m' \<and>
    acquire_call a m' = Some (Ok (if h = ic_request_hash (ia_context a) then Replay response else Conflict), m'') \<and>
    status m'' = status m'"
proof -
  from run_ops_completed [OF assms] obtain m' where m': "run_ops xs m = Some m'" "ok m'"
    "status m' (scope_key (ia_context a)) = Completed h response" by blast
  from acquire_law [OF m'(2), of a] m'(3) obtain m'' where
    "acquire_call a m' = Some (Ok (if h = ic_request_hash (ia_context a) then Replay response else Conflict), m'')"
    "status m'' = status m'"
    by (auto simp: fun_upd_idem split: if_splits)
  with m'(1) show ?thesis by blast
qed

text \<open>
  While a lease runs, whatever the others try: the owner still owns the key, and can complete it.
\<close>

definition foreign :: "idem_key \<Rightarrow> string \<Rightarrow> time \<Rightarrow> idem_op \<Rightarrow> bool" where
  "foreign k token lease x \<longleftrightarrow>
     scope_key (op_context x) = k \<longrightarrow>
       ic_owner_token (op_context x) \<noteq> token \<and> (\<forall>a. x = Acquire a \<longrightarrow> ia_now a < lease)"

lemma run_ops_claimed:
  "ok m \<Longrightarrow> status m k = Claimed h token lease \<Longrightarrow> list_all (foreign k token lease) xs \<Longrightarrow>
   \<exists>m'. run_ops xs m = Some m' \<and> ok m' \<and> status m' k = Claimed h token lease"
proof (induction xs arbitrary: m)
  case (Cons x xs)
  from run_op_status [OF Cons.prems(1), of x] obtain m' where m': "run_op x m = Some m'" "ok m'"
    "status m' = (status m)(scope_key (op_context x) := next_status x (status m (scope_key (op_context x))))"
    by blast
  from Cons.prems(3) have f: "foreign k token lease x" by simp
  have "status m' k = Claimed h token lease"
    using m'(3) Cons.prems(2) f by (cases x) (auto simp: foreign_def)
  with Cons.IH [OF m'(2)] m'(1) Cons.prems(3) show ?case by simp
qed simp

lemma owner_completes:
  assumes "ok m" and "status m (scope_key (ico_context c)) = Claimed h token lease"
    and "ic_owner_token (ico_context c) = token"
    and "list_all (foreign (scope_key (ico_context c)) token lease) xs"
  shows "\<exists>m' m''. run_ops xs m = Some m' \<and> complete_call c m' = Some (Ok (), m'') \<and>
    status m'' (scope_key (ico_context c)) = Completed h (ico_response c)"
proof -
  from run_ops_claimed [OF assms(1,2,4)] obtain m' where m': "run_ops xs m = Some m'" "ok m'"
    "status m' (scope_key (ico_context c)) = Claimed h token lease" by blast
  from complete_law [OF m'(2), of c] m'(3) assms(3) obtain r m'' where
    c: "complete_call c m' = Some (r, m'')" "is_ok r"
      "status m'' (scope_key (ico_context c)) = Completed h (ico_response c)"
    by auto
  then have "r = Ok ()" by (auto simp: is_ok_iff)
  with m'(1) c show ?thesis by blast
qed

text \<open>An attempt that has lost its lease to another owner can neither complete nor release it.\<close>

lemma lost_lease:
  assumes "ok m" and "status m (scope_key (ico_context c)) = Claimed h other lease"
    and "other \<noteq> ic_owner_token (ico_context c)"
  shows "\<exists>e m'. complete_call c m = Some (Err e, m') \<and> status m' = status m"
proof -
  from complete_law [OF assms(1), of c] assms(2,3) obtain r m' where
    "complete_call c m = Some (r, m')" "\<not> is_ok r" "status m' = status m"
    by (auto simp: fun_upd_idem)
  then show ?thesis by (cases r) auto
qed

end

end
