(* ===== verification/Ports.thy ===== *)
theory Ports
  imports Calls
begin

text \<open>
  The two ports of the application as records of their operations, the way a trait object is a
  table of methods: \<open>MetaStore\<close> (\<open>anystore-metastore\<close>) over a state of its own, and \<open>BlobStore\<close>
  (\<open>anystore-blobstore\<close>) with its registry of configured backends. An adapter that reads the wall
  clock or draws a ULID gets it as its first argument.
\<close>

section \<open>MetaStore\<close>

record 'm meta_store =
  ms_get_object :: "object_id \<Rightarrow> ('m, object_view option) call"
  ms_content_pointer :: "object_id \<Rightarrow> ('m, content_pointer option) call"
  ms_list_children :: "list_children_cmd \<Rightarrow> ('m, object_view page) call"
  ms_resolve_path :: "string \<Rightarrow> ('m, object_view option) call"
  ms_query_objects :: "object_query \<Rightarrow> ('m, object_view page) call"
  ms_create_object :: "create_object_commit \<Rightarrow> ('m, stored_response) call"
  ms_patch_object :: "patch_object_commit \<Rightarrow> ('m, stored_response) call"
  ms_delete_object :: "delete_object_commit \<Rightarrow> ('m, stored_response) call"
  ms_commit_content :: "commit_content_cmd \<Rightarrow> ('m, stored_response) call"
  ms_create_upload_record :: "create_upload_record_cmd \<Rightarrow> ('m, create_upload_result) call"
  ms_get_upload :: "upload_id \<Rightarrow> ('m, upload_record option) call"
  ms_update_upload_state :: "update_upload_state_cmd \<Rightarrow> ('m, unit) call"
  ms_abort_upload_record :: "abort_upload_record_cmd \<Rightarrow> ('m, unit) call"
  ms_acquire :: "idempotency_acquire \<Rightarrow> ('m, idempotency_decision) call"
  ms_complete :: "idempotency_complete \<Rightarrow> ('m, unit) call"
  ms_fail_or_release :: "idempotency_release \<Rightarrow> ('m, unit) call"
  ms_read_changes :: "string \<Rightarrow> read_changes_req \<Rightarrow> ('m, change_page) call"
  ms_claim_gc_batch :: "time \<Rightarrow> 32 word \<Rightarrow> ('m, blob_gc_entry list) call"
  ms_finish_gc :: "blob_gc_entry \<Rightarrow> ('m, unit) call"
  ms_fail_gc :: "blob_gc_entry \<Rightarrow> string \<Rightarrow> time \<Rightarrow> ('m, unit) call"
  ms_claim_expired_uploads :: "time \<Rightarrow> 32 word \<Rightarrow> ('m, upload_record list) call"
  ms_purge_idempotency_records :: "time \<Rightarrow> ('m, nat) call"
  ms_purge_change_cursors :: "time \<Rightarrow> ('m, nat) call"
  ms_purge_changes :: "time \<Rightarrow> ('m, nat) call"
  ms_count_pending_gc :: "('m, nat) call"

section \<open>BlobStore\<close>

type_synonym blob_ref = string

record signed_request =
  sq_method :: string
  sq_url :: string
  sq_headers :: "(string \<times> string) list"

record prepare_upload_req =
  pu_upload_id :: string
  pu_mode :: upload_mode
  pu_expected_size :: "64 word"
  pu_content_type :: string
  pu_expected_sha256 :: "string option"
  pu_part_size :: "64 word"
  pu_expires_in :: int

record prepared_upload =
  pd_blob_ref :: blob_ref
  pd_mode :: upload_mode
  pd_provider_upload_id :: "string option"
  pd_single :: "signed_request option"
  pd_part_size :: "64 word option"
  pd_expires_at :: time

record sign_parts_req =
  sp_blob_ref :: blob_ref
  sp_provider_upload_id :: string
  sp_part_numbers :: "32 word list"
  sp_expires_in :: int

record signed_part =
  sg_part_number :: "32 word"
  sg_method :: string
  sg_url :: string

record completed_part =
  cpt_part_number :: "32 word"
  cpt_etag :: string

record complete_blob_upload =
  cb_blob_ref :: blob_ref
  cb_mode :: upload_mode
  cb_provider_upload_id :: "string option"
  cb_parts :: "completed_part list"

record abort_blob_upload =
  ab_blob_ref :: blob_ref
  ab_mode :: upload_mode
  ab_provider_upload_id :: "string option"

record blob_stat =
  bst_size :: "64 word"
  bst_content_type :: "string option"
  bst_etag :: "string option"
  bst_sha256 :: "string option"

record signed_download =
  sd_url :: string
  sd_expires_at :: time

record 'b blob_store =
  bs_backend_id :: string
  bs_verifies_sha256 :: bool
  bs_blob_ref_for :: "string \<Rightarrow> blob_ref"
  bs_prepare_upload :: "time \<Rightarrow> prepare_upload_req \<Rightarrow> ('b, prepared_upload) call"
  bs_sign_parts :: "time \<Rightarrow> sign_parts_req \<Rightarrow> ('b, signed_part list) call"
  bs_ensure_upload_completed :: "complete_blob_upload \<Rightarrow> ('b, blob_stat) call"
  bs_abort_upload :: "abort_blob_upload \<Rightarrow> ('b, unit) call"
  bs_stat :: "blob_ref \<Rightarrow> ('b, blob_stat) call"
  bs_sign_download :: "time \<Rightarrow> blob_ref \<Rightarrow> string \<Rightarrow> int \<Rightarrow> ('b, signed_download) call"
  bs_delete_blob :: "blob_ref \<Rightarrow> ('b, unit) call"

section \<open>The registry of backends\<close>

record 'b blob_registry =
  br_default_backend :: string
  br_backends :: "(string, 'b blob_store) table"

definition registry_new :: "'b blob_store \<Rightarrow> 'b blob_registry" where
  "registry_new store =
     \<lparr>br_default_backend = bs_backend_id store,
      br_backends = table_insert (bs_backend_id store) store []\<rparr>"

definition registry_with :: "'b blob_store \<Rightarrow> 'b blob_registry \<Rightarrow> 'b blob_registry" where
  "registry_with store reg =
     reg\<lparr>br_backends := table_insert (bs_backend_id store) store (br_backends reg)\<rparr>"

text \<open>Indexing a \<open>HashMap\<close> with an absent key panics.\<close>

definition registry_default :: "'b blob_registry \<Rightarrow> 'b blob_store option" where
  "registry_default reg = table_get (br_backends reg) (br_default_backend reg)"

definition registry_get :: "'b blob_registry \<Rightarrow> string \<Rightarrow> 'b blob_store result" where
  "registry_get reg backend_id =
     ok_or (Internal (''blob backend '' @ debug_str backend_id @ '' is not configured''))
       (table_get (br_backends reg) backend_id)"

text \<open>A registry that is built by the constructors: every store is filed under its own id.\<close>

inductive built_registry :: "'b blob_registry \<Rightarrow> bool" where
  new: "built_registry (registry_new store)"
| also_with: "built_registry reg \<Longrightarrow> built_registry (registry_with store reg)"

lemma built_registry_default:
  "built_registry reg \<Longrightarrow> registry_default reg \<noteq> None \<and>
     (\<forall>i store. registry_get reg i = Ok store \<longrightarrow> bs_backend_id store = i)"
proof (induction rule: built_registry.induct)
  case (new store)
  then show ?case
    by (auto simp: registry_new_def registry_default_def registry_get_def split: if_splits)
next
  case (also_with reg store)
  then show ?case
    by (auto simp: registry_with_def registry_default_def registry_get_def table_simps split: if_splits)
qed

end
