(* ===== verification/MemStore.thy ===== *)
theory MemStore
  imports Ports MemReads MemIdempotency MemChanges MemMaintenance
begin

text \<open>
  The in-memory metastore as an implementation of the port: \<open>impl MetaStore for
  InMemoryMetaStore\<close>. The codec and the formatting of instants are those of the third-party
  crates that its cursors are made with.
\<close>

definition mem_store :: "cursor_codec \<Rightarrow> (time \<Rightarrow> string) \<Rightarrow> mem_state meta_store" where
  "mem_store cc rfc3339 =
     \<lparr>ms_get_object = (\<lambda>i. call_read (\<lambda>s. Ok (get_object i s))),
      ms_content_pointer = (\<lambda>i. call_read (\<lambda>s. Ok (content_pointer_of i s))),
      ms_list_children = (\<lambda>q. call_read (list_children cc rfc3339 q)),
      ms_resolve_path = (\<lambda>p. call_read (resolve_path p)),
      ms_query_objects = (\<lambda>q. call_read (query_objects cc rfc3339 q)),
      ms_create_object = (\<lambda>c. call_of (create_object c)),
      ms_patch_object = (\<lambda>c. call_of (patch_object c)),
      ms_delete_object = delete_object,
      ms_commit_content = (\<lambda>c. call_of (commit_content c)),
      ms_create_upload_record = (\<lambda>c. call_of (create_upload_record c)),
      ms_get_upload = (\<lambda>i. call_read (get_upload i)),
      ms_update_upload_state = (\<lambda>c. call_of (update_upload_state c)),
      ms_abort_upload_record = (\<lambda>c. call_of (abort_upload_record c)),
      ms_acquire = (\<lambda>c. call_of (acquire c)),
      ms_complete = (\<lambda>c. call_of (complete c)),
      ms_fail_or_release = (\<lambda>c. call_of (fail_or_release c)),
      ms_read_changes = read_changes,
      ms_claim_gc_batch = (\<lambda>now limit. call_of (claim_gc_batch now limit)),
      ms_finish_gc = (\<lambda>e. call_of (finish_gc e)),
      ms_fail_gc = (\<lambda>e err t. call_of (fail_gc e err t)),
      ms_claim_expired_uploads = (\<lambda>now limit. call_of (claim_expired_uploads now limit)),
      ms_purge_idempotency_records = (\<lambda>now. call_of (purge_idempotency_records now)),
      ms_purge_change_cursors = (\<lambda>now. call_of (purge_change_cursors now)),
      ms_purge_changes = (\<lambda>t. call_of (purge_changes t)),
      ms_count_pending_gc = call_read count_pending_gc\<rparr>"

end
