(* ===== verification/MemIdemContract.thy ===== *)
theory MemIdemContract
  imports IdempotencyContract MemStore MemSystem
begin

text \<open>
  The in-memory store keeps the contract of the idempotency port, so the guarantees of the
  contract hold of it. The invariant is that an open row has an owner and a lease, and a
  completed one has neither.
\<close>

definition row_status :: "idempotency_row option \<Rightarrow> idem_status" where
  "row_status row =
     (case row of
        None \<Rightarrow> Free
      | Some r \<Rightarrow>
          if ir_completed r
          then Completed (ir_request_hash r) (case ir_response r of None \<Rightarrow> no_content | Some x \<Rightarrow> x)
          else Claimed (ir_request_hash r) (the (ir_owner_token r)) (the (ir_lease_until r)))"

definition key_status :: "mem_state \<Rightarrow> idem_key \<Rightarrow> idem_status" where
  "key_status s k = row_status (table_get (idempotency s) k)"

definition idem_row_ok :: "idempotency_row \<Rightarrow> bool" where
  "idem_row_ok r \<longleftrightarrow>
     (if ir_completed r then ir_owner_token r = None
      else ir_owner_token r \<noteq> None \<and> ir_lease_until r \<noteq> None)"

definition idem_rows_ok :: "mem_state \<Rightarrow> bool" where
  "idem_rows_ok s \<longleftrightarrow> (\<forall>k r. table_get (idempotency s) k = Some r \<longrightarrow> idem_row_ok r)"

lemma idem_rows_okD: "idem_rows_ok s \<Longrightarrow> table_get (idempotency s) k = Some row \<Longrightarrow> idem_row_ok row"
  unfolding idem_rows_ok_def by blast

lemma scope_key_row: "idempotency_row_key ic = scope_key ic"
  by (simp add: idempotency_row_key_def scope_key_def)

lemma key_status_insert:
  "key_status (s\<lparr>idempotency := table_insert k r t\<rparr>) = (\<lambda>k'. if k' = k then row_status (Some r) else row_status (table_get t k'))"
  by (auto simp: key_status_def table_simps)

lemma mem_acquire_law:
  assumes "idem_rows_ok s"
  shows "\<exists>r s'. acquire a s = (r, s') \<and> idem_rows_ok s' \<and>
      acquire_answer a (key_status s (scope_key (ia_context a))) r \<and>
      key_status s' = (key_status s)(scope_key (ia_context a) :=
        next_status (Acquire a) (key_status s (scope_key (ia_context a))))"
proof (cases "table_get (idempotency s) (scope_key (ia_context a))")
  case None
  then show ?thesis
    using assms
    by (auto simp: acquire_def scope_key_row Let_def key_status_insert key_status_def row_status_def
        new_idempotency_row_def idem_rows_ok_def idem_row_ok_def table_simps fun_eq_iff)
next
  case (Some row)
  then have ok: "idem_row_ok row" by (rule idem_rows_okD [OF assms])
  show ?thesis
  proof (cases "ir_completed row")
    case True
    with Some assms show ?thesis
      by (auto simp: acquire_def scope_key_row Let_def key_status_def row_status_def fun_eq_iff)
  next
    case False
    with ok obtain owner lease where ol: "ir_owner_token row = Some owner" "ir_lease_until row = Some lease"
      by (auto simp: idem_row_ok_def)
    with Some False assms show ?thesis
      by (auto simp: acquire_def scope_key_row Let_def key_status_insert key_status_def row_status_def
          lease_free_def idem_rows_ok_def idem_row_ok_def table_simps fun_eq_iff)
  qed
qed

lemma mem_complete_law:
  assumes "idem_rows_ok s"
  shows "\<exists>r s'. complete c s = (r, s') \<and> idem_rows_ok s' \<and>
      (is_ok r \<longleftrightarrow> claimed_by (ic_owner_token (ico_context c)) (key_status s (scope_key (ico_context c)))) \<and>
      key_status s' = (key_status s)(scope_key (ico_context c) :=
        next_status (Complete c) (key_status s (scope_key (ico_context c))))"
proof (cases "table_get (idempotency s) (scope_key (ico_context c))")
  case None
  then show ?thesis
    using assms by (auto simp: complete_def scope_key_row Let_def key_status_def row_status_def fun_eq_iff)
next
  case (Some row)
  then have ok: "idem_row_ok row" by (rule idem_rows_okD [OF assms])
  with Some assms show ?thesis
    by (cases "ir_completed row")
      (auto simp: complete_def scope_key_row Let_def key_status_insert key_status_def row_status_def
        complete_row_def idem_rows_ok_def idem_row_ok_def table_simps fun_eq_iff)
qed

lemma mem_release_law:
  assumes "idem_rows_ok s"
  shows "\<exists>s'. fail_or_release r s = (Ok (), s') \<and> idem_rows_ok s' \<and>
      key_status s' = (key_status s)(scope_key (ir_context r) :=
        next_status (Release r) (key_status s (scope_key (ir_context r))))"
proof (cases "table_get (idempotency s) (scope_key (ir_context r))")
  case None
  then show ?thesis
    using assms by (auto simp: fail_or_release_def scope_key_row Let_def key_status_def row_status_def fun_eq_iff)
next
  case (Some row)
  then have ok: "idem_row_ok row" by (rule idem_rows_okD [OF assms])
  with Some assms show ?thesis
    by (cases "ir_completed row")
      (auto simp: fail_or_release_def scope_key_row Let_def key_status_def row_status_def
        idem_rows_ok_def idem_row_ok_def table_simps fun_eq_iff)
qed

interpretation mem_idem: idempotency_port "\<lambda>a. call_of (acquire a)" "\<lambda>c. call_of (complete c)"
  "\<lambda>r. call_of (fail_or_release r)" key_status idem_rows_ok
proof
  fix m a assume "idem_rows_ok m"
  from mem_acquire_law [OF this, of a] show "\<exists>r m'. call_of (acquire a) m = Some (r, m') \<and> idem_rows_ok m' \<and>
      acquire_answer a (key_status m (scope_key (ia_context a))) r \<and>
      key_status m' = (key_status m)(scope_key (ia_context a) :=
        next_status (Acquire a) (key_status m (scope_key (ia_context a))))"
    by (simp add: call_simps)
next
  fix m c assume "idem_rows_ok m"
  from mem_complete_law [OF this, of c] show "\<exists>r m'. call_of (complete c) m = Some (r, m') \<and> idem_rows_ok m' \<and>
      (is_ok r \<longleftrightarrow> claimed_by (ic_owner_token (ico_context c)) (key_status m (scope_key (ico_context c)))) \<and>
      key_status m' = (key_status m)(scope_key (ico_context c) :=
        next_status (Complete c) (key_status m (scope_key (ico_context c))))"
    by (simp add: call_simps)
next
  fix m r assume "idem_rows_ok m"
  from mem_release_law [OF this, of r] show "\<exists>m'. call_of (fail_or_release r) m = Some (Ok (), m') \<and>
      idem_rows_ok m' \<and> key_status m' = (key_status m)(scope_key (ir_context r) :=
        next_status (Release r) (key_status m (scope_key (ir_context r))))"
    by (simp add: call_simps)
qed

end
