(* ===== verification/MemExactlyOnce.thy ===== *)
theory MemExactlyOnce
  imports MemIdemContract
begin

text \<open>
  Mutations finalize their idempotency record in the same critical section. So a key is
  completed exactly by the mutation that succeeded under it, and once completed it is answered
  with that mutation's response, whatever the other operations of the store do, until the
  retention purge removes the row.
\<close>

definition finalized ::
  "mutation_context \<Rightarrow> stored_response result \<Rightarrow> mem_state \<Rightarrow> mem_state \<Rightarrow> bool" where
  "finalized ctx res s s' \<longleftrightarrow>
     (case (res, mc_idempotency ctx) of
        (Inr r, Some ic) \<Rightarrow>
          \<exists>row. table_get (idempotency s) (scope_key ic) = Some row \<and>
            ir_owner_token row = Some (ic_owner_token ic) \<and>
            idempotency s' = table_insert (scope_key ic)
              (complete_row r (mc_idempotency_expires_at ctx) row) (idempotency s)
      | _ \<Rightarrow> idempotency s' = idempotency s)"

lemma finalized_err [simp]: "finalized ctx (Err e) s s' \<longleftrightarrow> idempotency s' = idempotency s"
  by (simp add: finalized_def)

lemma respond_with_finalized:
  "respond_with ctx out s1 = (res, s') \<Longrightarrow> idempotency s1 = idempotency s \<Longrightarrow> finalized ctx res s s'"
  by (auto simp: respond_with_def finalize_idempotency_def finalized_def scope_key_row
      split: sum.splits option.splits prod.splits if_splits)

lemma respond_with_view_finalized:
  "respond_with_view ctx i chs no_op s1 = (res, s') \<Longrightarrow> idempotency s1 = idempotency s \<Longrightarrow>
   finalized ctx res s s'"
  by (auto simp: respond_with_view_def intro: respond_with_finalized split: sum.splits)

lemma create_finalized: "create_object c s = (res, s') \<Longrightarrow> finalized (co_ctx c) res s s'"
  by (cases rule: create_object_cases [of c s]) (auto intro: respond_with_view_finalized)

lemma patch_finalized: "patch_object p s = (res, s') \<Longrightarrow> finalized (po_ctx p) res s s'"
  by (cases rule: patch_object_cases [of p s]) (auto intro: respond_with_view_finalized)

lemma delete_finalized:
  assumes "delete_object d s = Some (res, s')"
  shows "finalized (do_ctx d) res s s'"
  using assms
proof (cases rule: delete_object_cases)
  case (written stored targets)
  show ?thesis
    using written(5) [symmetric] unfolding write_delete_def Let_def split_def
    by (rule respond_with_finalized) (simp add: frame_simps split_def)
qed simp

lemma commit_finalized:
  assumes "commit_content m s = (res, s')"
  shows "finalized (cm_ctx m) res s s'"
proof (cases rule: commit_content_cases [of m s])
  case (written upload stored)
  with assms have "write_content m stored s = (res, s')" by simp
  then show ?thesis
    unfolding write_content_def Let_def split_def
    by (rule respond_with_view_finalized) (simp add: frame_simps Let_def)
next
  case (unchanged upload stored)
  with assms show ?thesis by (auto intro: respond_with_view_finalized)
qed (use assms in simp)

text \<open>What a finalized mutation does to the status of its key, and of every other key.\<close>

lemma finalized_status:
  assumes "finalized ctx res s s'" and "idem_rows_ok s"
  shows "idem_rows_ok s' \<and>
    (case (res, mc_idempotency ctx) of
       (Inr r, Some ic) \<Rightarrow> \<exists>h lease. key_status s (scope_key ic) = Claimed h (ic_owner_token ic) lease \<and>
         key_status s' = (key_status s)(scope_key ic := Completed h r)
     | _ \<Rightarrow> key_status s' = key_status s)"
proof (cases "\<exists>r ic. res = Ok r \<and> mc_idempotency ctx = Some ic")
  case True
  then obtain r ic where ri: "res = Ok r" "mc_idempotency ctx = Some ic" by blast
  with assms(1) obtain row where row: "table_get (idempotency s) (scope_key ic) = Some row"
    "ir_owner_token row = Some (ic_owner_token ic)"
    "idempotency s' = table_insert (scope_key ic) (complete_row r (mc_idempotency_expires_at ctx) row) (idempotency s)"
    by (auto simp: finalized_def)
  have "idem_row_ok row" by (rule idem_rows_okD [OF assms(2) row(1)])
  with row(2) have "\<not> ir_completed row" by (auto simp: idem_row_ok_def)
  with row(1,2) have "key_status s (scope_key ic)
      = Claimed (ir_request_hash row) (ic_owner_token ic) (the (ir_lease_until row))"
    by (simp add: key_status_def row_status_def)
  moreover have "key_status s' = (key_status s)(scope_key ic := Completed (ir_request_hash row) r)"
    using row(3) by (auto simp: key_status_def row_status_def complete_row_def table_simps fun_eq_iff)
  moreover have "idem_rows_ok s'"
    using assms(2) row(3) by (auto simp: idem_rows_ok_def idem_row_ok_def complete_row_def table_simps)
  ultimately show ?thesis using ri by auto
next
  case False
  with assms(1) have "idempotency s' = idempotency s"
    by (auto simp: finalized_def split: sum.splits option.splits)
  with False assms(2) show ?thesis
    by (auto simp: idem_rows_ok_def key_status_def fun_eq_iff split: sum.splits option.splits)
qed

lemmas mutation_finalized = create_finalized patch_finalized delete_finalized commit_finalized

section \<open>In the transition system\<close>

definition keeps_completed :: "mem_state \<Rightarrow> mem_state \<Rightarrow> bool" where
  "keeps_completed s s' \<longleftrightarrow> idem_rows_ok s' \<and>
     (\<forall>k h r. key_status s k = Completed h r \<longrightarrow> key_status s' k \<noteq> Free \<longrightarrow> key_status s' k = Completed h r)"

lemma keeps_completedD:
  "keeps_completed s s' \<Longrightarrow> key_status s k = Completed h r \<Longrightarrow> key_status s' k \<noteq> Free \<Longrightarrow>
   key_status s' k = Completed h r"
  unfolding keeps_completed_def by blast

lemma keeps_same: "idem_rows_ok s \<Longrightarrow> idempotency s' = idempotency s \<Longrightarrow> keeps_completed s s'"
  by (simp add: keeps_completed_def idem_rows_ok_def key_status_def)

lemma keeps_finalized: "finalized ctx res s s' \<Longrightarrow> idem_rows_ok s \<Longrightarrow> keeps_completed s s'"
  by (drule (1) finalized_status)
    (auto simp: keeps_completed_def split: sum.splits option.splits)

lemma keeps_op:
  assumes "idem_rows_ok s"
  shows "keeps_completed s (snd (acquire a s))" "keeps_completed s (snd (complete c s))"
    "keeps_completed s (snd (fail_or_release r s))"
proof -
  have st: "next_status x (Completed h y) = Completed h y" for x h y by (cases x) simp_all
  show "keeps_completed s (snd (acquire a s))"
    using mem_acquire_law [OF assms, of a] st by (auto simp: keeps_completed_def)
  show "keeps_completed s (snd (complete c s))"
    using mem_complete_law [OF assms, of c] st by (auto simp: keeps_completed_def)
  show "keeps_completed s (snd (fail_or_release r s))"
    using mem_release_law [OF assms, of r] st by (auto simp: keeps_completed_def)
qed

lemma keeps_purge:
  assumes "idem_rows_ok s" and "table_ok (idempotency s)"
  shows "keeps_completed s (snd (purge_idempotency_records now s))"
  using assms
  by (auto simp: keeps_completed_def purge_idempotency_records_def Let_def idem_rows_ok_def key_status_def
      row_status_def table_get_retain split: option.splits if_splits)

text \<open>The rows stay well formed, and the table a table.\<close>

definition idem_ok :: "mem_state \<Rightarrow> bool" where
  "idem_ok s \<longleftrightarrow> idem_rows_ok s \<and> table_ok (idempotency s)"

lemma finalized_table: "finalized ctx res s s' \<Longrightarrow> table_ok (idempotency s) \<Longrightarrow> table_ok (idempotency s')"
  by (auto simp: finalized_def split: sum.splits option.splits)

lemma idem_ops_table:
  assumes "table_ok (idempotency s)"
  shows "table_ok (idempotency (snd (acquire a s)))" "table_ok (idempotency (snd (complete c s)))"
    "table_ok (idempotency (snd (fail_or_release r s)))"
    "table_ok (idempotency (snd (purge_idempotency_records now s)))"
  using assms
  by (auto simp: acquire_def complete_def fail_or_release_def purge_idempotency_records_def Let_def
      split: option.splits)

lemma other_frames [frame_simps]:
  "idempotency (snd (claim_gc_batch now limit s)) = idempotency s"
  "idempotency (snd (finish_gc e s)) = idempotency s" "idempotency (snd (fail_gc e err t s)) = idempotency s"
  "idempotency (snd (claim_expired_uploads now limit s)) = idempotency s"
  "idempotency (snd (purge_change_cursors now s)) = idempotency s"
  "idempotency (snd (purge_changes t s)) = idempotency s"
  by (simp_all add: claim_gc_batch_def finish_gc_def fail_gc_def claim_expired_uploads_def
      purge_change_cursors_def purge_changes_def Let_def split_def frame_simps)

lemma read_changes_idempotency: "read_changes u rc s = Some (r, s') \<Longrightarrow> idempotency s' = idempotency s"
  by (auto simp: read_changes_def first_read_def Let_def split: sum.splits prod.splits option.splits if_splits)

lemma keeps_step:
  assumes "mem_step s s'" and "idem_ok s"
  shows "keeps_completed s s' \<and> idem_ok s'"
proof -
  from assms(2) have ok: "idem_rows_ok s" "table_ok (idempotency s)" by (simp_all add: idem_ok_def)
  have fin: "keeps_completed s t \<and> idem_ok t" if "finalized ctx res s t" for ctx res t
    using keeps_finalized [OF that ok(1)] finalized_table [OF that ok(2)]
    by (simp add: idem_ok_def keeps_completed_def)
  have same: "keeps_completed s t \<and> idem_ok t" if "idempotency t = idempotency s" for t
    using keeps_same [OF ok(1) that] ok(2) that by (simp add: idem_ok_def keeps_completed_def)
  have op: "keeps_completed s t \<and> idem_ok t" if "keeps_completed s t" "table_ok (idempotency t)" for t
    using that by (simp add: idem_ok_def keeps_completed_def)
  from assms(1) show ?thesis
  proof cases
    case (create c)
    then show ?thesis using create_finalized [of c s] fin by (metis prod.collapse)
  next
    case (patch p)
    then show ?thesis using patch_finalized [of p s] fin by (metis prod.collapse)
  next
    case (delete d r)
    then show ?thesis using delete_finalized fin by blast
  next
    case (commit m)
    then show ?thesis using commit_finalized [of m s] fin by (metis prod.collapse)
  next
    case (acquire_key ia)
    then show ?thesis using op keeps_op(1) [OF ok(1)] idem_ops_table(1) [OF ok(2)] by simp
  next
    case (complete_key ic)
    then show ?thesis using op keeps_op(2) [OF ok(1)] idem_ops_table(2) [OF ok(2)] by simp
  next
    case (release_key ir)
    then show ?thesis using op keeps_op(3) [OF ok(1)] idem_ops_table(3) [OF ok(2)] by simp
  next
    case (purge_keys now)
    then show ?thesis using op keeps_purge [OF ok] idem_ops_table(4) [OF ok(2)] by simp
  next
    case (read_feed u rc rr)
    then show ?thesis using same read_changes_idempotency by blast
  qed (rule same, simp add: frame_simps)+
qed

lemma reachable_idem_ok: "mem_reachable s \<Longrightarrow> idem_ok s"
proof (induction rule: mem_reachable.induct)
  case (start now)
  show ?case by (simp add: idem_ok_def idem_rows_ok_def mem_new_def)
next
  case (step s s')
  then show ?case using keeps_step by blast
qed

text \<open>
  C19: once a key is completed, every later attempt with the same request is answered with the
  stored response, byte for byte, and every attempt with another request is refused as a
  conflict, whatever happens in between and as long as the row is retained; neither changes the
  key.
\<close>

theorem completed_key_is_final:
  assumes "mem_reachable s" and "key_status s (scope_key (ia_context a)) = Completed h response"
    and "(\<lambda>x y. mem_step x y \<and> key_status y (scope_key (ia_context a)) \<noteq> Free)\<^sup>*\<^sup>* s s'"
  shows "fst (acquire a s') =
      Ok (if h = ic_request_hash (ia_context a) then Replay response else Conflict) \<and>
    key_status (snd (acquire a s')) = key_status s'"
proof -
  have "idem_ok s' \<and> key_status s' (scope_key (ia_context a)) = Completed h response"
    using assms(3)
  proof (induction rule: rtranclp_induct)
    case base
    with reachable_idem_ok [OF assms(1)] assms(2) show ?case by simp
  next
    case (step y z)
    with keeps_step [of y z] keeps_completedD show ?case by blast
  qed
  then have ok: "idem_rows_ok s'" and st: "key_status s' (scope_key (ia_context a)) = Completed h response"
    by (simp_all add: idem_ok_def)
  from mem_acquire_law [OF ok, of a] st show ?thesis
    by (auto simp: fun_upd_idem split: if_splits)
qed

text \<open>
  A mutation and the completion of its idempotency key are one step. A mutation that
  succeeds under a key owned the key and leaves it completed with exactly the response it
  returns; one that fails leaves every key as it was.
\<close>

theorem mutation_completes_key:
  assumes "mem_reachable s"
    and "(\<exists>c. create_object c s = (res, s') \<and> ctx = co_ctx c) \<or>
         (\<exists>p. patch_object p s = (res, s') \<and> ctx = po_ctx p) \<or>
         (\<exists>d. delete_object d s = Some (res, s') \<and> ctx = do_ctx d) \<or>
         (\<exists>m. commit_content m s = (res, s') \<and> ctx = cm_ctx m)"
  shows "case (res, mc_idempotency ctx) of
       (Inr r, Some ic) \<Rightarrow> \<exists>h lease. key_status s (scope_key ic) = Claimed h (ic_owner_token ic) lease \<and>
         key_status s' = (key_status s)(scope_key ic := Completed h r)
     | _ \<Rightarrow> key_status s' = key_status s"
proof -
  from assms(2) have "finalized ctx res s s'" by (auto intro: mutation_finalized)
  with finalized_status reachable_idem_ok [OF assms(1)] show ?thesis
    unfolding idem_ok_def by blast
qed
text \<open>
  A key has one owner. While the lease of an attempt runs, any other attempt is told to come
  back later (or that the key is used for another request), and completing or releasing the key
  with another owner's token has no effect on any key; once the lease has run out, the next
  attempt with the same request takes the key over and the old owner can no longer complete it.
\<close>

theorem lease_excludes_others:
  assumes "mem_reachable s" and "key_status s (scope_key (ia_context a)) = Claimed h owner lease"
    and "scope_key (ico_context c) = scope_key (ia_context a)" and "scope_key (ir_context r) = scope_key (ia_context a)"
    and "ic_owner_token (ico_context c) \<noteq> owner" and "ic_owner_token (ir_context r) \<noteq> owner"
    and "ic_request_hash (ia_context a) = h" and "ic_owner_token (ia_context a) \<noteq> owner"
    and "ic_owner_token (ico_context c') = owner" and "scope_key (ico_context c') = scope_key (ia_context a)"
  shows "if ia_now a < lease
     then fst (acquire a s) = Err RateLimited \<and> key_status (snd (acquire a s)) = key_status s \<and>
          \<not> is_ok (fst (complete c s)) \<and> key_status (snd (complete c s)) = key_status s \<and>
          key_status (snd (fail_or_release r s)) = key_status s
     else (\<exists>t. fst (acquire a s) = Ok (Owner t)) \<and>
          \<not> is_ok (fst (complete c' (snd (acquire a s))))"
proof -
  from reachable_idem_ok [OF assms(1)] have ok: "idem_rows_ok s" by (simp add: idem_ok_def)
  have c: "\<not> is_ok (fst (complete c s)) \<and> key_status (snd (complete c s)) = key_status s"
    using mem_idem.lost_lease [OF ok, of c h owner lease] assms(2,3,5) by (auto simp: call_simps)
  have r: "key_status (snd (fail_or_release r s)) = key_status s"
    using mem_release_law [OF ok, of r] assms(2,4,6) by (auto simp: fun_upd_idem)
  from mem_acquire_law [OF ok, of a] obtain s' where a: "idem_rows_ok s'" "s' = snd (acquire a s)"
    "acquire_answer a (Claimed h owner lease) (fst (acquire a s))"
    "key_status s' = (key_status s)(scope_key (ia_context a) := next_status (Acquire a) (Claimed h owner lease))"
    using assms(2) by (metis fst_conv snd_conv)
  show ?thesis
  proof (cases "ia_now a < lease")
    case True
    with a c r assms(2,7) show ?thesis by (auto simp: fun_upd_idem)
  next
    case False
    with a(4) assms(7) have "key_status s' (scope_key (ico_context c'))
        = Claimed h (ic_owner_token (ia_context a)) (ia_lease_until a)"
      by (simp add: assms(10))
    from mem_idem.lost_lease [OF a(1) this] assms(8,9) have "\<not> is_ok (fst (complete c' s'))"
      by (auto simp: call_simps)
    with False a(2,3) assms(7) show ?thesis by auto
  qed
qed

section \<open>A concrete history\<close>

definition sample_scope :: "string \<Rightarrow> idempotency_context" where
  "sample_scope token =
     \<lparr>ic_principal_id = local_principal, ic_operation = ''POST /objects'', ic_key = ''k'',
      ic_request_hash = ''h'', ic_owner_token = token, ic_resource_token = ''0''\<rparr>"

definition sample_acquire :: "string \<Rightarrow> idempotency_acquire" where
  "sample_acquire token =
     \<lparr>ia_context = sample_scope token, ia_now = 1, ia_lease_until = 30, ia_expires_at = 99\<rparr>"

definition sample_keyed_create :: create_object_commit where
  "sample_keyed_create =
     sample_folder\<lparr>co_ctx := (sample_ctx 1)\<lparr>mc_idempotency := Some (sample_scope ''o'')\<rparr>\<rparr>"

definition sample_claimed :: mem_state where
  "sample_claimed = snd (acquire (sample_acquire ''o'') (mem_new 0))"

definition sample_done :: mem_state where
  "sample_done = snd (create_object sample_keyed_create sample_claimed)"

lemma sample_claimed_reachable: "mem_reachable sample_claimed"
  unfolding sample_claimed_def
  by (rule mem_reachable.step [OF mem_reachable.start mem_step.acquire_key])

lemma sample_keyed_result:
  "create_object sample_keyed_create sample_claimed = (Ok (stored_response_json 200 ''new''), sample_done)"
proof -
  have "fst (create_object sample_keyed_create sample_claimed) = Ok (stored_response_json 200 ''new'')"
    by code_simp
  then show ?thesis by (simp add: sample_done_def prod_eq_iff)
qed

lemma sample_done_reachable: "mem_reachable sample_done"
proof -
  have "table_get (objects sample_claimed) (co_id sample_keyed_create) = None" by code_simp
  then show ?thesis
    unfolding sample_done_def by (rule mem_reachable.step [OF sample_claimed_reachable mem_step.create])
qed

lemma sample_done_status:
  "key_status sample_done (scope_key (sample_scope t)) = Completed ''h'' (stored_response_json 200 ''new'')"
  by code_simp

theorem mutation_completes_key_witness:
  "\<exists>h lease. key_status sample_claimed (scope_key (sample_scope ''o'')) = Claimed h ''o'' lease \<and>
     key_status sample_done = (key_status sample_claimed)
       (scope_key (sample_scope ''o'') := Completed h (stored_response_json 200 ''new''))"
proof -
  have "(\<exists>c. create_object c sample_claimed = (Ok (stored_response_json 200 ''new''), sample_done)
          \<and> co_ctx sample_keyed_create = co_ctx c)"
    using sample_keyed_result by blast
  then show ?thesis
    using mutation_completes_key [OF sample_claimed_reachable, of "Ok (stored_response_json 200 ''new'')"
        sample_done "co_ctx sample_keyed_create"]
    by (simp add: sample_keyed_create_def sample_scope_def)
qed

theorem completed_key_is_final_witness:
  "fst (acquire (sample_acquire ''p'') (snd (purge_changes 5 sample_done)))
     = Ok (Replay (stored_response_json 200 ''new''))"
proof -
  let ?k = "scope_key (ia_context (sample_acquire ''p''))"
  have k: "?k = scope_key (sample_scope ''o'')" by code_simp
  have st: "key_status sample_done ?k = Completed ''h'' (stored_response_json 200 ''new'')"
    unfolding k by (rule sample_done_status)
  have "key_status (snd (purge_changes 5 sample_done)) ?k \<noteq> Free"
    using st by (simp add: key_status_def frame_simps)
  then have "(\<lambda>x y. mem_step x y \<and> key_status y ?k \<noteq> Free)\<^sup>*\<^sup>* sample_done (snd (purge_changes 5 sample_done))"
    by (intro r_into_rtranclp conjI mem_step.purge_feed)
  from completed_key_is_final [OF sample_done_reachable st this] show ?thesis
    by (simp add: sample_acquire_def sample_scope_def)
qed

theorem lease_excludes_others_witness:
  "fst (acquire (sample_acquire ''p'') sample_claimed) = Err RateLimited \<and>
   (\<exists>t. fst (acquire ((sample_acquire ''p'')\<lparr>ia_now := 40\<rparr>) sample_claimed) = Ok (Owner t))"
proof -
  define c where "c t = \<lparr>ico_context = sample_scope t, ico_response = no_content, ico_now = 2, ico_expires_at = 9\<rparr>" for t
  define r where "r = \<lparr>ir_context = sample_scope ''p''\<rparr>"
  let ?a = "\<lambda>now. (sample_acquire ''p'')\<lparr>ia_now := now\<rparr>"
  note defs = sample_acquire_def c_def r_def sample_scope_def scope_key_def
  have "key_status sample_claimed (scope_key (sample_scope ''o'')) = Claimed ''h'' ''o'' 30"
    by code_simp
  then have st: "key_status sample_claimed (scope_key (ia_context (?a now))) = Claimed ''h'' ''o'' 30" for now
    by (simp add: defs)
  have "if ia_now (?a now) < 30
     then fst (acquire (?a now) sample_claimed) = Err RateLimited \<and>
          key_status (snd (acquire (?a now) sample_claimed)) = key_status sample_claimed \<and>
          \<not> is_ok (fst (complete (c ''p'') sample_claimed)) \<and>
          key_status (snd (complete (c ''p'') sample_claimed)) = key_status sample_claimed \<and>
          key_status (snd (fail_or_release r sample_claimed)) = key_status sample_claimed
     else (\<exists>t. fst (acquire (?a now) sample_claimed) = Ok (Owner t)) \<and>
          \<not> is_ok (fst (complete (c ''o'') (snd (acquire (?a now) sample_claimed))))" for now
    by (rule lease_excludes_others [OF sample_claimed_reachable st]) (simp_all add: defs)
  from this [of 1] this [of 40] show ?thesis by (simp add: sample_acquire_def)
qed

end
