(* ===== verification/AppState.thy ===== *)
theory AppState
  imports Ports
begin

text \<open>
  What the services of \<open>anystore-application\<close> share: configuration (\<open>config.rs\<close>), metrics
  (\<open>metrics.rs\<close>), the request context (\<open>context.rs\<close>) and the composition of the ports
  (\<open>state.rs\<close>). Durations are numbers of nanoseconds. The parts that third-party crates
  compute are fields of the environment: drawing ULIDs, SHA-256, writing JSON, formatting an
  instant, and the wall clock an adapter reads.
\<close>

section \<open>Configuration\<close>

definition seconds :: "int \<Rightarrow> int" where
  "seconds n = n * 1000000000"

definition hours :: "int \<Rightarrow> int" where
  "hours n = seconds (n * 3600)"

definition days :: "int \<Rightarrow> int" where
  "days n = hours (n * 24)"

record app_config =
  ac_idempotency_retention :: int
  ac_idempotency_lease :: int
  ac_changes_retention :: int
  ac_changes_cursor_ttl :: int
  ac_upload_expiry :: int
  ac_upload_url_expiry :: int
  ac_download_url_expiry :: int
  ac_multipart_threshold :: "64 word"
  ac_part_size :: "64 word"
  ac_max_part_numbers :: nat
  ac_gc_grace :: int
  ac_changes_default_limit :: "32 word"
  ac_changes_max_limit :: "32 word"
  ac_list_default_limit :: "32 word"
  ac_list_max_limit :: "32 word"
  ac_query_default_limit :: "32 word"
  ac_query_max_limit :: "32 word"

definition config_default :: app_config where
  "config_default =
     \<lparr>ac_idempotency_retention = hours 24, ac_idempotency_lease = seconds 30,
      ac_changes_retention = days 30, ac_changes_cursor_ttl = days 30,
      ac_upload_expiry = hours 24, ac_upload_url_expiry = hours 6,
      ac_download_url_expiry = seconds 600,
      ac_multipart_threshold = 64 * 1024 * 1024, ac_part_size = 16 * 1024 * 1024,
      ac_max_part_numbers = 1000, ac_gc_grace = hours 1,
      ac_changes_default_limit = 100, ac_changes_max_limit = 1000,
      ac_list_default_limit = 100, ac_list_max_limit = 1000,
      ac_query_default_limit = 100, ac_query_max_limit = 1000\<rparr>"

text \<open>\<open>Duration::to_std\<close> fails on a negative duration; the callers fall back to ten minutes.\<close>

definition to_std :: "int \<Rightarrow> int" where
  "to_std d = (if 0 \<le> d then d else seconds 600)"

section \<open>Metrics\<close>

record metrics =
  mt_http_requests_total :: "64 word"
  mt_http_request_duration_ms_total :: "64 word"
  mt_revision_conflicts_total :: "64 word"
  mt_idempotency_hits_total :: "64 word"
  mt_idempotency_conflicts_total :: "64 word"
  mt_upload_sessions_total :: "64 word"
  mt_upload_complete_failures_total :: "64 word"
  mt_blob_provider_errors_total :: "64 word"
  mt_db_errors_total :: "64 word"
  mt_changes_lag :: "64 word"
  mt_blob_gc_pending :: "64 word"

definition metrics_new :: metrics where
  "metrics_new =
     \<lparr>mt_http_requests_total = 0, mt_http_request_duration_ms_total = 0,
      mt_revision_conflicts_total = 0, mt_idempotency_hits_total = 0,
      mt_idempotency_conflicts_total = 0, mt_upload_sessions_total = 0,
      mt_upload_complete_failures_total = 0, mt_blob_provider_errors_total = 0,
      mt_db_errors_total = 0, mt_changes_lag = 0, mt_blob_gc_pending = 0\<rparr>"

text \<open>\<open>fetch_add\<close> on a counter wraps.\<close>

definition counter_incr :: "64 word \<Rightarrow> 64 word" where
  "counter_incr c = c + 1"

definition counter_add :: "64 word \<Rightarrow> 64 word \<Rightarrow> 64 word" where
  "counter_add value c = c + value"

definition metric_lines :: "string \<Rightarrow> string \<Rightarrow> 64 word \<Rightarrow> string" where
  "metric_lines name kind value =
     ''# TYPE anystore_'' @ name @ '' '' @ kind @ [CHR 0x0A] @
     ''anystore_'' @ name @ '' '' @ dec_nat (unat value) @ [CHR 0x0A]"

definition metrics_render :: "metrics \<Rightarrow> string" where
  "metrics_render m =
     concat (map (\<lambda>(name, value). metric_lines name ''counter'' value)
       [(''http_requests_total'', mt_http_requests_total m),
        (''http_request_duration_ms_total'', mt_http_request_duration_ms_total m),
        (''revision_conflicts_total'', mt_revision_conflicts_total m),
        (''idempotency_hits_total'', mt_idempotency_hits_total m),
        (''idempotency_conflicts_total'', mt_idempotency_conflicts_total m),
        (''upload_sessions_total'', mt_upload_sessions_total m),
        (''upload_complete_failures_total'', mt_upload_complete_failures_total m),
        (''blob_provider_errors_total'', mt_blob_provider_errors_total m),
        (''db_errors_total'', mt_db_errors_total m)]) @
     concat (map (\<lambda>(name, value). metric_lines name ''gauge'' value)
       [(''changes_lag'', mt_changes_lag m), (''blob_gc_pending'', mt_blob_gc_pending m)])"

section \<open>Requests\<close>

record request_context =
  rq_request_id :: request_id
  rq_principal_id :: principal_id
  rq_operation :: string
  rq_idempotency_key :: "idempotency_key option"
  rq_request_hash :: string
  rq_if_match :: "revision option"
  rq_now :: time

section \<open>The application's state\<close>

record ('m, 'b) app_env =
  ae_meta :: "'m meta_store"
  ae_blobs :: "'b blob_registry"
  ae_config :: app_config
  ae_ulid :: "nat \<Rightarrow> string"
  ae_sha256 :: "string \<Rightarrow> string"
  ae_to_vec :: "json \<Rightarrow> string option"
  ae_micros :: "time \<Rightarrow> string"
  ae_clock :: time

text \<open>What changes while the services run; \<open>w_drawn\<close> counts the ULIDs drawn so far.\<close>

record ('m, 'b) world =
  w_meta :: 'm
  w_blobs :: 'b
  w_metrics :: metrics
  w_drawn :: nat

definition on_meta :: "('m, 'a) call \<Rightarrow> (('m, 'b) world, 'a) call" where
  "on_meta c w = map_option (\<lambda>(r, m). (r, w\<lparr>w_meta := m\<rparr>)) (c (w_meta w))"

definition on_blobs :: "('b, 'a) call \<Rightarrow> (('m, 'b) world, 'a) call" where
  "on_blobs c w = map_option (\<lambda>(r, b). (r, w\<lparr>w_blobs := b\<rparr>)) (c (w_blobs w))"

definition on_metrics :: "(metrics \<Rightarrow> metrics) \<Rightarrow> (('m, 'b) world, unit) call" where
  "on_metrics f w = Some (Ok (), w\<lparr>w_metrics := f (w_metrics w)\<rparr>)"

definition draw_ulid :: "('m, 'b) app_env \<Rightarrow> (('m, 'b) world, string) call" where
  "draw_ulid env w = Some (Ok (ae_ulid env (w_drawn w)), w\<lparr>w_drawn := w_drawn w + 1\<rparr>)"

definition default_store :: "('m, 'b) app_env \<Rightarrow> (('m, 'b) world, 'b blob_store) call" where
  "default_store env =
     (case registry_default (ae_blobs env) of None \<Rightarrow> call_panic | Some store \<Rightarrow> call_ok store)"

definition to_vec :: "('m, 'b) app_env \<Rightarrow> json \<Rightarrow> string result" where
  "to_vec env v = ok_or (Internal ''response encoding failed'') (ae_to_vec env v)"

lemma on_meta_step [call_simps]:
  "c (w_meta w) = Some (r, m) \<Longrightarrow> on_meta c w = Some (r, w\<lparr>w_meta := m\<rparr>)"
  by (simp add: on_meta_def)

lemma on_blobs_step [call_simps]:
  "c (w_blobs w) = Some (r, b) \<Longrightarrow> on_blobs c w = Some (r, w\<lparr>w_blobs := b\<rparr>)"
  by (simp add: on_blobs_def)

lemma on_metrics_step [call_simps]: "on_metrics f w = Some (Ok (), w\<lparr>w_metrics := f (w_metrics w)\<rparr>)"
  by (simp add: on_metrics_def)

lemma draw_ulid_step [call_simps]:
  "draw_ulid env w = Some (Ok (ae_ulid env (w_drawn w)), w\<lparr>w_drawn := w_drawn w + 1\<rparr>)"
  by (simp add: draw_ulid_def)

lemma on_meta_iff:
  "on_meta c w = Some (r, w') \<longleftrightarrow> (\<exists>m. c (w_meta w) = Some (r, m) \<and> w' = w\<lparr>w_meta := m\<rparr>)"
  by (auto simp: on_meta_def)

lemma on_blobs_iff:
  "on_blobs c w = Some (r, w') \<longleftrightarrow> (\<exists>b. c (w_blobs w) = Some (r, b) \<and> w' = w\<lparr>w_blobs := b\<rparr>)"
  by (auto simp: on_blobs_def)

lemma on_parts_keep [call_frames]:
  "call_keeps f c \<Longrightarrow> call_keeps (\<lambda>w. f (w_meta w)) (on_meta c)"
  "call_keeps (\<lambda>w. g (w_blobs w)) (on_meta c)"
  "call_keeps g c' \<Longrightarrow> call_keeps (\<lambda>w. g (w_blobs w)) (on_blobs c')"
  "call_keeps (\<lambda>w. f (w_meta w)) (on_blobs c')"
  "call_keeps (\<lambda>w. f (w_meta w)) (on_metrics h)" "call_keeps (\<lambda>w. g (w_blobs w)) (on_metrics h)"
  "call_keeps (\<lambda>w. f (w_meta w)) (draw_ulid env)" "call_keeps (\<lambda>w. g (w_blobs w)) (draw_ulid env)"
  "call_keeps k (default_store env)"
  by (auto simp: call_keeps_def on_meta_iff on_blobs_iff call_simps default_store_def split: option.splits)

end
