(* ===== verification/AppIdempotency.thy ===== *)
theory AppIdempotency
  imports AppState
begin

text \<open>
  Idempotency orchestration (\<open>anystore-application/src/idempotency.rs\<close>): an operation runs under
  a claimed key, a completed key is answered with the stored response, and a failed operation
  gives the key back.
\<close>

definition idempotency_context_of :: "request_context \<Rightarrow> string \<Rightarrow> idempotency_context option" where
  "idempotency_context_of ctx token =
     map_option (\<lambda>key.
       \<lparr>ic_principal_id = rq_principal_id ctx, ic_operation = rq_operation ctx, ic_key = key,
        ic_request_hash = rq_request_hash ctx, ic_owner_token = token,
        ic_resource_token = dec_int (timestamp_micros (rq_now ctx))\<rparr>)
       (rq_idempotency_key ctx)"

datatype claim_outcome = Proceed "idempotency_context option" | ClaimReplay stored_response

text \<open>The owner token is drawn only when there is a key.\<close>

definition claim :: "('m, 'b) app_env \<Rightarrow> request_context \<Rightarrow> (('m, 'b) world, claim_outcome) call" where
  "claim env ctx =
     (if rq_idempotency_key ctx = None then call_ok (Proceed None)
      else
        call_bind (draw_ulid env) (\<lambda>token.
        (case idempotency_context_of ctx token of
           None \<Rightarrow> call_ok (Proceed None)
         | Some ictx \<Rightarrow>
             call_bind (on_meta (ms_acquire (ae_meta env)
               \<lparr>ia_context = ictx, ia_now = rq_now ctx,
                ia_lease_until = rq_now ctx + ac_idempotency_lease (ae_config env),
                ia_expires_at = rq_now ctx + ac_idempotency_retention (ae_config env)\<rparr>)) (\<lambda>decision.
             (case decision of
                Owner resource_token \<Rightarrow>
                  call_ok (Proceed (Some (ictx\<lparr>ic_resource_token := resource_token\<rparr>)))
              | Replay response \<Rightarrow>
                  call_then (on_metrics (\<lambda>m. m\<lparr>mt_idempotency_hits_total :=
                      counter_incr (mt_idempotency_hits_total m)\<rparr>))
                    (call_ok (ClaimReplay response))
              | Conflict \<Rightarrow>
                  call_then (on_metrics (\<lambda>m. m\<lparr>mt_idempotency_conflicts_total :=
                      counter_incr (mt_idempotency_conflicts_total m)\<rparr>))
                    (call_err IdempotencyKeyReused))))))"

text \<open>Giving the key back after a failure; its own failure is dropped.\<close>

definition release_claim ::
  "('m, 'b) app_env \<Rightarrow> idempotency_context option \<Rightarrow> (('m, 'b) world, unit) call" where
  "release_claim env ictx =
     (case ictx of
        None \<Rightarrow> call_ok ()
      | Some ic \<Rightarrow> call_ignore (on_meta (ms_fail_or_release (ae_meta env) \<lparr>ir_context = ic\<rparr>)))"

definition run_idempotent ::
  "('m, 'b) app_env \<Rightarrow> request_context \<Rightarrow>
   (idempotency_context option \<Rightarrow> (('m, 'b) world, stored_response) call) \<Rightarrow>
   (('m, 'b) world, stored_response) call" where
  "run_idempotent env ctx operation =
     call_bind (claim env ctx) (\<lambda>claimed.
       (case claimed of
          ClaimReplay response \<Rightarrow> call_ok response
        | Proceed ictx \<Rightarrow>
            call_catch (operation ictx) (\<lambda>e. call_then (release_claim env ictx) (call_err e))))"

definition run_with_completion ::
  "('m, 'b) app_env \<Rightarrow> request_context \<Rightarrow>
   (idempotency_context option \<Rightarrow> (('m, 'b) world, stored_response) call) \<Rightarrow>
   (('m, 'b) world, stored_response) call" where
  "run_with_completion env ctx operation =
     call_bind (claim env ctx) (\<lambda>claimed.
       (case claimed of
          ClaimReplay response \<Rightarrow> call_ok response
        | Proceed ictx \<Rightarrow>
            call_bind (call_try (operation ictx)) (\<lambda>outcome.
              (case outcome of
                 Inr response \<Rightarrow>
                   (case ictx of
                      None \<Rightarrow> call_ok response
                    | Some ic \<Rightarrow>
                        call_then (on_meta (ms_complete (ae_meta env)
                            \<lparr>ico_context = ic, ico_response = response, ico_now = rq_now ctx,
                             ico_expires_at = rq_now ctx + ac_idempotency_retention (ae_config env)\<rparr>))
                          (call_ok response))
               | Inl e \<Rightarrow> call_then (release_claim env ictx) (call_err e)))))"

end
