(* ===== verification/Dto.thy ===== *)
theory Dto
  imports AppState
begin

text \<open>
  The public representations (\<open>anystore-application/src/dto.rs\<close>) as JSON documents. The format of
  instants is the third-party \<open>to_rfc3339_opts\<close>, an argument.
\<close>

definition json_u64 :: "64 word \<Rightarrow> json" where
  "json_u64 n = JNumber (PosInt n)"

definition json_option :: "('a \<Rightarrow> json) \<Rightarrow> 'a option \<Rightarrow> json" where
  "json_option f x = (case x of None \<Rightarrow> JNull | Some v \<Rightarrow> f v)"

definition content_state_json :: "content_state option \<Rightarrow> json" where
  "content_state_json = json_option (\<lambda>cs. JString (content_state_as_str cs))"

definition object_json :: "(time \<Rightarrow> string) \<Rightarrow> object_view \<Rightarrow> json" where
  "object_json timestamp view =
     (let ob = ov_object view in
      JObject
        ([(''id'', JString (o_id ob)), (''revision'', json_u64 (o_revision ob)),
          (''kind'', JString (object_kind_as_str (o_kind ob))), (''name'', JString (o_name ob)),
          (''parent_id'', json_option JString (o_parent_id ob)), (''path'', JString (ov_path view))] @
         (if is_file ob
          then [(''content_type'', json_option JString (o_content_type ob)),
                (''size'', json_option json_u64 (o_size ob)),
                (''sha256'', json_option JString (o_sha256 ob)),
                (''content_state'', content_state_json (o_content_state ob))]
          else []) @
         [(''metadata'', o_metadata ob), (''created_at'', JString (timestamp (o_created_at ob))),
          (''updated_at'', JString (timestamp (o_updated_at ob)))]))"

definition change_json :: "(time \<Rightarrow> string) \<Rightarrow> change_record \<Rightarrow> json" where
  "change_json timestamp r =
     JObject
       ([(''change_id'', JString (c_change_id r)), (''object_id'', JString (c_object_id r)),
         (''revision'', json_u64 (c_revision r)),
         (''action'', JString (change_action_as_str (c_action r))),
         (''changed_at'', JString (timestamp (c_changed_at r))),
         (''request_id'', JString (c_request_id r)),
         (''idempotency_key'', json_option JString (c_idempotency_key r))] @
        (if c_tombstone r then [(''tombstone'', JBool True)] else []))"

definition page_json :: "json list \<Rightarrow> string option \<Rightarrow> bool \<Rightarrow> json" where
  "page_json items next_cursor has_more =
     JObject [(''items'', JArray items), (''next_cursor'', json_option JString next_cursor),
              (''has_more'', JBool has_more)]"

definition error_json :: "domain_error \<Rightarrow> string \<Rightarrow> json" where
  "error_json err request_id =
     JObject
       ([(''error'', JString (code err)), (''message'', JString (public_message err)),
         (''request_id'', JString request_id)] @
        (case err of
           RevisionConflict current \<Rightarrow> [(''current_revision'', json_u64 current)]
         | _ \<Rightarrow> []))"

definition upload_session_json ::
  "(time \<Rightarrow> string) \<Rightarrow> string \<Rightarrow> string \<Rightarrow> prepared_upload \<Rightarrow> json" where
  "upload_session_json timestamp upload_id object_id prepared =
     JObject
       ([(''id'', JString upload_id), (''object_id'', JString object_id),
         (''mode'', JString (upload_mode_as_str (pd_mode prepared)))] @
        (case pd_mode prepared of
           Single \<Rightarrow>
             (case pd_single prepared of
                None \<Rightarrow> []
              | Some single \<Rightarrow>
                  [(''upload'', JObject
                     [(''method'', JString (sq_method single)), (''url'', JString (sq_url single)),
                      (''headers'', JObject (map (\<lambda>(k, v). (k, JString v)) (sq_headers single)))])])
         | Multipart \<Rightarrow> [(''part_size'', json_option json_u64 (pd_part_size prepared))]) @
        [(''expires_at'', JString (timestamp (pd_expires_at prepared)))])"

definition parts_json :: "signed_part list \<Rightarrow> json" where
  "parts_json parts =
     JObject [(''parts'', JArray (map (\<lambda>p. JObject
       [(''part_number'', JNumber (PosInt (ucast (sg_part_number p)))),
        (''method'', JString (sg_method p)), (''url'', JString (sg_url p))]) parts))]"

definition upload_complete_json :: "object_view \<Rightarrow> json" where
  "upload_complete_json view =
     (let ob = ov_object view in
      JObject [(''object_id'', JString (o_id ob)), (''revision'', json_u64 (o_revision ob)),
               (''content_state'', content_state_json (o_content_state ob)),
               (''size'', json_option json_u64 (o_size ob)),
               (''sha256'', json_option JString (o_sha256 ob))])"



end
