(* ===== verification/AppObjects.thy ===== *)
theory AppObjects
  imports AppIdempotency Dto
begin

text \<open>
  The services on objects (\<open>objects.rs\<close>), the metadata query (\<open>query.rs\<close>) and the change feed
  (\<open>changes.rs\<close>) of \<open>anystore-application\<close>.
\<close>

section \<open>Requests\<close>

record create_object_request =
  cq_kind :: object_kind
  cq_name :: string
  cq_parent_id :: "object_id option"
  cq_content_type :: "string option"
  cq_metadata :: "json option"

record patch_object_request =
  pq_name :: "string option"
  pq_parent_id :: "object_id option"
  pq_metadata :: "metadata_patch option"

definition patch_request_is_empty :: "patch_object_request \<Rightarrow> bool" where
  "patch_request_is_empty req \<longleftrightarrow> pq_name req = None \<and> pq_parent_id req = None \<and> pq_metadata req = None"

record list_children_request =
  lq_parent_id :: object_id
  lq_limit :: "32 word option"
  lq_cursor :: "string option"
  lq_order_by :: order_by
  lq_order :: list_order

record query_request =
  qq_kind :: "object_kind option"
  qq_name :: "string option"
  qq_parent_id :: "object_id option"
  qq_metadata :: "(string \<times> metadata_condition) list"
  qq_limit :: "32 word option"
  qq_cursor :: "string option"

section \<open>Rendering inside the transaction\<close>

definition mutation_context_of ::
  "('m, 'b) app_env \<Rightarrow> request_context \<Rightarrow> idempotency_context option \<Rightarrow> response_renderer \<Rightarrow>
   mutation_context" where
  "mutation_context_of env ctx ictx render =
     \<lparr>mc_now = rq_now ctx, mc_request_id = rq_request_id ctx,
      mc_idempotency_key = rq_idempotency_key ctx, mc_idempotency = ictx,
      mc_idempotency_expires_at = rq_now ctx + ac_idempotency_retention (ae_config env),
      mc_render = render\<rparr>"

definition render_object :: "('m, 'b) app_env \<Rightarrow> nat \<Rightarrow> response_renderer" where
  "render_object env status_code outcome =
     rbind (ok_or (Internal ''mutation produced no object'') (mo_object outcome)) (\<lambda>view.
     rbind (to_vec env (object_json (ae_micros env) view)) (\<lambda>body.
     Ok (stored_response_json status_code body)))"

definition render_no_content :: response_renderer where
  "render_no_content outcome = Ok no_content"

section \<open>Objects\<close>

definition check_create_request :: "create_object_request \<Rightarrow> unit result" where
  "check_create_request req =
     rbind (validate_name (cq_name req)) (\<lambda>_.
     rbind (validate_metadata_document (case cq_metadata req of None \<Rightarrow> JObject [] | Some m \<Rightarrow> m)) (\<lambda>_.
       if cq_kind req = Folder \<and> cq_content_type req \<noteq> None
       then Err (InvalidRequest ''content_type is only valid for files.'')
       else (case cq_content_type req of None \<Rightarrow> Ok () | Some ct \<Rightarrow> validate_content_type ct)))"

definition app_create ::
  "('m, 'b) app_env \<Rightarrow> create_object_request \<Rightarrow> request_context \<Rightarrow> (('m, 'b) world, stored_response) call" where
  "app_create env req ctx =
     call_then (call_result (check_create_request req))
       (run_idempotent env ctx (\<lambda>ictx.
          call_bind (draw_ulid env) (\<lambda>ulid.
            on_meta (ms_create_object (ae_meta env)
              \<lparr>co_id = generate_object_id ulid, co_kind = cq_kind req, co_name = cq_name req,
               co_parent_id = (case cq_parent_id req of None \<Rightarrow> ROOT_ID | Some p \<Rightarrow> p),
               co_content_type = cq_content_type req,
               co_metadata = (case cq_metadata req of None \<Rightarrow> JObject [] | Some m \<Rightarrow> m),
               co_ctx = mutation_context_of env ctx ictx (render_object env 201)\<rparr>))))"

definition require_object ::
  "('m, 'b) app_env \<Rightarrow> object_id \<Rightarrow> (('m, 'b) world, object_view) call" where
  "require_object env i =
     call_bind (on_meta (ms_get_object (ae_meta env) i)) (\<lambda>view.
       call_result (ok_or ObjectNotFound view))"

definition app_get :: "('m, 'b) app_env \<Rightarrow> object_id \<Rightarrow> (('m, 'b) world, json) call" where
  "app_get env i = call_bind (require_object env i) (\<lambda>view. call_ok (object_json (ae_micros env) view))"

definition object_page_json :: "('m, 'b) app_env \<Rightarrow> object_view page \<Rightarrow> json" where
  "object_page_json env p =
     page_json (map (object_json (ae_micros env)) (pg_items p)) (pg_next_cursor p) (pg_has_more p)"

definition app_list_children ::
  "('m, 'b) app_env \<Rightarrow> list_children_request \<Rightarrow> (('m, 'b) world, json) call" where
  "app_list_children env req =
     call_bind (require_object env (lq_parent_id req)) (\<lambda>parent.
     call_then (call_unless (\<not> is_folder (ov_object parent)) NotAFolder)
       (call_bind (on_meta (ms_list_children (ae_meta env)
          \<lparr>lc_parent_id = lq_parent_id req,
           lc_limit = clamp_limit (lq_limit req) (ac_list_default_limit (ae_config env))
             (ac_list_max_limit (ae_config env)),
           lc_cursor = lq_cursor req, lc_order_by = lq_order_by req, lc_order = lq_order req\<rparr>)) (\<lambda>p.
        call_ok (object_page_json env p))))"

definition app_resolve :: "('m, 'b) app_env \<Rightarrow> string \<Rightarrow> (('m, 'b) world, json) call" where
  "app_resolve env path =
     call_bind (on_meta (ms_resolve_path (ae_meta env) path)) (\<lambda>found.
     call_bind (call_result (ok_or ObjectNotFound found)) (\<lambda>view.
       call_ok (object_json (ae_micros env) view)))"

definition check_patch_request :: "patch_object_request \<Rightarrow> unit result" where
  "check_patch_request req =
     rbind (case pq_name req of None \<Rightarrow> Ok () | Some n \<Rightarrow> validate_name n) (\<lambda>_.
       (case pq_metadata req of None \<Rightarrow> Ok () | Some p \<Rightarrow> validate_metadata_patch p))"

definition app_patch ::
  "('m, 'b) app_env \<Rightarrow> object_id \<Rightarrow> patch_object_request \<Rightarrow> request_context \<Rightarrow>
   (('m, 'b) world, stored_response) call" where
  "app_patch env i req ctx =
     call_then (call_result (check_patch_request req))
       (run_idempotent env ctx (\<lambda>ictx.
          on_meta (ms_patch_object (ae_meta env)
            \<lparr>po_id = i, po_if_match = rq_if_match ctx, po_new_name = pq_name req,
             po_new_parent_id = pq_parent_id req, po_metadata_patch = pq_metadata req,
             po_ctx = mutation_context_of env ctx ictx (render_object env 200)\<rparr>)))"

definition app_delete ::
  "('m, 'b) app_env \<Rightarrow> object_id \<Rightarrow> bool \<Rightarrow> request_context \<Rightarrow> (('m, 'b) world, stored_response) call" where
  "app_delete env i recursive ctx =
     run_idempotent env ctx (\<lambda>ictx.
       on_meta (ms_delete_object (ae_meta env)
         \<lparr>do_id = i, do_if_match = rq_if_match ctx, do_recursive = recursive,
          do_ctx = mutation_context_of env ctx ictx render_no_content\<rparr>))"

section \<open>Query and changes\<close>

definition app_query :: "('m, 'b) app_env \<Rightarrow> query_request \<Rightarrow> (('m, 'b) world, json) call" where
  "app_query env req =
     call_bind (on_meta (ms_query_objects (ae_meta env)
       \<lparr>oq_kind = qq_kind req, oq_name = qq_name req, oq_parent_id = qq_parent_id req,
        oq_metadata = qq_metadata req,
        oq_limit = clamp_limit (qq_limit req) (ac_query_default_limit (ae_config env))
          (ac_query_max_limit (ae_config env)),
        oq_cursor = qq_cursor req\<rparr>)) (\<lambda>p.
     call_ok (object_page_json env p))"

text \<open>An empty cursor is no cursor; the gauge is the lag of the page as a 64-bit number.\<close>

definition app_read_changes ::
  "('m, 'b) app_env \<Rightarrow> string option \<Rightarrow> 32 word option \<Rightarrow> time \<Rightarrow> (('m, 'b) world, json) call" where
  "app_read_changes env cursor limit now =
     call_bind (draw_ulid env) (\<lambda>ulid.
     call_bind (on_meta (ms_read_changes (ae_meta env) ulid
       \<lparr>rc_cursor = (case cursor of None \<Rightarrow> None | Some c \<Rightarrow> if c = [] then None else Some c),
        rc_limit = clamp_limit limit (ac_changes_default_limit (ae_config env))
          (ac_changes_max_limit (ae_config env)),
        rc_now = now, rc_cursor_expires_at = now + ac_changes_cursor_ttl (ae_config env)\<rparr>)) (\<lambda>p.
     call_then (on_metrics (\<lambda>m. m\<lparr>mt_changes_lag := of_nat (cpg_lag p)\<rparr>))
       (call_ok (JObject
         [(''items'', JArray (map (change_json (ae_micros env)) (cpg_items p))),
          (''next_cursor'', JString (cpg_next_cursor p)), (''has_more'', JBool (cpg_has_more p))]))))"

end
