(* ===== verification/RequestHash.thy ===== *)
theory RequestHash
  imports AppState "HOL-Library.Product_Lexorder"
begin

text \<open>
  The canonical hash of a request (\<open>context.rs\<close>) and the id derived from an idempotency scope
  (\<open>idempotency.rs\<close>). Both feed a framed byte string to SHA-256, so two requests with one hash
  are the same request or collide in SHA-256: the theorems are about the byte strings.
\<close>

section \<open>Encodings\<close>

text \<open>\<open>u64::to_be_bytes\<close> and \<open>hex::encode\<close>.\<close>

fun be_bytes :: "nat \<Rightarrow> nat \<Rightarrow> string" where
  "be_bytes 0 n = []"
| "be_bytes (Suc k) n = be_bytes k (n div 256) @ [char_of (n mod 256)]"

definition u64_be_bytes :: "nat \<Rightarrow> string" where
  "u64_be_bytes n = be_bytes 8 (n mod 2 ^ 64)"

definition hex_encode :: "string \<Rightarrow> string" where
  "hex_encode bytes =
     concat (map (\<lambda>c. [hex_digit (of_char c div 16), hex_digit (of_char c mod 16)]) bytes)"

text \<open>One length-prefixed field of the canonical representation.\<close>

definition hash_field :: "string \<Rightarrow> string" where
  "hash_field bytes = u64_be_bytes (length bytes) @ bytes"

definition canonical_request ::
  "principal_id \<Rightarrow> string \<Rightarrow> string \<Rightarrow> string \<Rightarrow> (string \<times> string) list \<Rightarrow> string \<Rightarrow>
   revision option \<Rightarrow> string" where
  "canonical_request caller method route target query body if_match =
     (let sorted = sort query in
      hash_field caller @ hash_field method @ hash_field route @ hash_field target @
      hash_field (u64_be_bytes (length sorted)) @
      concat (map (\<lambda>(key, value). hash_field key @ hash_field value) sorted) @
      hash_field body @
      (case if_match of
         Some expected \<Rightarrow> hash_field (dec_nat (unat expected))
       | None \<Rightarrow> hash_field []))"

definition canonical_request_hash ::
  "(string \<Rightarrow> string) \<Rightarrow> principal_id \<Rightarrow> string \<Rightarrow> string \<Rightarrow> string \<Rightarrow> (string \<times> string) list \<Rightarrow>
   string \<Rightarrow> revision option \<Rightarrow> string" where
  "canonical_request_hash sha256 caller method route target query body if_match =
     hex_encode (sha256 (canonical_request caller method route target query body if_match))"

definition scope_bytes :: "idempotency_context \<Rightarrow> string" where
  "scope_bytes ic =
     ic_principal_id ic @ [CHR 0x00] @ ic_operation ic @ [CHR 0x00] @ ic_key ic @ [CHR 0x00] @
     ic_request_hash ic @ [CHR 0x00] @ ic_resource_token ic"

definition derived_id :: "(string \<Rightarrow> string) \<Rightarrow> string \<Rightarrow> idempotency_context \<Rightarrow> string" where
  "derived_id sha256 id_prefix ic = id_prefix @ hex_encode (take 16 (sha256 (scope_bytes ic)))"

section \<open>Framing\<close>

lemma length_be_bytes [simp]: "length (be_bytes k n) = k"
  by (induction k arbitrary: n) auto

lemma char_of_mod_inject: "(char_of (a mod 256 :: nat) :: char) = char_of (b mod 256) \<Longrightarrow> a mod 256 = b mod 256"
  by (metis char_of_mod_256 of_char_of mod_mod_trivial)

lemma be_bytes_inject:
  "m < 256 ^ k \<Longrightarrow> n < 256 ^ k \<Longrightarrow> be_bytes k m = be_bytes k n \<Longrightarrow> m = n"
proof (induction k arbitrary: m n)
  case (Suc k)
  then have "be_bytes k (m div 256) = be_bytes k (n div 256)" "m mod 256 = n mod 256"
    using char_of_mod_inject [of m n] by auto
  moreover have "m div 256 < 256 ^ k" "n div 256 < 256 ^ k"
    using Suc.prems by (simp_all add: less_mult_imp_div_less mult.commute)
  ultimately have "m div 256 = n div 256" using Suc.IH by blast
  with \<open>m mod 256 = n mod 256\<close> show ?case by (metis div_mult_mod_eq)
qed simp

lemma u64_be_bytes_inject:
  assumes "m < 2 ^ 64" and "n < 2 ^ 64" and "u64_be_bytes m = u64_be_bytes n"
  shows "m = n"
proof -
  have "be_bytes 8 m = be_bytes 8 n" using assms by (simp add: u64_be_bytes_def)
  then show ?thesis using assms(1,2) by (intro be_bytes_inject [of m 8 n]) simp_all
qed

text \<open>A string that fits in memory: its length is a \<open>usize\<close>.\<close>

definition fits :: "string \<Rightarrow> bool" where
  "fits s \<longleftrightarrow> length s < 2 ^ 64"

lemma hash_field_append_inject:
  assumes "fits a" and "fits b" and "hash_field a @ x = hash_field b @ y"
  shows "a = b \<and> x = y"
proof -
  have l: "u64_be_bytes (length a) = u64_be_bytes (length b)" "a @ x = b @ y"
    using assms(3) by (simp_all add: hash_field_def u64_be_bytes_def)
  have "length a = length b"
    by (rule u64_be_bytes_inject [OF _ _ l(1)]) (use assms(1,2) in \<open>simp_all add: fits_def\<close>)
  with l(2) show ?thesis by simp
qed

lemma hash_fields_inject:
  assumes "length xs = length ys" and "list_all fits xs" and "list_all fits ys"
    and "concat (map hash_field xs) @ x = concat (map hash_field ys) @ y"
  shows "xs = ys \<and> x = y"
  using assms
proof (induction xs ys rule: list_induct2)
  case (Cons a xs b ys)
  then have "a = b" and "concat (map hash_field xs) @ x = concat (map hash_field ys) @ y"
    using hash_field_append_inject [of a b] by auto
  with Cons show ?case by simp
qed simp

definition request_fits ::
  "principal_id \<Rightarrow> string \<Rightarrow> string \<Rightarrow> string \<Rightarrow> (string \<times> string) list \<Rightarrow> string \<Rightarrow> bool" where
  "request_fits caller method route target query body \<longleftrightarrow>
     list_all fits [caller, method, route, target, body] \<and> length query < 2 ^ 64 \<and>
     list_all (\<lambda>(k, v). fits k \<and> fits v) query"

lemma dec_nat_fits: "n < 2 ^ 64 \<Longrightarrow> fits (dec_nat n)"
  using length_dec_nat_le [of n 20] by (simp add: fits_def)

text \<open>The fields of a request before and after its parameters.\<close>

definition flat_pairs :: "(string \<times> string) list \<Rightarrow> string list" where
  "flat_pairs q = concat (map (\<lambda>(k, v). [k, v]) q)"

definition condition_bytes :: "revision option \<Rightarrow> string" where
  "condition_bytes c = (case c of Some expected \<Rightarrow> dec_nat (unat expected) | None \<Rightarrow> [])"

lemma condition_bytes_inject: "condition_bytes c = condition_bytes c' \<longleftrightarrow> c = c'"
  by (cases c; cases c') (auto simp: condition_bytes_def word_unat_eq_iff dest: sym)

lemma condition_bytes_fits: "fits (condition_bytes c)"
proof (cases c)
  case (Some expected)
  have "unat expected < 2 ^ 64" using unsigned_less [of expected] by simp
  with Some show ?thesis by (simp add: condition_bytes_def dec_nat_fits)
qed (simp add: condition_bytes_def fits_def)

lemma length_flat_pairs [simp]: "length (flat_pairs q) = 2 * length q"
  by (induction q) (auto simp: flat_pairs_def)

lemma flat_pairs_inject: "length q = length q' \<Longrightarrow> flat_pairs q = flat_pairs q' \<longleftrightarrow> q = q'"
  by (induction q q' rule: list_induct2) (auto simp: flat_pairs_def)

lemma canonical_request_fields:
  "canonical_request p m r t q b c =
     concat (map hash_field [p, m, r, t, u64_be_bytes (length q)]) @
     concat (map hash_field (flat_pairs (sort q) @ [b, condition_bytes c]))"
proof -
  have "concat (map hash_field (flat_pairs xs)) = concat (map (\<lambda>(k, v). hash_field k @ hash_field v) xs)" for xs
    by (induction xs) (auto simp: flat_pairs_def)
  then show ?thesis
    by (simp add: canonical_request_def condition_bytes_def Let_def split: option.split)
qed

lemma request_fits_fields:
  assumes "request_fits p m r t q b"
  shows "list_all fits [p, m, r, t, u64_be_bytes (length q)]"
    and "list_all fits (flat_pairs (sort q) @ [b, condition_bytes c])" and "length q < 2 ^ 64"
  using assms condition_bytes_fits
  by (auto simp: request_fits_def fits_def u64_be_bytes_def flat_pairs_def list_all_iff)

text \<open>
  C22: requests are told apart. Two requests that are hashed from the same bytes have the same
  principal, method, route, target, body and revision condition, and the same query parameters
  up to their order - and a request's parameters can be reordered without changing its hash. So
  a key that is reused for another request is noticed, short of a collision in SHA-256.
\<close>

theorem canonical_request_injective:
  assumes "request_fits p m r t q b" and "request_fits p' m' r' t' q' b'"
  shows "canonical_request p m r t q b c = canonical_request p' m' r' t' q' b' c' \<longleftrightarrow>
    p = p' \<and> m = m' \<and> r = r' \<and> t = t' \<and> mset q = mset q' \<and> b = b' \<and> c = c'"
proof
  assume eq: "canonical_request p m r t q b c = canonical_request p' m' r' t' q' b' c'"
  have "[p, m, r, t, u64_be_bytes (length q)] = [p', m', r', t', u64_be_bytes (length q')] \<and>
      concat (map hash_field (flat_pairs (sort q) @ [b, condition_bytes c])) =
      concat (map hash_field (flat_pairs (sort q') @ [b', condition_bytes c']))"
    by (rule hash_fields_inject [OF _ request_fits_fields(1) [OF assms(1)]
          request_fits_fields(1) [OF assms(2)] eq [unfolded canonical_request_fields]]) simp
  then have one: "p = p'" "m = m'" "r = r'" "t = t'" "u64_be_bytes (length q) = u64_be_bytes (length q')"
    and eq2: "concat (map hash_field (flat_pairs (sort q) @ [b, condition_bytes c])) @ [] =
      concat (map hash_field (flat_pairs (sort q') @ [b', condition_bytes c'])) @ []"
    by simp_all
  have len: "length q = length q'"
    using request_fits_fields(3) [OF assms(1)] request_fits_fields(3) [OF assms(2)] one(5)
    by (rule u64_be_bytes_inject)
  have "flat_pairs (sort q) @ [b, condition_bytes c] = flat_pairs (sort q') @ [b', condition_bytes c'] \<and> [] = ([] :: string)"
    by (rule hash_fields_inject [OF _ request_fits_fields(2) [OF assms(1)]
          request_fits_fields(2) [OF assms(2)] eq2]) (simp add: len)
  then have "sort q = sort q'" "b = b'" "c = c'"
    using flat_pairs_inject [of "sort q" "sort q'"] condition_bytes_inject len by auto
  with one show "p = p' \<and> m = m' \<and> r = r' \<and> t = t' \<and> mset q = mset q' \<and> b = b' \<and> c = c'"
    by (metis mset_sort)
next
  assume "p = p' \<and> m = m' \<and> r = r' \<and> t = t' \<and> mset q = mset q' \<and> b = b' \<and> c = c'"
  moreover from this have "sort q = sort q'"
    by (metis mset_sort properties_for_sort sorted_sort)
  ultimately show "canonical_request p m r t q b c = canonical_request p' m' r' t' q' b' c'"
    by (simp add: canonical_request_def Let_def)
qed

theorem canonical_request_injective_witness:
  "canonical_request ''u'' ''GET'' ''/a'' ''/a'' [(''x'', ''1''), (''y'', ''2'')] [] (Some 3) =
     canonical_request ''u'' ''GET'' ''/a'' ''/a'' [(''y'', ''2''), (''x'', ''1'')] [] (Some 3) \<and>
   canonical_request ''u'' ''GET'' ''/a'' ''/a'' [(''x'', ''1''), (''y'', ''2'')] [] (Some 3) \<noteq>
     canonical_request ''u'' ''GET'' ''/a'' ''/a'' [(''y'', ''2''), (''x'', ''1'')] [] None"
  by (subst (1 2) canonical_request_injective) (simp_all add: request_fits_def fits_def)

end
