(* ===== verification/AppUploads.thy ===== *)
theory AppUploads
  imports AppObjects RequestHash
begin

text \<open>
  The upload session lifecycle (\<open>anystore-application/src/uploads.rs\<close>) and the access to content
  (\<open>content.rs\<close>): creating a session, allocating parts, completing and aborting it, and signing
  a download.
\<close>

definition MAX_PART_NUMBER :: "32 word" where
  "MAX_PART_NUMBER = 10000"

record create_upload_request =
  uq_object_id :: object_id
  uq_size :: "64 word"
  uq_content_type :: "string option"
  uq_sha256 :: "string option"

record complete_upload_request =
  kq_parts :: "completed_part list"

definition render_upload_complete :: "('m, 'b) app_env \<Rightarrow> response_renderer" where
  "render_upload_complete env outcome =
     rbind (ok_or (Internal ''content commit produced no object'') (mo_object outcome)) (\<lambda>view.
     rbind (to_vec env (upload_complete_json view)) (\<lambda>body.
     Ok (stored_response_json 200 body)))"

section \<open>Creating a session\<close>

definition check_upload_request :: "create_upload_request \<Rightarrow> object \<Rightarrow> unit result" where
  "check_upload_request req target =
     (if \<not> is_file target then Err NotAFile
      else rbind (case uq_sha256 req of None \<Rightarrow> Ok () | Some h \<Rightarrow> validate_sha256 h) (\<lambda>_.
        (case uq_content_type req of None \<Rightarrow> Ok () | Some ct \<Rightarrow> validate_content_type ct)))"

definition upload_content_type :: "create_upload_request \<Rightarrow> object \<Rightarrow> string" where
  "upload_content_type req target =
     (case uq_content_type req of
        Some ct \<Rightarrow> ct
      | None \<Rightarrow> (case o_content_type target of Some ct \<Rightarrow> ct | None \<Rightarrow> ''application/octet-stream''))"

definition upload_mode_for :: "app_config \<Rightarrow> 64 word \<Rightarrow> upload_mode" where
  "upload_mode_for config sz = (if ac_multipart_threshold config < sz then Multipart else Single)"

definition upload_id_for ::
  "('m, 'b) app_env \<Rightarrow> idempotency_context option \<Rightarrow> (('m, 'b) world, upload_id) call" where
  "upload_id_for env ictx =
     (case ictx of
        Some ic \<Rightarrow> call_ok (derived_id (ae_sha256 env) ''upload_'' ic)
      | None \<Rightarrow> call_bind (draw_ulid env) (\<lambda>ulid. call_ok (generate_upload_id ulid)))"

definition prepare_request :: "app_config \<Rightarrow> upload_record \<Rightarrow> prepare_upload_req" where
  "prepare_request config upload =
     \<lparr>pu_upload_id = u_id upload, pu_mode = u_mode upload, pu_expected_size = u_expected_size upload,
      pu_content_type = u_content_type upload, pu_expected_sha256 = u_expected_sha256 upload,
      pu_part_size = ac_part_size config, pu_expires_in = to_std (ac_upload_url_expiry config)\<rparr>"

text \<open>What is handed to the client, by the state the session is found in.\<close>

definition prepare_session ::
  "('m, 'b) app_env \<Rightarrow> request_context \<Rightarrow> 'b blob_store \<Rightarrow> upload_record \<Rightarrow>
   (('m, 'b) world, prepared_upload) call" where
  "prepare_session env ctx store upload =
     (let config = ae_config env;
          prepare = on_blobs (bs_prepare_upload store (ae_clock env) (prepare_request config upload))
      in if u_state upload = UsInitiating then
           call_bind prepare (\<lambda>prepared.
           call_then (on_meta (ms_update_upload_state (ae_meta env)
               \<lparr>uu_id = u_id upload, uu_state = UsReady,
                uu_provider_upload_id = pd_provider_upload_id prepared, uu_provider_completed = None\<rparr>))
             (call_ok prepared))
         else if u_state upload = UsReady \<or> u_state upload = UsCompleting then
           (case u_mode upload of
              Single \<Rightarrow> prepare
            | Multipart \<Rightarrow> call_ok
                \<lparr>pd_blob_ref = u_blob_ref upload, pd_mode = u_mode upload,
                 pd_provider_upload_id = u_provider_upload_id upload, pd_single = None,
                 pd_part_size = Some (ac_part_size config),
                 pd_expires_at = rq_now ctx + ac_upload_url_expiry config\<rparr>)
         else call_err UploadNotFound)"

definition new_session ::
  "('m, 'b) app_env \<Rightarrow> create_upload_request \<Rightarrow> request_context \<Rightarrow> object \<Rightarrow> upload_id \<Rightarrow>
   'b blob_store \<Rightarrow> create_upload_record_cmd" where
  "new_session env req ctx target i store =
     \<lparr>cu_id = i, cu_object_id = uq_object_id req,
      cu_mode = upload_mode_for (ae_config env) (uq_size req),
      cu_blob_backend = bs_backend_id store, cu_blob_ref = bs_blob_ref_for store i,
      cu_expected_size = uq_size req, cu_content_type = upload_content_type req target,
      cu_expected_sha256 = uq_sha256 req, cu_created_at = rq_now ctx,
      cu_expires_at = rq_now ctx + ac_upload_expiry (ae_config env)\<rparr>"

definition upload_create ::
  "('m, 'b) app_env \<Rightarrow> create_upload_request \<Rightarrow> request_context \<Rightarrow> (('m, 'b) world, stored_response) call" where
  "upload_create env req ctx =
     run_with_completion env ctx (\<lambda>ictx.
       call_bind (require_object env (uq_object_id req)) (\<lambda>target.
       call_then (call_result (check_upload_request req (ov_object target)))
      (call_bind (upload_id_for env ictx) (\<lambda>i.
       call_bind (default_store env) (\<lambda>store.
       call_bind (on_meta (ms_create_upload_record (ae_meta env)
           (new_session env req ctx (ov_object target) i store))) (\<lambda>created.
       call_then (if cur_created created
           then on_metrics (\<lambda>m. m\<lparr>mt_upload_sessions_total := counter_incr (mt_upload_sessions_total m)\<rparr>)
           else call_ok ())
      (call_bind (prepare_session env ctx store (cur_upload created)) (\<lambda>prepared.
       call_bind (call_result (to_vec env (upload_session_json (ae_micros env)
           (u_id (cur_upload created)) (u_object_id (cur_upload created)) prepared))) (\<lambda>body.
       call_ok (stored_response_json 201 body))))))))))"

section \<open>Parts\<close>

definition require_upload ::
  "('m, 'b) app_env \<Rightarrow> upload_id \<Rightarrow> (('m, 'b) world, upload_record) call" where
  "require_upload env i =
     call_bind (on_meta (ms_get_upload (ae_meta env) i)) (\<lambda>found.
       call_result (ok_or UploadNotFound found))"

definition check_part_numbers :: "app_config \<Rightarrow> upload_record \<Rightarrow> 32 word list \<Rightarrow> unit result" where
  "check_part_numbers config upload part_numbers =
     (if u_state upload = UsAborted \<or> u_state upload = UsExpired then Err UploadNotFound
      else if u_mode upload \<noteq> Multipart then Err (InvalidRequest ''This upload session is not multipart.'')
      else if part_numbers = [] then Err (InvalidRequest ''part_numbers must not be empty.'')
      else if ac_max_part_numbers config < length part_numbers
      then Err (InvalidRequest ''Too many part numbers requested.'')
      else if list_ex (\<lambda>n. n = 0 \<or> MAX_PART_NUMBER < n) part_numbers
      then Err (InvalidRequest (''part_numbers must be between 1 and '' @ dec_nat (unat MAX_PART_NUMBER) @ ''.''))
      else Ok ())"

definition upload_allocate_parts ::
  "('m, 'b) app_env \<Rightarrow> upload_id \<Rightarrow> 32 word list \<Rightarrow> request_context \<Rightarrow>
   (('m, 'b) world, stored_response) call" where
  "upload_allocate_parts env i part_numbers ctx =
     run_with_completion env ctx (\<lambda>_.
       call_bind (require_upload env i) (\<lambda>upload.
       call_then (call_result (check_part_numbers (ae_config env) upload part_numbers))
      (call_bind (call_result (ok_or (Internal ''multipart upload has no provider id'')
           (u_provider_upload_id upload))) (\<lambda>provider_upload_id.
       call_bind (call_result (registry_get (ae_blobs env) (u_blob_backend upload))) (\<lambda>store.
       call_bind (on_blobs (bs_sign_parts store (ae_clock env)
           \<lparr>sp_blob_ref = u_blob_ref upload, sp_provider_upload_id = provider_upload_id,
            sp_part_numbers = part_numbers,
            sp_expires_in = to_std (ac_upload_url_expiry (ae_config env))\<rparr>)) (\<lambda>parts.
       call_bind (call_result (to_vec env (parts_json parts))) (\<lambda>body.
       call_ok (stored_response_json 200 body))))))))"

section \<open>Completing\<close>

definition commit_command ::
  "('m, 'b) app_env \<Rightarrow> request_context \<Rightarrow> idempotency_context option \<Rightarrow> upload_id \<Rightarrow> upload_record \<Rightarrow>
   64 word \<Rightarrow> string \<Rightarrow> string option \<Rightarrow> commit_content_cmd" where
  "commit_command env ctx ictx i upload sz content_type sha256 =
     \<lparr>cm_upload_id = i, cm_object_id = u_object_id upload, cm_if_match = rq_if_match ctx,
      cm_blob_backend = u_blob_backend upload, cm_blob_ref = u_blob_ref upload, cm_size = sz,
      cm_content_type = content_type, cm_sha256 = sha256,
      cm_gc_not_before = rq_now ctx + ac_gc_grace (ae_config env),
      cm_ctx = mutation_context_of env ctx ictx (render_upload_complete env)\<rparr>"

definition check_uploaded :: "upload_record \<Rightarrow> blob_stat \<Rightarrow> unit result" where
  "check_uploaded upload stat =
     (if bst_size stat \<noteq> u_expected_size upload
      then Err (ChecksumMismatch (''Uploaded size '' @ dec_nat (unat (bst_size stat)) @
        '' does not match the declared size '' @ dec_nat (unat (u_expected_size upload)) @ ''.''))
      else
        (case (u_expected_sha256 upload, bst_sha256 stat) of
           (Some expected, Some actual) \<Rightarrow>
             if \<not> eq_ignore_ascii_case expected actual
             then Err (ChecksumMismatch ''Uploaded content does not match the supplied SHA-256.'')
             else Ok ()
         | _ \<Rightarrow> Ok ()))"

definition check_completable :: "request_context \<Rightarrow> object_view \<Rightarrow> unit result" where
  "check_completable ctx target =
     (if \<not> is_file (ov_object target) then Err NotAFile
      else (case rq_if_match ctx of
         None \<Rightarrow> Ok ()
       | Some expected \<Rightarrow>
           if expected \<noteq> o_revision (ov_object target)
           then Err (RevisionConflict (o_revision (ov_object target))) else Ok ()))"

text \<open>A session that is completed already is committed again, with the fields its target has now.\<close>

definition recommit ::
  "('m, 'b) app_env \<Rightarrow> request_context \<Rightarrow> idempotency_context option \<Rightarrow> upload_id \<Rightarrow> upload_record \<Rightarrow>
   object \<Rightarrow> (('m, 'b) world, stored_response) call" where
  "recommit env ctx ictx i upload target =
     call_bind (call_result (ok_or (Internal ''completed upload target has no size'') (o_size target))) (\<lambda>sz.
     call_bind (call_result (ok_or (Internal ''completed upload target has no content type'')
         (o_content_type target))) (\<lambda>content_type.
     on_meta (ms_commit_content (ae_meta env)
       (commit_command env ctx ictx i upload sz content_type (o_sha256 target)))))"

definition finish_upload ::
  "('m, 'b) app_env \<Rightarrow> request_context \<Rightarrow> idempotency_context option \<Rightarrow> upload_id \<Rightarrow>
   complete_upload_request \<Rightarrow> upload_record \<Rightarrow> (('m, 'b) world, stored_response) call" where
  "finish_upload env ctx ictx i req upload =
     call_then (on_meta (ms_update_upload_state (ae_meta env)
         \<lparr>uu_id = i, uu_state = UsCompleting, uu_provider_upload_id = None, uu_provider_completed = None\<rparr>))
    (call_bind (call_result (registry_get (ae_blobs env) (u_blob_backend upload))) (\<lambda>store.
     call_bind (on_blobs (bs_ensure_upload_completed store
         \<lparr>cb_blob_ref = u_blob_ref upload, cb_mode = u_mode upload,
          cb_provider_upload_id = u_provider_upload_id upload, cb_parts = kq_parts req\<rparr>)) (\<lambda>stat.
     call_then (call_result (check_uploaded upload stat))
       (on_meta (ms_commit_content (ae_meta env)
         (commit_command env ctx ictx i upload (bst_size stat) (u_content_type upload)
           (case bst_sha256 stat of Some h \<Rightarrow> Some h | None \<Rightarrow> u_expected_sha256 upload)))))))"

definition upload_complete ::
  "('m, 'b) app_env \<Rightarrow> upload_id \<Rightarrow> complete_upload_request \<Rightarrow> request_context \<Rightarrow>
   (('m, 'b) world, stored_response) call" where
  "upload_complete env i req ctx =
     call_catch
       (run_idempotent env ctx (\<lambda>ictx.
          call_bind (require_upload env i) (\<lambda>upload.
          call_then (call_unless (\<not> is_completable (u_state upload)) UploadNotFound)
         (call_bind (require_object env (u_object_id upload)) (\<lambda>target.
          call_then (call_result (check_completable ctx target))
            (if u_state upload = UsCompleted
             then recommit env ctx ictx i upload (ov_object target)
             else finish_upload env ctx ictx i req upload))))))
       (\<lambda>e. call_then (on_metrics (\<lambda>m. m\<lparr>mt_upload_complete_failures_total :=
            counter_incr (mt_upload_complete_failures_total m)\<rparr>)) (call_err e))"

section \<open>Aborting\<close>

definition upload_abort ::
  "('m, 'b) app_env \<Rightarrow> upload_id \<Rightarrow> request_context \<Rightarrow> (('m, 'b) world, stored_response) call" where
  "upload_abort env i ctx =
     run_with_completion env ctx (\<lambda>_.
       call_bind (require_upload env i) (\<lambda>upload.
       call_then
         (if u_state upload = UsCompleted then call_ok ()
          else
            call_bind (call_result (registry_get (ae_blobs env) (u_blob_backend upload))) (\<lambda>store.
            call_then (call_ignore (on_blobs (bs_abort_upload store
                \<lparr>ab_blob_ref = u_blob_ref upload, ab_mode = u_mode upload,
                 ab_provider_upload_id = u_provider_upload_id upload\<rparr>)))
              (on_meta (ms_abort_upload_record (ae_meta env)
                \<lparr>au_id = i, au_now = rq_now ctx, au_gc_not_before = rq_now ctx\<rparr>))))
         (call_ok no_content)))"

section \<open>Content\<close>

record content_location =
  cl_url :: string
  cl_expires_at :: time

record content_head =
  ch_content_type :: "string option"
  ch_size :: "64 word"
  ch_sha256 :: "string option"

definition readable_file ::
  "('m, 'b) app_env \<Rightarrow> object_id \<Rightarrow> (('m, 'b) world, object_view) call" where
  "readable_file env i =
     call_bind (require_object env i) (\<lambda>view.
     call_then (call_unless (\<not> is_file (ov_object view)) NotAFile)
    (call_then (call_unless (\<not> has_ready_content (ov_object view)) ContentNotReady)
       (call_ok view)))"

definition content_location_of ::
  "('m, 'b) app_env \<Rightarrow> object_id \<Rightarrow> (('m, 'b) world, content_location) call" where
  "content_location_of env i =
     call_bind (readable_file env i) (\<lambda>view.
     call_bind (on_meta (ms_content_pointer (ae_meta env) i)) (\<lambda>found.
     call_bind (call_result (ok_or ContentNotReady found)) (\<lambda>pointer.
     call_bind (call_result (registry_get (ae_blobs env) (cp_blob_backend pointer))) (\<lambda>store.
     call_bind (on_blobs (bs_sign_download store (ae_clock env) (cp_blob_ref pointer)
         (o_name (ov_object view)) (to_std (ac_download_url_expiry (ae_config env))))) (\<lambda>signed.
     call_ok \<lparr>cl_url = sd_url signed, cl_expires_at = sd_expires_at signed\<rparr>)))))"

definition content_head_of ::
  "('m, 'b) app_env \<Rightarrow> object_id \<Rightarrow> (('m, 'b) world, content_head) call" where
  "content_head_of env i =
     call_bind (readable_file env i) (\<lambda>view.
     call_ok \<lparr>ch_content_type = o_content_type (ov_object view),
              ch_size = (case o_size (ov_object view) of None \<Rightarrow> 0 | Some z \<Rightarrow> z),
              ch_sha256 = o_sha256 (ov_object view)\<rparr>)"

end
