(* ===== verification/AppMaintenance.thy ===== *)
theory AppMaintenance
  imports AppState
begin

text \<open>
  Background maintenance (\<open>anystore-application/src/maintenance.rs\<close>): expiring upload sessions
  and collecting blobs, in batches until the backlog is empty or the time is up, and the purges.
  Reading \<open>Instant::now\<close> is a function of how many batches have run; the two loops take fuel,
  where \<open>None\<close> is a pass that has not ended.
\<close>

record maintenance_report =
  mr_blobs_deleted :: "32 word"
  mr_blobs_failed :: "32 word"
  mr_uploads_expired :: "32 word"
  mr_idempotency_purged :: nat
  mr_cursors_purged :: nat
  mr_changes_purged :: nat
  mr_drained :: bool

definition report_new :: maintenance_report where
  "report_new =
     \<lparr>mr_blobs_deleted = 0, mr_blobs_failed = 0, mr_uploads_expired = 0, mr_idempotency_purged = 0,
      mr_cursors_purged = 0, mr_changes_purged = 0, mr_drained = True\<rparr>"

definition gc_batch_size_default :: "32 word" where
  "gc_batch_size_default = 50"

definition with_batch_size :: "32 word \<Rightarrow> 32 word" where
  "with_batch_size n = (if n < 1 then 1 else n)"

section \<open>Batches\<close>

definition abort_expired ::
  "('m, 'b) app_env \<Rightarrow> upload_record \<Rightarrow> (('m, 'b) world, unit) call" where
  "abort_expired env upload =
     (case registry_get (ae_blobs env) (u_blob_backend upload) of
        Inl _ \<Rightarrow> call_ok ()
      | Inr store \<Rightarrow>
          call_ignore (on_blobs (bs_abort_upload store
            \<lparr>ab_blob_ref = u_blob_ref upload, ab_mode = u_mode upload,
             ab_provider_upload_id = u_provider_upload_id upload\<rparr>)))"

fun call_each :: "('a \<Rightarrow> ('s, unit) call) \<Rightarrow> 'a list \<Rightarrow> ('s, unit) call" where
  "call_each f [] = call_ok ()"
| "call_each f (x # xs) = call_then (f x) (call_each f xs)"

definition abort_expired_uploads ::
  "('m, 'b) app_env \<Rightarrow> 32 word \<Rightarrow> time \<Rightarrow> (('m, 'b) world, 32 word) call" where
  "abort_expired_uploads env batch_size now =
     call_bind (on_meta (ms_claim_expired_uploads (ae_meta env) now batch_size)) (\<lambda>expired.
     call_then (call_each (abort_expired env) expired) (call_ok (of_nat (length expired))))"

text \<open>Exponential backoff: a minute times two to the attempts, which are at most ten here.\<close>

definition gc_backoff :: "32 word \<Rightarrow> int" where
  "gc_backoff attempts = seconds (60 * 2 ^ (if 10 < attempts then 10 else unat attempts))"

text \<open>One entry of a batch: \<open>True\<close> when its blob is gone.\<close>

definition collect_blob ::
  "('m, 'b) app_env \<Rightarrow> time \<Rightarrow> blob_gc_entry \<Rightarrow> (('m, 'b) world, bool) call" where
  "collect_blob env now entry =
     (case registry_get (ae_blobs env) (ge_blob_backend entry) of
        Inl _ \<Rightarrow> call_ok False
      | Inr store \<Rightarrow>
          call_bind (call_try (on_blobs (bs_delete_blob store (ge_blob_ref entry)))) (\<lambda>outcome.
          (case outcome of
             Inr _ \<Rightarrow> call_then (on_meta (ms_finish_gc (ae_meta env) entry)) (call_ok True)
           | Inl e \<Rightarrow>
               call_then (on_meta (ms_fail_gc (ae_meta env) entry (display e)
                 (now + gc_backoff (ge_attempts entry)))) (call_ok False))))"

fun collect_batch ::
  "('m, 'b) app_env \<Rightarrow> time \<Rightarrow> blob_gc_entry list \<Rightarrow> 32 word \<times> 32 word \<Rightarrow>
   (('m, 'b) world, 32 word \<times> 32 word) call" where
  "collect_batch env now [] counts = call_ok counts"
| "collect_batch env now (entry # rest) (deleted, failed) =
     call_bind (collect_blob env now entry) (\<lambda>gone.
       collect_batch env now rest
         (if gone then (deleted + 1, failed) else (deleted, failed + 1)))"

definition collect_blobs ::
  "('m, 'b) app_env \<Rightarrow> 32 word \<Rightarrow> time \<Rightarrow> (('m, 'b) world, 32 word \<times> 32 word) call" where
  "collect_blobs env batch_size now =
     call_bind (on_meta (ms_claim_gc_batch (ae_meta env) now batch_size)) (\<lambda>batch.
       collect_batch env now batch (0, 0))"

section \<open>The pass\<close>

fun expire_loop ::
  "('m, 'b) app_env \<Rightarrow> 32 word \<Rightarrow> time \<Rightarrow> (nat \<Rightarrow> bool) \<Rightarrow> nat \<Rightarrow> nat \<Rightarrow> maintenance_report \<Rightarrow>
   (('m, 'b) world, maintenance_report) call" where
  "expire_loop env batch_size now late 0 k report = call_panic"
| "expire_loop env batch_size now late (Suc fuel) k report =
     call_bind (abort_expired_uploads env batch_size now) (\<lambda>expired.
       (let report' = report\<lparr>mr_uploads_expired := mr_uploads_expired report + expired\<rparr> in
        if expired < batch_size then call_ok report'
        else if late k then call_ok (report'\<lparr>mr_drained := False\<rparr>)
        else expire_loop env batch_size now late fuel (k + 1) report'))"

fun collect_loop ::
  "('m, 'b) app_env \<Rightarrow> 32 word \<Rightarrow> time \<Rightarrow> (nat \<Rightarrow> bool) \<Rightarrow> nat \<Rightarrow> nat \<Rightarrow> maintenance_report \<Rightarrow>
   (('m, 'b) world, maintenance_report) call" where
  "collect_loop env batch_size now late 0 k report = call_panic"
| "collect_loop env batch_size now late (Suc fuel) k report =
     call_bind (collect_blobs env batch_size now) (\<lambda>(deleted, failed).
       (let report' = report\<lparr>mr_blobs_deleted := mr_blobs_deleted report + deleted,
                             mr_blobs_failed := mr_blobs_failed report + failed\<rparr> in
        if deleted + failed < batch_size then call_ok report'
        else if late k then call_ok (report'\<lparr>mr_drained := False\<rparr>)
        else collect_loop env batch_size now late fuel (k + 1) report'))"

definition purge_all ::
  "('m, 'b) app_env \<Rightarrow> time \<Rightarrow> maintenance_report \<Rightarrow> (('m, 'b) world, maintenance_report) call" where
  "purge_all env now report =
     call_bind (on_meta (ms_purge_idempotency_records (ae_meta env) now)) (\<lambda>keys.
     call_bind (on_meta (ms_purge_change_cursors (ae_meta env) now)) (\<lambda>cursors_purged.
     call_bind (on_meta (ms_purge_changes (ae_meta env)
         (now - ac_changes_retention (ae_config env)))) (\<lambda>purged.
     call_ok (report\<lparr>mr_idempotency_purged := keys, mr_cursors_purged := cursors_purged,
                     mr_changes_purged := purged\<rparr>))))"

definition record_pending :: "('m, 'b) app_env \<Rightarrow> (('m, 'b) world, unit) call" where
  "record_pending env =
     call_ignore (call_bind (on_meta (ms_count_pending_gc (ae_meta env))) (\<lambda>pending.
       on_metrics (\<lambda>m. m\<lparr>mt_blob_gc_pending := of_nat pending\<rparr>)))"

text \<open>The pass that runs once the guard is held.\<close>

definition maintenance_pass ::
  "('m, 'b) app_env \<Rightarrow> 32 word \<Rightarrow> time \<Rightarrow> (nat \<Rightarrow> bool) \<Rightarrow> nat \<Rightarrow>
   (('m, 'b) world, maintenance_report) call" where
  "maintenance_pass env batch_size now late fuel =
     call_bind (expire_loop env batch_size now late fuel 0 report_new) (\<lambda>r1.
     call_bind (collect_loop env batch_size now late fuel 0 r1) (\<lambda>r2.
     call_bind (purge_all env now r2) (\<lambda>r3.
     call_then (record_pending env) (call_ok r3))))"

text \<open>
  The guard: a pass that finds another running does nothing; the guard is released however the
  pass ends. The flag is a component of the state of its own.
\<close>

definition maintenance_run ::
  "('m, 'b) app_env \<Rightarrow> 32 word \<Rightarrow> time \<Rightarrow> (nat \<Rightarrow> bool) \<Rightarrow> nat \<Rightarrow>
   (bool \<times> ('m, 'b) world, maintenance_report option) call" where
  "maintenance_run env batch_size now late fuel state =
     (case state of (running, w) \<Rightarrow>
        if running then Some (Ok None, state)
        else map_option (\<lambda>(r, w'). (map_sum id Some r, (False, w')))
               (maintenance_pass env batch_size now late fuel w))"

end
