(* ===== verification/BlobMem.thy ===== *)
theory BlobMem
  imports Ports
begin

text \<open>
  The in-memory \<open>BlobStore\<close> (\<open>anystore-testkit/src/blobstore.rs\<close>): blobs, the parts of open
  multipart uploads and the provider's upload ids. SHA-256 with hex encoding is the argument
  \<open>digest\<close>. \<open>put\<close> and \<open>put_part\<close> stand for a client that uses a signed request.
\<close>

definition BACKEND_ID :: string where
  "BACKEND_ID = ''in_memory''"

record blob_state =
  mb_blobs :: "(string, string) table"
  mb_parts :: "(string, (32 word, string) table) table"
  mb_multipart :: "(string, string) table"

definition blob_state_new :: blob_state where
  "blob_state_new = \<lparr>mb_blobs = [], mb_parts = [], mb_multipart = []\<rparr>"

definition blob_put :: "blob_ref \<Rightarrow> string \<Rightarrow> blob_state \<Rightarrow> blob_state" where
  "blob_put blob bytes s = s\<lparr>mb_blobs := table_insert blob bytes (mb_blobs s)\<rparr>"

definition blob_put_part :: "blob_ref \<Rightarrow> 32 word \<Rightarrow> string \<Rightarrow> blob_state \<Rightarrow> blob_state" where
  "blob_put_part blob part_number bytes s =
     s\<lparr>mb_parts := table_insert blob
         (table_insert part_number bytes
            (case table_get (mb_parts s) blob of None \<Rightarrow> [] | Some parts \<Rightarrow> parts)) (mb_parts s)\<rparr>"

definition blob_contains :: "blob_ref \<Rightarrow> blob_state \<Rightarrow> bool" where
  "blob_contains blob s \<longleftrightarrow> table_get (mb_blobs s) blob \<noteq> None"

definition blob_len :: "blob_state \<Rightarrow> nat" where
  "blob_len s = length (mb_blobs s)"

definition stat_of :: "(string \<Rightarrow> string) \<Rightarrow> string \<Rightarrow> blob_stat" where
  "stat_of digest bytes =
     \<lparr>bst_size = of_nat (length bytes), bst_content_type = None, bst_etag = Some (digest bytes),
      bst_sha256 = Some (digest bytes)\<rparr>"

definition mem_blob_ref_for :: "string \<Rightarrow> blob_ref" where
  "mem_blob_ref_for upload_id = ''blobs/'' @ upload_id"

definition mem_prepare_upload ::
  "time \<Rightarrow> prepare_upload_req \<Rightarrow> blob_state \<Rightarrow> prepared_upload result \<times> blob_state" where
  "mem_prepare_upload clock req s =
     (let blob = mem_blob_ref_for (pu_upload_id req); expires_at = clock + 6 * 3600 * 1000000000 in
      case pu_mode req of
        Single \<Rightarrow>
          (Ok \<lparr>pd_blob_ref = blob, pd_mode = Single, pd_provider_upload_id = None,
               pd_single = Some \<lparr>sq_method = ''PUT'', sq_url = ''memory://'' @ blob, sq_headers = []\<rparr>,
               pd_part_size = None, pd_expires_at = expires_at\<rparr>, s)
      | Multipart \<Rightarrow>
          (let provider_upload_id = ''mpu_'' @ pu_upload_id req in
           (Ok \<lparr>pd_blob_ref = blob, pd_mode = Multipart,
                pd_provider_upload_id = Some provider_upload_id, pd_single = None,
                pd_part_size = Some (pu_part_size req), pd_expires_at = expires_at\<rparr>,
            s\<lparr>mb_multipart := table_insert blob provider_upload_id (mb_multipart s)\<rparr>)))"

definition mem_sign_parts :: "sign_parts_req \<Rightarrow> signed_part list" where
  "mem_sign_parts req =
     map (\<lambda>n. \<lparr>sg_part_number = n, sg_method = ''PUT'',
               sg_url = ''memory://'' @ sp_blob_ref req @ ''/parts/'' @ dec_nat (unat n)\<rparr>)
       (sp_part_numbers req)"

text \<open>Concatenating the named parts; a part that is missing is an error.\<close>

fun assemble :: "(32 word, string) table \<Rightarrow> completed_part list \<Rightarrow> string result" where
  "assemble parts [] = Ok []"
| "assemble parts (p # ps) =
     (case table_get parts (cpt_part_number p) of
        None \<Rightarrow> Err ContentNotReady
      | Some bytes \<Rightarrow> rbind (assemble parts ps) (\<lambda>rest. Ok (bytes @ rest)))"

text \<open>The parts are taken out of the state before they are assembled.\<close>

definition mem_ensure_upload_completed ::
  "(string \<Rightarrow> string) \<Rightarrow> complete_blob_upload \<Rightarrow> blob_state \<Rightarrow> blob_stat result \<times> blob_state" where
  "mem_ensure_upload_completed digest req s =
     (let key = cb_blob_ref req;
          finish = (\<lambda>s. (map_sum id (stat_of digest)
                     (ok_or ContentNotReady (table_get (mb_blobs s) key)), s)) in
      if table_get (mb_blobs s) key = None \<and> cb_mode req = Multipart then
        (case table_get (mb_parts s) key of
           None \<Rightarrow> (Err ContentNotReady, s)
         | Some parts \<Rightarrow>
             (let s1 = s\<lparr>mb_parts := table_remove key (mb_parts s)\<rparr> in
              case assemble parts (cb_parts req) of
                Inl e \<Rightarrow> (Err e, s1)
              | Inr assembled \<Rightarrow> finish (s1\<lparr>mb_blobs := table_insert key assembled (mb_blobs s1)\<rparr>)))
      else finish s)"

definition mem_abort_upload :: "abort_blob_upload \<Rightarrow> blob_state \<Rightarrow> unit result \<times> blob_state" where
  "mem_abort_upload req s =
     (Ok (), s\<lparr>mb_parts := table_remove (ab_blob_ref req) (mb_parts s),
              mb_multipart := table_remove (ab_blob_ref req) (mb_multipart s)\<rparr>)"

definition mem_stat :: "(string \<Rightarrow> string) \<Rightarrow> blob_ref \<Rightarrow> blob_state \<Rightarrow> blob_stat result" where
  "mem_stat digest blob s =
     map_sum id (stat_of digest) (ok_or ContentNotReady (table_get (mb_blobs s) blob))"

definition mem_sign_download :: "time \<Rightarrow> blob_ref \<Rightarrow> string \<Rightarrow> int \<Rightarrow> signed_download" where
  "mem_sign_download clock blob filename expires_in =
     \<lparr>sd_url = ''memory://'' @ blob @ ''?filename='' @ filename, sd_expires_at = clock + expires_in\<rparr>"

definition mem_delete_blob :: "blob_ref \<Rightarrow> blob_state \<Rightarrow> unit result \<times> blob_state" where
  "mem_delete_blob blob s = (Ok (), s\<lparr>mb_blobs := table_remove blob (mb_blobs s)\<rparr>)"

definition mem_blob_store :: "(string \<Rightarrow> string) \<Rightarrow> blob_state blob_store" where
  "mem_blob_store digest =
     \<lparr>bs_backend_id = BACKEND_ID, bs_verifies_sha256 = True, bs_blob_ref_for = mem_blob_ref_for,
      bs_prepare_upload = (\<lambda>clock req. call_of (mem_prepare_upload clock req)),
      bs_sign_parts = (\<lambda>clock req. call_ok (mem_sign_parts req)),
      bs_ensure_upload_completed = (\<lambda>req. call_of (mem_ensure_upload_completed digest req)),
      bs_abort_upload = (\<lambda>req. call_of (mem_abort_upload req)),
      bs_stat = (\<lambda>blob. call_read (mem_stat digest blob)),
      bs_sign_download = (\<lambda>clock blob filename expires_in.
        call_ok (mem_sign_download clock blob filename expires_in)),
      bs_delete_blob = (\<lambda>blob. call_of (mem_delete_blob blob))\<rparr>"

end
