(* ===== verification/StrTrim.thy ===== *)
theory StrTrim
  imports RustStr
begin

text \<open>
  \<open>str::trim\<close>, \<open>trim_start_matches\<close> and \<open>trim_end_matches\<close> on UTF-8 text: one pattern after the
  other is taken off an end. The patterns of \<open>trim\<close> are the characters of Unicode's White_Space.
  On an ASCII string it is the \<open>trim\<close> of \<open>RustStr\<close>. And \<open>str::replace\<close>, and the parsing of an
  \<open>i64\<close>.
\<close>

lemma starts_with_not_longer: "starts_with w s \<Longrightarrow> w \<noteq> [] \<Longrightarrow> length (drop (length w) s) < length s"
  by (cases s) (auto simp: starts_with_def)

function strip_front :: "string list \<Rightarrow> string \<Rightarrow> string" where
  "strip_front ws s =
     (case find (\<lambda>w. w \<noteq> [] \<and> starts_with w s) ws of
        None \<Rightarrow> s
      | Some w \<Rightarrow> strip_front ws (drop (length w) s))"
  by pat_completeness auto

termination
proof (relation "measure (length \<circ> snd)")
  fix ws s w assume "find (\<lambda>w. w \<noteq> [] \<and> starts_with w s) ws = Some w"
  then have "w \<noteq> [] \<and> starts_with w s" using find_SomeD by fast
  then show "((ws, drop (length w) s), ws, s) \<in> measure (length \<circ> snd)"
    using starts_with_not_longer by simp
qed simp

declare strip_front.simps [simp del]

definition strip_back :: "string list \<Rightarrow> string \<Rightarrow> string" where
  "strip_back ws s = rev (strip_front (map rev ws) (rev s))"

definition trim_start_str :: "string \<Rightarrow> string \<Rightarrow> string" where
  "trim_start_str w s = strip_front [w] s"

definition trim_end_str :: "string \<Rightarrow> string \<Rightarrow> string" where
  "trim_end_str w s = strip_back [w] s"

definition white_space :: "string list" where
  "white_space =
     map (\<lambda>n. [char_of n]) ([9, 10, 11, 12, 13, 32] :: nat list) @
     [[CHR 0xC2, CHR 0x85], [CHR 0xC2, CHR 0xA0], [CHR 0xE1, CHR 0x9A, CHR 0x80]] @
     map (\<lambda>n. [CHR 0xE2, CHR 0x80, char_of n]) ([128 ..< 139] @ [168, 169, 175] :: nat list) @
     [[CHR 0xE2, CHR 0x81, CHR 0x9F], [CHR 0xE3, CHR 0x80, CHR 0x80]]"

definition str_trim :: "string \<Rightarrow> string" where
  "str_trim s = strip_back white_space (strip_front white_space s)"

lemma strip_front_step:
  "find (\<lambda>w. w \<noteq> [] \<and> starts_with w s) ws = Some w \<Longrightarrow> strip_front ws s = strip_front ws (drop (length w) s)"
  "find (\<lambda>w. w \<noteq> [] \<and> starts_with w s) ws = None \<Longrightarrow> strip_front ws s = s"
  by (subst strip_front.simps, simp)+

lemma strip_front_stops: "find (\<lambda>w. w \<noteq> [] \<and> starts_with w (strip_front ws s)) ws = None"
proof (induction ws s rule: strip_front.induct)
  case (1 ws s)
  then show ?case
    by (cases "find (\<lambda>w. w \<noteq> [] \<and> starts_with w s) ws") (simp_all add: strip_front_step)
qed

lemma strip_front_suffix: "\<exists>p. s = p @ strip_front ws s"
proof (induction ws s rule: strip_front.induct)
  case (1 ws s)
  show ?case
  proof (cases "find (\<lambda>w. w \<noteq> [] \<and> starts_with w s) ws")
    case None
    then show ?thesis by (simp add: strip_front_step)
  next
    case (Some w)
    then have "starts_with w s" using find_SomeD by fast
    then have "s = w @ drop (length w) s" by (metis append_take_drop_id starts_with_def)
    with 1 [OF Some] show ?thesis unfolding strip_front_step(1) [OF Some] by (metis append_assoc)
  qed
qed

lemma strip_front_none: "(\<And>w. w \<in> set ws \<Longrightarrow> w \<noteq> [] \<Longrightarrow> \<not> starts_with w s) \<Longrightarrow> strip_front ws s = s"
  by (rule strip_front_step(2)) (auto simp: find_None_iff)

lemma white_space_ends:
  "list_all (\<lambda>w. w \<noteq> [] \<and> \<not> is_ascii_graphic (hd w) \<and> \<not> is_ascii_graphic (last w)) white_space"
  by code_simp

text \<open>Text that begins and ends with a visible character is not trimmed.\<close>

lemma str_trim_visible:
  assumes "is_ascii_graphic (hd s)" and "is_ascii_graphic (last s)"
  shows "str_trim s = s"
proof -
  have ends: "w \<noteq> [] \<and> \<not> is_ascii_graphic (hd w) \<and> \<not> is_ascii_graphic (last w)" if "w \<in> set white_space" for w
    using white_space_ends that unfolding list_all_iff by blast
  have "\<not> starts_with w s" if "w \<in> set white_space" for w
  proof
    assume "starts_with w s"
    then obtain t where "s = w @ t" unfolding starts_with_iff by blast
    with ends [OF that] assms(1) show False by simp
  qed
  moreover have "\<not> starts_with (rev w) (rev s)" if "w \<in> set white_space" for w
  proof
    assume "starts_with (rev w) (rev s)"
    then obtain t where "rev s = rev w @ t" unfolding starts_with_iff by blast
    then have "s = rev t @ w" by (metis rev_append rev_rev_ident)
    with ends [OF that] assms(2) show False by simp
  qed
  ultimately have "strip_front white_space s = s" "strip_front (map rev white_space) (rev s) = rev s"
    by (auto intro!: strip_front_none)
  then show ?thesis by (simp add: str_trim_def strip_back_def)
qed

section \<open>Replacing\<close>

text \<open>\<open>str::replace\<close> with a pattern that is not empty: from the left, without overlaps.\<close>

function str_replace :: "string \<Rightarrow> string \<Rightarrow> string \<Rightarrow> string" where
  "str_replace pat to s =
     (if s = [] \<or> pat = [] then s
      else if starts_with pat s then to @ str_replace pat to (drop (length pat) s)
      else hd s # str_replace pat to (tl s))"
  by pat_completeness auto
termination
  by (relation "measure (length \<circ> snd \<circ> snd)") (auto simp: starts_with_not_longer)

declare str_replace.simps [simp del]

section \<open>Signed numbers\<close>

text \<open>\<open>str::parse::<i64>\<close>: an optional sign, digits, and the range of the type.\<close>

definition parse_i64 :: "string \<Rightarrow> int option" where
  "parse_i64 s =
     (case s of
        [] \<Rightarrow> None
      | c # cs \<Rightarrow>
          if c = CHR ''-'' then
            (if cs = [] \<or> \<not> list_all is_ascii_digit cs then None
             else if digits_val cs \<le> 2 ^ 63 then Some (- int (digits_val cs)) else None)
          else map_option int (parse_unsigned (2 ^ 63) s))"

end
