(* ===== verification/Utf8.thy ===== *)
theory Utf8
  imports RustStr
begin

text \<open>
  UTF-8 as the standard library checks it: \<open>str::from_utf8\<close> and \<open>String::from_utf8_lossy\<close>. One
  step looks at the front of the bytes and tells how many of them it takes and whether they
  are a character; bytes that are none are replaced by U+FFFD, one per maximal piece.
\<close>

definition byte_at :: "string \<Rightarrow> nat \<Rightarrow> nat" where
  "byte_at s i = (if i < length s then of_char (s ! i) else 0)"

definition is_continuation :: "nat \<Rightarrow> bool" where
  "is_continuation b \<longleftrightarrow> 128 \<le> b \<and> b < 192"

text \<open>The second byte, where the first one excludes overlong forms and surrogates.\<close>

definition second_ok :: "nat \<Rightarrow> nat \<Rightarrow> bool" where
  "second_ok b c \<longleftrightarrow>
     (if b = 224 then 160 \<le> c \<and> c \<le> 191
      else if b = 237 then 128 \<le> c \<and> c \<le> 159
      else if b = 240 then 144 \<le> c \<and> c \<le> 191
      else if b = 244 then 128 \<le> c \<and> c \<le> 143
      else is_continuation c)"

definition utf8_step :: "string \<Rightarrow> nat \<times> bool" where
  "utf8_step s =
     (let b = byte_at s 0 in
      if b < 128 then (1, True)
      else if 194 \<le> b \<and> b \<le> 223 then
        (if is_continuation (byte_at s 1) then (2, True) else (1, False))
      else if 224 \<le> b \<and> b \<le> 239 then
        (if \<not> second_ok b (byte_at s 1) then (1, False)
         else if is_continuation (byte_at s 2) then (3, True) else (2, False))
      else if 240 \<le> b \<and> b \<le> 244 then
        (if \<not> second_ok b (byte_at s 1) then (1, False)
         else if \<not> is_continuation (byte_at s 2) then (2, False)
         else if is_continuation (byte_at s 3) then (4, True) else (3, False))
      else (1, False))"

lemma utf8_step_pos: "0 < fst (utf8_step s)"
  by (simp add: utf8_step_def Let_def)

lemma utf8_step_shrinks: "s \<noteq> [] \<Longrightarrow> length (drop (fst (utf8_step s)) s) < length s"
  using utf8_step_pos [of s] by simp

function utf8_valid :: "string \<Rightarrow> bool" where
  "utf8_valid s \<longleftrightarrow>
     (if s = [] then True
      else if snd (utf8_step s) then utf8_valid (drop (fst (utf8_step s)) s) else False)"
  by auto
termination
  using utf8_step_shrinks by (relation "measure length") simp_all

declare utf8_valid.simps [simp del]

definition replacement_character :: string where
  "replacement_character = [CHR 0xEF, CHR 0xBF, CHR 0xBD]"

function from_utf8_lossy :: "string \<Rightarrow> string" where
  "from_utf8_lossy s =
     (if s = [] then []
      else (if snd (utf8_step s) then take (fst (utf8_step s)) s else replacement_character) @
        from_utf8_lossy (drop (fst (utf8_step s)) s))"
  by auto
termination
  using utf8_step_shrinks by (relation "measure length") simp_all

declare from_utf8_lossy.simps [simp del]

definition from_utf8 :: "string \<Rightarrow> string option" where
  "from_utf8 s = (if utf8_valid s then Some s else None)"

section \<open>What is text stays as it is, and every answer is text\<close>

lemma utf8_valid_Nil [simp]: "utf8_valid []"
  by (simp add: utf8_valid.simps)

lemma from_utf8_lossy_valid: "utf8_valid s \<Longrightarrow> from_utf8_lossy s = s"
proof (induction s rule: utf8_valid.induct)
  case (1 s)
  show ?case
  proof (cases "s = []")
    case False
    with "1.prems" have "snd (utf8_step s)" "utf8_valid (drop (fst (utf8_step s)) s)"
      using utf8_valid.simps [of s] by (auto split: if_splits)
    with "1.IH" False show ?thesis by (subst from_utf8_lossy.simps) simp
  qed (simp add: from_utf8_lossy.simps)
qed

lemma byte_at_append: "i < length s \<Longrightarrow> byte_at (s @ t) i = byte_at s i"
  by (simp add: byte_at_def nth_append)

lemma byte_at_take: "i < k \<Longrightarrow> byte_at (take k s) i = byte_at s i"
  by (simp add: byte_at_def)

lemma byte_at_pos: "0 < byte_at s i \<Longrightarrow> i < length s"
  by (simp add: byte_at_def split: if_splits)

lemma second_ok_pos: "second_ok b c \<Longrightarrow> 0 < c"
  by (auto simp: second_ok_def is_continuation_def split: if_splits)

lemma is_continuation_pos: "is_continuation c \<Longrightarrow> 0 < c"
  by (simp add: is_continuation_def)

text \<open>A character that is accepted is there, and it is accepted whatever follows it.\<close>

lemma utf8_step_accepts:
  assumes "utf8_step s = (k, True)" and "s \<noteq> []"
  shows "k \<le> length s"
proof -
  from assms(1) have "k = 1 \<or> (k \<in> {2, 3, 4} \<and> 0 < byte_at s (k - 1))"
    by (auto simp: utf8_step_def Let_def split: if_splits dest: second_ok_pos is_continuation_pos)
  then show ?thesis
  proof
    assume "k = 1"
    with assms(2) show ?thesis by (cases s) auto
  next
    assume k: "k \<in> {2, 3, 4} \<and> 0 < byte_at s (k - 1)"
    then have "k - 1 < length s" using byte_at_pos by blast
    with k show ?thesis by auto
  qed
qed

lemma utf8_step_cong:
  assumes "utf8_step s = (k, True)" and "\<And>i. i < k \<Longrightarrow> byte_at t i = byte_at s i"
  shows "utf8_step t = (k, True)"
  using assms(1) assms(2) [of 0] assms(2) [of 1] assms(2) [of 2] assms(2) [of 3]
  by (auto simp: utf8_step_def Let_def split: if_splits)

lemma utf8_step_prefix:
  assumes "utf8_step s = (k, True)" and "s \<noteq> []"
  shows "utf8_step (take k s @ t) = (k, True)"
  using utf8_step_accepts [OF assms]
  by (intro utf8_step_cong [OF assms(1)]) (simp add: byte_at_append byte_at_take)

lemma utf8_valid_char:
  assumes "utf8_step s = (k, True)" and "s \<noteq> []"
  shows "utf8_valid (take k s @ t) \<longleftrightarrow> utf8_valid t"
proof -
  have "length (take k s) = k" using utf8_step_accepts [OF assms] by simp
  moreover have "take k s \<noteq> []" using assms utf8_step_pos [of s] by (simp add: neq_Nil_conv)
  ultimately show ?thesis
    using utf8_step_prefix [OF assms, of t] utf8_valid.simps [of "take k s @ t"] by simp
qed

lemma utf8_valid_replacement: "utf8_valid (replacement_character @ t) \<longleftrightarrow> utf8_valid t"
proof -
  have step: "utf8_step (replacement_character @ []) = (3, True)" by code_simp
  from utf8_valid_char [OF step, of t] show ?thesis by (simp add: replacement_character_def)
qed

lemma utf8_valid_lossy: "utf8_valid (from_utf8_lossy s)"
proof (induction s rule: from_utf8_lossy.induct)
  case (1 s)
  show ?case
  proof (cases "s = []")
    case False
    with "1.IH" show ?thesis
      using utf8_valid_char [of s "fst (utf8_step s)"] utf8_valid_replacement
      by (subst from_utf8_lossy.simps) (auto simp: prod_eq_iff)
  qed (simp add: from_utf8_lossy.simps)
qed

section \<open>Comparing bytes in constant time\<close>

text \<open>The loop that collects the differences of two texts of one length: no difference, one text.\<close>

lemma of_char_less_256: "of_char (c :: char) < (256 :: nat)"
  using of_char_mod_256 [of c] by (metis mod_less_divisor zero_less_numeral)

lemma fold_or_xor:
  assumes "length xs = length ys"
  shows "fold (\<lambda>(x, y) acc. or acc (xor x y)) (zip xs ys) a = (0 :: 8 word) \<longleftrightarrow> a = 0 \<and> xs = ys"
  using assms
proof (induction xs ys arbitrary: a rule: list_induct2)
  case (Cons x xs y ys)
  have "xor x y = 0 \<longleftrightarrow> x = y" by (auto simp: bit_eq_iff bit_simps)
  then have "or a (xor x y) = 0 \<longleftrightarrow> a = 0 \<and> x = y" by (simp add: or_eq_0_iff)
  with Cons.IH [of "or a (xor x y)"] show ?case by auto
qed simp

lemma of_char_word_inject: "(of_char c :: 8 word) = of_char d \<longleftrightarrow> c = d"
proof
  assume "(of_char c :: 8 word) = of_char d"
  then have "word_of_nat (of_char c) = (word_of_nat (of_char d) :: 8 word)"
    by (simp only: of_nat_of_char)
  then have "(of_char c :: nat) = of_char d"
    using of_char_less_256 [of c] of_char_less_256 [of d] by (simp add: word_of_nat_eq_iff take_bit_eq_mod)
  then show "c = d" by simp
qed simp

lemma constant_time_eq:
  "length a = length b \<Longrightarrow>
     fold (\<lambda>(x, y) acc. or acc (xor x y)) (zip (map of_char a) (map of_char b)) (0 :: 8 word) = 0 \<longleftrightarrow> a = b"
  by (simp add: fold_or_xor inj_map_eq_map inj_def of_char_word_inject)

end
