(* ===== verification/LocalSigning.thy ===== *)
theory LocalSigning
  imports StrTrim Utf8 RequestHash
begin

text \<open>
  Signed URLs of the local blob store (\<open>anystore-blobstore-local\<close>: \<open>signing.rs\<close>, the query
  parameters and the check of \<open>transport.rs\<close>, \<open>signed_url\<close> and \<open>safe_join\<close> of \<open>lib.rs\<close>). HMAC and
  the percent encoding are third-party: fields of the store's record.
\<close>

record local_store =
  ls_root :: string
  ls_base_url :: string
  ls_secret :: string
  ls_hmac :: "string \<Rightarrow> string \<Rightarrow> string"
  ls_encode :: "string \<Rightarrow> string"
  ls_decode :: "string \<Rightarrow> string"

definition trim_end_matches :: "char \<Rightarrow> string \<Rightarrow> string" where
  "trim_end_matches c s = rev (dropWhile ((=) c) (rev s))"

definition local_new ::
  "string \<Rightarrow> string \<Rightarrow> string \<Rightarrow> (string \<Rightarrow> string \<Rightarrow> string) \<Rightarrow> (string \<Rightarrow> string) \<Rightarrow>
   (string \<Rightarrow> string) \<Rightarrow> local_store" where
  "local_new base_dir base_url secret hmac enc dec =
     \<lparr>ls_root = base_dir, ls_base_url = trim_end_matches (CHR ''/'') base_url, ls_secret = secret,
      ls_hmac = hmac, ls_encode = enc, ls_decode = dec\<rparr>"

section \<open>Signatures\<close>

abbreviation newline :: char where
  "newline \<equiv> CHR 0x0A"

definition name_or_empty :: "string option \<Rightarrow> string" where
  "name_or_empty filename = (case filename of None \<Rightarrow> [] | Some f \<Rightarrow> f)"

definition sign_message :: "string \<Rightarrow> string \<Rightarrow> int \<Rightarrow> string option \<Rightarrow> string" where
  "sign_message method path expires filename =
     method @ [newline] @ path @ [newline] @ dec_int expires @ [newline] @ name_or_empty filename"

definition local_sign :: "local_store \<Rightarrow> string \<Rightarrow> string \<Rightarrow> int \<Rightarrow> string option \<Rightarrow> string" where
  "local_sign st method path expires filename =
     hex_encode (ls_hmac st (ls_secret st) (sign_message method path expires filename))"

definition local_verify :: "local_store \<Rightarrow> string \<Rightarrow> string \<Rightarrow> int \<Rightarrow> string option \<Rightarrow> string \<Rightarrow> bool" where
  "local_verify st method path expires filename presented =
     (let expected = local_sign st method path expires filename in
      if length expected \<noteq> length presented then False
      else fold (\<lambda>(a, b) acc. or acc (xor a b))
        (zip (map of_char expected) (map of_char presented)) (0 :: 8 word) = 0)"

text \<open>\<open>timestamp()\<close> and \<open>as_secs()\<close>: whole seconds.\<close>

definition whole_seconds :: "int \<Rightarrow> int" where
  "whole_seconds t = t div 1000000000"

definition signed_query :: "local_store \<Rightarrow> string \<Rightarrow> string \<Rightarrow> int \<Rightarrow> string option \<Rightarrow> string" where
  "signed_query st method path expires filename =
     ''exp='' @ dec_int expires @ ''&sig='' @ local_sign st method path expires filename @
     (case filename of None \<Rightarrow> [] | Some f \<Rightarrow> ''&filename='' @ ls_encode st f)"

definition signed_url ::
  "local_store \<Rightarrow> time \<Rightarrow> string \<Rightarrow> string \<Rightarrow> int \<Rightarrow> string option \<Rightarrow> string" where
  "signed_url st clock method path expires_in filename =
     ls_base_url st @ ''/dev-blobs/'' @ path @ ''?'' @
     signed_query st method path (whole_seconds clock + whole_seconds expires_in) filename"

section \<open>Checking a request\<close>

fun find_param_in :: "(string \<Rightarrow> string) \<Rightarrow> string \<Rightarrow> string list \<Rightarrow> string option" where
  "find_param_in dec key [] = None"
| "find_param_in dec key (pair # rest) =
     (case split_once (CHR ''='') pair of
        Some (k, v) \<Rightarrow> if k = key then Some (dec v) else find_param_in dec key rest
      | None \<Rightarrow> find_param_in dec key rest)"

definition url_param :: "local_store \<Rightarrow> string option \<Rightarrow> string \<Rightarrow> string option" where
  "url_param st query key =
     (case query of None \<Rightarrow> None | Some q \<Rightarrow> find_param_in (ls_decode st) key (split_on (CHR ''&'') q))"

definition signature_refusal ::
  "local_store \<Rightarrow> time \<Rightarrow> string \<Rightarrow> string \<Rightarrow> string option \<Rightarrow> string + string option" where
  "signature_refusal st clock method path query =
     (case (case url_param st query ''exp'' of None \<Rightarrow> None | Some v \<Rightarrow> parse_i64 v) of
        None \<Rightarrow> Inl ''missing expiry''
      | Some expires \<Rightarrow>
          (case url_param st query ''sig'' of
             None \<Rightarrow> Inl ''missing signature''
           | Some signature \<Rightarrow>
               (let filename = url_param st query ''filename'' in
                if expires < whole_seconds clock then Inl ''signature expired''
                else if \<not> local_verify st method path expires filename signature
                then Inl ''invalid signature''
                else Inr filename)))"

section \<open>Paths below the root\<close>

definition path_join :: "string \<Rightarrow> string \<Rightarrow> string" where
  "path_join base_dir rel =
     (if starts_with ''/'' rel then rel
      else if base_dir = [] \<or> last base_dir = CHR ''/'' then base_dir @ rel
      else base_dir @ ''/'' @ rel)"

definition bad_segment :: "string \<Rightarrow> bool" where
  "bad_segment seg \<longleftrightarrow>
     seg = [] \<or> seg = ''.'' \<or> seg = ''..'' \<or> CHR 0x5C \<in> set seg \<or> CHR 0x00 \<in> set seg"

definition safe_join :: "string \<Rightarrow> string \<Rightarrow> string result" where
  "safe_join base_dir rel =
     (if rel = [] \<or> starts_with ''/'' rel then Err (StorageError ''invalid blob reference'')
      else if list_ex bad_segment (split_on (CHR ''/'') rel)
      then Err (StorageError ''invalid blob reference'')
      else Ok (path_join base_dir rel))"

text \<open>Where a path leads: the components, with \<open>.\<close> dropped and \<open>..\<close> going up.\<close>

fun walk :: "string list \<Rightarrow> string list \<Rightarrow> string list" where
  "walk here [] = here"
| "walk here (seg # segs) =
     (if seg = [] \<or> seg = ''.'' then walk here segs
      else if seg = ''..'' then walk (butlast here) segs
      else walk (here @ [seg]) segs)"

definition destination :: "string \<Rightarrow> string list" where
  "destination path = walk [] (split_on (CHR ''/'') path)"

end
