(* ===== verification/LocalBlob.thy ===== *)
theory LocalBlob
  imports LocalSigning Ports
begin

text \<open>
  The blob store on a local disk (\<open>anystore-blobstore-local/src/lib.rs\<close>) and the endpoint its
  signed URLs lead to (\<open>transport.rs\<close>). The file system is a record of the calls the code makes,
  over a state of its own; an error is its text, and for the removal of a file whether the file
  was missing. \<open>dg\<close> is SHA-256, and the hash of a file is that of all its bytes.
\<close>

datatype io_error = IoNotFound string | IoOther string

fun io_text :: "io_error \<Rightarrow> string" where
  "io_text (IoNotFound e) = e"
| "io_text (IoOther e) = e"

record 'f file_system =
  fs_exists :: "string \<Rightarrow> 'f \<Rightarrow> bool"
  fs_open :: "string \<Rightarrow> 'f \<Rightarrow> io_error + unit"
  fs_read :: "string \<Rightarrow> 'f \<Rightarrow> io_error + string"
  fs_write :: "string \<Rightarrow> string \<Rightarrow> 'f \<Rightarrow> (io_error + unit) \<times> 'f"
  fs_create_dir_all :: "string \<Rightarrow> 'f \<Rightarrow> (io_error + unit) \<times> 'f"
  fs_remove_dir_all :: "string \<Rightarrow> 'f \<Rightarrow> (io_error + unit) \<times> 'f"
  fs_remove_file :: "string \<Rightarrow> 'f \<Rightarrow> (io_error + unit) \<times> 'f"

definition storage_error :: "string \<Rightarrow> (io_error + 'a) \<Rightarrow> 'a result" where
  "storage_error what r =
     (case r of Inr a \<Rightarrow> Ok a | Inl e \<Rightarrow> Err (StorageError (what @ '': '' @ io_text e)))"

definition call_io :: "string \<Rightarrow> ('f \<Rightarrow> (io_error + 'a) \<times> 'f) \<Rightarrow> ('f, 'a) call" where
  "call_io what f s = (case f s of (r, s') \<Rightarrow> Some (storage_error what r, s'))"

definition call_io_ignore :: "('f \<Rightarrow> (io_error + 'a) \<times> 'f) \<Rightarrow> ('f, unit) call" where
  "call_io_ignore f s = Some (Ok (), snd (f s))"

definition LOCAL_BACKEND_ID :: string where
  "LOCAL_BACKEND_ID = ''local_fs''"

section \<open>Paths of a blob\<close>

definition blob_path :: "local_store \<Rightarrow> blob_ref \<Rightarrow> string result" where
  "blob_path st blob = safe_join (ls_root st) blob"

definition parts_dir :: "local_store \<Rightarrow> blob_ref \<Rightarrow> string result" where
  "parts_dir st blob = safe_join (ls_root st) (blob @ ''.parts'')"

text \<open>\<open>Path::parent\<close> of a path with a last component.\<close>

definition path_parent :: "string \<Rightarrow> string" where
  "path_parent path =
     (if CHR ''/'' \<notin> set path then []
      else (let before = rev (dropWhile ((=) (CHR ''/'')) (dropWhile ((\<noteq>) (CHR ''/'')) (rev path))) in
        if before = [] then ''/'' else before))"

definition local_blob_ref_for :: "string \<Rightarrow> blob_ref" where
  "local_blob_ref_for upload_id = ''blobs/'' @ upload_id"

section \<open>The operations\<close>

definition local_hash_and_size ::
  "'f file_system \<Rightarrow> (string \<Rightarrow> string) \<Rightarrow> string \<Rightarrow> 'f \<Rightarrow> (64 word \<times> string) result" where
  "local_hash_and_size fs dg path s =
     rbind (storage_error ''open blob failed'' (fs_open fs path s)) (\<lambda>_.
     rbind (storage_error ''read blob failed'' (fs_read fs path s)) (\<lambda>bytes.
     Ok (of_nat (length bytes), hex_encode (dg bytes))))"

definition local_stat ::
  "'f file_system \<Rightarrow> (string \<Rightarrow> string) \<Rightarrow> local_store \<Rightarrow> blob_ref \<Rightarrow> 'f \<Rightarrow> blob_stat result" where
  "local_stat fs dg st blob s =
     rbind (blob_path st blob) (\<lambda>path.
       if \<not> fs_exists fs path s then Err ContentNotReady
       else rbind (local_hash_and_size fs dg path s) (\<lambda>(sz, sha256).
         Ok \<lparr>bst_size = sz, bst_content_type = None, bst_etag = Some sha256, bst_sha256 = Some sha256\<rparr>))"

definition local_prepare_upload ::
  "'f file_system \<Rightarrow> local_store \<Rightarrow> time \<Rightarrow> prepare_upload_req \<Rightarrow> ('f, prepared_upload) call" where
  "local_prepare_upload fs st clock req =
     (let blob = local_blob_ref_for (pu_upload_id req);
          expires_at = clock + pu_expires_in req in
      call_bind (call_result (blob_path st blob)) (\<lambda>path.
      call_then (call_io ''create blob dir failed'' (fs_create_dir_all fs (path_parent path)))
        (case pu_mode req of
           Single \<Rightarrow> call_ok
             \<lparr>pd_blob_ref = blob, pd_mode = pu_mode req, pd_provider_upload_id = None,
              pd_single = Some \<lparr>sq_method = ''PUT'',
                sq_url = signed_url st clock ''PUT'' blob (pu_expires_in req) None, sq_headers = []\<rparr>,
              pd_part_size = None, pd_expires_at = expires_at\<rparr>
         | Multipart \<Rightarrow>
             call_bind (call_result (parts_dir st blob)) (\<lambda>dir.
             call_then (call_io ''create parts dir failed'' (fs_create_dir_all fs dir))
               (call_ok
                 \<lparr>pd_blob_ref = blob, pd_mode = pu_mode req,
                  pd_provider_upload_id = Some (pu_upload_id req), pd_single = None,
                  pd_part_size = Some (pu_part_size req), pd_expires_at = expires_at\<rparr>)))))"

definition local_sign_parts :: "local_store \<Rightarrow> time \<Rightarrow> sign_parts_req \<Rightarrow> signed_part list" where
  "local_sign_parts st clock req =
     map (\<lambda>n. \<lparr>sg_part_number = n, sg_method = ''PUT'',
         sg_url = signed_url st clock ''PUT'' (sp_blob_ref req @ ''.parts/'' @ dec_nat (unat n))
           (sp_expires_in req) None\<rparr>)
       (sp_part_numbers req)"

fun read_parts ::
  "'f file_system \<Rightarrow> string \<Rightarrow> 32 word list \<Rightarrow> 'f \<Rightarrow> string result" where
  "read_parts fs dir [] s = Ok []"
| "read_parts fs dir (n # ns) s =
     rbind (storage_error (''missing uploaded part '' @ dec_nat (unat n))
         (fs_read fs (path_join dir (dec_nat (unat n))) s)) (\<lambda>bytes.
     rbind (read_parts fs dir ns s) (\<lambda>rest. Ok (bytes @ rest)))"

text \<open>Only a multipart upload without its blob has anything to assemble.\<close>

definition assemble_parts ::
  "'f file_system \<Rightarrow> local_store \<Rightarrow> complete_blob_upload \<Rightarrow> string \<Rightarrow> ('f, unit) call" where
  "assemble_parts fs st req path =
     call_bind (call_result (parts_dir st (cb_blob_ref req))) (\<lambda>dir.
     call_bind (call_read (read_parts fs dir (sort (map cpt_part_number (cb_parts req))))) (\<lambda>assembled.
     call_then (call_io ''assemble blob failed'' (fs_write fs path assembled))
       (call_io_ignore (fs_remove_dir_all fs dir))))"

definition local_ensure_upload_completed ::
  "'f file_system \<Rightarrow> (string \<Rightarrow> string) \<Rightarrow> local_store \<Rightarrow> complete_blob_upload \<Rightarrow> ('f, blob_stat) call" where
  "local_ensure_upload_completed fs dg st req =
     call_bind (call_result (blob_path st (cb_blob_ref req))) (\<lambda>path.
     call_then (\<lambda>s. if cb_mode req = Multipart \<and> \<not> fs_exists fs path s
         then assemble_parts fs st req path s else call_ok () s)
    (call_then (\<lambda>s. call_unless (\<not> fs_exists fs path s) ContentNotReady s)
       (call_read (local_stat fs dg st (cb_blob_ref req)))))"

definition local_abort_upload ::
  "'f file_system \<Rightarrow> local_store \<Rightarrow> abort_blob_upload \<Rightarrow> ('f, unit) call" where
  "local_abort_upload fs st req =
     call_bind (call_result (parts_dir st (ab_blob_ref req))) (\<lambda>dir.
       call_io_ignore (fs_remove_dir_all fs dir))"

definition local_sign_download ::
  "local_store \<Rightarrow> time \<Rightarrow> blob_ref \<Rightarrow> string \<Rightarrow> int \<Rightarrow> signed_download" where
  "local_sign_download st clock blob filename expires_in =
     \<lparr>sd_url = signed_url st clock ''GET'' blob expires_in (Some filename),
      sd_expires_at = clock + expires_in\<rparr>"

definition local_delete_blob :: "'f file_system \<Rightarrow> local_store \<Rightarrow> blob_ref \<Rightarrow> ('f, unit) call" where
  "local_delete_blob fs st blob =
     call_bind (call_result (blob_path st blob)) (\<lambda>path s.
       (case fs_remove_file fs path s of
          (Inr _, s') \<Rightarrow> Some (Ok (), s')
        | (Inl (IoNotFound _), s') \<Rightarrow> Some (Ok (), s')
        | (Inl e, s') \<Rightarrow> Some (Err (StorageError (''delete blob failed: '' @ io_text e)), s')))"

definition local_blob_store :: "'f file_system \<Rightarrow> (string \<Rightarrow> string) \<Rightarrow> local_store \<Rightarrow> 'f blob_store" where
  "local_blob_store fs dg st =
     \<lparr>bs_backend_id = LOCAL_BACKEND_ID, bs_verifies_sha256 = True,
      bs_blob_ref_for = local_blob_ref_for,
      bs_prepare_upload = local_prepare_upload fs st,
      bs_sign_parts = (\<lambda>clock req. call_ok (local_sign_parts st clock req)),
      bs_ensure_upload_completed = local_ensure_upload_completed fs dg st,
      bs_abort_upload = local_abort_upload fs st,
      bs_stat = (\<lambda>blob. call_read (local_stat fs dg st blob)),
      bs_sign_download = (\<lambda>clock blob filename expires_in.
        call_ok (local_sign_download st clock blob filename expires_in)),
      bs_delete_blob = local_delete_blob fs st\<rparr>"

section \<open>The endpoint of the signed URLs\<close>

record blob_response =
  br_status :: nat
  br_headers :: "(string \<times> string) list"
  br_body :: string

definition deny :: "nat \<Rightarrow> string \<Rightarrow> blob_response" where
  "deny st message = \<lparr>br_status = st, br_headers = [], br_body = message\<rparr>"

definition blob_upload ::
  "'f file_system \<Rightarrow> local_store \<Rightarrow> time \<Rightarrow> string \<Rightarrow> string option \<Rightarrow> string \<Rightarrow> 'f \<Rightarrow>
   blob_response \<times> 'f" where
  "blob_upload fs st clock path query body s =
     (case signature_refusal st clock ''PUT'' path query of
        Inl refusal \<Rightarrow> (deny 403 refusal, s)
      | Inr _ \<Rightarrow>
          (case safe_join (ls_root st) path of
             Inl _ \<Rightarrow> (deny 400 ''invalid path'', s)
           | Inr target \<Rightarrow>
               (case fs_create_dir_all fs (path_parent target) s of
                  (Inl _, s1) \<Rightarrow> (deny 500 ''cannot create directory'', s1)
                | (Inr _, s1) \<Rightarrow>
                    (case fs_write fs target body s1 of
                       (Inl _, s2) \<Rightarrow> (deny 500 ''cannot write blob'', s2)
                     | (Inr _, s2) \<Rightarrow>
                         (\<lparr>br_status = 200,
                           br_headers = [(''etag'', CHR 0x22 # dec_nat (length body) @ [CHR 0x22])],
                           br_body = []\<rparr>, s2)))))"

definition blob_download ::
  "'f file_system \<Rightarrow> local_store \<Rightarrow> time \<Rightarrow> string \<Rightarrow> string option \<Rightarrow> 'f \<Rightarrow> blob_response" where
  "blob_download fs st clock path query s =
     (case signature_refusal st clock ''GET'' path query of
        Inl refusal \<Rightarrow> deny 403 refusal
      | Inr filename \<Rightarrow>
          (case safe_join (ls_root st) path of
             Inl _ \<Rightarrow> deny 400 ''invalid path''
           | Inr target \<Rightarrow>
               (case fs_read fs target s of
                  Inl _ \<Rightarrow> deny 404 ''not found''
                | Inr bytes \<Rightarrow>
                    \<lparr>br_status = 200,
                     br_headers = (''content-length'', dec_nat (length bytes)) #
                       (case filename of
                          None \<Rightarrow> []
                        | Some f \<Rightarrow> [(''content-disposition'',
                            ''attachment; filename*=UTF-8'' @ [CHR 0x27, CHR 0x27] @ ls_encode st f)]),
                     br_body = bytes\<rparr>)))"

end
