(* ===== verification/LocalAccess.thy ===== *)
theory LocalAccess
  imports LocalSigning
begin

text \<open>
  What the signed URLs and the checked paths of the local store guarantee: a URL opens exactly
  what it was made for, and every accepted path stays below the root.
\<close>

section \<open>The texts in a URL\<close>

lemma hex_digit_hexdigit: "d < 16 \<Longrightarrow> is_ascii_hexdigit (hex_digit d)"
  by (simp add: is_ascii_hexdigit_def in_range_def hex_digit_def)

lemma hex_encode_hexdigits: "list_all is_ascii_hexdigit (hex_encode s)"
proof (induction s)
  case (Cons c s)
  have "(of_char c :: nat) div 16 < 16" "(of_char c :: nat) mod 16 < 16"
    using of_char_less_256 [of c] by (simp_all add: less_mult_imp_div_less)
  with Cons show ?case by (simp add: hex_encode_def hex_digit_hexdigit)
qed (simp add: hex_encode_def)

definition plain_char :: "char \<Rightarrow> bool" where
  "plain_char c \<longleftrightarrow> is_ascii_hexdigit c \<or> c = CHR ''-''"

lemma plain_char_safe:
  "plain_char c \<Longrightarrow> c \<noteq> CHR ''&'' \<and> c \<noteq> CHR ''='' \<and> c \<noteq> CHR ''%'' \<and> c \<noteq> newline \<and> of_char c < (128 :: nat)"
  by (auto simp: plain_char_def is_ascii_hexdigit_def in_range_def)

lemma dec_int_plain: "list_all plain_char (dec_int i)"
  using dec_nat_digits [of "nat (- i)"] dec_nat_digits [of "nat i"]
  by (auto simp: dec_int_def list_all_iff plain_char_def is_ascii_digit_def is_ascii_hexdigit_def)

lemma local_sign_plain: "list_all plain_char (local_sign st m p e f)"
  using hex_encode_hexdigits unfolding local_sign_def list_all_iff plain_char_def by blast

lemma plain_notin:
  "list_all plain_char s \<Longrightarrow> CHR ''&'' \<notin> set s \<and> CHR ''='' \<notin> set s \<and> CHR ''%'' \<notin> set s \<and> newline \<notin> set s"
  using plain_char_safe by (auto simp: list_all_iff)

lemma parse_i64_dec_int: "- (2 ^ 63) \<le> i \<Longrightarrow> i < 2 ^ 63 \<Longrightarrow> parse_i64 (dec_int i) = Some i"
proof (cases "i < 0")
  case True
  moreover assume "- (2 ^ 63) \<le> i"
  ultimately show ?thesis using dec_nat_digits [of "nat (- i)"] by (simp add: parse_i64_def dec_int_def)
next
  case False
  moreover assume "i < 2 ^ 63"
  ultimately have "parse_unsigned (2 ^ 63) (dec_nat (nat i)) = Some (nat i)"
    by (intro parse_unsigned_dec_nat) simp
  moreover obtain c cs where c: "dec_nat (nat i) = c # cs" by (cases "dec_nat (nat i)") auto
  moreover from c dec_nat_digits [of "nat i"] have "c \<noteq> CHR ''-''"
    by (auto simp: is_ascii_digit_def in_range_def)
  ultimately show ?thesis using False by (simp add: parse_i64_def dec_int_def)
qed

lemma dec_int_inject: "dec_int a = dec_int b \<longleftrightarrow> a = b"
proof -
  have minus: "dec_nat n \<noteq> CHR ''-'' # cs" for n cs
  proof
    assume "dec_nat n = CHR ''-'' # cs"
    with dec_nat_digits [of n] show False by (simp add: is_ascii_digit_def in_range_def)
  qed
  show ?thesis
    by (auto simp: dec_int_def eq_nat_nat_iff minus minus [symmetric])
qed

lemma local_verify_iff: "local_verify st m p e f presented \<longleftrightarrow> presented = local_sign st m p e f"
  unfolding local_verify_def Let_def
  using constant_time_eq [of "local_sign st m p e f" presented] by auto

section \<open>Signed URLs\<close>

text \<open>The documented behaviour of the percent encoding that the store uses.\<close>

definition percent_codec :: "local_store \<Rightarrow> bool" where
  "percent_codec st \<longleftrightarrow>
     (\<forall>s. utf8_valid s \<longrightarrow> ls_decode st (ls_encode st s) = s \<and> CHR ''&'' \<notin> set (ls_encode st s)) \<and>
     (\<forall>s. CHR ''%'' \<notin> set s \<and> list_all (\<lambda>c. of_char c < (128 :: nat)) s \<longrightarrow> ls_decode st s = s)"

lemma plain_decoded: "percent_codec st \<Longrightarrow> list_all plain_char s \<Longrightarrow> ls_decode st s = s"
  using plain_char_safe unfolding percent_codec_def list_all_iff by blast

lemma split_once_first: "c \<notin> set a \<Longrightarrow> split_once c (a @ c # b) = Some (a, b)"
  by (simp add: split_once_Some)

lemma param_here: "CHR ''='' \<notin> set key \<Longrightarrow> find_param_in dec key ((key @ ''='' @ v) # rest) = Some (dec v)"
  using split_once_first [of "CHR ''=''" key v] by simp

lemma param_later:
  "CHR ''='' \<notin> set k \<Longrightarrow> k \<noteq> key \<Longrightarrow> find_param_in dec key ((k @ ''='' @ v) # rest) = find_param_in dec key rest"
  using split_once_first [of "CHR ''=''" k v] by simp

lemma split_two: "c \<notin> set a \<Longrightarrow> c \<notin> set b \<Longrightarrow> split_on c (a @ c # b) = [a, b]"
  by (simp add: split_on_append_sep split_on_no_sep)

lemma split_three:
  "c \<notin> set a \<Longrightarrow> c \<notin> set b \<Longrightarrow> c \<notin> set d \<Longrightarrow> split_on c (a @ c # (b @ c # d)) = [a, b, d]"
  by (simp add: split_on_append_sep split_on_no_sep)

lemma signed_query_params:
  assumes "percent_codec st" and "\<And>f. filename = Some f \<Longrightarrow> utf8_valid f"
    and q: "q = signed_query st m p e filename"
  shows "url_param st (Some q) ''exp'' = Some (dec_int e)"
    "url_param st (Some q) ''sig'' = Some (local_sign st m p e filename)"
    "url_param st (Some q) ''filename'' = filename"
proof -
  let ?e = "''exp='' @ dec_int e" and ?s = "''sig='' @ local_sign st m p e filename"
  let ?f = "case filename of None \<Rightarrow> [] | Some f \<Rightarrow> [''filename'' @ ''='' @ ls_encode st f]"
  have e: "CHR ''&'' \<notin> set ?e" and s: "CHR ''&'' \<notin> set ?s"
    using plain_notin [OF dec_int_plain] plain_notin [OF local_sign_plain] by auto
  have "split_on (CHR ''&'') q = ?e # ?s # ?f"
  proof (cases filename)
    case None
    then have "q = ?e @ CHR ''&'' # ?s" by (simp add: q signed_query_def)
    then have "split_on (CHR ''&'') q = [?e, ?s]" using split_two [OF e s] by (simp only:)
    with None show ?thesis by simp
  next
    case (Some f)
    have f: "CHR ''&'' \<notin> set (''filename'' @ ''='' @ ls_encode st f)"
      using assms(1) assms(2) [OF Some] by (simp add: percent_codec_def)
    have "q = ?e @ CHR ''&'' # (?s @ CHR ''&'' # (''filename'' @ ''='' @ ls_encode st f))"
      using Some by (simp add: q signed_query_def)
    then have "split_on (CHR ''&'') q = [?e, ?s, ''filename'' @ ''='' @ ls_encode st f]"
      using split_three [OF e s f] by (simp only:)
    with Some show ?thesis by simp
  qed
  then have split: "split_on (CHR ''&'') q =
      (''exp'' @ ''='' @ dec_int e) # (''sig'' @ ''='' @ local_sign st m p e filename) # ?f"
    by simp
  note plain = plain_decoded [OF assms(1) dec_int_plain] plain_decoded [OF assms(1) local_sign_plain]
  show "url_param st (Some q) ''exp'' = Some (dec_int e)"
    unfolding url_param_def option.case split by (subst param_here) (simp_all add: plain)
  show "url_param st (Some q) ''sig'' = Some (local_sign st m p e filename)"
    unfolding url_param_def option.case split
    by (subst param_later, simp, simp, subst param_here) (simp_all add: plain)
  have "find_param_in (ls_decode st) ''filename'' ?f = filename"
  proof (cases filename)
    case (Some f)
    then show ?thesis
      using assms(1) assms(2) [OF Some] by (simp only: option.case, subst param_here) (simp_all add: percent_codec_def)
  qed simp
  then show "url_param st (Some q) ''filename'' = filename"
    unfolding url_param_def option.case split
    by (subst param_later, simp, simp, subst param_later, simp, simp)
qed

lemma before_first:
  fixes a b x y :: string
  assumes "a @ c # x = b @ c # y" and "c \<notin> set a" and "c \<notin> set b"
  shows "a = b \<and> x = y"
proof -
  have "Some (a, x) = split_once c (a @ c # x)" by (simp only: split_once_first [OF assms(2)])
  also have "\<dots> = split_once c (b @ c # y)" by (simp only: assms(1))
  also have "\<dots> = Some (b, y)" by (simp only: split_once_first [OF assms(3)])
  finally show ?thesis by simp
qed

lemma sign_message_inject:
  assumes "newline \<notin> set m" "newline \<notin> set m'" "newline \<notin> set p" "newline \<notin> set p'"
    and "sign_message m p e f = sign_message m' p' e' f'"
  shows "m = m' \<and> p = p' \<and> e = e' \<and>
    name_or_empty f = name_or_empty f'"
proof -
  from assms(5) have "m @ newline # (p @ newline # (dec_int e @ newline # name_or_empty f)) =
      m' @ newline # (p' @ newline # (dec_int e' @ newline # name_or_empty f'))"
    by (simp add: sign_message_def)
  from before_first [OF this assms(1,2)] have m: "m = m'"
    and "p @ newline # (dec_int e @ newline # name_or_empty f) = p' @ newline # (dec_int e' @ newline # name_or_empty f')"
    by simp_all
  from before_first [OF this(2) assms(3,4)] have p: "p = p'"
    and "dec_int e @ newline # name_or_empty f = dec_int e' @ newline # name_or_empty f'"
    by simp_all
  from before_first [OF this(2)] plain_notin [OF dec_int_plain] have "dec_int e = dec_int e'" "name_or_empty f = name_or_empty f'"
    by simp_all
  with m p show ?thesis by (simp add: dec_int_inject)
qed

text \<open>
  C27: a signed URL is a capability for what it was made for. The query of a URL is accepted for
  its method and path until it expires and carries the file name through, whatever characters
  the name has. A request is accepted only before an expiry time for which it presents the
  signature of its own method, path, expiry and file name; and with method and path on one line
  each, the signed text determines all four (no file name being the empty one).
\<close>

theorem signed_url_is_capability:
  assumes "percent_codec st" and "\<And>name. filename = Some name \<Longrightarrow> utf8_valid name"
    and "- (2 ^ 63) \<le> expires" and "expires < 2 ^ 63" and "whole_seconds clock \<le> expires"
    and "newline \<notin> set verb" "newline \<notin> set verb'" "newline \<notin> set path" "newline \<notin> set path'"
  shows "signature_refusal st clock verb path (Some (signed_query st verb path expires filename)) = Inr filename \<and>
    (signature_refusal st now verb' path' query = Inr f \<longrightarrow>
       (\<exists>e. whole_seconds now \<le> e \<and> url_param st query ''filename'' = f \<and>
          url_param st query ''sig'' =
            Some (hex_encode (ls_hmac st (ls_secret st) (sign_message verb' path' e f))) \<and>
          (sign_message verb' path' e f = sign_message verb path expires filename \<longrightarrow>
             verb' = verb \<and> path' = path \<and> e = expires \<and>
             name_or_empty f = name_or_empty filename)))"
proof (intro conjI impI)
  note params = signed_query_params [OF assms(1,2) refl, where m = verb and p = path and e = expires]
  show "signature_refusal st clock verb path (Some (signed_query st verb path expires filename)) = Inr filename"
    using params assms(3-5) by (auto simp: signature_refusal_def parse_i64_dec_int local_verify_iff Let_def)
  assume "signature_refusal st now verb' path' query = Inr f"
  then obtain e s where "url_param st query ''sig'' = Some s" "url_param st query ''filename'' = f"
    "whole_seconds now \<le> e" "local_verify st verb' path' e f s"
    by (auto simp: signature_refusal_def Let_def not_less split: option.splits if_splits)
  then show "\<exists>e. whole_seconds now \<le> e \<and> url_param st query ''filename'' = f \<and>
          url_param st query ''sig'' =
            Some (hex_encode (ls_hmac st (ls_secret st) (sign_message verb' path' e f))) \<and>
          (sign_message verb' path' e f = sign_message verb path expires filename \<longrightarrow>
             verb' = verb \<and> path' = path \<and> e = expires \<and>
             name_or_empty f = name_or_empty filename)"
    using sign_message_inject [OF assms(7,6,9,8)]
    by (intro exI [of _ e]) (simp add: local_verify_iff local_sign_def)
qed

text \<open>An instance of the codec: a percent sign and the hexadecimal digits of all bytes.\<close>

fun unhex :: "string \<Rightarrow> string" where
  "unhex (a # b # rest) =
     (let v = (\<lambda>c. if is_ascii_digit c then of_char c - 48 else of_char c - (87 :: nat)) in
      char_of (16 * v a + v b) # unhex rest)"
| "unhex _ = []"

definition sample_local :: local_store where
  "sample_local =
     local_new ''/srv'' ''http://h/'' ''secret'' (\<lambda>key msg. key @ msg) (\<lambda>s. CHR ''%'' # hex_encode s)
       (\<lambda>s. case s of [] \<Rightarrow> [] | c # cs \<Rightarrow> if c = CHR ''%'' then unhex cs else s)"

lemma unhex_hex_encode: "unhex (hex_encode s) = s"
proof (induction s)
  case (Cons c s)
  have v: "(if is_ascii_digit (hex_digit d) then of_char (hex_digit d) - 48
      else of_char (hex_digit d) - (87 :: nat)) = d" if "d < 16" for d
    using that by (simp add: hex_digit_def is_ascii_digit_def in_range_def)
  have "(of_char c :: nat) div 16 < 16" "(of_char c :: nat) mod 16 < 16"
    using of_char_less_256 [of c] by (simp_all add: less_mult_imp_div_less)
  from v [OF this(1)] v [OF this(2)] Cons show ?case
    by (simp add: hex_encode_def Let_def)
qed (simp add: hex_encode_def)

lemma sample_codec_percent: "percent_codec sample_local"
  using hex_encode_hexdigits plain_notin [of "hex_encode s" for s]
  by (auto simp: percent_codec_def sample_local_def local_new_def unhex_hex_encode list_all_iff
      plain_char_def split: list.split)

theorem signed_url_is_capability_witness:
  "signature_refusal sample_local 5000000000 ''GET'' ''blobs/u1''
     (Some (signed_query sample_local ''GET'' ''blobs/u1'' 7 (Some ''a b''))) = Inr (Some ''a b'')"
proof -
  have "newline \<notin> set ''GET''" "newline \<notin> set ''blobs/u1''" "utf8_valid ''a b''" by code_simp+
  then show ?thesis
    using signed_url_is_capability [OF sample_codec_percent, where verb = "''GET''" and verb' = "''GET''" and
        path = "''blobs/u1''" and path' = "''blobs/u1''" and filename = "Some ''a b''" and expires = 7 and
        clock = 5000000000]
    by (simp add: whole_seconds_def)
qed

text \<open>
  C40: the signed text does not keep its fields apart. A line break in a file name moves the
  boundary: the signature of a download with a file name that starts with a number and a line
  break is also the signature for another path, another expiry time and the rest of the name.
  An object's name may hold a line break; it only excludes slashes and NUL.
\<close>

theorem signed_fields_can_shift:
  "local_sign st verb path expires (Some (dec_int later @ newline # rest)) =
     local_sign st verb (path @ newline # dec_int expires) later (Some rest) \<and>
   validate_name (''7'' @ newline # ''x'') = Ok ()"
proof
  have "sign_message verb path expires (Some (dec_int later @ newline # rest)) =
      sign_message verb (path @ newline # dec_int expires) later (Some rest)"
    by (simp add: sign_message_def name_or_empty_def)
  then show "local_sign st verb path expires (Some (dec_int later @ newline # rest)) =
     local_sign st verb (path @ newline # dec_int expires) later (Some rest)"
    by (simp only: local_sign_def)
  show "validate_name (''7'' @ newline # ''x'') = Ok ()" by code_simp
qed

section \<open>Paths\<close>

lemma walk_plain: "list_all (\<lambda>seg. \<not> bad_segment seg) segs \<Longrightarrow> walk here segs = here @ segs"
  by (induction segs arbitrary: here) (auto simp: bad_segment_def)

lemma walk_append: "walk here (xs @ ys) = walk (walk here xs) ys"
  by (induction xs arbitrary: here) auto

lemma split_on_snoc: "split_on c (s @ c # t) = split_on c s @ split_on c t"
proof (induction s)
  case (Cons x s)
  obtain q qs where "split_on c s = q # qs" by (cases "split_on c s") auto
  with Cons show ?case by simp
qed simp

text \<open>
  C28: no path escapes the root of the blob store. Whatever text a request or a blob reference
  holds, a path that is accepted leads to exactly the segments of that text below the place that
  the root leads to; texts with an empty segment, a dot segment, a backslash or NUL, and
  absolute ones, are refused.
\<close>

theorem safe_join_stays_below:
  "case safe_join base_dir rel of
     Inr path \<Rightarrow> destination path = destination base_dir @ split_on (CHR ''/'') rel \<and>
       list_all (\<lambda>seg. seg \<noteq> [] \<and> seg \<noteq> ''.'' \<and> seg \<noteq> ''..'') (split_on (CHR ''/'') rel)
   | Inl e \<Rightarrow> e = StorageError ''invalid blob reference'' \<and>
       list_ex bad_segment (split_on (CHR ''/'') rel)"
proof (cases "safe_join base_dir rel")
  case (Inl e)
  have "list_ex bad_segment (split_on (CHR ''/'') rel)" if "starts_with ''/'' rel"
    using that by (cases rel) (auto simp: starts_with_def bad_segment_def)
  moreover have "list_ex bad_segment (split_on (CHR ''/'') [])" by (simp add: bad_segment_def)
  ultimately show ?thesis using Inl by (auto simp: safe_join_def split: if_splits)
next
  case (Inr path)
  then have ok: "list_all (\<lambda>seg. \<not> bad_segment seg) (split_on (CHR ''/'') rel)"
    and rel: "\<not> starts_with ''/'' rel" and path: "path = path_join base_dir rel"
    by (auto simp: safe_join_def list_all_iff list_ex_iff split: if_splits)
  have "destination path = destination base_dir @ split_on (CHR ''/'') rel"
  proof (cases "base_dir = [] \<or> last base_dir = CHR ''/''")
    case True
    show ?thesis
    proof (cases "base_dir = []")
      case True
      with rel path ok show ?thesis by (simp add: path_join_def destination_def walk_plain)
    next
      case False
      with True obtain s where s: "base_dir = s @ [CHR ''/'']" by (metis append_butlast_last_id)
      with path rel have "path = s @ CHR ''/'' # rel" by (simp add: path_join_def)
      with s ok show ?thesis by (simp add: destination_def split_on_snoc walk_append walk_plain)
    qed
  next
    case False
    with path rel have "path = base_dir @ CHR ''/'' # rel" by (simp add: path_join_def)
    with ok show ?thesis by (simp add: destination_def split_on_snoc walk_append walk_plain)
  qed
  with Inr ok show ?thesis by (auto simp: list_all_iff bad_segment_def)
qed

end
