(* ===== verification/BlobCompletion.thy ===== *)
theory BlobCompletion
  imports BlobMem LocalBlob LocalAccess
begin

text \<open>
  Completing an upload at a blob store. The port says the call must be safe to repeat: a locale
  states that, and it holds of the in-memory store and of the local one over any file system that
  keeps what is written. What a failed call leaves behind differs between the two.
\<close>

section \<open>The contract\<close>

locale blob_completion =
  fixes complete_blob :: "complete_blob_upload \<Rightarrow> ('b, blob_stat) call"
  assumes converges:
    "complete_blob req s = Some (Ok stat, s') \<Longrightarrow> cb_blob_ref req' = cb_blob_ref req \<Longrightarrow>
       complete_blob req' s' = Some (Ok stat, s')"
begin

fun complete_each :: "complete_blob_upload list \<Rightarrow> ('b, blob_stat list) call" where
  "complete_each [] = call_ok []"
| "complete_each (req # reqs) =
     call_bind (complete_blob req) (\<lambda>stat. call_bind (complete_each reqs) (\<lambda>stats. call_ok (stat # stats)))"

lemma retries_agree:
  assumes "complete_blob req s = Some (Ok stat, s')"
    and "\<And>q. q \<in> set reqs \<Longrightarrow> cb_blob_ref q = cb_blob_ref req"
  shows "complete_each reqs s' = Some (Ok (replicate (length reqs) stat), s')"
  using assms(2)
proof (induction reqs)
  case (Cons q reqs)
  have "complete_blob q s' = Some (Ok stat, s')"
    by (rule converges [OF assms(1)]) (rule Cons.prems, simp)
  moreover have "complete_each reqs s' = Some (Ok (replicate (length reqs) stat), s')"
    by (rule Cons.IH) (rule Cons.prems, simp)
  ultimately show ?case by (simp add: call_bind_def call_ok_def)
qed (simp add: call_ok_def)

end

section \<open>In memory\<close>

lemma map_ok_or_Ok: "map_sum id f (ok_or e x) = Ok y \<longleftrightarrow> (\<exists>z. x = Some z \<and> f z = y)"
  by (cases x) auto

lemma mem_completed_state:
  assumes "mem_ensure_upload_completed digest req s = (Ok stat, s')"
  shows "map_option (stat_of digest) (table_get (mb_blobs s') (cb_blob_ref req)) = Some stat"
  using assms
  by (auto simp: mem_ensure_upload_completed_def Let_def table_simps map_ok_or_Ok split: if_splits option.splits sum.splits)

lemma mem_completion_again:
  assumes "map_option (stat_of digest) (table_get (mb_blobs s) (cb_blob_ref req)) = Some stat"
  shows "mem_ensure_upload_completed digest req s = (Ok stat, s)"
  using assms by (auto simp: mem_ensure_upload_completed_def)

interpretation mem_blobs: blob_completion "\<lambda>req. call_of (mem_ensure_upload_completed digest req)"
  by unfold_locales
    (auto simp: call_simps intro!: mem_completion_again dest!: mem_completed_state)

definition sample_parts :: blob_state where
  "sample_parts = blob_put_part ''blobs/u'' 1 ''abc'' blob_state_new"

definition sample_completion :: "32 word list \<Rightarrow> complete_blob_upload" where
  "sample_completion ns =
     \<lparr>cb_blob_ref = ''blobs/u'', cb_mode = Multipart, cb_provider_upload_id = Some ''mpu_u'',
      cb_parts = map (\<lambda>n. \<lparr>cpt_part_number = n, cpt_etag = []\<rparr>) ns\<rparr>"

text \<open>
  C30: a failed completion in memory is final. When a multipart upload has no blob yet and a
  completion of it fails, every later completion of the same blob fails too, whatever parts it
  names: the parts that were uploaded are gone. The port asks for a call that is safe to repeat.
\<close>

theorem mem_failed_completion_loses_parts:
  assumes "table_get (mb_blobs s) (cb_blob_ref req) = None" and "cb_mode req = Multipart"
    and "mem_ensure_upload_completed digest req s = (Err e, s')"
    and "cb_blob_ref req' = cb_blob_ref req"
  shows "mem_ensure_upload_completed digest req' s' = (Err ContentNotReady, s') \<and>
    table_get (mb_parts s') (cb_blob_ref req) = None"
  using assms
  by (auto simp: mem_ensure_upload_completed_def Let_def table_simps
      split: if_splits option.splits sum.splits)

theorem mem_failed_completion_loses_parts_witness:
  "let s' = snd (mem_ensure_upload_completed id (sample_completion [1, 2]) sample_parts) in
   fst (mem_ensure_upload_completed id (sample_completion [1]) sample_parts) = Ok (stat_of id ''abc'') \<and>
   mem_ensure_upload_completed id (sample_completion [1]) s' = (Err ContentNotReady, s')"
proof -
  let ?s' = "snd (mem_ensure_upload_completed id (sample_completion [1, 2]) sample_parts)"
  have none: "table_get (mb_blobs sample_parts) (cb_blob_ref (sample_completion [1, 2])) = None"
    and mode: "cb_mode (sample_completion [1, 2]) = Multipart"
    and same: "cb_blob_ref (sample_completion [1]) = cb_blob_ref (sample_completion [1, 2])"
    and fails: "fst (mem_ensure_upload_completed id (sample_completion [1, 2]) sample_parts) = Err ContentNotReady"
    and works: "fst (mem_ensure_upload_completed id (sample_completion [1]) sample_parts) = Ok (stat_of id ''abc'')"
    by code_simp+
  have "mem_ensure_upload_completed id (sample_completion [1, 2]) sample_parts = (Err ContentNotReady, ?s')"
    by (simp add: prod_eq_iff fails)
  from mem_failed_completion_loses_parts [OF none mode this same] works show ?thesis by (simp add: Let_def)
qed

section \<open>On disk\<close>

definition below_dir :: "string \<Rightarrow> string \<Rightarrow> bool" where
  "below_dir dir path \<longleftrightarrow> path = dir \<or> starts_with (dir @ ''/'') path"

text \<open>What the store relies on: a file that was written is there, and removing a directory leaves
  the files outside it.\<close>

definition disk_laws :: "'f file_system \<Rightarrow> bool" where
  "disk_laws fs \<longleftrightarrow>
     (\<forall>path bytes s s'. fs_write fs path bytes s = (Inr (), s') \<longrightarrow>
        fs_exists fs path s' \<and> fs_open fs path s' = Inr () \<and> fs_read fs path s' = Inr bytes) \<and>
     (\<forall>dir path s. \<not> below_dir dir path \<longrightarrow>
        fs_exists fs path (snd (fs_remove_dir_all fs dir s)) = fs_exists fs path s \<and>
        fs_open fs path (snd (fs_remove_dir_all fs dir s)) = fs_open fs path s \<and>
        fs_read fs path (snd (fs_remove_dir_all fs dir s)) = fs_read fs path s)"

lemma parts_dir_apart:
  assumes "blob_path st blob = Ok path" and "parts_dir st blob = Ok dir"
  shows "\<not> below_dir dir path"
proof -
  from assms have "dir = path @ ''.parts''"
    by (auto simp: blob_path_def parts_dir_def safe_join_def path_join_def starts_with_def split: if_splits)
  then have "length path < length dir" by simp
  moreover have "length dir \<le> length path" if "below_dir dir path"
    using that by (auto simp: below_dir_def starts_with_iff)
  ultimately show ?thesis by fastforce
qed

lemma storage_error_Ok_iff: "storage_error what r = Ok a \<longleftrightarrow> r = Inr a"
  by (auto simp: storage_error_def split: sum.splits)

lemma call_io_Ok_iff: "call_io what f s = Some (Ok a, t) \<longleftrightarrow> f s = (Inr a, t)"
  by (auto simp: call_io_def storage_error_Ok_iff split: prod.splits)

lemma local_stat_Ok_iff:
  "local_stat fs dg st blob s = Ok stat \<longleftrightarrow>
     (\<exists>path bytes. blob_path st blob = Ok path \<and> fs_exists fs path s \<and> fs_open fs path s = Inr () \<and>
        fs_read fs path s = Inr bytes \<and>
        stat = \<lparr>bst_size = of_nat (length bytes), bst_content_type = None,
          bst_etag = Some (hex_encode (dg bytes)), bst_sha256 = Some (hex_encode (dg bytes))\<rparr>)"
  by (auto simp: local_stat_def local_hash_and_size_def storage_error_Ok_iff rbind_Ok_iff split: if_splits)

lemma local_completion_again:
  assumes "local_stat fs dg st (cb_blob_ref req) s = Ok stat"
  shows "local_ensure_upload_completed fs dg st req s = Some (Ok stat, s)"
proof -
  from assms obtain path where path: "blob_path st (cb_blob_ref req) = Ok path" "fs_exists fs path s"
    by (auto simp: local_stat_Ok_iff)
  with assms show ?thesis
    by (simp add: local_ensure_upload_completed_def call_then_def call_bind_def call_result_def call_ok_def
        call_unless_def call_read_def)
qed

lemma local_completion_stat:
  assumes "local_ensure_upload_completed fs dg st req s = Some (Ok stat, s')"
  shows "local_stat fs dg st (cb_blob_ref req) s' = Ok stat"
  using assms
  by (auto simp: local_ensure_upload_completed_def call_then_def call_bind_Ok_iff call_simps
      call_unless_Ok_iff)

lemma local_completion: "blob_completion (local_ensure_upload_completed fs dg st)"
proof
  fix req req' :: complete_blob_upload and s stat s'
  assume "local_ensure_upload_completed fs dg st req s = Some (Ok stat, s')"
    and "cb_blob_ref req' = cb_blob_ref req"
  with local_completion_stat [of fs dg st req s stat s'] local_completion_again [of fs dg st req' s' stat]
  show "local_ensure_upload_completed fs dg st req' s' = Some (Ok stat, s')" by simp
qed

text \<open>
  C29: completing an upload on disk can be repeated. Once it has succeeded, completing again - with
  whatever list of parts, any number of times - gives the same size and hash and changes
  nothing. The answer is the size and hash of the file's bytes; these are, where the file had to
  be assembled, the parts in the order of their numbers. When a part is missing the call fails
  and nothing has changed, so the client can send the part and try again.
\<close>

theorem local_completion_converges:
  assumes "disk_laws fs" and "blob_path st (cb_blob_ref req) = Ok path"
    and "parts_dir st (cb_blob_ref req) = Ok dir"
    and "local_ensure_upload_completed fs dg st req s = Some (r, s')"
  shows "case r of
      Inr stat \<Rightarrow>
        (\<exists>bytes. fs_read fs path s' = Inr bytes \<and> bst_size stat = of_nat (length bytes) \<and>
           bst_sha256 stat = Some (hex_encode (dg bytes)) \<and>
           (if cb_mode req = Multipart \<and> \<not> fs_exists fs path s
            then read_parts fs dir (sort (map cpt_part_number (cb_parts req))) s = Ok bytes
            else s' = s)) \<and>
        (\<forall>req'. cb_blob_ref req' = cb_blob_ref req \<longrightarrow>
           local_ensure_upload_completed fs dg st req' s' = Some (Ok stat, s'))
    | Inl e \<Rightarrow>
        cb_mode req = Multipart \<and> \<not> fs_exists fs path s \<and>
          read_parts fs dir (sort (map cpt_part_number (cb_parts req))) s = Err e \<longrightarrow> s' = s"
proof (cases r)
  case (Inl e)
  with assms(2-4) show ?thesis
    by (auto simp: local_ensure_upload_completed_def assemble_parts_def call_then_def call_bind_def
        call_result_def call_read_def)
next
  case (Inr stat)
  from local_completion_stat [OF assms(4) [unfolded Inr]] obtain bytes where
    bytes: "fs_read fs path s' = Inr bytes" "bst_size stat = of_nat (length bytes)"
      "bst_sha256 stat = Some (hex_encode (dg bytes))"
    using assms(2) by (auto simp: local_stat_Ok_iff)
  have "if cb_mode req = Multipart \<and> \<not> fs_exists fs path s
      then read_parts fs dir (sort (map cpt_part_number (cb_parts req))) s = Ok bytes else s' = s"
  proof (cases "cb_mode req = Multipart \<and> \<not> fs_exists fs path s")
    case True
    with assms(2-4) Inr obtain assembled s1 where
      read: "read_parts fs dir (sort (map cpt_part_number (cb_parts req))) s = Ok assembled"
      and wrote: "fs_write fs path assembled s = (Inr (), s1)"
      and s': "s' = snd (fs_remove_dir_all fs dir s1)"
      by (auto simp: local_ensure_upload_completed_def assemble_parts_def call_then_def call_bind_Ok_iff
          call_simps call_unless_Ok_iff call_io_Ok_iff call_io_ignore_def)
    from assms(1) wrote have "fs_read fs path s1 = Inr assembled" by (auto simp: disk_laws_def)
    moreover from assms(1) parts_dir_apart [OF assms(2,3)]
    have "fs_read fs path s' = fs_read fs path s1" by (auto simp: disk_laws_def s')
    ultimately show ?thesis using True read bytes(1) by simp
  next
    case False
    with assms(2,4) Inr show ?thesis
      by (auto simp: local_ensure_upload_completed_def call_then_def call_bind_Ok_iff call_simps
          call_unless_Ok_iff)
  qed
  with bytes blob_completion.converges [OF local_completion assms(4) [unfolded Inr]] Inr show ?thesis
    by auto
qed

section \<open>A disk\<close>

text \<open>A table of files satisfies the laws; directories are implicit in the paths.\<close>

type_synonym disk = "(string, string) table"

definition disk_read :: "string \<Rightarrow> disk \<Rightarrow> io_error + string" where
  "disk_read path s = (case table_get s path of None \<Rightarrow> Inl (IoNotFound ''not found'') | Some b \<Rightarrow> Inr b)"

definition sample_disk :: "disk file_system" where
  "sample_disk =
     \<lparr>fs_exists = (\<lambda>path s. table_get s path \<noteq> None),
      fs_open = (\<lambda>path s. map_sum id (\<lambda>_. ()) (disk_read path s)), fs_read = disk_read,
      fs_write = (\<lambda>path bytes s. (Inr (), table_insert path bytes s)),
      fs_create_dir_all = (\<lambda>path s. (Inr (), s)),
      fs_remove_dir_all = (\<lambda>dir s. (Inr (), filter (\<lambda>(path, _). \<not> below_dir dir path) s)),
      fs_remove_file = (\<lambda>path s. if table_get s path = None then (Inl (IoNotFound ''not found''), s)
        else (Inr (), table_remove path s))\<rparr>"

lemma filtered_get: "P path \<Longrightarrow> table_get (filter (\<lambda>(p, _). P p) s) path = table_get s path"
  by (induction s) auto

lemma sample_disk_laws: "disk_laws sample_disk"
  by (auto simp: disk_laws_def sample_disk_def disk_read_def table_simps filtered_get)

theorem local_completion_converges_witness:
  "let s = [(''/srv/blobs/u.parts/1'', ''ab''), (''/srv/blobs/u.parts/2'', ''c'')];
       complete = (\<lambda>ns. local_ensure_upload_completed sample_disk id sample_local (sample_completion ns)) in
   (\<exists>stat s'. complete [2, 1] s = Some (Ok stat, s') \<and> fs_read sample_disk ''/srv/blobs/u'' s' = Inr ''abc'' \<and>
      complete [7] s' = Some (Ok stat, s')) \<and>
   (\<exists>e. complete [1, 3] s = Some (Err e, s))"
proof -
  let ?s = "[(''/srv/blobs/u.parts/1'', ''ab''), (''/srv/blobs/u.parts/2'', ''c'')]"
  let ?complete = "\<lambda>ns. local_ensure_upload_completed sample_disk id sample_local (sample_completion ns)"
  have paths: "blob_path sample_local (cb_blob_ref (sample_completion ns)) = Ok ''/srv/blobs/u''"
    "parts_dir sample_local (cb_blob_ref (sample_completion ns)) = Ok ''/srv/blobs/u.parts''" for ns
    by (simp_all add: sample_completion_def) (code_simp, code_simp)
  note law = local_completion_converges [OF sample_disk_laws paths]
  have "map_option (\<lambda>(r, s). is_ok r) (?complete [2, 1] ?s) = Some True" by code_simp
  then obtain stat s' where first: "?complete [2, 1] ?s = Some (Ok stat, s')"
    by (auto simp: is_ok_iff)
  have parts: "cb_mode (sample_completion ns) = Multipart \<and> \<not> fs_exists sample_disk ''/srv/blobs/u'' ?s" for ns
    by (simp add: sample_completion_def) code_simp
  have read: "read_parts sample_disk ''/srv/blobs/u.parts''
      (sort (map cpt_part_number (cb_parts (sample_completion [2, 1])))) ?s = Ok ''abc''"
    by code_simp
  from law [OF first] parts read have again: "fs_read sample_disk ''/srv/blobs/u'' s' = Inr ''abc''"
    "?complete [7] s' = Some (Ok stat, s')"
    by (auto simp: sample_completion_def)
  let ?e = "StorageError ''missing uploaded part 3: not found''"
  have "map_option fst (?complete [1, 3] ?s) = Some (Err ?e)" by code_simp
  then obtain s'' where failed: "?complete [1, 3] ?s = Some (Err ?e, s'')" by auto
  have "read_parts sample_disk ''/srv/blobs/u.parts''
      (sort (map cpt_part_number (cb_parts (sample_completion [1, 3])))) ?s = Err ?e"
    by code_simp
  with law [OF failed] parts have "s'' = ?s" by simp
  with first again failed show ?thesis by (auto simp: Let_def)
qed

end
