(* ===== verification/HttpQuery.thy ===== *)
theory HttpQuery
  imports Utf8 DomainError
begin

text \<open>
  Query strings (\<open>anystore-http/src/request.rs\<close>): splitting and percent-decoding the pairs,
  looking one up, and the two parsers of parameters. Decoding works on bytes; its result is made
  text by replacing what is no UTF-8.
\<close>

section \<open>Decoding\<close>

definition hex_value :: "char \<Rightarrow> nat option" where
  "hex_value c =
     (if is_ascii_digit c then Some (of_char c - 48)
      else if in_range 65 70 c then Some (of_char c - 55)
      else if in_range 97 102 c then Some (of_char c - 87) else None)"

fun hex_values :: "string \<Rightarrow> nat \<Rightarrow> nat option" where
  "hex_values [] acc = Some acc"
| "hex_values (c # cs) acc =
     (case hex_value c of None \<Rightarrow> None | Some d \<Rightarrow> hex_values cs (16 * acc + d))"

text \<open>\<open>u8::from_str_radix(_, 16)\<close>: a \<open>+\<close> sign is accepted before the digits.\<close>

definition u8_from_hex :: "string \<Rightarrow> char option" where
  "u8_from_hex s =
     (let ds = (case s of [] \<Rightarrow> [] | c # cs \<Rightarrow> if c = CHR ''+'' then cs else s) in
      if ds = [] then None
      else (case hex_values ds 0 of
          None \<Rightarrow> None
        | Some n \<Rightarrow> if n < 256 then Some (char_of n) else None))"

fun decode_bytes :: "string \<Rightarrow> string" where
  "decode_bytes [] = []"
| "decode_bytes (c # cs) =
     (if c = CHR ''+'' then CHR '' '' # decode_bytes cs
      else if c = CHR ''%'' \<and> 2 \<le> length cs then
        (case u8_from_hex (case from_utf8 (take 2 cs) of Some hex \<Rightarrow> hex | None \<Rightarrow> []) of
           Some byte \<Rightarrow> byte # decode_bytes (drop 2 cs)
         | None \<Rightarrow> c # decode_bytes cs)
      else c # decode_bytes cs)"

definition url_decode :: "string \<Rightarrow> string" where
  "url_decode value = from_utf8_lossy (decode_bytes value)"

definition query_pairs :: "string option \<Rightarrow> (string \<times> string) list" where
  "query_pairs raw =
     (case raw of
        None \<Rightarrow> []
      | Some raw \<Rightarrow>
          map (\<lambda>pair.
            (case split_once (CHR ''='') pair of
               Some (k, v) \<Rightarrow> (url_decode k, url_decode v)
             | None \<Rightarrow> (url_decode pair, [])))
            (filter (\<lambda>p. p \<noteq> []) (split_on (CHR ''&'') raw)))"

section \<open>Parameters\<close>

definition find_param :: "(string \<times> string) list \<Rightarrow> string \<Rightarrow> string option" where
  "find_param pairs key =
     (case find (\<lambda>(k, _). k = key) pairs of
        None \<Rightarrow> None
      | Some (_, v) \<Rightarrow> if v = [] then None else Some v)"

definition parse_limit :: "(string \<times> string) list \<Rightarrow> 32 word option result" where
  "parse_limit pairs =
     (case find_param pairs ''limit'' of
        Some raw \<Rightarrow>
          (case parse_unsigned (2 ^ 32) raw of
             Some n \<Rightarrow> Ok (Some (of_nat n))
           | None \<Rightarrow> Err (InvalidRequest ''limit must be a positive integer.''))
      | None \<Rightarrow> Ok None)"

definition parse_bool :: "(string \<times> string) list \<Rightarrow> string \<Rightarrow> bool result" where
  "parse_bool pairs key =
     (case find_param pairs key of
        None \<Rightarrow> Ok False
      | Some v \<Rightarrow>
          if v = ''true'' then Ok True
          else if v = ''false'' then Ok False
          else Err (InvalidRequest (key @ '' must be true or false.'')))"

section \<open>What a client writes\<close>

text \<open>
  The encoding of a form field by a client: unreserved characters as they are, every other byte
  as a percent sign and two hexadecimal digits.
\<close>

definition unreserved :: "char \<Rightarrow> bool" where
  "unreserved c \<longleftrightarrow> is_ascii_alphanumeric c \<or> c \<in> {CHR ''-'', CHR ''.'', CHR ''_'', CHR ''~''}"

definition upper_hex :: "nat \<Rightarrow> char" where
  "upper_hex d = (if d < 10 then char_of (48 + d) else char_of (55 + d))"

definition encode_byte :: "char \<Rightarrow> string" where
  "encode_byte c =
     (if unreserved c then [c]
      else [CHR ''%'', upper_hex (of_char c div 16), upper_hex (of_char c mod 16)])"

definition url_encode :: "string \<Rightarrow> string" where
  "url_encode s = concat (map encode_byte s)"

definition encode_pairs :: "(string \<times> string) list \<Rightarrow> string" where
  "encode_pairs pairs = join ''&'' (map (\<lambda>(k, v). url_encode k @ ''='' @ url_encode v) pairs)"

lemma upper_hex_of_char:
  "d < 16 \<Longrightarrow> of_char (upper_hex d) = (if d < 10 then 48 + d else 55 + d :: nat)"
  by (simp add: upper_hex_def)

lemma upper_hex_value: "d < 16 \<Longrightarrow> hex_value (upper_hex d) = Some d"
  by (simp add: hex_value_def is_ascii_digit_def in_range_def upper_hex_of_char)

lemma upper_hex_ascii: "d < 16 \<Longrightarrow> of_char (upper_hex d) < (128 :: nat)"
  by (simp add: upper_hex_of_char)

lemma upper_hex_not_plus: "d < 16 \<Longrightarrow> upper_hex d \<noteq> CHR ''+''"
proof
  assume d: "d < 16" and "upper_hex d = CHR ''+''"
  then have "of_char (upper_hex d) = (43 :: nat)" by simp
  with d show False by (simp add: upper_hex_of_char split: if_splits)
qed

lemma ascii_utf8_valid: "list_all (\<lambda>c. of_char c < (128 :: nat)) s \<Longrightarrow> utf8_valid s"
proof (induction s)
  case (Cons c cs)
  then have "utf8_step (c # cs) = (1, True)" by (simp add: utf8_step_def byte_at_def)
  with Cons show ?case by (subst utf8_valid.simps) simp
qed simp

lemma hex_pair:
  assumes "a < 16" and "b < 16"
  shows "u8_from_hex (case from_utf8 [upper_hex a, upper_hex b] of Some hex \<Rightarrow> hex | None \<Rightarrow> []) =
    Some (char_of (16 * a + b))"
proof -
  have "utf8_valid [upper_hex a, upper_hex b]"
    using assms by (intro ascii_utf8_valid) (simp add: upper_hex_ascii)
  moreover have "16 * a + b < 256" using assms by simp
  ultimately show ?thesis
    using assms by (simp add: from_utf8_def u8_from_hex_def upper_hex_not_plus upper_hex_value)
qed

lemma decode_encoded_byte: "decode_bytes (encode_byte c @ t) = c # decode_bytes t"
proof (cases "unreserved c")
  case True
  then have "c \<noteq> CHR ''+''" "c \<noteq> CHR ''%''"
    by (auto simp: unreserved_def is_ascii_alphanumeric_def in_range_def)
  with True show ?thesis by (simp add: encode_byte_def)
next
  case False
  have "(of_char c :: nat) div 16 < 16" "(of_char c :: nat) mod 16 < 16"
    using of_char_less_256 [of c] by (simp_all add: less_mult_imp_div_less)
  from hex_pair [OF this] have "u8_from_hex (case from_utf8 [upper_hex (of_char c div 16), upper_hex (of_char c mod 16)]
      of Some hex \<Rightarrow> hex | None \<Rightarrow> []) = Some c"
    by (metis char_of_char mult_div_mod_eq)
  with False show ?thesis by (simp add: encode_byte_def)
qed

lemma decode_url_encode: "utf8_valid s \<Longrightarrow> url_decode (url_encode s) = s"
proof -
  have "decode_bytes (url_encode s) = s"
    by (induction s) (simp_all add: url_encode_def decode_encoded_byte)
  then show "utf8_valid s \<Longrightarrow> ?thesis" by (simp add: url_decode_def from_utf8_lossy_valid)
qed

lemma encode_byte_safe:
  assumes "x \<in> set (encode_byte c)"
  shows "x \<noteq> CHR ''&'' \<and> x \<noteq> CHR ''=''"
proof (cases "unreserved c")
  case True
  with assms show ?thesis
    by (auto simp: encode_byte_def unreserved_def is_ascii_alphanumeric_def in_range_def)
next
  case False
  have "upper_hex d \<noteq> CHR ''&'' \<and> upper_hex d \<noteq> CHR ''=''" if "d < 16" for d
    using upper_hex_of_char [OF that] that by (auto split: if_splits)
  moreover have "(of_char c :: nat) div 16 < 16" "(of_char c :: nat) mod 16 < 16"
    using of_char_less_256 [of c] by (simp_all add: less_mult_imp_div_less)
  ultimately show ?thesis using assms False by (auto simp: encode_byte_def)
qed

lemma url_encode_safe: "CHR ''&'' \<notin> set (url_encode s)" "CHR ''='' \<notin> set (url_encode s)"
  using encode_byte_safe by (auto simp: url_encode_def)

lemma split_join:
  assumes "ps \<noteq> []" and "\<And>p. p \<in> set ps \<Longrightarrow> c \<notin> set p"
  shows "split_on c (join [c] ps) = ps"
  using assms
proof (induction ps rule: induct_list012)
  case (3 p q ps)
  then show ?case by (simp add: split_on_append_sep)
qed (simp_all add: split_on_no_sep)

text \<open>
  Query parameters arrive as they were sent. Whatever pairs of text a client encodes into a
  query string - with any bytes in keys and values, the separators included, repeated and in any
  order - the server reads exactly these pairs in this order; and whatever bytes a request
  carries, every key and value that the server reads is text.
\<close>

theorem query_pairs_roundtrip:
  assumes "\<And>k v. (k, v) \<in> set pairs \<Longrightarrow> utf8_valid k \<and> utf8_valid v"
  shows "query_pairs (Some (encode_pairs pairs)) = pairs \<and>
    (\<forall>raw k v. (k, v) \<in> set (query_pairs raw) \<longrightarrow> utf8_valid k \<and> utf8_valid v)"
proof
  let ?enc = "\<lambda>(k, v). url_encode k @ ''='' @ url_encode v"
  show "query_pairs (Some (encode_pairs pairs)) = pairs"
  proof (cases "pairs = []")
    case True
    then show ?thesis by (simp add: query_pairs_def encode_pairs_def)
  next
    case False
    have "split_on (CHR ''&'') (encode_pairs pairs) = map ?enc pairs"
      unfolding encode_pairs_def using False
      by (intro split_join) (auto simp: url_encode_safe)
    moreover have "filter (\<lambda>p. p \<noteq> []) (map ?enc pairs) = map ?enc pairs" by (auto simp: filter_id_conv)
    moreover have "split_once (CHR ''='') (url_encode k @ ''='' @ url_encode v) =
        Some (url_encode k, url_encode v)" for k v
      by (simp add: split_once_Some url_encode_safe)
    ultimately show ?thesis
      using assms by (auto simp: query_pairs_def decode_url_encode intro!: map_idI)
  qed
  show "\<forall>raw k v. (k, v) \<in> set (query_pairs raw) \<longrightarrow> utf8_valid k \<and> utf8_valid v"
    by (auto simp: query_pairs_def url_decode_def utf8_valid_lossy split: option.splits)
qed

theorem query_pairs_roundtrip_witness:
  "query_pairs (Some (encode_pairs [(''path'', ''/a b&c=d''), (''path'', ''100%'')])) =
     [(''path'', ''/a b&c=d''), (''path'', ''100%'')]"
proof -
  have "list_all (\<lambda>(k, v). utf8_valid k \<and> utf8_valid v) [(''path'', ''/a b&c=d''), (''path'', ''100%'')]"
    by code_simp
  then have "utf8_valid k \<and> utf8_valid v"
    if "(k, v) \<in> set [(''path'', ''/a b&c=d''), (''path'', ''100%'')]" for k v
    using that unfolding list_all_iff by blast
  then show ?thesis by (rule query_pairs_roundtrip [THEN conjunct1])
qed

text \<open>A sign is taken for a hexadecimal digit: \<open>%+F\<close> is decoded to the byte 15.\<close>

lemma signed_escape: "url_decode ''%+F'' = [CHR 0x0F]" "u8_from_hex ''+F'' = Some (CHR 0x0F)"
  by code_simp+

end
