(* ===== verification/HttpRequest.thy ===== *)
theory HttpRequest
  imports HttpQuery Dto RequestHash
begin

text \<open>
  Request plumbing (\<open>anystore-http/src/request.rs\<close>) and the responses the handlers build. What
  the \<open>http\<close>, \<open>axum\<close> and \<open>serde_json\<close> crates do is in a record of functions: reading a header
  as text, accepting a header or a status, reading JSON, and matching a path against a table.
  A header map is the list of its entries, names in lower case; \<open>get\<close> is the first one.
\<close>

type_synonym header_map = "(string \<times> string) list"

record http_request =
  hq_method :: string
  hq_path :: string
  hq_query :: "string option"
  hq_headers :: header_map
  hq_body :: string
  hq_now :: time
  hq_elapsed_ms :: "64 word"

record http_response =
  hr_status :: nat
  hr_headers :: header_map
  hr_body :: string

record request_meta =
  rm_request_id :: request_id
  rm_principal_id :: principal_id

definition IDEMPOTENCY_HEADER :: string where
  "IDEMPOTENCY_HEADER = ''idempotency-key''"

definition IF_MATCH_HEADER :: string where
  "IF_MATCH_HEADER = ''if-match''"

definition MAX_IDEMPOTENCY_KEY_LEN :: nat where
  "MAX_IDEMPOTENCY_KEY_LEN = 255"

section \<open>The crates underneath\<close>

record create_body =
  cb_kind :: string
  cb_name :: string
  cb_parent_id :: "string option"
  cb_content_type :: "string option"
  cb_metadata :: "json option"

record patch_body =
  pb_name :: "string option"
  pb_parent_id :: "string option"
  pb_metadata :: "metadata_patch option"

record upload_body =
  ub_object_id :: string
  ub_size :: "64 word"
  ub_content_type :: "string option"
  ub_sha256 :: "string option"

record http_lib =
  hl_to_str :: "string \<Rightarrow> string option"
  hl_header_ok :: "string \<Rightarrow> string \<Rightarrow> bool"
  hl_build_error :: string
  hl_status_ok :: "nat \<Rightarrow> bool"
  hl_from_slice :: "string \<Rightarrow> string + json"
  hl_create_body :: "json \<Rightarrow> string + create_body"
  hl_patch_body :: "json \<Rightarrow> string + patch_body"
  hl_upload_body :: "json \<Rightarrow> string + upload_body"
  hl_parts_body :: "json \<Rightarrow> string + 32 word list"

section \<open>Headers that control writes\<close>

definition header_value :: "http_lib \<Rightarrow> header_map \<Rightarrow> string \<Rightarrow> string option result" where
  "header_value lib headers name =
     (case map_of headers name of
        None \<Rightarrow> Ok None
      | Some value \<Rightarrow>
          (case hl_to_str lib value of
             None \<Rightarrow> Err (InvalidRequest (name @ '' must be ASCII.''))
           | Some text \<Rightarrow> Ok (if trim text = [] then None else Some (trim text))))"

definition parse_if_match :: "http_lib \<Rightarrow> header_map \<Rightarrow> revision option result" where
  "parse_if_match lib headers =
     rbind (header_value lib headers IF_MATCH_HEADER) (\<lambda>found.
       (case found of
          None \<Rightarrow> Ok None
        | Some raw \<Rightarrow>
            (case parse_unsigned (2 ^ 64) (trim_matches (CHR 0x22) raw) of
               Some n \<Rightarrow> Ok (Some (of_nat n))
             | None \<Rightarrow> Err (InvalidRequest ''If-Match must be an object revision number.''))))"

definition idempotency_key_of :: "http_lib \<Rightarrow> header_map \<Rightarrow> idempotency_key option result" where
  "idempotency_key_of lib headers =
     rbind (header_value lib headers IDEMPOTENCY_HEADER) (\<lambda>found.
       (case found of
          None \<Rightarrow> Ok None
        | Some raw \<Rightarrow>
            if MAX_IDEMPOTENCY_KEY_LEN < length raw \<or> \<not> list_all is_ascii_graphic raw
            then Err (InvalidRequest (''Idempotency-Key must be 1-'' @ dec_nat MAX_IDEMPOTENCY_KEY_LEN @
              '' visible ASCII characters.''))
            else Ok (Some raw)))"

definition http_context ::
  "http_lib \<Rightarrow> ('m, 'b) app_env \<Rightarrow> request_meta \<Rightarrow> http_request \<Rightarrow> string \<Rightarrow> string \<Rightarrow> string \<Rightarrow>
   (string \<times> string) list \<Rightarrow> string \<Rightarrow> request_context result" where
  "http_context lib env meta req method route target query body =
     rbind (parse_if_match lib (hq_headers req)) (\<lambda>if_match.
     rbind (idempotency_key_of lib (hq_headers req)) (\<lambda>key.
       Ok \<lparr>rq_request_id = rm_request_id meta, rq_principal_id = rm_principal_id meta,
           rq_operation = method @ '' '' @ route, rq_idempotency_key = key,
           rq_request_hash = canonical_request_hash (ae_sha256 env) (rm_principal_id meta) method
             route target query body if_match,
           rq_if_match = if_match, rq_now = hq_now req\<rparr>))"

section \<open>Bodies and ids\<close>

definition parse_json :: "http_lib \<Rightarrow> string \<Rightarrow> json result" where
  "parse_json lib body =
     (if list_all is_ascii_whitespace body then Ok (JObject [])
      else (case hl_from_slice lib body of
          Inr v \<Rightarrow> Ok v
        | Inl e \<Rightarrow> Err (InvalidRequest (''Invalid JSON body: '' @ e))))"

definition typed_body :: "http_lib \<Rightarrow> (json \<Rightarrow> string + 'a) \<Rightarrow> string \<Rightarrow> 'a result" where
  "typed_body lib read body =
     rbind (parse_json lib body) (\<lambda>v.
       (case read v of
          Inr parsed \<Rightarrow> Ok parsed
        | Inl e \<Rightarrow> Err (InvalidRequest (''Invalid request body: '' @ e))))"

definition object_id_of :: "string \<Rightarrow> object_id result" where
  "object_id_of raw = (if raw = [] then Err (InvalidRequest ''Missing object id.'') else Ok raw)"

definition upload_id_of :: "string \<Rightarrow> upload_id result" where
  "upload_id_of raw = (if raw = [] then Err (InvalidRequest ''Missing upload id.'') else Ok raw)"

section \<open>Responses\<close>

text \<open>
  A response builder fails on a header it does not accept, which the code turns into a panic;
  a status it does not accept is replaced by 500 before.
\<close>

definition build_response ::
  "http_lib \<Rightarrow> nat \<Rightarrow> header_map \<Rightarrow> string \<Rightarrow> http_response option" where
  "build_response lib status_code headers body =
     (if list_all (\<lambda>(name, value). hl_header_ok lib name value) headers
      then Some \<lparr>hr_status = status_code, hr_headers = headers, hr_body = body\<rparr> else None)"

definition status_or_500 :: "http_lib \<Rightarrow> nat \<Rightarrow> nat" where
  "status_or_500 lib n = (if hl_status_ok lib n then n else 500)"

definition json_headers :: "request_id \<Rightarrow> header_map" where
  "json_headers rid = [(''content-type'', ''application/json''), (''x-request-id'', rid)]"

definition stored_http_response ::
  "http_lib \<Rightarrow> stored_response \<Rightarrow> request_id \<Rightarrow> http_response option" where
  "stored_http_response lib stored rid =
     build_response lib (status_or_500 lib (sr_status stored))
       ((''x-request-id'', rid) # sr_headers stored) (sr_body stored)"

definition json_response ::
  "http_lib \<Rightarrow> ('m, 'b) app_env \<Rightarrow> nat \<Rightarrow> json \<Rightarrow> request_id \<Rightarrow> http_response option" where
  "json_response lib env status_code value rid =
     build_response lib status_code (json_headers rid)
       (case ae_to_vec env value of Some body \<Rightarrow> body | None \<Rightarrow> [])"

definition INTERNAL_BODY :: string where
  "INTERNAL_BODY =
     [CHR 0x7B, CHR 0x22] @ ''error'' @ [CHR 0x22] @ '':'' @ [CHR 0x22] @ ''internal_error'' @
     [CHR 0x22, CHR 0x7D]"

definition body_or_internal :: "('m, 'b) app_env \<Rightarrow> json \<Rightarrow> string" where
  "body_or_internal env v = (case ae_to_vec env v of Some body \<Rightarrow> body | None \<Rightarrow> INTERNAL_BODY)"

definition error_response ::
  "http_lib \<Rightarrow> ('m, 'b) app_env \<Rightarrow> domain_error \<Rightarrow> request_id \<Rightarrow> http_response option" where
  "error_response lib env e rid =
     build_response lib (status_or_500 lib (status e)) (json_headers rid)
       (body_or_internal env (error_json e rid))"

definition status_error_response ::
  "http_lib \<Rightarrow> ('m, 'b) app_env \<Rightarrow> nat \<Rightarrow> string \<Rightarrow> string \<Rightarrow> request_id \<Rightarrow> http_response option" where
  "status_error_response lib env status_code error_code message rid =
     build_response lib status_code (json_headers rid)
       (body_or_internal env (JObject
         [(''error'', JString error_code), (''message'', JString message), (''request_id'', JString rid)]))"

end
