(* ===== verification/HttpHandlers.thy ===== *)
theory HttpHandlers
  imports HttpRequest AppUploads AppMaintenance
begin

text \<open>
  The handlers (\<open>anystore-http/src/objects.rs\<close>, \<open>query.rs\<close>, \<open>uploads.rs\<close>, \<open>content.rs\<close>,
  \<open>changes.rs\<close>, \<open>maintenance.rs\<close>, \<open>metrics.rs\<close>) and \<open>respond\<close> of \<open>lib.rs\<close>, which turns an
  error into the error envelope. A handler is a call over the state of the process: the guard of
  the maintenance service, and the world of the application. A response that cannot be built is
  a panic, so it is \<open>None\<close>.
\<close>

type_synonym ('m, 'b) process = "bool \<times> ('m, 'b) world"

type_synonym ('m, 'b) handler = "(('m, 'b) process, http_response) call"

record ('m, 'b) http_state =
  hs_env :: "('m, 'b) app_env"
  hs_lib :: http_lib
  hs_token :: "string option"
  hs_batch_size :: "32 word"
  hs_late :: "nat \<Rightarrow> bool"
  hs_fuel :: nat

definition on_world :: "(('m, 'b) world, 'a) call \<Rightarrow> (('m, 'b) process, 'a) call" where
  "on_world c p = map_option (\<lambda>(r, w). (r, (fst p, w))) (c (snd p))"

definition call_expect :: "'a option \<Rightarrow> ('s, 'a) call" where
  "call_expect x = (case x of None \<Rightarrow> call_panic | Some a \<Rightarrow> call_ok a)"

section \<open>Errors\<close>

definition record_error :: "domain_error \<Rightarrow> metrics \<Rightarrow> metrics" where
  "record_error e m =
     (case e of
        RevisionConflict _ \<Rightarrow> m\<lparr>mt_revision_conflicts_total := counter_incr (mt_revision_conflicts_total m)\<rparr>
      | StorageError _ \<Rightarrow> m\<lparr>mt_blob_provider_errors_total := counter_incr (mt_blob_provider_errors_total m)\<rparr>
      | Internal _ \<Rightarrow> m\<lparr>mt_db_errors_total := counter_incr (mt_db_errors_total m)\<rparr>
      | _ \<Rightarrow> m)"

definition respond ::
  "('m, 'b) http_state \<Rightarrow> request_meta \<Rightarrow> ('m, 'b) handler \<Rightarrow> ('m, 'b) handler" where
  "respond hs meta m =
     call_catch m (\<lambda>e. call_then (on_world (on_metrics (record_error e)))
       (call_expect (error_response (hs_lib hs) (hs_env hs) e (rm_request_id meta))))"

section \<open>Answers\<close>

definition answer_stored ::
  "('m, 'b) http_state \<Rightarrow> request_context \<Rightarrow> (('m, 'b) world, stored_response) call \<Rightarrow> ('m, 'b) handler" where
  "answer_stored hs ctx m =
     call_bind (on_world m) (\<lambda>stored.
       call_expect (stored_http_response (hs_lib hs) stored (rq_request_id ctx)))"

definition answer_json ::
  "('m, 'b) http_state \<Rightarrow> request_meta \<Rightarrow> nat \<Rightarrow> (('m, 'b) world, json) call \<Rightarrow> ('m, 'b) handler" where
  "answer_json hs meta status_code m =
     call_bind (on_world m) (\<lambda>value.
       call_expect (json_response (hs_lib hs) (hs_env hs) status_code value (rm_request_id meta)))"

text \<open>A write: the context of the request, then the rest of the handler with it.\<close>

definition with_context ::
  "('m, 'b) http_state \<Rightarrow> request_meta \<Rightarrow> http_request \<Rightarrow> string \<Rightarrow> string \<Rightarrow> string \<Rightarrow>
   (string \<times> string) list \<Rightarrow> string \<Rightarrow> (request_context \<Rightarrow> ('m, 'b) handler) \<Rightarrow> ('m, 'b) handler" where
  "with_context hs meta req method route target query body f =
     respond hs meta
       (call_bind (call_result (http_context (hs_lib hs) (hs_env hs) meta req method route target query body)) f)"

section \<open>Objects\<close>

definition parse_kind :: "string \<Rightarrow> object_kind result" where
  "parse_kind raw =
     ok_or (InvalidRequest ''kind must be 'file' or 'folder'.'') (object_kind_parse raw)"

definition http_create ::
  "('m, 'b) http_state \<Rightarrow> request_meta \<Rightarrow> http_request \<Rightarrow> ('m, 'b) handler" where
  "http_create hs meta req =
     with_context hs meta req ''POST'' ''/objects'' [] [] (hq_body req) (\<lambda>ctx.
       call_bind (call_result (typed_body (hs_lib hs) (hl_create_body (hs_lib hs)) (hq_body req))) (\<lambda>parsed.
       call_bind (call_result (parse_kind (cb_kind parsed))) (\<lambda>kind.
       answer_stored hs ctx (app_create (hs_env hs)
         \<lparr>cq_kind = kind, cq_name = cb_name parsed, cq_parent_id = cb_parent_id parsed,
          cq_content_type = cb_content_type parsed, cq_metadata = cb_metadata parsed\<rparr> ctx))))"

definition http_get ::
  "('m, 'b) http_state \<Rightarrow> request_meta \<Rightarrow> string \<Rightarrow> ('m, 'b) handler" where
  "http_get hs meta i =
     respond hs meta
       (call_bind (call_result (object_id_of i)) (\<lambda>i.
         answer_json hs meta 200 (app_get (hs_env hs) i)))"

definition http_patch ::
  "('m, 'b) http_state \<Rightarrow> request_meta \<Rightarrow> string \<Rightarrow> http_request \<Rightarrow> ('m, 'b) handler" where
  "http_patch hs meta i req =
     with_context hs meta req ''PATCH'' ''/objects/{id}'' i [] (hq_body req) (\<lambda>ctx.
       call_bind (call_result (typed_body (hs_lib hs) (hl_patch_body (hs_lib hs)) (hq_body req))) (\<lambda>parsed.
       call_bind (call_result (object_id_of i)) (\<lambda>i.
       answer_stored hs ctx (app_patch (hs_env hs) i
         \<lparr>pq_name = pb_name parsed, pq_parent_id = pb_parent_id parsed,
          pq_metadata = pb_metadata parsed\<rparr> ctx))))"

definition http_delete ::
  "('m, 'b) http_state \<Rightarrow> request_meta \<Rightarrow> string \<Rightarrow> http_request \<Rightarrow> ('m, 'b) handler" where
  "http_delete hs meta i req =
     (let pairs = query_pairs (hq_query req) in
      with_context hs meta req ''DELETE'' ''/objects/{id}'' i pairs [] (\<lambda>ctx.
        call_bind (call_result (parse_bool pairs ''recursive'')) (\<lambda>recursive.
        call_bind (call_result (object_id_of i)) (\<lambda>i.
        answer_stored hs ctx (app_delete (hs_env hs) i recursive ctx)))))"

definition parse_order_by :: "(string \<times> string) list \<Rightarrow> order_by result" where
  "parse_order_by pairs =
     (case find_param pairs ''order_by'' of
        Some raw \<Rightarrow> ok_or (InvalidRequest ''order_by must be name, created_at, updated_at or size.'')
          (order_by_parse raw)
      | None \<Rightarrow> Ok ByName)"

definition parse_order :: "(string \<times> string) list \<Rightarrow> list_order result" where
  "parse_order pairs =
     (case find_param pairs ''order'' of
        Some raw \<Rightarrow> ok_or (InvalidRequest ''order must be asc or desc.'') (list_order_parse raw)
      | None \<Rightarrow> Ok Asc)"

definition http_children ::
  "('m, 'b) http_state \<Rightarrow> request_meta \<Rightarrow> string \<Rightarrow> http_request \<Rightarrow> ('m, 'b) handler" where
  "http_children hs meta i req =
     (let pairs = query_pairs (hq_query req) in
      respond hs meta
        (call_bind (call_result (parse_order_by pairs)) (\<lambda>order_by.
         call_bind (call_result (parse_order pairs)) (\<lambda>order.
         call_bind (call_result (object_id_of i)) (\<lambda>i.
         call_bind (call_result (parse_limit pairs)) (\<lambda>limit.
         answer_json hs meta 200 (app_list_children (hs_env hs)
           \<lparr>lq_parent_id = i, lq_limit = limit, lq_cursor = find_param pairs ''cursor'',
            lq_order_by = order_by, lq_order = order\<rparr>)))))))"

definition http_resolve ::
  "('m, 'b) http_state \<Rightarrow> request_meta \<Rightarrow> http_request \<Rightarrow> ('m, 'b) handler" where
  "http_resolve hs meta req =
     respond hs meta
       (call_bind (call_result (ok_or (InvalidRequest ''path is required.'')
           (find_param (query_pairs (hq_query req)) ''path''))) (\<lambda>path.
         answer_json hs meta 200 (app_resolve (hs_env hs) path)))"

section \<open>Queries\<close>

fun as_str :: "json \<Rightarrow> string option" where
  "as_str (JString s) = Some s"
| "as_str _ = None"

fun as_bool :: "json \<Rightarrow> bool option" where
  "as_bool (JBool b) = Some b"
| "as_bool _ = None"

fun as_u64 :: "json \<Rightarrow> 64 word option" where
  "as_u64 (JNumber (PosInt n)) = Some n"
| "as_u64 _ = None"

definition u32_try_from :: "64 word \<Rightarrow> 32 word option" where
  "u32_try_from n = (if unat n < 2 ^ 32 then Some (of_nat (unat n)) else None)"

definition option_bind :: "'a option \<Rightarrow> ('a \<Rightarrow> 'b option) \<Rightarrow> 'b option" where
  "option_bind x f = (case x of None \<Rightarrow> None | Some a \<Rightarrow> f a)"

definition parse_condition :: "string \<Rightarrow> json \<Rightarrow> metadata_condition result" where
  "parse_condition key condition =
     (case condition of
        JObject m \<Rightarrow>
          (case m of
             [(operator, operand)] \<Rightarrow>
               if operator = ''eq'' then Ok (MetaEq operand)
               else if operator = ''exists'' then
                 rbind (ok_or (InvalidRequest ''exists must be a boolean.'') (as_bool operand))
                   (\<lambda>b. Ok (MetaExists b))
               else Err (InvalidRequest (''unsupported metadata operator '' @ debug_str operator @
                 ''; v1 supports eq and exists.''))
           | _ \<Rightarrow> Err (InvalidRequest (''metadata condition for '' @ debug_str key @
               '' must specify exactly one operator.'')))
      | _ \<Rightarrow> Err (InvalidRequest (''metadata condition for '' @ debug_str key @
          '' must be an object.'')))"

definition parse_conditions :: "json option \<Rightarrow> (string \<times> metadata_condition) list result" where
  "parse_conditions found =
     (case found of
        None \<Rightarrow> Ok []
      | Some (JObject m) \<Rightarrow>
          rmap (\<lambda>(key, condition). rbind (parse_condition key condition) (\<lambda>c. Ok (key, c))) m
      | Some _ \<Rightarrow> Err (InvalidRequest ''metadata must be an object of conditions.''))"

definition query_kind :: "json \<Rightarrow> object_kind option result" where
  "query_kind parsed =
     (case option_bind (json_get parsed ''kind'') as_str of
        Some raw \<Rightarrow> rbind (parse_kind raw) (\<lambda>kind. Ok (Some kind))
      | None \<Rightarrow> Ok None)"

definition query_limit :: "json \<Rightarrow> 32 word option result" where
  "query_limit parsed =
     (case json_get parsed ''limit'' of
        None \<Rightarrow> Ok None
      | Some JNull \<Rightarrow> Ok None
      | Some v \<Rightarrow>
          rbind (ok_or (InvalidRequest ''limit must be a positive integer.'')
              (option_bind (as_u64 v) u32_try_from))
            (\<lambda>n. Ok (Some n)))"

definition http_query ::
  "('m, 'b) http_state \<Rightarrow> request_meta \<Rightarrow> http_request \<Rightarrow> ('m, 'b) handler" where
  "http_query hs meta req =
     respond hs meta
       (call_bind (call_result (parse_json (hs_lib hs) (hq_body req))) (\<lambda>parsed.
        call_bind (call_result (query_kind parsed)) (\<lambda>kind.
        call_bind (call_result (query_limit parsed)) (\<lambda>limit.
        call_bind (call_result (parse_conditions (json_get parsed ''metadata''))) (\<lambda>conditions.
        answer_json hs meta 200 (app_query (hs_env hs)
          \<lparr>qq_kind = kind, qq_name = option_bind (json_get parsed ''name'') as_str,
           qq_parent_id = option_bind (json_get parsed ''parent_id'') as_str,
           qq_metadata = conditions, qq_limit = limit,
           qq_cursor = option_bind (json_get parsed ''cursor'') as_str\<rparr>))))))"

section \<open>Uploads\<close>

definition parse_completed_part :: "json \<Rightarrow> completed_part result" where
  "parse_completed_part part =
     rbind (ok_or (InvalidRequest ''part_number must be a positive integer.'')
         (option_bind (option_bind (json_get part ''part_number'') as_u64) u32_try_from)) (\<lambda>n.
     rbind (ok_or (InvalidRequest ''etag is required.'')
         (option_bind (json_get part ''etag'') as_str)) (\<lambda>etag.
     Ok \<lparr>cpt_part_number = n, cpt_etag = etag\<rparr>))"

definition parse_completed_parts :: "json \<Rightarrow> completed_part list result" where
  "parse_completed_parts v =
     (case json_get v ''parts'' of
        None \<Rightarrow> Ok []
      | Some (JArray parts) \<Rightarrow> rmap parse_completed_part parts
      | Some _ \<Rightarrow> Err (InvalidRequest ''parts must be an array.''))"

definition http_create_upload ::
  "('m, 'b) http_state \<Rightarrow> request_meta \<Rightarrow> http_request \<Rightarrow> ('m, 'b) handler" where
  "http_create_upload hs meta req =
     with_context hs meta req ''POST'' ''/uploads'' [] [] (hq_body req) (\<lambda>ctx.
       call_bind (call_result (typed_body (hs_lib hs) (hl_upload_body (hs_lib hs)) (hq_body req))) (\<lambda>parsed.
       answer_stored hs ctx (upload_create (hs_env hs)
         \<lparr>uq_object_id = ub_object_id parsed, uq_size = ub_size parsed,
          uq_content_type = ub_content_type parsed, uq_sha256 = ub_sha256 parsed\<rparr> ctx)))"

definition http_parts ::
  "('m, 'b) http_state \<Rightarrow> request_meta \<Rightarrow> string \<Rightarrow> http_request \<Rightarrow> ('m, 'b) handler" where
  "http_parts hs meta i req =
     with_context hs meta req ''POST'' ''/uploads/{id}/parts'' i [] (hq_body req) (\<lambda>ctx.
       call_bind (call_result (typed_body (hs_lib hs) (hl_parts_body (hs_lib hs)) (hq_body req))) (\<lambda>numbers.
       call_bind (call_result (upload_id_of i)) (\<lambda>i.
       answer_stored hs ctx (upload_allocate_parts (hs_env hs) i numbers ctx))))"

definition http_complete ::
  "('m, 'b) http_state \<Rightarrow> request_meta \<Rightarrow> string \<Rightarrow> http_request \<Rightarrow> ('m, 'b) handler" where
  "http_complete hs meta i req =
     with_context hs meta req ''POST'' ''/uploads/{id}/complete'' i [] (hq_body req) (\<lambda>ctx.
       call_bind (call_result (parse_json (hs_lib hs) (hq_body req))) (\<lambda>parsed.
       call_bind (call_result (upload_id_of i)) (\<lambda>i.
       call_bind (call_result (parse_completed_parts parsed)) (\<lambda>parts.
       answer_stored hs ctx (upload_complete (hs_env hs) i \<lparr>kq_parts = parts\<rparr> ctx)))))"

definition http_abort ::
  "('m, 'b) http_state \<Rightarrow> request_meta \<Rightarrow> string \<Rightarrow> http_request \<Rightarrow> ('m, 'b) handler" where
  "http_abort hs meta i req =
     with_context hs meta req ''DELETE'' ''/uploads/{id}'' i [] [] (\<lambda>ctx.
       call_bind (call_result (upload_id_of i)) (\<lambda>i.
       answer_stored hs ctx (upload_abort (hs_env hs) i ctx)))"

section \<open>Content\<close>

definition http_get_content ::
  "('m, 'b) http_state \<Rightarrow> request_meta \<Rightarrow> string \<Rightarrow> ('m, 'b) handler" where
  "http_get_content hs meta i =
     respond hs meta
       (call_bind (call_result (object_id_of i)) (\<lambda>i.
        call_bind (on_world (content_location_of (hs_env hs) i)) (\<lambda>location.
        call_expect (build_response (hs_lib hs) 307
          [(''location'', cl_url location), (''cache-control'', ''no-store''),
           (''x-request-id'', rm_request_id meta)] []))))"

definition optional_header :: "http_lib \<Rightarrow> string \<Rightarrow> string option \<Rightarrow> header_map" where
  "optional_header lib name value =
     (case value of
        None \<Rightarrow> []
      | Some v \<Rightarrow> if hl_header_ok lib name v then [(name, v)] else [])"

text \<open>Here a response that cannot be built is an error, not a panic.\<close>

definition http_head_content ::
  "('m, 'b) http_state \<Rightarrow> request_meta \<Rightarrow> string \<Rightarrow> ('m, 'b) handler" where
  "http_head_content hs meta i =
     respond hs meta
       (call_bind (call_result (object_id_of i)) (\<lambda>i.
        call_bind (on_world (content_head_of (hs_env hs) i)) (\<lambda>head.
        call_result (ok_or (Internal (''head response: '' @ hl_build_error (hs_lib hs))) (build_response (hs_lib hs) 200
          ([(''content-length'', dec_nat (unat (ch_size head))), (''x-request-id'', rm_request_id meta)] @
           optional_header (hs_lib hs) ''content-type'' (ch_content_type head) @
           optional_header (hs_lib hs) ''x-anystore-sha256'' (ch_sha256 head)) [])))))"

section \<open>Changes, maintenance, metrics\<close>

definition http_changes ::
  "('m, 'b) http_state \<Rightarrow> request_meta \<Rightarrow> http_request \<Rightarrow> ('m, 'b) handler" where
  "http_changes hs meta req =
     (let pairs = query_pairs (hq_query req) in
      respond hs meta
        (call_bind (call_result (parse_limit pairs)) (\<lambda>limit.
         answer_json hs meta 200
           (app_read_changes (hs_env hs) (find_param pairs ''cursor'') limit (hq_now req)))))"

definition report_json :: "maintenance_report \<Rightarrow> json" where
  "report_json report =
     JObject
       [(''status'', JString ''completed''), (''drained'', JBool (mr_drained report)),
        (''uploads_expired'', json_u64 (ucast (mr_uploads_expired report))),
        (''blobs_deleted'', json_u64 (ucast (mr_blobs_deleted report))),
        (''blobs_failed'', json_u64 (ucast (mr_blobs_failed report))),
        (''idempotency_purged'', json_u64 (of_nat (mr_idempotency_purged report))),
        (''cursors_purged'', json_u64 (of_nat (mr_cursors_purged report))),
        (''changes_purged'', json_u64 (of_nat (mr_changes_purged report)))]"

definition http_maintenance ::
  "('m, 'b) http_state \<Rightarrow> request_meta \<Rightarrow> http_request \<Rightarrow> ('m, 'b) handler" where
  "http_maintenance hs meta req =
     respond hs meta
       (call_bind (maintenance_run (hs_env hs) (hs_batch_size hs) (hq_now req) (hs_late hs) (hs_fuel hs))
         (\<lambda>outcome.
            (case outcome of
               None \<Rightarrow> call_expect (json_response (hs_lib hs) (hs_env hs) 202
                 (JObject [(''status'', JString ''already_running'')]) (rm_request_id meta))
             | Some report \<Rightarrow> call_expect (json_response (hs_lib hs) (hs_env hs) 200
                 (report_json report) (rm_request_id meta)))))"

definition http_metrics :: "('m, 'b) handler" where
  "http_metrics p =
     call_ok \<lparr>hr_status = 200, hr_headers = [(''content-type'', ''text/plain; version=0.0.4'')],
              hr_body = metrics_render (w_metrics (snd p))\<rparr> p"

definition http_healthz :: "('m, 'b) handler" where
  "http_healthz = call_ok \<lparr>hr_status = 200, hr_headers = [(''content-type'', ''text/plain; charset=utf-8'')],
                          hr_body = ''ok''\<rparr>"

end
