(* ===== verification/HttpServer.thy ===== *)
theory HttpServer
  imports HttpHandlers
begin

text \<open>
  The request pipeline (\<open>anystore-http/src/middleware.rs\<close>) around the router (\<open>lib.rs\<close>): request
  id, authentication, the limit on bodies and the counters. Matching a request against the
  routes is \<open>axum\<close>'s, an argument that is given the table; a handler that panics is \<open>None\<close>.
\<close>

section \<open>Authentication\<close>

definition secret_eq :: "string \<Rightarrow> string \<Rightarrow> bool" where
  "secret_eq a b =
     (if length a \<noteq> length b then False
      else fold (\<lambda>(x, y) acc. or acc (xor x y)) (zip (map of_char a) (map of_char b)) (0 :: 8 word) = 0)"

definition presented_token :: "http_lib \<Rightarrow> header_map \<Rightarrow> string" where
  "presented_token lib headers =
     (case option_bind (option_bind (map_of headers ''authorization'') (hl_to_str lib))
         (strip_prefix ''Bearer '') of
        Some v \<Rightarrow> trim v
      | None \<Rightarrow> [])"

definition authenticate :: "http_lib \<Rightarrow> string option \<Rightarrow> header_map \<Rightarrow> principal_id result" where
  "authenticate lib token headers =
     (case token of
        None \<Rightarrow> Ok local_principal
      | Some expected \<Rightarrow>
          if secret_eq (presented_token lib headers) expected then Ok local_principal
          else Err Unauthorized)"

definition is_public :: "string \<Rightarrow> bool" where
  "is_public path \<longleftrightarrow> path = ''/healthz'' \<or> path = ''/metrics''"

section \<open>Routes\<close>

datatype endpoint =
    ECreate | EGet | EPatch | EDelete | EChildren | EContent | EHeadContent | EResolve | EQuery
  | ECreateUpload | EAbort | EParts | EComplete | EChanges | EMaintenance | EHealthz | EMetrics

type_synonym route_table = "(string \<times> (string \<times> endpoint) list) list"

definition api_routes :: route_table where
  "api_routes =
     [(''/objects'', [(''POST'', ECreate)]),
      (''/objects/{id}'', [(''GET'', EGet), (''PATCH'', EPatch), (''DELETE'', EDelete)]),
      (''/objects/{id}/children'', [(''GET'', EChildren)]),
      (''/objects/{id}/content'', [(''GET'', EContent), (''HEAD'', EHeadContent)]),
      (''/resolve'', [(''GET'', EResolve)]),
      (''/query'', [(''POST'', EQuery)]),
      (''/uploads'', [(''POST'', ECreateUpload)]),
      (''/uploads/{id}'', [(''DELETE'', EAbort)]),
      (''/uploads/{id}/parts'', [(''POST'', EParts)]),
      (''/uploads/{id}/complete'', [(''POST'', EComplete)]),
      (''/changes'', [(''GET'', EChanges)])]"

definition routes :: route_table where
  "routes =
     map (\<lambda>(p, handlers). (''/api/v1'' @ p, handlers)) api_routes @
     [(''/internal/maintenance'', [(''POST'', EMaintenance)]),
      (''/healthz'', [(''GET'', EHealthz)]), (''/metrics'', [(''GET'', EMetrics)])]"

text \<open>What matching answers: a handler with the captured id, no such method, or no such path.\<close>

datatype matched = Matched endpoint string | NoMethod | NoRoute

type_synonym matcher = "route_table \<Rightarrow> string \<Rightarrow> string \<Rightarrow> matched"

definition not_found :: "('m, 'b) http_state \<Rightarrow> request_meta \<Rightarrow> ('m, 'b) handler" where
  "not_found hs meta =
     call_expect (status_error_response (hs_lib hs) (hs_env hs) 404 ''invalid_request''
       ''Route not found.'' (rm_request_id meta))"

definition method_not_allowed :: "('m, 'b) http_state \<Rightarrow> request_meta \<Rightarrow> ('m, 'b) handler" where
  "method_not_allowed hs meta =
     call_expect (status_error_response (hs_lib hs) (hs_env hs) 405 ''invalid_request''
       ''Method not allowed.'' (rm_request_id meta))"

fun run_endpoint ::
  "('m, 'b) http_state \<Rightarrow> request_meta \<Rightarrow> endpoint \<Rightarrow> string \<Rightarrow> http_request \<Rightarrow> ('m, 'b) handler" where
  "run_endpoint hs meta ECreate i req = http_create hs meta req"
| "run_endpoint hs meta EGet i req = http_get hs meta i"
| "run_endpoint hs meta EPatch i req = http_patch hs meta i req"
| "run_endpoint hs meta EDelete i req = http_delete hs meta i req"
| "run_endpoint hs meta EChildren i req = http_children hs meta i req"
| "run_endpoint hs meta EContent i req = http_get_content hs meta i"
| "run_endpoint hs meta EHeadContent i req = http_head_content hs meta i"
| "run_endpoint hs meta EResolve i req = http_resolve hs meta req"
| "run_endpoint hs meta EQuery i req = http_query hs meta req"
| "run_endpoint hs meta ECreateUpload i req = http_create_upload hs meta req"
| "run_endpoint hs meta EAbort i req = http_abort hs meta i req"
| "run_endpoint hs meta EParts i req = http_parts hs meta i req"
| "run_endpoint hs meta EComplete i req = http_complete hs meta i req"
| "run_endpoint hs meta EChanges i req = http_changes hs meta req"
| "run_endpoint hs meta EMaintenance i req = http_maintenance hs meta req"
| "run_endpoint hs meta EHealthz i req = http_healthz"
| "run_endpoint hs meta EMetrics i req = http_metrics"

definition router ::
  "('m, 'b) http_state \<Rightarrow> matcher \<Rightarrow> request_meta \<Rightarrow> http_request \<Rightarrow> ('m, 'b) handler" where
  "router hs match_route meta req =
     (case match_route routes (hq_method req) (hq_path req) of
        Matched endpoint i \<Rightarrow> run_endpoint hs meta endpoint i req
      | NoMethod \<Rightarrow> method_not_allowed hs meta
      | NoRoute \<Rightarrow> not_found hs meta)"

section \<open>The pipeline\<close>

definition MAX_BODY_BYTES :: nat where
  "MAX_BODY_BYTES = 1024 * 1024"

definition count_request :: "http_request \<Rightarrow> metrics \<Rightarrow> metrics" where
  "count_request req m =
     m\<lparr>mt_http_requests_total := counter_incr (mt_http_requests_total m),
       mt_http_request_duration_ms_total :=
         counter_add (hq_elapsed_ms req) (mt_http_request_duration_ms_total m)\<rparr>"

definition header_insert :: "string \<Rightarrow> string \<Rightarrow> header_map \<Rightarrow> header_map" where
  "header_insert name value headers = (name, value) # filter (\<lambda>(n, _). n \<noteq> name) headers"

definition with_request_id :: "http_lib \<Rightarrow> request_id \<Rightarrow> http_response \<Rightarrow> http_response" where
  "with_request_id lib rid response =
     (if hl_header_ok lib ''x-request-id'' rid
      then response\<lparr>hr_headers := header_insert ''x-request-id'' rid (hr_headers response)\<rparr>
      else response)"

definition authorized ::
  "('m, 'b) http_state \<Rightarrow> matcher \<Rightarrow> request_meta \<Rightarrow> http_request \<Rightarrow> ('m, 'b) handler" where
  "authorized hs match_route meta req =
     (if MAX_BODY_BYTES < length (hq_body req) then
        call_then (on_world (on_metrics (count_request req)))
          (call_expect (status_error_response (hs_lib hs) (hs_env hs) 413 ''invalid_request''
            ''Request body exceeds the configured limit.'' (rm_request_id meta)))
      else
        call_bind (router hs match_route meta req) (\<lambda>response.
        call_then (on_world (on_metrics (count_request req)))
          (call_ok (with_request_id (hs_lib hs) (rm_request_id meta) response))))"

definition pipeline ::
  "('m, 'b) http_state \<Rightarrow> matcher \<Rightarrow> http_request \<Rightarrow> ('m, 'b) handler" where
  "pipeline hs match_route req =
     call_bind (on_world (draw_ulid (hs_env hs))) (\<lambda>ulid.
       (let rid = generate_request_id ulid;
            caller = (if is_public (hq_path req) then Ok local_principal
                      else authenticate (hs_lib hs) (hs_token hs) (hq_headers req))
        in case caller of
             Inl e \<Rightarrow> call_expect (error_response (hs_lib hs) (hs_env hs) e rid)
           | Inr who \<Rightarrow>
               authorized hs match_route \<lparr>rm_request_id = rid, rm_principal_id = who\<rparr> req))"

end
