(* ===== verification/AppSamples.thy ===== *)
theory AppSamples
  imports AppUploads MemStore BlobMem MemPaths
begin

text \<open>A concrete environment over the two in-memory adapters, shared by the witnesses.\<close>

definition sample_env :: "(mem_state, blob_state) app_env" where
  "sample_env =
     \<lparr>ae_meta = mem_store sample_codec dec_int, ae_blobs = registry_new (mem_blob_store id),
      ae_config = config_default, ae_ulid = dec_nat, ae_sha256 = id, ae_to_vec = (\<lambda>_. Some ''json''),
      ae_micros = dec_int, ae_clock = 0\<rparr>"

definition sample_world :: "(mem_state, blob_state) world" where
  "sample_world =
     \<lparr>w_meta = mem_new 0, w_blobs = blob_state_new, w_metrics = metrics_new, w_drawn = 0\<rparr>"

definition sample_request :: "time \<Rightarrow> request_context" where
  "sample_request now =
     \<lparr>rq_request_id = ''r'', rq_principal_id = local_principal, rq_operation = ''POST /objects'',
      rq_idempotency_key = Some ''k'', rq_request_hash = ''h'', rq_if_match = None, rq_now = now\<rparr>"

definition sample_new_file :: create_object_request where
  "sample_new_file =
     \<lparr>cq_kind = File, cq_name = ''a.txt'', cq_parent_id = None, cq_content_type = None, cq_metadata = None\<rparr>"

end
