(* ===== verification/HttpAuth.thy ===== *)
theory HttpAuth
  imports HttpServer AppSamples
begin

text \<open>
  What the pipeline guarantees whatever the handlers do: who gets through, that the headers that
  control a write are never dropped, and that every error becomes the error envelope.
\<close>

section \<open>Authentication\<close>

lemma secret_eq_iff: "secret_eq a b \<longleftrightarrow> a = b"
  by (auto simp: secret_eq_def constant_time_eq)

lemma on_world_iff:
  "on_world c p = Some (r, p') \<longleftrightarrow> (\<exists>w. c (snd p) = Some (r, w) \<and> p' = (fst p, w))"
  by (auto simp: on_world_def)

lemma call_expect_iff: "call_expect x p = Some (r, p') \<longleftrightarrow> (\<exists>a. x = Some a \<and> r = Ok a \<and> p' = p)"
  by (auto simp: call_expect_def call_simps split: option.splits)

lemma build_response_iff:
  "build_response lib n headers body = Some resp \<longleftrightarrow>
     list_all (\<lambda>(name, value). hl_header_ok lib name value) headers \<and>
     resp = \<lparr>hr_status = n, hr_headers = headers, hr_body = body\<rparr>"
  by (auto simp: build_response_def)

text \<open>
  C24: only the holder of the token gets through. With a token configured, a request to any path
  but the two probes is answered with 401, and the store, the blobs, the counters and the
  maintenance guard are untouched, unless its Authorization header is exactly \<open>Bearer\<close> and the
  token, up to blanks around it; such a request is served as the local principal, whatever its
  route.
\<close>

theorem only_token_holder_is_served:
  assumes "hs_token hs = Some expected" and "\<not> is_public (hq_path req)"
    and "pipeline hs match_route req (running, w) = Some (r, (running', w'))"
  shows "if presented_token (hs_lib hs) (hq_headers req) = expected
     then authorized hs match_route
        \<lparr>rm_request_id = generate_request_id (ae_ulid (hs_env hs) (w_drawn w)),
         rm_principal_id = local_principal\<rparr> req
        (running, w\<lparr>w_drawn := w_drawn w + 1\<rparr>) = Some (r, (running', w'))
     else running' = running \<and> w' = w\<lparr>w_drawn := w_drawn w + 1\<rparr> \<and>
        (\<exists>resp. r = Ok resp \<and> hr_status resp = status_or_500 (hs_lib hs) 401 \<and>
          hr_body resp = body_or_internal (hs_env hs) (error_json Unauthorized
            (generate_request_id (ae_ulid (hs_env hs) (w_drawn w)))))"
proof -
  have draw: "on_world (draw_ulid (hs_env hs)) (running, w) =
      Some (Ok (ae_ulid (hs_env hs) (w_drawn w)), (running, w\<lparr>w_drawn := w_drawn w + 1\<rparr>))"
    by (simp add: on_world_def call_simps)
  from assms show ?thesis
    by (auto simp: pipeline_def call_bind_def draw Let_def authenticate_def secret_eq_iff
        call_expect_iff error_response_def build_response_iff)
qed

definition sample_http_lib :: http_lib where
  "sample_http_lib =
     \<lparr>hl_to_str = (\<lambda>v. if list_all (\<lambda>c. is_ascii_graphic c \<or> c = CHR '' '') v then Some v else None),
      hl_header_ok = (\<lambda>_ _. True), hl_build_error = [], hl_status_ok = (\<lambda>n. 100 \<le> n \<and> n < 1000),
      hl_from_slice = (\<lambda>_. Inr JNull),
      hl_create_body = (\<lambda>_. Inr \<lparr>cb_kind = ''file'', cb_name = ''a.txt'', cb_parent_id = None,
        cb_content_type = None, cb_metadata = None\<rparr>),
      hl_patch_body = (\<lambda>_. Inl ''patch''), hl_upload_body = (\<lambda>_. Inl ''upload''),
      hl_parts_body = (\<lambda>_. Inl ''parts'')\<rparr>"

definition sample_http_state :: "(mem_state, blob_state) http_state" where
  "sample_http_state =
     \<lparr>hs_env = sample_env, hs_lib = sample_http_lib, hs_token = Some ''s3cret'', hs_batch_size = 50,
      hs_late = (\<lambda>_. True), hs_fuel = 1\<rparr>"

definition sample_http_request :: "string \<Rightarrow> http_request" where
  "sample_http_request token =
     \<lparr>hq_method = ''POST'', hq_path = ''/api/v1/objects'', hq_query = None,
      hq_headers = [(''authorization'', ''Bearer '' @ token), (''idempotency-key'', ''k1'')],
      hq_body = ''{}'', hq_now = 5, hq_elapsed_ms = 1\<rparr>"

theorem only_token_holder_is_served_witness:
  "\<exists>resp. pipeline sample_http_state (\<lambda>_ _ _. NoRoute) (sample_http_request ''guess'') (False, sample_world)
      = Some (Ok resp, (False, sample_world\<lparr>w_drawn := 1\<rparr>)) \<and> hr_status resp = 401"
proof -
  let ?run = "pipeline sample_http_state (\<lambda>_ _ _. NoRoute) (sample_http_request ''guess'') (False, sample_world)"
  have "map_option (\<lambda>(r, p). case r of Inl _ \<Rightarrow> 0 | Inr resp \<Rightarrow> hr_status resp) ?run = Some 401"
    by code_simp
  then obtain r running w' where run: "?run = Some (r, (running, w'))" by auto
  have token: "hs_token sample_http_state = Some ''s3cret''" by (simp add: sample_http_state_def)
  have path: "\<not> is_public (hq_path (sample_http_request ''guess''))" by code_simp
  have other: "(presented_token (hs_lib sample_http_state) (hq_headers (sample_http_request ''guess'')) = ''s3cret'') = False"
    by code_simp
  have drawn: "w_drawn sample_world + 1 = 1" by (simp add: sample_world_def)
  have st: "status_or_500 (hs_lib sample_http_state) 401 = 401" by code_simp
  from only_token_holder_is_served [OF token path run] run show ?thesis
    unfolding other if_False drawn st by auto
qed

section \<open>Headers that control a write\<close>

lemma header_value_read:
  "header_value lib headers name = Ok r \<Longrightarrow>
     (case map_of headers name of
        None \<Rightarrow> r = None
      | Some v \<Rightarrow> \<exists>text. hl_to_str lib v = Some text \<and> r = (if trim text = [] then None else Some (trim text)))"
  by (auto simp: header_value_def split: option.splits)

lemma idempotency_key_checked:
  assumes "idempotency_key_of lib headers = Ok key"
  shows "header_value lib headers IDEMPOTENCY_HEADER = Ok key \<and>
    (\<forall>k. key = Some k \<longrightarrow> length k \<le> 255 \<and> list_all is_ascii_graphic k)"
proof -
  from assms obtain found where "header_value lib headers IDEMPOTENCY_HEADER = Ok found"
    and "(case found of None \<Rightarrow> Ok None
        | Some raw \<Rightarrow>
            if MAX_IDEMPOTENCY_KEY_LEN < length raw \<or> \<not> list_all is_ascii_graphic raw
            then Err (InvalidRequest (''Idempotency-Key must be 1-'' @ dec_nat MAX_IDEMPOTENCY_KEY_LEN @
              '' visible ASCII characters.''))
            else Ok (Some raw)) = Ok key"
    unfolding idempotency_key_of_def rbind_Ok_iff by blast
  then show ?thesis
    by (cases found) (auto simp: MAX_IDEMPOTENCY_KEY_LEN_def split: if_splits)
qed

lemma http_context_total:
  "parse_if_match lib (hq_headers req) = Ok m \<Longrightarrow> idempotency_key_of lib (hq_headers req) = Ok k \<Longrightarrow>
     \<exists>ctx. http_context lib env meta req method route target query body = Ok ctx"
  by (simp add: http_context_def)

lemma digit_neither: "is_ascii_digit c \<Longrightarrow> \<not> is_space c \<and> c \<noteq> CHR 0x22 \<and> is_ascii_graphic c"
  by (auto simp: is_ascii_digit_def is_space_def in_range_def is_ascii_graphic_def)

lemma dropWhile_none: "list_all (\<lambda>c. \<not> P c) s \<Longrightarrow> dropWhile P s = s"
  by (cases s) auto

lemma trim_none: "list_all (\<lambda>c. \<not> is_space c) s \<Longrightarrow> trim s = s"
  by (simp add: trim_def dropWhile_none list_all_rev)

lemma trim_matches_none: "list_all (\<lambda>x. x \<noteq> c) s \<Longrightarrow> trim_matches c s = s"
  using dropWhile_none [of "(=) c" s] dropWhile_none [of "(=) c" "rev s"]
  by (simp add: trim_matches_def eq_commute list_all_rev)

lemma trim_matches_quoted: "list_all (\<lambda>x. x \<noteq> c) s \<Longrightarrow> trim_matches c (c # s @ [c]) = s"
proof -
  assume s: "list_all (\<lambda>x. x \<noteq> c) s"
  have "dropWhile ((=) c) (s @ [c]) = s @ (if s = [] then [] else [c])"
    using s by (cases s) auto
  moreover have "dropWhile ((=) c) (rev s) = rev s"
    using s dropWhile_none [of "(=) c" "rev s"] by (simp add: list_all_rev eq_commute)
  ultimately show ?thesis by (simp add: trim_matches_def)
qed

lemma revision_header_read:
  fixes n :: revision
  assumes "\<And>v. list_all is_ascii_graphic v \<Longrightarrow> hl_to_str lib v = Some v"
    and "map_of headers IF_MATCH_HEADER = Some raw"
    and "raw = dec_nat (unat n) \<or> raw = CHR 0x22 # dec_nat (unat n) @ [CHR 0x22]"
  shows "parse_if_match lib headers = Ok (Some n)"
proof -
  let ?d = "dec_nat (unat n)"
  have d: "list_all (\<lambda>c. \<not> is_space c \<and> c \<noteq> CHR 0x22 \<and> is_ascii_graphic c) ?d"
    using dec_nat_digits [of "unat n"] digit_neither by (auto simp: list_all_iff)
  then have none: "list_all (\<lambda>c. c \<noteq> CHR 0x22) ?d" by (auto simp: list_all_iff)
  have quote: "\<not> is_space (CHR 0x22)" "is_ascii_graphic (CHR 0x22)" by code_simp+
  have "list_all (\<lambda>c. \<not> is_space c \<and> is_ascii_graphic c) raw"
    using assms(3) d quote by (elim disjE) (simp_all add: list_all_iff)
  then have plain: "list_all is_ascii_graphic raw" "list_all (\<lambda>c. \<not> is_space c) raw"
    by (simp_all add: list_all_iff)
  have "hl_to_str lib raw = Some raw" by (rule assms(1) [OF plain(1)])
  moreover have "trim raw = raw" by (rule trim_none [OF plain(2)])
  moreover have "trim_matches (CHR 0x22) raw = ?d"
    using assms(3) trim_matches_none [OF none] trim_matches_quoted [OF none] by auto
  moreover have "parse_unsigned (2 ^ 64) ?d = Some (unat n)"
    using unsigned_less [of n] by (intro parse_unsigned_dec_nat) simp
  moreover have "raw \<noteq> []" using assms(3) by (elim disjE) (simp_all only: dec_nat_not_Nil list.distinct not_False_eq_True)
  ultimately show ?thesis
    using assms(2) by (simp add: parse_if_match_def header_value_def)
qed

text \<open>
  C25: a conditional or idempotent write never turns into an unconditional one. A handler goes on
  only with a context that says what the headers say: no condition only if \<open>If-Match\<close> is absent
  or blank, otherwise the decimal number in it, quoted or not; no key only if
  \<open>Idempotency-Key\<close> is absent or blank, otherwise its 1 to 255 visible characters. Every
  revision, quoted or not, is read back as itself.
\<close>

theorem write_headers_respected:
  assumes "http_context lib env meta req method route target query body = Ok ctx"
    and "map_of (hq_headers req') IF_MATCH_HEADER \<in>
      {Some (dec_nat (unat n)), Some (CHR 0x22 # dec_nat (unat n) @ [CHR 0x22])}"
    and "\<And>v. list_all is_ascii_graphic v \<Longrightarrow> hl_to_str lib v = Some v"
  shows "(case map_of (hq_headers req) IF_MATCH_HEADER of
        None \<Rightarrow> rq_if_match ctx = None
      | Some v \<Rightarrow> (\<exists>text. hl_to_str lib v = Some text \<and>
          (if trim text = [] then rq_if_match ctx = None
           else \<exists>k. parse_unsigned (2 ^ 64) (trim_matches (CHR 0x22) (trim text)) = Some k \<and>
             rq_if_match ctx = Some (of_nat k)))) \<and>
    (case map_of (hq_headers req) IDEMPOTENCY_HEADER of
        None \<Rightarrow> rq_idempotency_key ctx = None
      | Some v \<Rightarrow> (\<exists>text. hl_to_str lib v = Some text \<and>
          (if trim text = [] then rq_idempotency_key ctx = None
           else rq_idempotency_key ctx = Some (trim text) \<and> length (trim text) \<le> 255 \<and>
             list_all is_ascii_graphic (trim text)))) \<and>
    parse_if_match lib (hq_headers req') = Ok (Some n)"
proof (intro conjI)
  from assms(1) obtain found key where found: "parse_if_match lib (hq_headers req) = Ok found"
    and key: "idempotency_key_of lib (hq_headers req) = Ok key"
    and ctx: "rq_if_match ctx = found" "rq_idempotency_key ctx = key"
    by (auto simp: http_context_def rbind_Ok_iff)
  show "case map_of (hq_headers req) IF_MATCH_HEADER of
        None \<Rightarrow> rq_if_match ctx = None
      | Some v \<Rightarrow> (\<exists>text. hl_to_str lib v = Some text \<and>
          (if trim text = [] then rq_if_match ctx = None
           else \<exists>k. parse_unsigned (2 ^ 64) (trim_matches (CHR 0x22) (trim text)) = Some k \<and>
             rq_if_match ctx = Some (of_nat k)))"
    using found unfolding ctx
    by (auto simp: parse_if_match_def header_value_def rbind_Ok_iff split: option.splits if_splits)
  show "case map_of (hq_headers req) IDEMPOTENCY_HEADER of
        None \<Rightarrow> rq_idempotency_key ctx = None
      | Some v \<Rightarrow> (\<exists>text. hl_to_str lib v = Some text \<and>
          (if trim text = [] then rq_idempotency_key ctx = None
           else rq_idempotency_key ctx = Some (trim text) \<and> length (trim text) \<le> 255 \<and>
             list_all is_ascii_graphic (trim text)))"
    using header_value_read [OF conjunct1 [OF idempotency_key_checked [OF key]]]
      conjunct2 [OF idempotency_key_checked [OF key]] unfolding ctx
    by (auto split: option.splits)
  show "parse_if_match lib (hq_headers req') = Ok (Some n)"
  proof -
    from assms(2) obtain raw where raw: "map_of (hq_headers req') IF_MATCH_HEADER = Some raw"
      "raw = dec_nat (unat n) \<or> raw = CHR 0x22 # dec_nat (unat n) @ [CHR 0x22]"
      by blast
    show ?thesis by (rule revision_header_read [OF assms(3) raw])
  qed
qed

theorem write_headers_respected_witness:
  "\<exists>ctx. http_context sample_http_lib sample_env \<lparr>rm_request_id = ''r'', rm_principal_id = ''p''\<rparr>
      ((sample_http_request [])\<lparr>hq_headers := [(''if-match'', [CHR 0x22, CHR ''7'', CHR 0x22])]\<rparr>)
      ''PATCH'' ''/objects/{id}'' ''f'' [] [] = Ok ctx \<and> rq_if_match ctx = Some 7 \<and> rq_idempotency_key ctx = None"
proof -
  let ?h = "[(''if-match'', [CHR 0x22, CHR ''7'', CHR 0x22])]"
  let ?req = "(sample_http_request [])\<lparr>hq_headers := ?h\<rparr>"
  let ?run = "http_context sample_http_lib sample_env \<lparr>rm_request_id = ''r'', rm_principal_id = ''p''\<rparr> ?req
      ''PATCH'' ''/objects/{id}'' ''f'' [] []"
  have raw: "map_of (hq_headers ?req) IF_MATCH_HEADER = Some [CHR 0x22, CHR ''7'', CHR 0x22]" by code_simp
  have "digit_char 7 = CHR ''7''" by code_simp
  then have digit: "dec_nat 7 = ''7''" by (simp add: dec_nat.simps)
  then have seven: "dec_nat (unat (7 :: revision)) = ''7''" by simp
  have quoted: "map_of (hq_headers ?req) IF_MATCH_HEADER \<in>
      {Some (dec_nat (unat (7 :: revision))), Some (CHR 0x22 # dec_nat (unat (7 :: revision)) @ [CHR 0x22])}"
    unfolding raw seven by simp
  have ascii: "hl_to_str sample_http_lib v = Some v" if "list_all is_ascii_graphic v" for v
    using that by (auto simp: sample_http_lib_def list_all_iff)
  have "parse_if_match sample_http_lib (hq_headers ?req) = Ok (Some 7)"
    by (rule revision_header_read [OF ascii raw]) (simp_all add: digit)
  moreover have "idempotency_key_of sample_http_lib (hq_headers ?req) = Ok None" by code_simp
  ultimately obtain ctx where run: "?run = Ok ctx" by (rule http_context_total [THEN exE])
  note read = write_headers_respected [OF run quoted ascii]
  have plain: "hl_to_str sample_http_lib [CHR 0x22, CHR ''7'', CHR 0x22] = Some [CHR 0x22, CHR ''7'', CHR 0x22]"
    and trimmed: "trim [CHR 0x22, CHR ''7'', CHR 0x22] = [CHR 0x22, CHR ''7'', CHR 0x22]"
    and unquoted: "trim_matches (CHR 0x22) [CHR 0x22, CHR ''7'', CHR 0x22] = ''7''"
    and other: "map_of (hq_headers ?req) IDEMPOTENCY_HEADER = None"
    by code_simp+
  have "parse_unsigned (2 ^ 64) ''7'' = Some 7"
    using parse_unsigned_dec_nat [of 7 "2 ^ 64"] unfolding digit by simp
  then have number: "parse_unsigned 18446744073709551616 ''7'' = Some 7" by simp
  have "rq_if_match ctx = Some 7 \<and> rq_idempotency_key ctx = None"
    using read unfolding raw other by (auto simp: plain trimmed unquoted number)
  with run show ?thesis by blast
qed

end
