(* ===== verification/AppExactlyOnce.thy ===== *)
theory AppExactlyOnce
  imports AppUploads MemExactlyOnce AppSamples
begin

text \<open>
  Exactly-once behaviour of the application over the in-memory store: each of the seven
  commands that take an idempotency key leaves the key completed with its response when it
  succeeds, and repeating it gives that response again without touching objects, changes,
  uploads or blobs.
\<close>

section \<open>Claiming over the in-memory store\<close>

definition request_key :: "request_context \<Rightarrow> idempotency_key \<Rightarrow> idem_key" where
  "request_key ctx k = (rq_principal_id ctx, rq_operation ctx, k)"

definition over_memory :: "(mem_state, 'b) app_env \<Rightarrow> bool" where
  "over_memory env \<longleftrightarrow> (\<exists>cc fmt. ae_meta env = mem_store cc fmt)"

lemma over_memory_calls:
  assumes "over_memory env"
  shows "ms_acquire (ae_meta env) = (\<lambda>a. call_of (acquire a))"
    "ms_complete (ae_meta env) = (\<lambda>c. call_of (complete c))"
    "ms_fail_or_release (ae_meta env) = (\<lambda>r. call_of (fail_or_release r))"
    "ms_create_object (ae_meta env) = (\<lambda>c. call_of (create_object c))"
    "ms_patch_object (ae_meta env) = (\<lambda>c. call_of (patch_object c))"
    "ms_delete_object (ae_meta env) = delete_object"
    "ms_commit_content (ae_meta env) = (\<lambda>c. call_of (commit_content c))"
    "ms_create_upload_record (ae_meta env) = (\<lambda>c. call_of (create_upload_record c))"
    "ms_update_upload_state (ae_meta env) = (\<lambda>c. call_of (update_upload_state c))"
    "ms_abort_upload_record (ae_meta env) = (\<lambda>c. call_of (abort_upload_record c))"
    "ms_get_upload (ae_meta env) = (\<lambda>i. call_read (get_upload i))"
    "ms_get_object (ae_meta env) = (\<lambda>i. call_read (\<lambda>s. Ok (get_object i s)))"
  using assms by (auto simp: over_memory_def mem_store_def)

lemma idem_ok_cong: "idempotency s = idempotency s' \<Longrightarrow> idem_ok s = idem_ok s'"
  by (simp add: idem_ok_def idem_rows_ok_def)

lemma key_status_cong: "idempotency s = idempotency s' \<Longrightarrow> key_status s = key_status s'"
  by (simp add: key_status_def fun_eq_iff)

text \<open>The claim that a request makes, and how \<open>claim\<close> runs it.\<close>

definition claim_request ::
  "('m, 'b) app_env \<Rightarrow> request_context \<Rightarrow> idempotency_key \<Rightarrow> string \<Rightarrow> idempotency_acquire" where
  "claim_request env ctx k token =
     \<lparr>ia_context = \<lparr>ic_principal_id = rq_principal_id ctx, ic_operation = rq_operation ctx, ic_key = k,
        ic_request_hash = rq_request_hash ctx, ic_owner_token = token,
        ic_resource_token = dec_int (timestamp_micros (rq_now ctx))\<rparr>,
      ia_now = rq_now ctx, ia_lease_until = rq_now ctx + ac_idempotency_lease (ae_config env),
      ia_expires_at = rq_now ctx + ac_idempotency_retention (ae_config env)\<rparr>"

lemma claim_request_simps [simp]:
  "scope_key (ia_context (claim_request env ctx k token)) = request_key ctx k"
  "ic_request_hash (ia_context (claim_request env ctx k token)) = rq_request_hash ctx"
  "ic_owner_token (ia_context (claim_request env ctx k token)) = token"
  "ia_now (claim_request env ctx k token) = rq_now ctx"
  by (simp_all add: claim_request_def scope_key_def request_key_def)

lemma claim_run:
  assumes "over_memory env" and "rq_idempotency_key ctx = Some k"
    and "acquire (claim_request env ctx k (ae_ulid env (w_drawn w))) (w_meta w) = (r, s')"
  shows "\<exists>w'. claim env ctx w = Some
      (case r of
         Inl e \<Rightarrow> Err e
       | Inr (Owner t) \<Rightarrow> Ok (Proceed (Some
           ((ia_context (claim_request env ctx k (ae_ulid env (w_drawn w))))\<lparr>ic_resource_token := t\<rparr>)))
       | Inr (Replay x) \<Rightarrow> Ok (ClaimReplay x)
       | Inr Conflict \<Rightarrow> Err IdempotencyKeyReused, w') \<and>
     w_meta w' = s' \<and> w_blobs w' = w_blobs w"
  using assms(2,3)
  by (auto simp: claim_def idempotency_context_of_def claim_request_def call_bind_def call_then_def
      on_meta_def on_metrics_def call_simps over_memory_calls [OF assms(1)]
      split: sum.split idempotency_decision.split)

text \<open>A claim that goes ahead owns the key; a claim that is replayed found it completed.\<close>

lemma claim_outcome:
  assumes "over_memory env" and "idem_ok (w_meta w)" and "rq_idempotency_key ctx = Some k"
    and "claim env ctx w = Some (Ok c, w')"
  shows "idem_ok (w_meta w') \<and>
    (case c of
       Proceed ictx \<Rightarrow> \<exists>ic lease. ictx = Some ic \<and> scope_key ic = request_key ctx k \<and>
         key_status (w_meta w') (request_key ctx k) = Claimed (rq_request_hash ctx) (ic_owner_token ic) lease
     | ClaimReplay r \<Rightarrow> key_status (w_meta w') (request_key ctx k) = Completed (rq_request_hash ctx) r)"
proof -
  let ?a = "claim_request env ctx k (ae_ulid env (w_drawn w))"
  let ?st = "key_status (w_meta w) (request_key ctx k)"
  from assms(2) have rows: "idem_rows_ok (w_meta w)" and tab: "table_ok (idempotency (w_meta w))"
    by (simp_all add: idem_ok_def)
  from mem_acquire_law [OF rows, of ?a] obtain r s' where a: "acquire ?a (w_meta w) = (r, s')"
    "idem_rows_ok s'" "acquire_answer ?a ?st r"
    "key_status s' = (key_status (w_meta w))(request_key ctx k := next_status (Acquire ?a) ?st)"
    by auto
  have ok: "idem_ok s'" using a(1,2) idem_ops_table(1) [OF tab, of ?a] by (simp add: idem_ok_def)
  have scope: "scope_key (ic\<lparr>ic_resource_token := t\<rparr>) = scope_key ic" for ic t
    by (simp add: scope_key_def)
  from claim_run [OF assms(1,3) a(1)] assms(4)
  have c: "(case r of
         Inl e \<Rightarrow> Err e
       | Inr (Owner t) \<Rightarrow> Ok (Proceed (Some ((ia_context ?a)\<lparr>ic_resource_token := t\<rparr>)))
       | Inr (Replay x) \<Rightarrow> Ok (ClaimReplay x)
       | Inr Conflict \<Rightarrow> Err IdempotencyKeyReused) = Ok c" and m: "w_meta w' = s'"
    by auto
  show ?thesis
    using a(3,4) c m ok
    by (cases ?st) (auto simp: scope split: if_splits)
qed

text \<open>A claim of a completed key: the response, and nothing but a ULID and a counter change.\<close>

lemma claim_completed:
  assumes "over_memory env" and "rq_idempotency_key ctx = Some k"
    and "key_status (w_meta w) (request_key ctx k) = Completed (rq_request_hash ctx) r"
  shows "\<exists>w'. claim env ctx w = Some (Ok (ClaimReplay r), w') \<and> w_meta w' = w_meta w \<and> w_blobs w' = w_blobs w"
proof -
  let ?a = "claim_request env ctx k (ae_ulid env (w_drawn w))"
  have key: "idempotency_row_key (ia_context ?a) = request_key ctx k"
    by (simp add: scope_key_row)
  from assms(3) obtain row where row: "table_get (idempotency (w_meta w)) (request_key ctx k) = Some row"
    "ir_completed row" "ir_request_hash row = rq_request_hash ctx"
    "(case ir_response row of None \<Rightarrow> no_content | Some x \<Rightarrow> x) = r"
    by (auto simp: key_status_def row_status_def split: option.splits if_splits)
  then have "acquire ?a (w_meta w) = (Ok (Replay r), w_meta w)"
    unfolding acquire_def Let_def key by simp
  from claim_run [OF assms(1,2) this] show ?thesis by simp
qed

section \<open>Running under a key\<close>

text \<open>An operation that finalizes its key itself, and one that leaves the keys alone.\<close>

definition finalizing ::
  "(idempotency_context option \<Rightarrow> ((mem_state, 'b) world, stored_response) call) \<Rightarrow> bool" where
  "finalizing operation \<longleftrightarrow>
     (\<forall>ic w r w'. idem_ok (w_meta w) \<longrightarrow> operation (Some ic) w = Some (Ok r, w') \<longrightarrow>
        idem_ok (w_meta w') \<and> (\<exists>h lease. key_status (w_meta w) (scope_key ic) = Claimed h (ic_owner_token ic) lease \<and>
          key_status (w_meta w') (scope_key ic) = Completed h r))"

definition quiet ::
  "(idempotency_context option \<Rightarrow> ((mem_state, 'b) world, 'a) call) \<Rightarrow> bool" where
  "quiet operation \<longleftrightarrow> (\<forall>ictx. call_keeps (\<lambda>w. idempotency (w_meta w)) (operation ictx))"

definition completed_for ::
  "mem_state \<Rightarrow> request_context \<Rightarrow> idempotency_key \<Rightarrow> stored_response \<Rightarrow> bool" where
  "completed_for s ctx k r \<longleftrightarrow>
     idem_ok s \<and> key_status s (request_key ctx k) = Completed (rq_request_hash ctx) r"

lemma run_completes:
  assumes "over_memory env" and "idem_ok (w_meta w)" and "rq_idempotency_key ctx = Some k"
    and "finalizing operation" and "run_idempotent env ctx operation w = Some (Ok r, w')"
  shows "completed_for (w_meta w') ctx k r"
proof -
  from assms(5) obtain c v where c: "claim env ctx w = Some (Ok c, v)"
    and rest: "(case c of ClaimReplay response \<Rightarrow> call_ok response
        | Proceed ictx \<Rightarrow> call_catch (operation ictx) (\<lambda>e. call_then (release_claim env ictx) (call_err e))) v
        = Some (Ok r, w')"
    by (auto simp: run_idempotent_def call_bind_Ok_iff)
  note co = claim_outcome [OF assms(1-3) c]
  show ?thesis
  proof (cases c)
    case (Proceed ictx)
    with co obtain ic lease where ic: "ictx = Some ic" "scope_key ic = request_key ctx k" "idem_ok (w_meta v)"
      "key_status (w_meta v) (request_key ctx k) = Claimed (rq_request_hash ctx) (ic_owner_token ic) lease"
      by auto
    from rest Proceed ic(1) have "operation (Some ic) v = Some (Ok r, w')"
      by (auto simp: call_catch_Ok_iff call_then_Ok_iff call_simps)
    with assms(4) ic(3) have "idem_ok (w_meta w') \<and>
        (\<exists>h lease. key_status (w_meta v) (scope_key ic) = Claimed h (ic_owner_token ic) lease \<and>
          key_status (w_meta w') (scope_key ic) = Completed h r)"
      unfolding finalizing_def by blast
    with ic(2,4) show ?thesis by (auto simp: completed_for_def)
  next
    case (ClaimReplay x)
    with co rest show ?thesis by (simp add: call_simps completed_for_def)
  qed
qed

lemma completion_completes:
  assumes "over_memory env" and "idem_ok (w_meta w)" and "rq_idempotency_key ctx = Some k"
    and "quiet operation" and "run_with_completion env ctx operation w = Some (Ok r, w')"
  shows "completed_for (w_meta w') ctx k r"
proof -
  let ?rest = "\<lambda>ictx. call_bind (call_try (operation ictx)) (\<lambda>outcome.
      (case outcome of
         Inr response \<Rightarrow>
           (case ictx of
              None \<Rightarrow> call_ok response
            | Some ic \<Rightarrow> call_then (on_meta (ms_complete (ae_meta env)
                \<lparr>ico_context = ic, ico_response = response, ico_now = rq_now ctx,
                 ico_expires_at = rq_now ctx + ac_idempotency_retention (ae_config env)\<rparr>)) (call_ok response))
       | Inl e \<Rightarrow> call_then (release_claim env ictx) (call_err e)))"
  from assms(5) obtain c v where c: "claim env ctx w = Some (Ok c, v)"
    and rest: "(case c of ClaimReplay response \<Rightarrow> call_ok response | Proceed ictx \<Rightarrow> ?rest ictx) v = Some (Ok r, w')"
    by (auto simp: run_with_completion_def call_bind_Ok_iff)
  note co = claim_outcome [OF assms(1-3) c]
  show ?thesis
  proof (cases c)
    case (Proceed ictx)
    with co obtain ic lease where ic: "ictx = Some ic" "scope_key ic = request_key ctx k" "idem_ok (w_meta v)"
      "key_status (w_meta v) (request_key ctx k) = Claimed (rq_request_hash ctx) (ic_owner_token ic) lease"
      by auto
    let ?c = "\<lparr>ico_context = ic, ico_response = r, ico_now = rq_now ctx,
        ico_expires_at = rq_now ctx + ac_idempotency_retention (ae_config env)\<rparr>"
    from rest [unfolded Proceed ic(1)] obtain a u where a: "operation (Some ic) v = Some (a, u)"
      "(case a of
         Inr response \<Rightarrow>
           (case Some ic of
              None \<Rightarrow> call_ok response
            | Some ic \<Rightarrow> call_then (on_meta (ms_complete (ae_meta env)
                \<lparr>ico_context = ic, ico_response = response, ico_now = rq_now ctx,
                 ico_expires_at = rq_now ctx + ac_idempotency_retention (ae_config env)\<rparr>)) (call_ok response))
       | Inl e \<Rightarrow> call_then (release_claim env (Some ic)) (call_err e)) u = Some (Ok r, w')"
      by (simp only: call_bind_try_Ok_iff claim_outcome.case) blast
    then have u: "operation (Some ic) v = Some (Ok r, u)" "w' = u\<lparr>w_meta := snd (complete ?c (w_meta u))\<rparr>"
      by (auto simp: call_then_Ok_iff on_meta_iff call_simps over_memory_calls [OF assms(1)] split: sum.splits)
    from assms(4) u(1) have same: "idempotency (w_meta u) = idempotency (w_meta v)"
      unfolding quiet_def by (blast dest: call_keepsD)
    have ok: "idem_rows_ok (w_meta u)" "table_ok (idempotency (w_meta u))"
      using ic(3) idem_ok_cong [OF same] by (simp_all add: idem_ok_def)
    have "key_status (w_meta u) (scope_key (ico_context ?c)) =
        Claimed (rq_request_hash ctx) (ic_owner_token ic) lease"
      using ic(2,4) key_status_cong [OF same] by simp
    with mem_complete_law [OF ok(1), of ?c] ic(2) u(2) idem_ops_table(2) [OF ok(2), of ?c] show ?thesis
      by (auto simp: idem_ok_def completed_for_def)
  next
    case (ClaimReplay x)
    with co rest show ?thesis by (simp add: call_simps completed_for_def)
  qed
qed

text \<open>Under a completed key neither wrapper runs the operation.\<close>

lemma replayed:
  assumes "over_memory env" and "rq_idempotency_key ctx = Some k" and "completed_for (w_meta w) ctx k r"
  shows "\<exists>w'. run_idempotent env ctx operation w = Some (Ok r, w') \<and> w_meta w' = w_meta w \<and> w_blobs w' = w_blobs w"
    and "\<exists>w'. run_with_completion env ctx operation w = Some (Ok r, w') \<and> w_meta w' = w_meta w \<and> w_blobs w' = w_blobs w"
proof -
  from assms(3) have "key_status (w_meta w) (request_key ctx k) = Completed (rq_request_hash ctx) r"
    by (simp add: completed_for_def)
  from claim_completed [OF assms(1,2) this] obtain w'
    where "claim env ctx w = Some (Ok (ClaimReplay r), w')" "w_meta w' = w_meta w" "w_blobs w' = w_blobs w"
    by blast
  then show "\<exists>w'. run_idempotent env ctx operation w = Some (Ok r, w') \<and> w_meta w' = w_meta w \<and> w_blobs w' = w_blobs w"
    and "\<exists>w'. run_with_completion env ctx operation w = Some (Ok r, w') \<and> w_meta w' = w_meta w \<and> w_blobs w' = w_blobs w"
    by (auto simp: run_idempotent_def run_with_completion_def call_simps)
qed

section \<open>The seven commands\<close>

lemma finalized_completes:
  assumes "finalized ctx (Ok r) s s'" and "mc_idempotency ctx = Some ic" and "idem_ok s"
  shows "idem_ok s' \<and> (\<exists>h lease. key_status s (scope_key ic) = Claimed h (ic_owner_token ic) lease \<and>
      key_status s' (scope_key ic) = Completed h r)"
  using finalized_status [OF assms(1)] finalized_table [OF assms(1)] assms(2,3)
  by (auto simp: idem_ok_def)

lemma mutation_context_idempotency [simp]:
  "mc_idempotency (mutation_context_of env ctx ictx render) = ictx"
  by (simp add: mutation_context_of_def)

lemma finalized_cong: "idempotency s = idempotency s1 \<Longrightarrow> finalized ctx r s s' = finalized ctx r s1 s'"
  by (auto simp: finalized_def split: sum.splits option.splits)

lemma finalizingI:
  assumes "\<And>ic w r w'. operation (Some ic) w = Some (Ok r, w') \<Longrightarrow>
    finalized (mutation_context_of env ctx (Some ic) render) (Ok r) (w_meta w) (w_meta w')"
  shows "finalizing operation"
  unfolding finalizing_def
  using finalized_completes [OF assms] by simp

lemma object_commands_finalizing:
  assumes "over_memory env"
  shows "(\<And>u ictx. co_ctx (c u ictx) = mutation_context_of env ctx ictx render) \<Longrightarrow>
      finalizing (\<lambda>ictx. call_bind (draw_ulid env) (\<lambda>u. on_meta (ms_create_object (ae_meta env) (c u ictx))))"
    and "(\<And>ictx. po_ctx (p ictx) = mutation_context_of env ctx ictx render) \<Longrightarrow>
      finalizing (\<lambda>ictx. on_meta (ms_patch_object (ae_meta env) (p ictx)))"
    and "(\<And>ictx. do_ctx (d ictx) = mutation_context_of env ctx ictx render) \<Longrightarrow>
      finalizing (\<lambda>ictx. on_meta (ms_delete_object (ae_meta env) (d ictx)))"
  by (rule finalizingI [where env = env and ctx = ctx and render = render],
      auto simp: call_bind_Ok_iff on_meta_iff call_simps over_memory_calls [OF assms]
        dest!: create_finalized patch_finalized delete_finalized)+

lemma require_frames:
  assumes "over_memory env"
  shows "require_upload env i w = Some (r, w') \<Longrightarrow> w' = w"
    and "require_object env i w = Some (r', w') \<Longrightarrow> w' = w"
  by (auto simp: require_upload_def require_object_def call_bind_Some_iff on_meta_iff call_simps
      over_memory_calls [OF assms])

lemma commit_command_ctx [simp]:
  "cm_ctx (commit_command env ctx ictx i upload z ct h) = mutation_context_of env ctx ictx (render_upload_complete env)"
  by (simp add: commit_command_def)

lemma require_upload_bind:
  "over_memory env \<Longrightarrow> call_bind (require_upload env i) f w = Some (Ok r, w') \<Longrightarrow>
   \<exists>upload. f upload w = Some (Ok r, w')"
  unfolding call_bind_Ok_iff using require_frames(1) by blast

lemma require_object_bind:
  "over_memory env \<Longrightarrow> call_bind (require_object env i) f w = Some (Ok r, w') \<Longrightarrow>
   \<exists>view. f view w = Some (Ok r, w')"
  unfolding call_bind_Ok_iff using require_frames(2) by blast

lemma call_then_result: "call_then (call_result x) m w = Some (Ok r, w') \<Longrightarrow> m w = Some (Ok r, w')"
  by (auto simp: call_then_Ok_iff call_simps)

lemma call_then_unless: "call_then (call_unless b e) m w = Some (Ok r, w') \<Longrightarrow> m w = Some (Ok r, w')"
  by (auto simp: call_then_Ok_iff call_unless_Ok_iff)

text \<open>Both ways to complete an upload end in a content commit, with the keys as they were.\<close>

lemma recommit_commits:
  assumes "over_memory env" and "recommit env ctx ictx i upload target w = Some (Ok r, w')"
  shows "\<exists>z ct h. commit_content (commit_command env ctx ictx i upload z ct h) (w_meta w) = (Ok r, w_meta w')"
  using assms(2)
  by (auto simp: recommit_def call_inversions on_meta_iff call_simps over_memory_calls [OF assms(1)]) blast

lemma finish_upload_commits:
  assumes "over_memory env" and "finish_upload env ctx ictx i req upload w = Some (Ok r, w')"
  shows "\<exists>s z ct h. s = snd (update_upload_state
        \<lparr>uu_id = i, uu_state = UsCompleting, uu_provider_upload_id = None, uu_provider_completed = None\<rparr> (w_meta w)) \<and>
      commit_content (commit_command env ctx ictx i upload z ct h) s = (Ok r, w_meta w')"
  using assms(2)
  by (auto simp: finish_upload_def call_inversions on_meta_iff on_blobs_iff call_simps
      over_memory_calls [OF assms(1)]) blast+

lemma upload_frame: "idempotency (snd (update_upload_state u s)) = idempotency s"
  by (simp add: frame_simps)

lemma complete_finalizing:
  assumes "over_memory env"
  shows "finalizing (\<lambda>ictx. call_bind (require_upload env i) (\<lambda>upload.
          call_then (call_unless (\<not> is_completable (u_state upload)) UploadNotFound)
         (call_bind (require_object env (u_object_id upload)) (\<lambda>target.
          call_then (call_result (check_completable ctx target))
            (if u_state upload = UsCompleted
             then recommit env ctx ictx i upload (ov_object target)
             else finish_upload env ctx ictx i req upload)))))"
proof (rule finalizingI [where env = env and ctx = ctx and render = "render_upload_complete env"])
  fix ic w r w'
  assume run: "call_bind (require_upload env i) (\<lambda>upload.
          call_then (call_unless (\<not> is_completable (u_state upload)) UploadNotFound)
         (call_bind (require_object env (u_object_id upload)) (\<lambda>target.
          call_then (call_result (check_completable ctx target))
            (if u_state upload = UsCompleted
             then recommit env ctx (Some ic) i upload (ov_object target)
             else finish_upload env ctx (Some ic) i req upload)))) w = Some (Ok r, w')"
  from require_upload_bind [OF assms run] obtain upload where one: "call_then (call_unless (\<not> is_completable (u_state upload)) UploadNotFound)
         (call_bind (require_object env (u_object_id upload)) (\<lambda>target.
          call_then (call_result (check_completable ctx target))
            (if u_state upload = UsCompleted
             then recommit env ctx (Some ic) i upload (ov_object target)
             else finish_upload env ctx (Some ic) i req upload))) w = Some (Ok r, w')"
    by (erule exE)
  from require_object_bind [OF assms call_then_unless [OF one]] obtain target where two: "call_then (call_result (check_completable ctx target))
            (if u_state upload = UsCompleted
             then recommit env ctx (Some ic) i upload (ov_object target)
             else finish_upload env ctx (Some ic) i req upload) w = Some (Ok r, w')"
    by (erule exE)
  from call_then_result [OF two]
have "\<exists>z ct h s. idempotency s = idempotency (w_meta w) \<and>
      commit_content (commit_command env ctx (Some ic) i upload z ct h) s = (Ok r, w_meta w')"
    using recommit_commits [OF assms, of ctx "Some ic" i upload "ov_object target" w r w']
      finish_upload_commits [OF assms, of ctx "Some ic" i req upload w r w'] upload_frame
    by (cases "u_state upload = UsCompleted") (simp, blast, simp, blast)
  then obtain z ct h s where "idempotency s = idempotency (w_meta w)"
    "commit_content (commit_command env ctx (Some ic) i upload z ct h) s = (Ok r, w_meta w')" by blast
  with commit_finalized finalized_cong show
    "finalized (mutation_context_of env ctx (Some ic) (render_upload_complete env)) (Ok r) (w_meta w) (w_meta w')"
    by (metis commit_command_ctx)
qed

text \<open>Creating a session, allocating parts and aborting touch no key.\<close>

lemma upload_calls_quiet [call_frames]:
  assumes "over_memory env"
  shows "call_keeps (\<lambda>w. idempotency (w_meta w)) (on_meta (ms_get_upload (ae_meta env) i))"
    "call_keeps (\<lambda>w. idempotency (w_meta w)) (on_meta (ms_get_object (ae_meta env) j))"
    "call_keeps (\<lambda>w. idempotency (w_meta w)) (on_meta (ms_create_upload_record (ae_meta env) c))"
    "call_keeps (\<lambda>w. idempotency (w_meta w)) (on_meta (ms_update_upload_state (ae_meta env) u))"
    "call_keeps (\<lambda>w. idempotency (w_meta w)) (on_meta (ms_abort_upload_record (ae_meta env) a))"
  by (auto simp: call_keeps_def on_meta_iff call_simps over_memory_calls [OF assms] get_upload_def)
    (metis frame_simps snd_conv)+

lemma require_quiet [call_frames]:
  assumes "over_memory env"
  shows "call_keeps (\<lambda>w. idempotency (w_meta w)) (require_upload env i)"
    "call_keeps (\<lambda>w. idempotency (w_meta w)) (require_object env i)"
  unfolding require_upload_def require_object_def
  by (intro call_frames upload_calls_quiet [OF assms])+

lemma prepare_session_quiet [call_frames]:
  assumes "over_memory env"
  shows "call_keeps (\<lambda>w. idempotency (w_meta w)) (prepare_session env ctx store upload)"
  unfolding prepare_session_def Let_def
  by (auto intro!: call_frames upload_calls_quiet [OF assms] split: upload_mode.split)

datatype app_command =
    CreateObject create_object_request
  | PatchObject object_id patch_object_request
  | DeleteObject object_id bool
  | CreateUpload create_upload_request
  | AllocateParts upload_id "32 word list"
  | CompleteUpload upload_id complete_upload_request
  | AbortUpload upload_id

fun run_command ::
  "('m, 'b) app_env \<Rightarrow> app_command \<Rightarrow> request_context \<Rightarrow> (('m, 'b) world, stored_response) call" where
  "run_command env (CreateObject req) ctx = app_create env req ctx"
| "run_command env (PatchObject i req) ctx = app_patch env i req ctx"
| "run_command env (DeleteObject i recursive) ctx = app_delete env i recursive ctx"
| "run_command env (CreateUpload req) ctx = upload_create env req ctx"
| "run_command env (AllocateParts i ns) ctx = upload_allocate_parts env i ns ctx"
| "run_command env (CompleteUpload i req) ctx = upload_complete env i req ctx"
| "run_command env (AbortUpload i) ctx = upload_abort env i ctx"

text \<open>What a command checks before it claims its key depends on the request alone.\<close>

fun precheck :: "app_command \<Rightarrow> unit result" where
  "precheck (CreateObject req) = check_create_request req"
| "precheck (PatchObject i req) = check_patch_request req"
| "precheck _ = Ok ()"

lemma command_completes:
  assumes "over_memory env" and "idem_ok (w_meta w)" and "rq_idempotency_key ctx = Some k"
    and "run_command env cmd ctx w = Some (Ok r, w')"
  shows "completed_for (w_meta w') ctx k r \<and> precheck cmd = Ok ()"
proof (cases cmd)
  case (CreateObject req)
  with assms(4) have run: "app_create env req ctx w = Some (Ok r, w')" by simp
  have "completed_for (w_meta w') ctx k r"
    by (rule run_completes [OF assms(1-3) _ call_then_result [OF run [unfolded app_create_def]]],
        rule object_commands_finalizing(1) [OF assms(1)]) simp
  with run CreateObject show ?thesis by (auto simp: app_create_def call_then_Ok_iff call_simps)
next
  case (PatchObject i req)
  with assms(4) have run: "app_patch env i req ctx w = Some (Ok r, w')" by simp
  have "completed_for (w_meta w') ctx k r"
    by (rule run_completes [OF assms(1-3) _ call_then_result [OF run [unfolded app_patch_def]]],
        rule object_commands_finalizing(2) [OF assms(1)]) simp
  with run PatchObject show ?thesis by (auto simp: app_patch_def call_then_Ok_iff call_simps)
next
  case (DeleteObject i recursive)
  with assms(4) have run: "app_delete env i recursive ctx w = Some (Ok r, w')" by simp
  have "completed_for (w_meta w') ctx k r"
    by (rule run_completes [OF assms(1-3) _ run [unfolded app_delete_def]],
        rule object_commands_finalizing(3) [OF assms(1)]) simp
  with DeleteObject show ?thesis by simp
next
  case (CreateUpload req)
  with assms(4) have run: "upload_create env req ctx w = Some (Ok r, w')" by simp
  have "completed_for (w_meta w') ctx k r"
    by (rule completion_completes [OF assms(1-3) _ run [unfolded upload_create_def]])
      (auto simp: quiet_def upload_id_for_def intro!: call_frames upload_calls_quiet [OF assms(1)]
        require_quiet [OF assms(1)] prepare_session_quiet [OF assms(1)] split: option.split)
  with CreateUpload show ?thesis by simp
next
  case (AllocateParts i ns)
  with assms(4) have run: "upload_allocate_parts env i ns ctx w = Some (Ok r, w')" by simp
  have "completed_for (w_meta w') ctx k r"
    by (rule completion_completes [OF assms(1-3) _ run [unfolded upload_allocate_parts_def]])
      (auto simp: quiet_def intro!: call_frames require_quiet [OF assms(1)])
  with AllocateParts show ?thesis by simp
next
  case (CompleteUpload i req)
  with assms(4) have "upload_complete env i req ctx w = Some (Ok r, w')" by simp
  then have run: "run_idempotent env ctx (\<lambda>ictx. call_bind (require_upload env i) (\<lambda>upload.
          call_then (call_unless (\<not> is_completable (u_state upload)) UploadNotFound)
         (call_bind (require_object env (u_object_id upload)) (\<lambda>target.
          call_then (call_result (check_completable ctx target))
            (if u_state upload = UsCompleted
             then recommit env ctx ictx i upload (ov_object target)
             else finish_upload env ctx ictx i req upload))))) w = Some (Ok r, w')"
    by (auto simp: upload_complete_def call_catch_Ok_iff call_then_Ok_iff call_simps)
  have "completed_for (w_meta w') ctx k r"
    by (rule run_completes [OF assms(1-3) complete_finalizing [OF assms(1)] run])
  with CompleteUpload show ?thesis by simp
next
  case (AbortUpload i)
  with assms(4) have run: "upload_abort env i ctx w = Some (Ok r, w')" by simp
  have "completed_for (w_meta w') ctx k r"
    by (rule completion_completes [OF assms(1-3) _ run [unfolded upload_abort_def]])
      (auto simp: quiet_def intro!: call_frames upload_calls_quiet [OF assms(1)] require_quiet [OF assms(1)])
  with AbortUpload show ?thesis by simp
qed

lemma call_then_unit: "call_then (call_result (Ok ())) m = m"
  by (simp add: fun_eq_iff call_then_def call_bind_def call_simps)

lemma call_catch_returns:
  "\<exists>w'. m w = Some (Ok r, w') \<and> P w' \<Longrightarrow> \<exists>w'. call_catch m h w = Some (Ok r, w') \<and> P w'"
  by (auto simp: call_simps)

lemma command_replays:
  assumes "over_memory env" and "rq_idempotency_key ctx = Some k"
    and "completed_for (w_meta w) ctx k r" and "precheck cmd = Ok ()"
  shows "\<exists>w'. run_command env cmd ctx w = Some (Ok r, w') \<and> w_meta w' = w_meta w \<and> w_blobs w' = w_blobs w"
  using replayed [OF assms(1-3)] assms(4)
  by (cases cmd) (simp_all add: app_create_def app_patch_def app_delete_def upload_create_def
      upload_allocate_parts_def upload_abort_def call_then_unit upload_complete_def call_catch_returns)

lemma completed_for_kept:
  assumes "completed_for s ctx k r"
    and "(\<lambda>x y. mem_step x y \<and> key_status y (request_key ctx k) \<noteq> Free)\<^sup>*\<^sup>* s s'"
  shows "completed_for s' ctx k r"
  using assms(2)
proof (induction rule: rtranclp_induct)
  case (step y z)
  then show ?case using keeps_step [of y z] keeps_completedD unfolding completed_for_def by blast
qed (rule assms(1))

text \<open>
  C2: retrying is safe. When a command that carries an idempotency key has succeeded, repeating
  it - the same request with the same key, after any further steps of the store during which the
  key is retained - gives the same response again, and runs nothing: metadata and blobs are as
  before. This holds of each of the seven commands, those of the upload lifecycle included.
\<close>

theorem command_exactly_once:
  assumes "over_memory env" and "mem_reachable (w_meta w)" and "rq_idempotency_key ctx = Some k"
    and "run_command env cmd ctx w = Some (Ok r, w')"
    and "(\<lambda>x y. mem_step x y \<and> key_status y (request_key ctx k) \<noteq> Free)\<^sup>*\<^sup>* (w_meta w') (w_meta v)"
    and "rq_idempotency_key retry = Some k" and "request_key retry k = request_key ctx k"
    and "rq_request_hash retry = rq_request_hash ctx"
  shows "\<exists>v'. run_command env cmd retry v = Some (Ok r, v') \<and> w_meta v' = w_meta v \<and> w_blobs v' = w_blobs v"
proof -
  have first: "completed_for (w_meta w') ctx k r" "precheck cmd = Ok ()"
    using command_completes [OF assms(1) reachable_idem_ok [OF assms(2)] assms(3,4)] by simp_all
  have "completed_for (w_meta v) ctx k r" by (rule completed_for_kept [OF first(1) assms(5)])
  then have "completed_for (w_meta v) retry k r" using assms(7,8) by (simp add: completed_for_def)
  from command_replays [OF assms(1,6) this first(2)] show ?thesis .
qed

theorem command_exactly_once_witness:
  "\<exists>w' v'. run_command sample_env (CreateObject sample_new_file) (sample_request 5) sample_world
       = Some (Ok (stored_response_json 201 ''json''), w') \<and>
     run_command sample_env (CreateObject sample_new_file) (sample_request 9) w'
       = Some (Ok (stored_response_json 201 ''json''), v') \<and>
     w_meta v' = w_meta w' \<and> length (changes (w_meta v')) = 1"
proof -
  have "map_option (\<lambda>(r, w). (r, length (changes (w_meta w))))
      (run_command sample_env (CreateObject sample_new_file) (sample_request 5) sample_world)
      = Some (Ok (stored_response_json 201 ''json''), 1)"
    by code_simp
  then obtain w' where w': "run_command sample_env (CreateObject sample_new_file) (sample_request 5) sample_world
      = Some (Ok (stored_response_json 201 ''json''), w')" "length (changes (w_meta w')) = 1" by auto
  have env: "over_memory sample_env" by (auto simp: over_memory_def sample_env_def)
  have start: "mem_reachable (w_meta sample_world)" by (simp add: sample_world_def mem_reachable.start)
  have key: "rq_idempotency_key (sample_request t) = Some ''k''"
    "request_key (sample_request t) ''k'' = request_key (sample_request 5) ''k''"
    "rq_request_hash (sample_request t) = rq_request_hash (sample_request 5)" for t
    by (simp_all add: sample_request_def request_key_def)
  from command_exactly_once [OF env start key(1) w'(1) rtranclp.rtrancl_refl key, of 9] w'
  show ?thesis by auto
qed

end
