(* ===== verification/HttpReplay.thy ===== *)
theory HttpReplay
  imports HttpAuth AppExactlyOnce
begin

text \<open>
  Handlers as a whole: each of the seven writing endpoints is a context, a command read from the
  request, and the command's stored response; errors become envelopes; and a write that is
  repeated over HTTP gets the same bytes.
\<close>

section \<open>The writing endpoints\<close>

definition create_command :: "http_lib \<Rightarrow> http_request \<Rightarrow> app_command result" where
  "create_command lib req =
     rbind (typed_body lib (hl_create_body lib) (hq_body req)) (\<lambda>parsed.
     rbind (parse_kind (cb_kind parsed)) (\<lambda>kind.
     Ok (CreateObject \<lparr>cq_kind = kind, cq_name = cb_name parsed, cq_parent_id = cb_parent_id parsed,
       cq_content_type = cb_content_type parsed, cq_metadata = cb_metadata parsed\<rparr>)))"

definition patch_command :: "http_lib \<Rightarrow> string \<Rightarrow> http_request \<Rightarrow> app_command result" where
  "patch_command lib i req =
     rbind (typed_body lib (hl_patch_body lib) (hq_body req)) (\<lambda>parsed.
     rbind (object_id_of i) (\<lambda>i.
     Ok (PatchObject i \<lparr>pq_name = pb_name parsed, pq_parent_id = pb_parent_id parsed,
       pq_metadata = pb_metadata parsed\<rparr>)))"

definition delete_command :: "string \<Rightarrow> http_request \<Rightarrow> app_command result" where
  "delete_command i req =
     rbind (parse_bool (query_pairs (hq_query req)) ''recursive'') (\<lambda>recursive.
     rbind (object_id_of i) (\<lambda>i. Ok (DeleteObject i recursive)))"

definition upload_command :: "http_lib \<Rightarrow> http_request \<Rightarrow> app_command result" where
  "upload_command lib req =
     rbind (typed_body lib (hl_upload_body lib) (hq_body req)) (\<lambda>parsed.
     Ok (CreateUpload \<lparr>uq_object_id = ub_object_id parsed, uq_size = ub_size parsed,
       uq_content_type = ub_content_type parsed, uq_sha256 = ub_sha256 parsed\<rparr>))"

definition parts_command :: "http_lib \<Rightarrow> string \<Rightarrow> http_request \<Rightarrow> app_command result" where
  "parts_command lib i req =
     rbind (typed_body lib (hl_parts_body lib) (hq_body req)) (\<lambda>numbers.
     rbind (upload_id_of i) (\<lambda>i. Ok (AllocateParts i numbers)))"

definition complete_command :: "http_lib \<Rightarrow> string \<Rightarrow> http_request \<Rightarrow> app_command result" where
  "complete_command lib i req =
     rbind (parse_json lib (hq_body req)) (\<lambda>parsed.
     rbind (upload_id_of i) (\<lambda>i.
     rbind (parse_completed_parts parsed) (\<lambda>parts. Ok (CompleteUpload i \<lparr>kq_parts = parts\<rparr>))))"

fun http_command :: "http_lib \<Rightarrow> endpoint \<Rightarrow> string \<Rightarrow> http_request \<Rightarrow> app_command result option" where
  "http_command lib ECreate i req = Some (create_command lib req)"
| "http_command lib EPatch i req = Some (patch_command lib i req)"
| "http_command lib EDelete i req = Some (delete_command i req)"
| "http_command lib ECreateUpload i req = Some (upload_command lib req)"
| "http_command lib EParts i req = Some (parts_command lib i req)"
| "http_command lib EComplete i req = Some (complete_command lib i req)"
| "http_command lib EAbort i req = Some (rbind (upload_id_of i) (\<lambda>i. Ok (AbortUpload i)))"
| "http_command lib _ i req = None"

text \<open>What the context of a write is made from: method, route, target, parameters, body.\<close>

fun http_target ::
  "endpoint \<Rightarrow> string \<Rightarrow> http_request \<Rightarrow> string \<times> string \<times> string \<times> (string \<times> string) list \<times> string" where
  "http_target ECreate i req = (''POST'', ''/objects'', [], [], hq_body req)"
| "http_target EPatch i req = (''PATCH'', ''/objects/{id}'', i, [], hq_body req)"
| "http_target EDelete i req = (''DELETE'', ''/objects/{id}'', i, query_pairs (hq_query req), [])"
| "http_target ECreateUpload i req = (''POST'', ''/uploads'', [], [], hq_body req)"
| "http_target EParts i req = (''POST'', ''/uploads/{id}/parts'', i, [], hq_body req)"
| "http_target EComplete i req = (''POST'', ''/uploads/{id}/complete'', i, [], hq_body req)"
| "http_target EAbort i req = (''DELETE'', ''/uploads/{id}'', i, [], [])"
| "http_target _ i req = ([], [], i, [], [])"

lemma call_result_rbind:
  "call_bind (call_result (rbind a f)) g = call_bind (call_result a) (\<lambda>x. call_bind (call_result (f x)) g)"
  by (cases a) (simp_all add: fun_eq_iff call_bind_def call_simps)

lemma call_result_Ok: "call_bind (call_result (Ok a)) g = g a"
  by (simp add: fun_eq_iff call_bind_def call_simps)

lemma write_endpoint:
  assumes "http_command (hs_lib hs) ep i req = Some c"
    and "http_target ep i req = (m, route, target, query, body)"
  shows "run_endpoint hs meta ep i req =
    with_context hs meta req m route target query body (\<lambda>ctx.
      call_bind (call_result c) (\<lambda>cmd. answer_stored hs ctx (run_command (hs_env hs) cmd ctx)))"
  using assms
  by (cases ep)
    (auto simp: http_create_def http_patch_def http_delete_def http_create_upload_def http_parts_def
      http_complete_def http_abort_def create_command_def patch_command_def delete_command_def
      upload_command_def parts_command_def complete_command_def call_result_rbind call_result_Ok Let_def)

section \<open>Errors\<close>

lemma status_is_error: "400 \<le> status e"
  by (cases e) simp_all

lemma respond_cases:
  "respond hs meta m p = Some (r, p') \<longleftrightarrow>
     (\<exists>resp. r = Ok resp \<and>
       (m p = Some (Ok resp, p') \<or>
        (\<exists>e q. m p = Some (Err e, q) \<and>
           error_response (hs_lib hs) (hs_env hs) e (rm_request_id meta) = Some resp \<and>
           p' = (fst q, (snd q)\<lparr>w_metrics := record_error e (w_metrics (snd q))\<rparr>))))"
  by (auto simp: respond_def call_catch_def call_then_def call_bind_def on_world_def on_metrics_def
      call_expect_def call_simps split: option.splits sum.splits)

lemma run_endpoint_answers:
  assumes "run_endpoint hs meta ep i req p = Some (r, p')"
  shows "\<exists>resp. r = Ok resp"
  using assms
  by (cases ep)
    (auto simp: http_create_def http_get_def http_patch_def http_delete_def http_children_def
      http_get_content_def http_head_content_def http_resolve_def http_query_def http_create_upload_def
      http_abort_def http_parts_def http_complete_def http_changes_def http_maintenance_def
      http_healthz_def http_metrics_def with_context_def respond_cases Let_def call_simps)

lemma router_answers: "router hs match_route meta req p = Some (r, p') \<Longrightarrow> \<exists>resp. r = Ok resp"
  by (auto simp: router_def not_found_def method_not_allowed_def call_expect_iff
      dest: run_endpoint_answers split: matched.splits)

lemma pipeline_draw:
  "call_bind (on_world (draw_ulid env)) f (running, w) =
     f (ae_ulid env (w_drawn w)) (running, w\<lparr>w_drawn := w_drawn w + 1\<rparr>)"
  by (simp add: call_bind_def on_world_def call_simps)

lemma with_request_id_set:
  "hl_header_ok lib ''x-request-id'' rid \<Longrightarrow>
     map_of (hr_headers (with_request_id lib rid resp)) ''x-request-id'' = Some rid"
  by (simp add: with_request_id_def header_insert_def)

lemma error_headers:
  "error_response lib env e rid = Some resp \<Longrightarrow> map_of (hr_headers resp) ''x-request-id'' = Some rid"
  "status_error_response lib env n c msg rid = Some resp \<Longrightarrow>
     map_of (hr_headers resp) ''x-request-id'' = Some rid"
  by (auto simp: error_response_def status_error_response_def build_response_iff json_headers_def)

text \<open>
  C26: the error contract. Every request that the server returns from is answered with a response
  that names the request's own id, never with an error of the handler. A handler that fails is
  answered with the status of its error, at least 400, and the envelope of its code and public
  message; the store and the blobs are as the handler left them and one counter is increased for
  a revision conflict, a storage error and an internal error. Two internal errors, and two
  storage errors, are the same to a client.
\<close>

theorem errors_become_envelopes:
  assumes "hl_header_ok (hs_lib hs) ''x-request-id''
      (generate_request_id (ae_ulid (hs_env hs) (w_drawn w)))"
    and "pipeline hs match_route req (running, w) = Some (r, p')"
  shows "(\<exists>resp. r = Ok resp \<and>
       map_of (hr_headers resp) ''x-request-id'' = Some (generate_request_id (ae_ulid (hs_env hs) (w_drawn w)))) \<and>
     (\<forall>meta m q e u. m q = Some (Err e, u) \<longrightarrow> respond hs meta m q =
        map_option (\<lambda>resp. (Ok resp, (fst u, (snd u)\<lparr>w_metrics := record_error e (w_metrics (snd u))\<rparr>)))
          (error_response (hs_lib hs) (hs_env hs) e (rm_request_id meta))) \<and>
     (\<forall>e rid resp. error_response (hs_lib hs) (hs_env hs) e rid = Some resp \<longrightarrow>
        400 \<le> hr_status resp \<and> hr_body resp = body_or_internal (hs_env hs) (error_json e rid)) \<and>
     (\<forall>a b rid. error_json (Internal a) rid = error_json (Internal b) rid \<and>
        error_json (StorageError a) rid = error_json (StorageError b) rid)"
proof (intro conjI)
  let ?rid = "generate_request_id (ae_ulid (hs_env hs) (w_drawn w))"
  have served: "\<exists>resp. r' = Ok resp \<and> map_of (hr_headers resp) ''x-request-id'' = Some ?rid"
    if run: "authorized hs match_route meta req q = Some (r', u)" and "rm_request_id meta = ?rid"
    for meta q r' u
  proof (cases "MAX_BODY_BYTES < length (hq_body req)")
    case True
    with that show ?thesis
      by (auto simp: authorized_def call_then_def call_bind_Some_iff call_expect_iff on_world_iff
          on_metrics_step error_headers)
  next
    case False
    from run obtain a v where v: "router hs match_route meta req q = Some (a, v)"
      and rest: "(\<exists>e. a = Err e \<and> r' = Err e \<and> v = u) \<or> (\<exists>resp. a = Ok resp \<and>
        call_then (on_world (on_metrics (count_request req)))
          (call_ok (with_request_id (hs_lib hs) (rm_request_id meta) resp)) v = Some (r', u))"
      unfolding authorized_def if_not_P [OF False] call_bind_Some_iff by blast
    from router_answers [OF v] rest that(2) assms(1) show ?thesis
      by (auto simp: call_then_def call_bind_Some_iff on_world_iff on_metrics_step call_simps
          with_request_id_set)
  qed
  show "\<exists>resp. r = Ok resp \<and> map_of (hr_headers resp) ''x-request-id'' = Some ?rid"
    using assms(2) served
    by (auto simp: pipeline_def pipeline_draw Let_def call_expect_iff error_headers split: sum.splits)
  show "\<forall>meta m q e u. m q = Some (Err e, u) \<longrightarrow> respond hs meta m q =
        map_option (\<lambda>resp. (Ok resp, (fst u, (snd u)\<lparr>w_metrics := record_error e (w_metrics (snd u))\<rparr>)))
          (error_response (hs_lib hs) (hs_env hs) e (rm_request_id meta))"
    by (auto simp: respond_def call_catch_def call_then_def call_bind_def on_world_def on_metrics_def
        call_expect_def call_simps split: option.splits)
  show "\<forall>e rid resp. error_response (hs_lib hs) (hs_env hs) e rid = Some resp \<longrightarrow>
        400 \<le> hr_status resp \<and> hr_body resp = body_or_internal (hs_env hs) (error_json e rid)"
    by (auto simp: error_response_def build_response_iff status_or_500_def status_is_error)
qed (simp add: error_json_def public_message_def)

theorem errors_become_envelopes_witness:
  "\<exists>resp p'. pipeline sample_http_state (\<lambda>_ _ _. Matched EGet ''missing'') (sample_http_request ''s3cret'')
      (False, sample_world) = Some (Ok resp, p') \<and>
     map_of (hr_headers resp) ''x-request-id'' = Some ''req_0'' \<and> hr_status resp = 404"
proof -
  let ?run = "pipeline sample_http_state (\<lambda>_ _ _. Matched EGet ''missing'') (sample_http_request ''s3cret'')
      (False, sample_world)"
  let ?meta = "\<lparr>rm_request_id = ''req_0'', rm_principal_id = local_principal\<rparr>"
  have rid: "generate_request_id (ae_ulid (hs_env sample_http_state) (w_drawn sample_world)) = ''req_0''"
    by code_simp
  have who: "authenticate (hs_lib sample_http_state) (hs_token sample_http_state)
      (hq_headers (sample_http_request ''s3cret'')) = Ok local_principal"
    and path: "is_public (hq_path (sample_http_request ''s3cret'')) = False"
    by code_simp+
  have small: "\<not> MAX_BODY_BYTES < length (hq_body (sample_http_request ''s3cret''))"
    by (simp add: MAX_BODY_BYTES_def sample_http_request_def)
  have steps: "?run = call_bind (router sample_http_state (\<lambda>_ _ _. Matched EGet ''missing'') ?meta
        (sample_http_request ''s3cret'')) (\<lambda>response.
        call_then (on_world (on_metrics (count_request (sample_http_request ''s3cret''))))
          (call_ok (with_request_id (hs_lib sample_http_state) ''req_0'' response)))
      (False, sample_world\<lparr>w_drawn := w_drawn sample_world + 1\<rparr>)"
    by (simp only: pipeline_def pipeline_draw authorized_def small path who rid if_False Let_def
        sum.case request_meta.simps)
  have eval: "map_option (\<lambda>(r, p). case r of Inl _ \<Rightarrow> 0 | Inr resp \<Rightarrow> hr_status resp) ?run = Some 404"
    unfolding steps by code_simp
  then obtain r p' where run: "?run = Some (r, p')" by auto
  have ok: "hl_header_ok (hs_lib sample_http_state) ''x-request-id''
      (generate_request_id (ae_ulid (hs_env sample_http_state) (w_drawn sample_world)))"
    by (simp add: sample_http_state_def sample_http_lib_def)
  from errors_become_envelopes [OF ok run, THEN conjunct1] eval run show ?thesis
    unfolding rid by auto
qed

section \<open>Repeating a write\<close>

lemma with_context_Ok:
  assumes "with_context hs meta req m route target query body f p = Some (Ok resp, p')"
    and "hr_status resp < 400"
  shows "\<exists>ctx. http_context (hs_lib hs) (hs_env hs) meta req m route target query body = Ok ctx \<and>
    f ctx p = Some (Ok resp, p')"
proof -
  have "error_response (hs_lib hs) (hs_env hs) e (rm_request_id meta) \<noteq> Some resp" for e
    using assms(2) status_is_error [of e]
    by (auto simp: error_response_def build_response_iff status_or_500_def split: if_splits)
  with assms(1) show ?thesis
    by (auto simp: with_context_def respond_cases call_bind_Ok_iff call_simps)
qed

lemma write_endpoint_Ok:
  assumes "http_command (hs_lib hs) ep i req = Some c"
    and "http_target ep i req = (m, route, target, query, body)"
    and "run_endpoint hs meta ep i req (running, w) = Some (Ok resp, (running', w'))"
    and "hr_status resp < 400"
  shows "\<exists>ctx cmd stored. http_context (hs_lib hs) (hs_env hs) meta req m route target query body = Ok ctx \<and>
    c = Ok cmd \<and> run_command (hs_env hs) cmd ctx w = Some (Ok stored, w') \<and>
    stored_http_response (hs_lib hs) stored (rq_request_id ctx) = Some resp"
  using with_context_Ok [OF assms(3) [unfolded write_endpoint [OF assms(1,2)]] assms(4)]
  by (auto simp: answer_stored_def call_bind_Ok_iff on_world_iff call_expect_iff call_simps)

lemma write_endpoint_runs:
  assumes "http_command (hs_lib hs) ep i req = Some (Ok cmd)"
    and "http_target ep i req = (m, route, target, query, body)"
    and "http_context (hs_lib hs) (hs_env hs) meta req m route target query body = Ok ctx"
    and "run_command (hs_env hs) cmd ctx w = Some (Ok stored, w')"
    and "stored_http_response (hs_lib hs) stored (rq_request_id ctx) = Some resp"
  shows "run_endpoint hs meta ep i req (running, w) = Some (Ok resp, (running, w'))"
  unfolding write_endpoint [OF assms(1,2)]
  using assms(3-5)
  by (simp add: with_context_def respond_cases answer_stored_def call_result_Ok)
    (simp add: call_bind_def on_world_def call_expect_def call_simps)

text \<open>The context of a request depends on its time and id only where the fields say so.\<close>

lemma http_context_retry:
  assumes "http_context lib env meta req m route target query body = Ok ctx"
    and "hq_headers req' = hq_headers req" and "rm_principal_id meta' = rm_principal_id meta"
  shows "http_context lib env meta' req' m route target query body =
    Ok (ctx\<lparr>rq_request_id := rm_request_id meta', rq_now := hq_now req'\<rparr>)"
  using assms by (auto simp: http_context_def rbind_Ok_iff)

lemma http_context_fields:
  assumes "http_context lib env meta req m route target query body = Ok ctx"
  shows "idempotency_key_of lib (hq_headers req) = Ok (rq_idempotency_key ctx)"
    "request_key ctx k = (rm_principal_id meta, m @ '' '' @ route, k)"
    "rq_request_id ctx = rm_request_id meta"
  using assms by (auto simp: http_context_def rbind_Ok_iff request_key_def)

lemma http_retry_same:
  assumes "hq_body req' = hq_body req" and "hq_query req' = hq_query req"
  shows "http_command lib ep i req' = http_command lib ep i req"
    "http_target ep i req' = http_target ep i req"
  using assms by (cases ep; simp add: create_command_def patch_command_def delete_command_def
      upload_command_def parts_command_def complete_command_def)+

lemma stored_response_retry:
  assumes "stored_http_response lib stored rid = Some resp" and "hl_header_ok lib ''x-request-id'' rid'"
  shows "\<exists>resp'. stored_http_response lib stored rid' = Some resp' \<and> hr_status resp' = hr_status resp \<and>
    hr_body resp' = hr_body resp \<and> tl (hr_headers resp') = tl (hr_headers resp)"
  using assms by (auto simp: stored_http_response_def build_response_iff)

text \<open>
  C1: a write can be repeated over HTTP. When a write that carries an idempotency key was answered
  with success, sending the same request again - same headers, body and parameters, at any time
  and after any further steps of the store while the key is retained - is answered with the same
  status, the same body byte for byte and the same headers after the request's own id, and
  leaves metadata and blobs as they are.
\<close>

theorem http_write_exactly_once:
  assumes "over_memory (hs_env hs)" and "mem_reachable (w_meta w)"
    and "http_command (hs_lib hs) ep i req = Some c"
    and "http_target ep i req = (m, route, target, query, body)"
    and "idempotency_key_of (hs_lib hs) (hq_headers req) = Ok (Some k)"
    and "run_endpoint hs meta ep i req (running, w) = Some (Ok resp, (running', w'))"
    and "hr_status resp < 400"
    and "(\<lambda>x y. mem_step x y \<and> key_status y (rm_principal_id meta, m @ '' '' @ route, k) \<noteq> Free)\<^sup>*\<^sup>*
      (w_meta w') (w_meta v)"
    and "hq_headers req' = hq_headers req" and "hq_body req' = hq_body req" and "hq_query req' = hq_query req"
    and "rm_principal_id meta' = rm_principal_id meta"
    and "hl_header_ok (hs_lib hs) ''x-request-id'' (rm_request_id meta')"
  shows "\<exists>resp' v'. run_endpoint hs meta' ep i req' (running', v) = Some (Ok resp', (running', v')) \<and>
    hr_status resp' = hr_status resp \<and> hr_body resp' = hr_body resp \<and>
    tl (hr_headers resp') = tl (hr_headers resp) \<and> w_meta v' = w_meta v \<and> w_blobs v' = w_blobs v"
proof -
  from write_endpoint_Ok [OF assms(3,4,6,7)] obtain ctx cmd stored where
    ctx: "http_context (hs_lib hs) (hs_env hs) meta req m route target query body = Ok ctx"
    and cmd: "c = Ok cmd" and run: "run_command (hs_env hs) cmd ctx w = Some (Ok stored, w')"
    and resp: "stored_http_response (hs_lib hs) stored (rq_request_id ctx) = Some resp"
    by blast
  let ?retry = "ctx\<lparr>rq_request_id := rm_request_id meta', rq_now := hq_now req'\<rparr>"
  have key: "rq_idempotency_key ctx = Some k" using http_context_fields(1) [OF ctx] assms(5) by simp
  from command_completes [OF assms(1) reachable_idem_ok [OF assms(2)] key run]
  have first: "completed_for (w_meta w') ctx k stored" "precheck cmd = Ok ()" by simp_all
  have "completed_for (w_meta v) ctx k stored"
    by (rule completed_for_kept [OF first(1)]) (simp only: http_context_fields(2) [OF ctx] assms(8))
  then have "completed_for (w_meta v) ?retry k stored" by (simp add: completed_for_def request_key_def)
  from command_replays [OF assms(1) _ this first(2)] key obtain v' where
    again: "run_command (hs_env hs) cmd ?retry v = Some (Ok stored, v')"
    and same: "w_meta v' = w_meta v" "w_blobs v' = w_blobs v" by auto
  have "rq_request_id ?retry = rm_request_id meta'" by simp
  with stored_response_retry [OF resp assms(13)] obtain resp' where
    resp': "stored_http_response (hs_lib hs) stored (rq_request_id ?retry) = Some resp'"
    and eq: "hr_status resp' = hr_status resp" "hr_body resp' = hr_body resp"
      "tl (hr_headers resp') = tl (hr_headers resp)" by auto
  have "run_endpoint hs meta' ep i req' (running', v) = Some (Ok resp', (running', v'))"
    by (rule write_endpoint_runs [OF _ _ http_context_retry [OF ctx assms(9,12)] again resp'])
      (simp_all add: http_retry_same [OF assms(10,11)] assms(3,4) cmd)
  with same eq show ?thesis by blast
qed

theorem http_write_exactly_once_witness:
  "\<exists>resp w' resp' v'. run_endpoint sample_http_state \<lparr>rm_request_id = ''r1'', rm_principal_id = ''p''\<rparr>
      ECreate [] (sample_http_request ''s3cret'') (False, sample_world) = Some (Ok resp, (False, w')) \<and>
    hr_status resp = 201 \<and> length (changes (w_meta w')) = 1 \<and>
    run_endpoint sample_http_state \<lparr>rm_request_id = ''r2'', rm_principal_id = ''p''\<rparr>
      ECreate [] (sample_http_request ''s3cret'') (False, w') = Some (Ok resp', (False, v')) \<and>
    hr_status resp' = 201 \<and> hr_body resp' = hr_body resp \<and> w_meta v' = w_meta w'"
proof -
  let ?req = "sample_http_request ''s3cret''" and ?hs = sample_http_state
  let ?meta = "\<lambda>r. \<lparr>rm_request_id = r, rm_principal_id = ''p''\<rparr>"
  let ?cmd = "CreateObject sample_new_file"
  have cmd: "http_command (hs_lib ?hs) ECreate [] ?req = Some (Ok ?cmd)" by code_simp
  have target: "http_target ECreate [] ?req = (''POST'', ''/objects'', [], [], hq_body ?req)" by simp
  have read: "header_value (hs_lib ?hs) (hq_headers ?req) IDEMPOTENCY_HEADER = Ok (Some ''k1'')"
    "header_value (hs_lib ?hs) (hq_headers ?req) IF_MATCH_HEADER = Ok None"
    "list_all is_ascii_graphic ''k1''"
    by code_simp+
  have key: "idempotency_key_of (hs_lib ?hs) (hq_headers ?req) = Ok (Some ''k1'')"
    unfolding idempotency_key_of_def read(1) using read(3) by (simp add: MAX_IDEMPOTENCY_KEY_LEN_def)
  have cond: "parse_if_match (hs_lib ?hs) (hq_headers ?req) = Ok None"
    unfolding parse_if_match_def read(2) by simp
  define h where "h = canonical_request_hash (ae_sha256 (hs_env ?hs)) ''p'' ''POST'' ''/objects'' [] []
    (hq_body ?req) None"
  let ?ctx = "\<lparr>rq_request_id = ''r1'', rq_principal_id = ''p'', rq_operation = ''POST'' @ '' '' @ ''/objects'',
    rq_idempotency_key = Some ''k1'', rq_request_hash = h, rq_if_match = None, rq_now = 5\<rparr>"
  have ctx: "http_context (hs_lib ?hs) (hs_env ?hs) (?meta ''r1'') ?req ''POST'' ''/objects'' [] [] (hq_body ?req)
      = Ok ?ctx"
    unfolding http_context_def key cond h_def by (simp add: sample_http_request_def)
  have "map_option (\<lambda>(r, w). (r, length (changes (w_meta w)))) (run_command (hs_env ?hs) ?cmd ?ctx sample_world)
      = Some (Ok (stored_response_json 201 ''json''), 1)"
    by code_simp
  then obtain w' where run: "run_command (hs_env ?hs) ?cmd ?ctx sample_world =
      Some (Ok (stored_response_json 201 ''json''), w')" and one: "length (changes (w_meta w')) = 1"
    by auto
  have "stored_http_response (hs_lib ?hs) (stored_response_json 201 ''json'') (rq_request_id ?ctx) \<noteq> None"
    by code_simp
  then obtain resp where resp: "stored_http_response (hs_lib ?hs) (stored_response_json 201 ''json'')
      (rq_request_id ?ctx) = Some resp" by blast
  have st: "hr_status resp = 201"
    using resp by (auto simp: stored_http_response_def build_response_iff stored_response_json_def
        status_or_500_def sample_http_state_def sample_http_lib_def)
  have first: "run_endpoint ?hs (?meta ''r1'') ECreate [] ?req (False, sample_world) = Some (Ok resp, (False, w'))"
    by (rule write_endpoint_runs [OF cmd target ctx run resp])
  have env: "over_memory (hs_env ?hs)" by (auto simp: over_memory_def sample_http_state_def sample_env_def)
  have start: "mem_reachable (w_meta sample_world)" by (simp add: sample_world_def mem_reachable.start)
  have ok: "hl_header_ok (hs_lib ?hs) ''x-request-id'' (rm_request_id (?meta ''r2''))"
    by (simp add: sample_http_state_def sample_http_lib_def)
  have "hr_status resp < 400" by (simp add: st)
  from http_write_exactly_once [OF env start cmd target key first this rtranclp.rtrancl_refl refl refl refl _ ok]
  obtain resp' v' where "run_endpoint ?hs (?meta ''r2'') ECreate [] ?req (False, w') = Some (Ok resp', (False, v'))"
    "hr_status resp' = 201" "hr_body resp' = hr_body resp" "w_meta v' = w_meta w'"
    unfolding st by auto
  with first st one show ?thesis by blast
qed

end
