(* ===== verification/ForestPaths.thy ===== *)
theory ForestPaths
  imports TreeShape "HOL-Library.Sublist"
begin

text \<open>
  The paths of a file tree: which node the names from the root lead to, and how adding,
  changing, moving and removing a node changes that. The nodes below a node are those whose
  path extends its path.
\<close>

inductive leads :: "forest \<Rightarrow> string list \<Rightarrow> object_id \<Rightarrow> bool" for L :: forest where
  here: "leads L [] ROOT_ID"
| down: "leads L p i \<Longrightarrow> L j = Some so \<Longrightarrow> parent_of so = Some i \<Longrightarrow> node_name so = n \<Longrightarrow>
    leads L (p @ [n]) j"

inductive_cases leads_Nil_cases: "leads L [] i"
inductive_cases leads_snoc_cases: "leads L (p @ [n]) j"

lemma leads_Nil [simp]: "leads L [] i \<longleftrightarrow> i = ROOT_ID"
  by (auto intro: leads.here elim: leads_Nil_cases)

lemma leads_snoc:
  "leads L (p @ [n]) j \<longleftrightarrow>
     (\<exists>i so. leads L p i \<and> L j = Some so \<and> parent_of so = Some i \<and> node_name so = n)"
  by (auto intro: leads.down elim: leads_snoc_cases)

text \<open>A path leads to one node, and to a node there is one path.\<close>

lemma leads_target:
  assumes "names_unique L"
  shows "leads L p i \<Longrightarrow> leads L p j \<Longrightarrow> i = j"
proof (induction p arbitrary: i j rule: rev_induct)
  case (snoc n p)
  from snoc.prems obtain a b si sj where
    ab: "leads L p a" "L i = Some si" "parent_of si = Some a" "node_name si = n"
    "leads L p b" "L j = Some sj" "parent_of sj = Some b" "node_name sj = n"
    by (auto simp: leads_snoc)
  with snoc.IH have "a = b" by blast
  with ab assms show ?case unfolding names_unique_def by metis
qed simp

lemma leads_path:
  assumes "tree_shape L"
  shows "leads L p i \<Longrightarrow> leads L q i \<Longrightarrow> p = q"
proof (induction p arbitrary: i q rule: rev_induct)
  case Nil
  then show ?case
    using root_no_parent [OF assms] by (cases q rule: rev_cases) (auto simp: leads_snoc child_edges_iff)
next
  case (snoc n p)
  then obtain a so where a: "leads L p a" "L i = Some so" "parent_of so = Some a" "node_name so = n"
    by (auto simp: leads_snoc)
  then have "i \<noteq> ROOT_ID" using root_no_parent [OF assms] by (auto simp: child_edges_iff)
  with snoc.prems(2) obtain q' m where "q = q' @ [m]" by (cases q rule: rev_cases) auto
  with snoc.prems(2) a obtain "m = n" "leads L q' a" by (auto simp: leads_snoc)
  with snoc.IH [OF a(1)] \<open>q = q' @ [m]\<close> show ?case by simp
qed

lemma leads_live: "tree_shape L \<Longrightarrow> leads L p i \<Longrightarrow> \<exists>so. L i = Some so"
  by (cases p rule: rev_cases) (auto simp: leads_snoc tree_shape_def)

text \<open>Every node of a rooted tree has a path.\<close>

lemma leads_rooted:
  assumes "rooted L" and "L i = Some so"
  obtains p where "leads L p i"
proof -
  have "(ROOT_ID, i) \<in> (child_edges L)\<^sup>*" using assms by (simp add: rooted_def)
  then have "\<exists>p. leads L p i"
  proof (induction rule: rtrancl_induct)
    case base
    show ?case by (rule exI [of _ "[]"]) simp
  next
    case (step y z)
    then obtain p a where "leads L p y" "L z = Some a" "parent_of a = Some y"
      by (auto simp: child_edges_iff)
    then have "leads L (p @ [node_name a]) z" by (intro leads.down) auto
    then show ?case by blast
  qed
  then show thesis using that by blast
qed

text \<open>A path that leads somewhere leads to a folder after each of its names but the last.\<close>

lemma leads_prefix:
  assumes "tree_shape L"
  shows "leads L (p @ q) j \<Longrightarrow> \<exists>i. leads L p i \<and> j \<in> subtree L i"
proof (induction q arbitrary: j rule: rev_induct)
  case Nil
  then show ?case by auto
next
  case (snoc n q)
  then obtain k so where k: "leads L (p @ q) k" "L j = Some so" "parent_of so = Some k"
    by (auto simp: leads_snoc simp flip: append_assoc)
  with snoc.IH obtain i where "leads L p i" "k \<in> subtree L i" by blast
  moreover have "(k, j) \<in> child_edges L" using k by (simp add: child_edges_iff)
  ultimately show ?case using subtree_step by blast
qed

lemma leads_below:
  assumes "leads L p i" and "j \<in> subtree L i"
  obtains q where "leads L (p @ q) j"
proof -
  have "(i, j) \<in> (child_edges L)\<^sup>*" using assms(2) by (simp add: subtree_def)
  then have "\<exists>q. leads L (p @ q) j"
  proof (induction rule: rtrancl_induct)
    case base
    show ?case by (rule exI [of _ "[]"]) (simp add: assms(1))
  next
    case (step y z)
    then obtain q a where "leads L (p @ q) y" "L z = Some a" "parent_of a = Some y"
      by (auto simp: child_edges_iff)
    then have "leads L ((p @ q) @ [node_name a]) z" by (intro leads.down) auto
    then show ?case by (metis append_assoc)
  qed
  then show thesis using that by blast
qed

lemma below_iff_prefix:
  assumes "tree_shape L" and "names_unique L" and "leads L p i" and "leads L q j"
  shows "j \<in> subtree L i \<longleftrightarrow> prefix p q"
proof
  assume "j \<in> subtree L i"
  then obtain r where "leads L (p @ r) j" using assms(3) leads_below by blast
  with leads_path [OF assms(1) this assms(4)] show "prefix p q" by (metis prefixI)
next
  assume "prefix p q"
  then obtain r where "q = p @ r" by (rule prefixE)
  with assms(4) obtain k where "leads L p k" "j \<in> subtree L k"
    using leads_prefix [OF assms(1)] by blast
  with leads_target [OF assms(2,3)] show "j \<in> subtree L i" by blast
qed

section \<open>A new node\<close>

lemma leads_insert:
  assumes "tree_shape L" and "L i = None" and "parent_of so = Some d" and "L d \<noteq> None"
  shows "leads (L(i \<mapsto> so)) q j \<longleftrightarrow>
     leads L q j \<or> j = i \<and> (\<exists>p. leads L p d \<and> q = p @ [node_name so])"
proof (induction q arbitrary: j rule: rev_induct)
  case Nil
  then show ?case using assms(1,2) by (auto simp: tree_shape_def)
next
  case (snoc n q)
  have leaf: "parent_of a \<noteq> Some i" if a: "L k = Some a" for k a
  proof (cases "k = ROOT_ID")
    case True
    with a assms(1) show ?thesis by (auto simp: tree_shape_def)
  next
    case False
    from assms(1) a False obtain u v where "parent_of a = Some u" "L u = Some v"
      by (rule tree_shape_parent)
    with assms(2) show ?thesis by auto
  qed
  have d: "d \<noteq> i" using assms(2,4) by auto
  note I = snoc.IH
  show ?case
  proof (cases "j = i")
    case True
    have "leads (L(i \<mapsto> so)) (q @ [n]) i \<longleftrightarrow> leads (L(i \<mapsto> so)) q d \<and> node_name so = n"
      using assms(3) by (auto simp: leads_snoc)
    also have "\<dots> \<longleftrightarrow> leads L q d \<and> node_name so = n" using I [of d] d by (simp del: fun_upd_apply)
    finally show ?thesis using True assms(2) by (simp del: fun_upd_apply add: leads_snoc) blast
  next
    case False
    have "leads (L(i \<mapsto> so)) (q @ [n]) j \<longleftrightarrow>
        (\<exists>k a. leads (L(i \<mapsto> so)) q k \<and> L j = Some a \<and> parent_of a = Some k \<and> node_name a = n)"
      using False by (simp only: leads_snoc fun_upd_other not_False_eq_True)
    also have "\<dots> \<longleftrightarrow> (\<exists>k a. leads L q k \<and> L j = Some a \<and> parent_of a = Some k \<and> node_name a = n)"
      using I leaf by metis
    finally show ?thesis using False by (simp only: leads_snoc) blast
  qed
qed

section \<open>A node that stays in place\<close>

lemma leads_update:
  assumes "L i = Some old" and "parent_of so = parent_of old" and "node_name so = node_name old"
  shows "leads (L(i \<mapsto> so)) q j \<longleftrightarrow> leads L q j"
proof (induction q arbitrary: j rule: rev_induct)
  case (snoc n q)
  have "leads (L(i \<mapsto> so)) q k \<longleftrightarrow> leads L q k" for k by (rule snoc.IH)
  then show ?case
    unfolding leads_snoc using assms
    by (cases "j = i") (simp_all only: fun_upd_same fun_upd_other not_False_eq_True, auto)
qed simp

section \<open>A node that is removed with all below it\<close>

lemma leads_without:
  assumes "tree_shape L" and "names_unique L" and "leads L p i" and "p \<noteq> []"
  shows "leads (forest_without (subtree L i) L) q j \<longleftrightarrow> leads L q j \<and> \<not> prefix p q"
proof (induction q arbitrary: j rule: rev_induct)
  case Nil
  then show ?case using assms(4) by simp
next
  case (snoc n q)
  have out: "j \<notin> subtree L i \<longleftrightarrow> \<not> prefix p (q @ [n])" if "leads L (q @ [n]) j"
    using below_iff_prefix [OF assms(1-3) that] by simp
  show ?case
  proof
    assume "leads (forest_without (subtree L i) L) (q @ [n]) j"
    then obtain k so where k: "leads L q k" "j \<notin> subtree L i" "L j = Some so"
      "parent_of so = Some k" "node_name so = n"
      unfolding leads_snoc snoc.IH by (auto simp: forest_without_def split: if_splits)
    then have "leads L (q @ [n]) j" by (auto simp: leads_snoc)
    with out k(2) show "leads L (q @ [n]) j \<and> \<not> prefix p (q @ [n])" by blast
  next
    assume q: "leads L (q @ [n]) j \<and> \<not> prefix p (q @ [n])"
    then obtain k so where k: "leads L q k" "L j = Some so" "parent_of so = Some k" "node_name so = n"
      by (auto simp: leads_snoc)
    moreover have "\<not> prefix p q" using q by (auto simp: prefix_snoc)
    moreover have "forest_without (subtree L i) L j = Some so"
      using q out k(2) by (simp add: forest_without_def)
    ultimately show "leads (forest_without (subtree L i) L) (q @ [n]) j"
      unfolding leads_snoc snoc.IH by blast
  qed
qed

section \<open>A node that moves\<close>

text \<open>The new place is not below the node: the paths through the node change, and no others.\<close>

lemma leads_move:
  assumes "tree_shape L" and "names_unique L" and "leads L p i" and "i \<noteq> ROOT_ID"
    and "leads L d k" and "parent_of so = Some k" and "k \<notin> subtree L i"
  shows "leads (L(i \<mapsto> so)) q j \<longleftrightarrow>
     (\<exists>r. q = (d @ [node_name so]) @ r \<and> leads L (p @ r) j) \<or> leads L q j \<and> \<not> prefix p q"
    (is "leads ?L q j \<longleftrightarrow> ?moved q j \<or> ?kept q j")
proof
  have p: "p \<noteq> []" using assms(3,4) by auto
  have unique: "q = p" if "leads L q i" for q by (rule leads_path [OF assms(1) that assms(3)])
  have child: "leads ?L (q @ [n]) j" if "leads L (q @ [n]) j" "leads ?L q a" "leads L q a" "q @ [n] \<noteq> p" for q n j a
  proof -
    from that(1) obtain b b' where b: "leads L q b" "L j = Some b'" "parent_of b' = Some b" "node_name b' = n"
      by (auto simp: leads_snoc)
    with leads_target [OF assms(2) that(3)] have "b = a" by simp
    moreover have "j \<noteq> i" using that(1,4) unique by blast
    ultimately show ?thesis using b that(2) by (intro leads.down) auto
  qed
  have kept: "leads ?L q j" if "leads L q j" "\<not> prefix p q" for q j
    using that
  proof (induction q arbitrary: j rule: rev_induct)
    case (snoc n q)
    then obtain a where a: "leads L q a" by (auto simp: leads_snoc)
    moreover have "\<not> prefix p q" "q @ [n] \<noteq> p" using snoc.prems(2) by (auto simp: prefix_snoc)
    ultimately show ?case using child [OF snoc.prems(1)] snoc.IH by blast
  qed simp
  have "\<not> prefix p d" using below_iff_prefix [OF assms(1,2,3,5)] assms(7) by simp
  with kept assms(5) have "leads ?L d k" by blast
  with assms(6) have new: "leads ?L (d @ [node_name so]) i" by (intro leads.down) auto
  have moved: "leads ?L ((d @ [node_name so]) @ r) j" if "leads L (p @ r) j" for r j
    using that
  proof (induction r arbitrary: j rule: rev_induct)
    case Nil
    with leads_target [OF assms(2,3)] new show ?case by simp
  next
    case (snoc n r)
    then obtain a b where a: "leads L (p @ r) a" "L j = Some b" "parent_of b = Some a" "node_name b = n"
      by (auto simp: leads_snoc simp flip: append_assoc)
    have "j \<noteq> i" using snoc.prems unique by fastforce
    with a snoc.IH [OF a(1)] have "leads ?L (((d @ [node_name so]) @ r) @ [n]) j"
      by (intro leads.down [where i = a]) auto
    then show ?case by simp
  qed
  show "leads ?L q j" if "?moved q j \<or> ?kept q j" using that moved kept by blast
  show "?moved q j \<or> ?kept q j" if "leads ?L q j"
    using that
  proof (induction q j rule: leads.induct)
    case here
    show ?case using p by simp
  next
    case (down q a j b n)
    show ?case
    proof (cases "j = i")
      case True
      with down assms(6) have a: "a = k" "node_name so = n" by simp_all
      have "\<not> ?moved q k" using leads_prefix [OF assms(1), of p _ k] leads_target [OF assms(2,3)] assms(7) by blast
      with down.IH a(1) have "leads L q k" by blast
      with assms(5) leads_path [OF assms(1)] have "q = d" by blast
      with a True assms(3) show ?thesis by (intro disjI1 exI [of _ "[]"]) simp
    next
      case False
      with down have b: "L j = Some b" by simp
      from down.IH show ?thesis
      proof
        assume "?moved q a"
        then obtain r where r: "q = (d @ [node_name so]) @ r" "leads L (p @ r) a" by blast
        have "leads L ((p @ r) @ [n]) j" using r(2) b down.hyps by (intro leads.down) auto
        with r(1) show ?thesis by (intro disjI1 exI [of _ "r @ [n]"]) simp
      next
        assume q: "?kept q a"
        then have "leads L (q @ [n]) j" using b down.hyps by (intro leads.down) auto
        moreover have "q @ [n] \<noteq> p" using calculation False leads_target [OF assms(2,3)] by blast
        ultimately show ?thesis using q by (auto simp: prefix_snoc)
      qed
    qed
  qed
qed

end
