(* ===== verification/Namespace.thy ===== *)
theory Namespace
  imports ForestPaths MemPaths MemSystem
begin

text \<open>
  What the store promises to a client who thinks in paths: a namespace, which is a partial map
  from paths to entries. A create puts one entry, a patch renames a prefix and changes the entry
  at it, a delete removes a prefix, a content commit changes one entry. The in-memory store,
  which keeps a table of rows with parent pointers, refines it.
\<close>

section \<open>The abstract namespace\<close>

text \<open>An entry is a stored object without the two fields that its path stands for.\<close>

definition entry_of :: "stored_object \<Rightarrow> stored_object" where
  "entry_of so = so\<lparr>so_object := (so_object so)\<lparr>o_name := [], o_parent_id := None\<rparr>\<rparr>"

type_synonym namespace = "string list \<Rightarrow> stored_object option"

definition ns_put :: "string list \<Rightarrow> stored_object \<Rightarrow> namespace \<Rightarrow> namespace" where
  "ns_put p e N = (\<lambda>q. if q = p then Some e else N q)"

definition ns_remove :: "string list \<Rightarrow> namespace \<Rightarrow> namespace" where
  "ns_remove p N = (\<lambda>q. if prefix p q then None else N q)"

text \<open>What was below \<open>p\<close> is then below \<open>p'\<close>.\<close>

definition ns_rename :: "string list \<Rightarrow> string list \<Rightarrow> namespace \<Rightarrow> namespace" where
  "ns_rename p p' N =
     (\<lambda>q. if prefix p' q then N (p @ drop (length p') q) else if prefix p q then None else N q)"

definition ns_folder :: "namespace \<Rightarrow> string list \<Rightarrow> bool" where
  "ns_folder N p \<longleftrightarrow> (\<exists>f. N p = Some f \<and> node_kind f = Folder)"

text \<open>A change keeps what an entry is and counts its revision up.\<close>

definition entry_succ :: "stored_object \<Rightarrow> stored_object \<Rightarrow> bool" where
  "entry_succ e e' \<longleftrightarrow>
     o_id (so_object e') = o_id (so_object e) \<and> node_kind e' = node_kind e \<and>
     o_revision (so_object e') = next_revision (o_revision (so_object e))"

inductive ns_step :: "namespace \<Rightarrow> namespace \<Rightarrow> bool" where
  make: "ns_folder N d \<Longrightarrow> N (d @ [n]) = None \<Longrightarrow> o_revision (so_object e) = INITIAL \<Longrightarrow>
    ns_step N (ns_put (d @ [n]) e N)"
| change: "N p = Some e \<Longrightarrow> entry_succ e e' \<Longrightarrow> ns_step N (ns_put p e' N)"
| relocate: "N p = Some e \<Longrightarrow> p \<noteq> [] \<Longrightarrow> ns_folder N d \<Longrightarrow> \<not> prefix p d \<Longrightarrow>
    d @ [n] = p \<or> N (d @ [n]) = None \<Longrightarrow> entry_succ e e' \<Longrightarrow>
    ns_step N (ns_put (d @ [n]) e' (ns_rename p (d @ [n]) N))"
| remove: "p \<noteq> [] \<Longrightarrow> N p \<noteq> None \<Longrightarrow> ns_step N (ns_remove p N)"

text \<open>What a namespace is: its root is a folder, and what is in it lies in a folder of it.\<close>

definition ns_ok :: "namespace \<Rightarrow> bool" where
  "ns_ok N \<longleftrightarrow> ns_folder N [] \<and> (\<forall>p n. N (p @ [n]) \<noteq> None \<longrightarrow> ns_folder N p)"

section \<open>The namespace of a store\<close>

definition namespace :: "mem_state \<Rightarrow> namespace" where
  "namespace s p =
     (case resolve_segments s ROOT_ID p of
        None \<Rightarrow> None
      | Some i \<Rightarrow> map_option entry_of (live_object s i))"

lemma entry_of_simps [simp]:
  "o_id (so_object (entry_of so)) = o_id (so_object so)"
  "o_revision (so_object (entry_of so)) = o_revision (so_object so)"
  "node_kind (entry_of so) = node_kind so"
  by (simp_all add: entry_of_def node_kind_def)

lemma resolve_leads:
  assumes "tree_ok s"
  shows "resolve_segments s ROOT_ID p = Some i \<longleftrightarrow> leads (live_object s) p i"
proof (induction p arbitrary: i rule: rev_induct)
  case (snoc n p)
  then show ?case unfolding resolve_segments_snoc [OF assms] leads_snoc by simp
qed auto

definition shown :: "forest \<Rightarrow> string list \<Rightarrow> stored_object \<Rightarrow> bool" where
  "shown L p e \<longleftrightarrow> (\<exists>i so. leads L p i \<and> L i = Some so \<and> e = entry_of so)"

lemma namespace_shown:
  assumes "tree_ok s"
  shows "namespace s p = Some e \<longleftrightarrow> shown (live_object s) p e"
  unfolding shown_def resolve_leads [OF assms, symmetric] namespace_def
  by (auto split: option.splits)

lemma namespace_eqI:
  assumes "tree_ok s" and "\<And>p e. shown (live_object s) p e \<longleftrightarrow> N p = Some e"
  shows "namespace s = N"
proof
  fix p show "namespace s p = N p"
    using namespace_shown [OF assms(1), of p] assms(2) [of p] by (metis option.exhaust)
qed

lemma namespace_cong: "tree_ok s \<Longrightarrow> objects s' = objects s \<Longrightarrow> namespace s' = namespace s"
  using tree_ok_cong [of s' s] live_object_cong [of s' s]
  by (intro namespace_eqI) (simp_all add: namespace_shown)

lemma namespace_at:
  assumes "tree_ok s" and "leads (live_object s) p i" and "live_object s i = Some so"
  shows "namespace s p = Some (entry_of so)"
  using assms by (auto simp: namespace_shown shown_def)

lemma namespace_folder:
  assumes "tree_ok s" and "leads (live_object s) p i" and "live_object s i = Some so"
    and "node_kind so = Folder"
  shows "ns_folder (namespace s) p"
  using namespace_at [OF assms(1-3)] assms(4) by (simp add: ns_folder_def)

section \<open>The writes of the store on the namespace\<close>

lemma shown_same:
  assumes "\<And>j. leads L' q j \<longleftrightarrow> leads L q' j" and "\<And>j. leads L q' j \<Longrightarrow> L' j = L j"
  shows "shown L' q e \<longleftrightarrow> shown L q' e"
proof -
  have "leads L' q j \<and> L' j = Some so \<longleftrightarrow> leads L q' j \<and> L j = Some so" for j so
    using assms(1) [of j] assms(2) [of j] by auto
  then show ?thesis unfolding shown_def by blast
qed

lemma shown_at:
  assumes "names_unique L" and "leads L q i" and "L i = Some so"
  shows "shown L q e \<longleftrightarrow> e = entry_of so"
proof -
  have "leads L q j \<longleftrightarrow> j = i" for j using leads_target [OF assms(1,2)] assms(2) by blast
  then show ?thesis by (simp add: shown_def assms(3))
qed

lemma shown_insert:
  assumes "tree_shape L" and "names_unique (L(i \<mapsto> so))" and "L i = None"
    and "leads L d k" and "parent_of so = Some k"
  shows "shown (L(i \<mapsto> so)) q e \<longleftrightarrow>
     (if q = d @ [node_name so] then e = entry_of so else shown L q e)"
proof -
  have k: "L k \<noteq> None" using leads_live [OF assms(1,4)] by auto
  note iff = leads_insert [OF assms(1,3,5) k]
  have new: "leads (L(i \<mapsto> so)) (d @ [node_name so]) i" using iff assms(4) by blast
  show ?thesis
  proof (cases "q = d @ [node_name so]")
    case True
    with shown_at [OF assms(2) new] show ?thesis by simp
  next
    case False
    have "leads (L(i \<mapsto> so)) q j \<longleftrightarrow> leads L q j" for j
      using iff False leads_path [OF assms(1) _ assms(4)] by blast
    moreover have "(L(i \<mapsto> so)) j = L j" if "leads L q j" for j
      using leads_live [OF assms(1) that] assms(3) by auto
    ultimately have "shown (L(i \<mapsto> so)) q e \<longleftrightarrow> shown L q e" by (rule shown_same)
    with False show ?thesis by simp
  qed
qed

lemma shown_update:
  assumes "tree_shape L" and "names_unique L" and "L i = Some old" and "parent_of so = parent_of old"
    and "node_name so = node_name old" and "leads L p i"
  shows "shown (L(i \<mapsto> so)) q e \<longleftrightarrow> (if q = p then e = entry_of so else shown L q e)"
proof -
  note same = leads_update [of L i old so, OF assms(3-5)]
  show ?thesis
  proof (cases "q = p")
    case True
    have "leads (L(i \<mapsto> so)) q i" using same True assms(6) by blast
    moreover have "j = i" if "leads (L(i \<mapsto> so)) q j" for j
      using that same True leads_target [OF assms(2,6)] by blast
    ultimately have "shown (L(i \<mapsto> so)) q e \<longleftrightarrow> e = entry_of so"
      unfolding shown_def by (metis fun_upd_same option.inject)
    with True show ?thesis by simp
  next
    case False
    then have "(L(i \<mapsto> so)) j = L j" if "leads L q j" for j
      using that leads_path [OF assms(1) _ assms(6)] by (intro fun_upd_other) blast
    with same have "shown (L(i \<mapsto> so)) q e \<longleftrightarrow> shown L q e" by (rule shown_same)
    with False show ?thesis by simp
  qed
qed

lemma shown_without:
  assumes "tree_shape L" and "names_unique L" and "leads L p i" and "p \<noteq> []"
  shows "shown (forest_without (subtree L i) L) q e \<longleftrightarrow> \<not> prefix p q \<and> shown L q e"
proof -
  have "forest_without (subtree L i) L j = L j" if "leads L q j" "\<not> prefix p q" for j
    using that below_iff_prefix [OF assms(1-3)] by (simp add: forest_without_def)
  then show ?thesis unfolding shown_def leads_without [OF assms] by auto
qed

lemma shown_move:
  assumes "tree_shape L" and "names_unique L" and "names_unique (L(i \<mapsto> so))"
    and "leads L p i" and "i \<noteq> ROOT_ID"
    and "leads L d k" and "parent_of so = Some k" and "k \<notin> subtree L i"
  shows "shown (L(i \<mapsto> so)) q e \<longleftrightarrow>
     (if q = d @ [node_name so] then e = entry_of so
      else if prefix (d @ [node_name so]) q then shown L (p @ drop (length (d @ [node_name so])) q) e
      else \<not> prefix p q \<and> shown L q e)"
    (is "_ \<longleftrightarrow> ?rhs")
proof -
  let ?L = "L(i \<mapsto> so)" and ?p = "d @ [node_name so]"
  note iff = leads_move [OF assms(1,2,4-8)]
  note path = leads_path [OF assms(1) _ assms(4)]
  have new: "leads ?L ?p i" by (intro iffD2 [OF iff] disjI1 exI [of _ "[]"]) (simp add: assms(4))
  show ?thesis
  proof (cases "prefix ?p q")
    case True
    then obtain r where q: "q = ?p @ r" by (rule prefixE)
    have clash: "False" if "leads L q j" "\<not> prefix p q" for j
    proof -
      from that(1) obtain m where m: "leads L ?p m" using q leads_prefix [OF assms(1)] by blast
      have "\<not> prefix p ?p" using that(2) q by (metis prefix_prefix)
      with m have "leads ?L ?p m" using iff by blast
      with leads_target [OF assms(3) new] m have "leads L ?p i" by blast
      with path \<open>\<not> prefix p ?p\<close> show False by blast
    qed
    have at: "leads ?L q j \<longleftrightarrow> leads L (p @ r) j" for j
    proof -
      have "(\<exists>r'. q = ?p @ r' \<and> leads L (p @ r') j) \<longleftrightarrow> leads L (p @ r) j" using q by auto
      with iff [of q j] clash [of j] show ?thesis by blast
    qed
    show ?thesis
    proof (cases "r = []")
      case True
      with shown_at [OF assms(3) new] q show ?thesis by simp
    next
      case False
      then have "?L j = L j" if "leads L (p @ r) j" for j
        using path [of "p @ r"] that by (intro fun_upd_other) auto
      with at have "shown ?L q e \<longleftrightarrow> shown L (p @ r) e" by (rule shown_same)
      with q False show ?thesis by simp
    qed
  next
    case False
    then have "q \<noteq> ?p @ r" for r by auto
    with iff have at: "leads ?L q j \<longleftrightarrow> leads L q j \<and> \<not> prefix p q" for j by blast
    have "?L j = L j" if "leads L q j" "\<not> prefix p q" for j
      using path [of q] that by (intro fun_upd_other) auto
    with at have "shown ?L q e \<longleftrightarrow> \<not> prefix p q \<and> shown L q e"
      unfolding shown_def by metis
    with False show ?thesis by auto
  qed
qed

end
