(* ===== verification/NamespaceOps.thy ===== *)
theory NamespaceOps
  imports Namespace Samples
begin

text \<open>
  Each mutation of the in-memory store as an operation on the namespace, and the refinement:
  whatever the store does, its namespace either stays or makes a step of the abstract one.
\<close>

section \<open>Writes\<close>

lemma live_after_insert:
  "objects s' = table_insert i so (objects s) \<Longrightarrow> is_live so \<Longrightarrow>
   live_object s' = (live_object s)(i \<mapsto> so)"
  using live_object_insert [where s = s and i = i and so = so]
    live_object_cong [of s' "s\<lparr>objects := table_insert i so (objects s)\<rparr>"] by simp

lemma live_after_modify:
  assumes "objects s' = table_modify i f (objects s)" and "live_object s i = Some old" and "is_live (f old)"
  shows "live_object s' = (live_object s)(i \<mapsto> f old)"
  using live_object_modify [where s = s and i = i and old = old and f = f] assms
    live_object_cong [of s' "s\<lparr>objects := table_modify i f (objects s)\<rparr>"] by (simp add: live_object_iff)

lemma create_on_namespace:
  assumes "tree_ok s" and "tree_rooted s" and "table_get (objects s) (co_id c) = None"
  obtains (refused) e where "create_object c s = (Err e, s)"
  | (made) d where "leads (live_object s) d (co_parent_id c)" "ns_folder (namespace s) d"
      "namespace s (d @ [co_name c]) = None"
      "namespace (snd (create_object c s)) =
         ns_put (d @ [co_name c]) (entry_of (created_object c)) (namespace s)"
proof (cases rule: create_object_cases [of c s])
  case (refused e)
  then show ?thesis by (rule that(1))
next
  case (written parent)
  let ?L = "live_object s" and ?s = "snd (create_object c s)" and ?so = "created_object c"
  from assms(1) have t: "keys_ok s" "tree_shape ?L" by (simp_all add: tree_ok_def)
  have ok: "tree_ok ?s" using assms(1,3) by (rule create_object_tree_ok)
  have "objects ?s = table_insert (co_id c) ?so (objects s)" using written(4) by (simp add: frame_simps)
  then have live: "live_object ?s = ?L(co_id c \<mapsto> ?so)" by (rule live_after_insert) simp
  have fresh: "?L (co_id c) = None" using assms(3) by (simp add: live_object_def)
  have u: "names_unique (?L(co_id c \<mapsto> ?so))" using ok unfolding live [symmetric] by (simp add: tree_ok_def)
  from assms(2) written(1) obtain d where d: "leads ?L d (co_parent_id c)"
    unfolding tree_rooted_def by (rule leads_rooted)
  have "ns_folder (namespace s) d"
    using namespace_folder [OF assms(1) d written(1)] written(2) by (simp add: node_kind_def)
  moreover have "namespace s (d @ [co_name c]) = None"
  proof (rule ccontr)
    assume "namespace s (d @ [co_name c]) \<noteq> None"
    then obtain i so where i: "leads ?L (d @ [co_name c]) i" "?L i = Some so"
      using assms(1) by (auto simp: namespace_shown shown_def)
    then obtain k where k: "leads ?L d k" "parent_of so = Some k" "node_name so = co_name c"
      by (auto simp: leads_snoc)
    have "k = co_parent_id c" using k(1) d leads_target assms(1) by (auto simp: tree_ok_def)
    moreover have "i \<noteq> co_id c" using i(2) fresh by auto
    ultimately show False using i(2) k written(3) unfolding name_taken_iff [OF t(1)] by blast
  qed
  moreover have "namespace ?s = ns_put (d @ [co_name c]) (entry_of ?so) (namespace s)"
  proof (rule namespace_eqI [OF ok])
    fix q e
    show "shown (live_object ?s) q e \<longleftrightarrow>
        ns_put (d @ [co_name c]) (entry_of ?so) (namespace s) q = Some e"
      unfolding live using shown_insert [OF t(2) u fresh d, of q e] namespace_shown [OF assms(1), of q e]
      by (auto simp: ns_put_def)
  qed
  ultimately show ?thesis using that(2) d by blast
qed

lemma update_on_namespace:
  assumes "tree_ok s" and "tree_ok s'" and "live_object s' = (live_object s)(i \<mapsto> so)"
    and "live_object s i = Some old" and "parent_of so = parent_of old" "node_name so = node_name old"
    and "leads (live_object s) p i"
  shows "namespace s' = ns_put p (entry_of so) (namespace s)"
proof (rule namespace_eqI [OF assms(2)])
  fix q e
  from assms(1) have t: "tree_shape (live_object s)" "names_unique (live_object s)"
    by (simp_all add: tree_ok_def)
  show "shown (live_object s') q e \<longleftrightarrow> ns_put p (entry_of so) (namespace s) q = Some e"
    unfolding assms(3)
    using shown_update [where L = "live_object s", OF t assms(4-7), of q e] namespace_shown [OF assms(1), of q e]
    by (auto simp: ns_put_def)
qed

lemma move_on_namespace:
  assumes "tree_ok s" and "tree_ok s'" and "live_object s' = (live_object s)(i \<mapsto> so)"
    and "i \<noteq> ROOT_ID" and "leads (live_object s) p i" and "leads (live_object s) d k"
    and "parent_of so = Some k" and "k \<notin> subtree (live_object s) i"
  shows "namespace s' =
    ns_put (d @ [node_name so]) (entry_of so) (ns_rename p (d @ [node_name so]) (namespace s))"
proof (rule namespace_eqI [OF assms(2)])
  fix q e
  from assms(1) have t: "tree_shape (live_object s)" "names_unique (live_object s)"
    by (simp_all add: tree_ok_def)
  have u: "names_unique ((live_object s)(i \<mapsto> so))"
    using assms(2) unfolding assms(3) [symmetric] by (simp add: tree_ok_def)
  show "shown (live_object s') q e \<longleftrightarrow>
      ns_put (d @ [node_name so]) (entry_of so) (ns_rename p (d @ [node_name so]) (namespace s)) q = Some e"
    unfolding assms(3) shown_move [OF t u assms(5,4,6-8)] namespace_shown [OF assms(1), symmetric]
    by (auto simp: ns_put_def ns_rename_def)
qed

lemma patched_succ: "o_revision (so_object (patched cmd ob t so)) = next_revision (o_revision ob)"
  by (simp add: patched_def patch_fields_def)

lemma patched_entry:
  "entry_succ (entry_of stored) (entry_of (patched cmd (so_object stored) t stored))"
  by (simp add: entry_succ_def patched_succ)

text \<open>The place a patch gives an object: the root stays, any other is put into a folder not below it.\<close>

lemma patch_place:
  assumes "tree_ok s" and "tree_rooted s" and "move_within_bound cmd s"
    and "live_object s (po_id cmd) = Some stored" and "po_id cmd \<noteq> ROOT_ID"
    and "patch_target_of cmd (so_object stored) = Ok t"
    and "check_destination s (so_object stored) t = Ok ()"
  obtains k f where "pt_parent t = Some k" "live_object s k = Some f" "node_kind f = Folder"
    "k \<notin> subtree (live_object s) (po_id cmd)"
proof (cases "parent_changed (so_object stored) t")
  case True
  from assms(3) have "\<And>d. po_new_parent_id cmd = Some d \<Longrightarrow> live_object s d \<noteq> None \<Longrightarrow> is_ok (render_path s d)"
    by (simp add: move_within_bound_def)
  with assms(1,4,6,7) True obtain d dest where "pt_parent t = Some d" "live_object s d = Some dest"
    "o_kind (so_object dest) = Folder" "d \<notin> subtree (live_object s) (po_id cmd)"
    by (rule destination_outside)
  then show ?thesis by (intro that) (simp_all add: node_kind_def)
next
  case False
  let ?L = "live_object s" and ?i = "po_id cmd"
  from assms(1) have t: "tree_shape ?L" by (simp add: tree_ok_def)
  from t assms(4,5) obtain k f where k: "parent_of stored = Some k" "?L k = Some f" "node_kind f = Folder"
    by (rule tree_shape_parent)
  have "k \<notin> subtree ?L ?i"
  proof
    assume "k \<in> subtree ?L ?i"
    then have "(?i, k) \<in> (child_edges ?L)\<^sup>*" by (simp add: subtree_def)
    moreover have "(k, ?i) \<in> child_edges ?L" using assms(4) k(1) by (simp add: child_edges_iff)
    ultimately have "(?i, ?i) \<in> (child_edges ?L)\<^sup>+" by (rule rtrancl_into_trancl1)
    with rooted_acyclic [OF t] assms(2) show False by (simp add: tree_rooted_def)
  qed
  with k False show ?thesis by (intro that) (simp_all add: parent_changed_def parent_of_def)
qed

lemma patch_on_namespace:
  assumes "tree_ok s" and "tree_rooted s" and "move_within_bound cmd s"
  obtains (refused) e where "patch_object cmd s = (Err e, s)"
  | (unchanged) stored t where "live_object s (po_id cmd) = Some stored"
      "patch_target_of cmd (so_object stored) = Ok t" "patch_no_op (so_object stored) t"
      "namespace (snd (patch_object cmd s)) = namespace s"
  | (changed) p stored t where "po_id cmd = ROOT_ID"
      "namespace s p = Some (entry_of stored)"
      "namespace (snd (patch_object cmd s)) =
         ns_put p (entry_of (patched cmd (so_object stored) t stored)) (namespace s)"
  | (moved) p d k stored t where "po_id cmd \<noteq> ROOT_ID" "live_object s (po_id cmd) = Some stored"
      "patch_target_of cmd (so_object stored) = Ok t"
      "leads (live_object s) p (po_id cmd)" "p \<noteq> []" "leads (live_object s) d k" "pt_parent t = Some k"
      "ns_folder (namespace s) d" "\<not> prefix p d"
      "d @ [pt_name t] = p \<or> namespace s (d @ [pt_name t]) = None"
      "namespace (snd (patch_object cmd s)) =
         ns_put (d @ [pt_name t]) (entry_of (patched cmd (so_object stored) t stored))
           (ns_rename p (d @ [pt_name t]) (namespace s))"
proof (cases rule: patch_object_cases [of cmd s])
  case (refused e)
  then show ?thesis by (rule that(1))
next
  case (unchanged stored t)
  have "namespace (snd (patch_object cmd s)) = namespace s"
    using unchanged(6) by (intro namespace_cong [OF assms(1)]) (simp add: frame_simps)
  with unchanged show ?thesis using that(2) by blast
next
  case (written stored t)
  let ?L = "live_object s" and ?i = "po_id cmd" and ?s = "snd (patch_object cmd s)"
  let ?so = "patched cmd (so_object stored) t stored"
  from assms(1) have k: "keys_ok s" "tree_shape ?L" "names_unique ?L" by (simp_all add: tree_ok_def)
  have ok: "tree_ok ?s" using assms(1) by (rule patch_object_tree_ok)
  have "objects ?s = table_modify ?i (patched cmd (so_object stored) t) (objects s)"
    using written(8) by (simp add: frame_simps)
  then have live: "live_object ?s = ?L(?i \<mapsto> ?so)"
    using written(1) by (rule live_after_modify) (use written(1) in \<open>simp add: live_object_iff\<close>)
  from assms(2) written(1) obtain p where p: "leads ?L p ?i"
    unfolding tree_rooted_def by (rule leads_rooted)
  have at: "namespace s p = Some (entry_of stored)" using assms(1) p written(1) by (rule namespace_at)
  show ?thesis
  proof (cases "?i = ROOT_ID")
    case True
    with live_id [OF k(1) written(1)] have "object_is_root (so_object stored)"
      by (simp add: object_is_root_def is_root_def)
    with written(3) patch_target_parent [OF written(4)]
    have "pt_parent t = parent_of stored" "pt_name t = node_name stored"
      by (auto simp: check_root_patch_def parent_of_def node_name_def split: if_splits)
    then have "namespace ?s = ns_put p (entry_of ?so) (namespace s)"
      by (intro update_on_namespace [OF assms(1) ok live written(1) _ _ p]) simp_all
    with True at show ?thesis using that(3) by blast
  next
    case False
    from assms written(1) False written(4,6) obtain d' f where d': "pt_parent t = Some d'"
      "?L d' = Some f" "node_kind f = Folder" "d' \<notin> subtree ?L ?i"
      by (rule patch_place)
    from assms(2) d'(2) obtain d where d: "leads ?L d d'"
      unfolding tree_rooted_def by (rule leads_rooted)
    have ne: "p \<noteq> []" using p False by auto
    have folder: "ns_folder (namespace s) d" using assms(1) d d'(2,3) by (rule namespace_folder)
    have out: "\<not> prefix p d" using below_iff_prefix [OF k(2,3) p d] d'(4) by simp
    have free: "d @ [pt_name t] = p \<or> namespace s (d @ [pt_name t]) = None"
    proof (rule ccontr)
      assume "\<not> ?thesis"
      then obtain j so where ne': "d @ [pt_name t] \<noteq> p" and j: "leads ?L (d @ [pt_name t]) j" "?L j = Some so"
        using assms(1) by (auto simp: namespace_shown shown_def)
      then obtain a where a: "leads ?L d a" "parent_of so = Some a" "node_name so = pt_name t"
        by (auto simp: leads_snoc)
      have "a = d'" using leads_target [OF k(3) a(1) d] .
      moreover have "j \<noteq> ?i" using leads_path [OF k(2) j(1)] p ne' by blast
      ultimately show False
        using j(2) a written(7) d'(1) unfolding name_taken_iff [OF k(1)] by metis
    qed
    have "namespace ?s = ns_put (d @ [node_name ?so]) (entry_of ?so)
        (ns_rename p (d @ [node_name ?so]) (namespace s))"
      using move_on_namespace [OF assms(1) ok live False p d _ d'(4)] d'(1) by simp
    then have "namespace ?s = ns_put (d @ [pt_name t]) (entry_of ?so)
        (ns_rename p (d @ [pt_name t]) (namespace s))" by simp
    with False written(1,4) p ne d d'(1) folder out free show ?thesis by (rule that(4))
  qed
qed

lemma delete_on_namespace:
  assumes "tree_ok s" and "tree_rooted s" and "delete_object cmd s = Some (r, s')"
  obtains (refused) e where "r = Err e" "s' = s"
  | (removed) p where "leads (live_object s) p (do_id cmd)" "p \<noteq> []" "namespace s p \<noteq> None"
      "namespace s' = ns_remove p (namespace s)"
  using assms(3)
proof (cases rule: delete_object_cases)
  case (refused e)
  then show ?thesis by (rule that(1))
next
  case (written stored targets)
  let ?L = "live_object s" and ?i = "do_id cmd"
  from assms(1) have t: "tree_shape ?L" "names_unique ?L" by (simp_all add: tree_ok_def)
  have ok: "tree_ok s'" using delete_object_tree_ok [OF assms(1,3)] by blast
  from written(5) have s': "s' = snd (write_delete cmd targets s)" by (metis snd_conv)
  have live: "live_object s' = forest_without (subtree ?L ?i) ?L"
    unfolding s' live_object_delete delete_targets_subtree [OF assms(1) written(1,4)] ..
  from assms(2) written(1) obtain p where p: "leads ?L p ?i"
    unfolding tree_rooted_def by (rule leads_rooted)
  have "?i \<noteq> ROOT_ID"
    using delete_not_root [OF assms(1) written(1,3)] subtree_refl [of ROOT_ID] by metis
  with p have ne: "p \<noteq> []" by auto
  have "namespace s' = ns_remove p (namespace s)"
  proof (rule namespace_eqI [OF ok])
    fix q e
    show "shown (live_object s') q e \<longleftrightarrow> ns_remove p (namespace s) q = Some e"
      unfolding live shown_without [OF t p ne] namespace_shown [OF assms(1), symmetric]
      by (auto simp: ns_remove_def)
  qed
  with p ne namespace_at [OF assms(1) p written(1)] show ?thesis by (intro that(2)) simp_all
qed

lemma commit_on_namespace:
  assumes "tree_ok s" and "tree_rooted s"
  obtains (same) "namespace (snd (commit_content cmd s)) = namespace s"
  | (changed) p stored e where "namespace s p = Some (entry_of stored)" "entry_succ (entry_of stored) e"
      "namespace (snd (commit_content cmd s)) = ns_put p e (namespace s)"
proof (cases rule: commit_content_cases [of cmd s])
  case (refused e)
  then show ?thesis using that(1) by simp
next
  case (unchanged upload stored)
  then have "namespace (snd (commit_content cmd s)) = namespace s"
    by (intro namespace_cong [OF assms(1)]) (simp add: frame_simps)
  then show ?thesis by (rule that(1))
next
  case (written upload stored)
  let ?f = "content_fields cmd (next_revision (o_revision (so_object stored)))"
  let ?s = "snd (commit_content cmd s)"
  have "objects ?s = table_modify (cm_object_id cmd) ?f (objects s)"
    using written(6) by (simp add: write_content_frame)
  then have live: "live_object ?s = (live_object s)(cm_object_id cmd \<mapsto> ?f stored)"
    using written(3) by (rule live_after_modify) (use written(3) in \<open>simp add: live_object_iff\<close>)
  from assms(2) written(3) obtain p where p: "leads (live_object s) p (cm_object_id cmd)"
    unfolding tree_rooted_def by (rule leads_rooted)
  have "tree_ok ?s" using commit_content_tree_ok [OF assms(1)] by blast
  then have "namespace ?s = ns_put p (entry_of (?f stored)) (namespace s)"
    using assms(1) live written(3) p by (intro update_on_namespace) simp_all
  moreover have "entry_succ (entry_of stored) (entry_of (?f stored))" by (simp add: entry_succ_def)
  ultimately show ?thesis using namespace_at [OF assms(1) p written(3)] by (intro that(2))
qed

section \<open>Where a patch leads\<close>

text \<open>The place of an object that a patch leaves where it is.\<close>

lemma leads_own_place:
  assumes "tree_shape L" and "leads L p i" and "i \<noteq> ROOT_ID" and "L i = Some so"
  obtains k where "leads L (butlast p) k" "parent_of so = Some k" "node_name so = last p" "p \<noteq> []"
proof -
  from assms(2,3) have "p \<noteq> []" by auto
  then have "leads L (butlast p @ [last p]) i" using assms(2) by simp
  then obtain k a where "leads L (butlast p) k" "L i = Some a" "parent_of a = Some k" "node_name a = last p"
    unfolding leads_snoc by blast
  with assms(4) \<open>p \<noteq> []\<close> show ?thesis by (intro that) simp_all
qed

lemma ns_rename_same: "ns_rename p p N = N"
  by (auto simp: ns_rename_def prefix_def fun_eq_iff)

lemma patched_path:
  assumes "tree_ok s" and "tree_rooted s"
    and "patch_object u s = (Ok r, s2)" and "move_within_bound u s" and "po_id u \<noteq> ROOT_ID"
    and "leads (live_object s) p (po_id u)"
  shows "\<exists>f n e. (case po_new_name u of None \<Rightarrow> n = last p | Some m \<Rightarrow> n = m) \<and>
      (case po_new_parent_id u of None \<Rightarrow> f = butlast p | Some k \<Rightarrow> leads (live_object s) f k) \<and>
      namespace s2 = ns_put (f @ [n]) e (ns_rename p (f @ [n]) (namespace s))"
proof -
  let ?L = "live_object s"
  from assms(1) have t: "tree_shape ?L" by (simp add: tree_ok_def)
  obtain stored where live: "?L (po_id u) = Some stored" using leads_live [OF t assms(6)] by blast
  obtain k where k: "leads ?L (butlast p) k" "parent_of stored = Some k" "node_name stored = last p" "p \<noteq> []"
    using t assms(6,5) live by (rule leads_own_place)
  from assms(1,2,4) show ?thesis
  proof (cases rule: patch_on_namespace)
    case (unchanged stored' t')
    with live have "pt_parent t' = Some k" "pt_name t' = last p"
      using k by (auto simp: patch_no_op_def name_changed_def parent_changed_def parent_of_def node_name_def)
    with patch_target_parent [OF unchanged(2)] unchanged(1) live k
    have n: "case po_new_name u of None \<Rightarrow> True | Some m \<Rightarrow> m = last p"
      "case po_new_parent_id u of None \<Rightarrow> True | Some k' \<Rightarrow> k' = k"
      by (auto split: option.splits)
    have "namespace s p = Some (entry_of stored)" using assms(1,6) live by (rule namespace_at)
    then have "namespace s2 = ns_put p (entry_of stored) (ns_rename p p (namespace s))"
      using unchanged(4) assms(3) by (auto simp: ns_rename_same ns_put_def fun_eq_iff)
    moreover have eq: "butlast p @ [last p] = p" using k(4) by simp
    ultimately have to: "namespace s2 = ns_put (butlast p @ [last p]) (entry_of stored)
        (ns_rename p (butlast p @ [last p]) (namespace s))" by (simp only: eq)
    have n': "case po_new_name u of None \<Rightarrow> last p = last p | Some m \<Rightarrow> last p = m"
      using n(1) by (simp split: option.splits)
    have "case po_new_parent_id u of None \<Rightarrow> butlast p = butlast p | Some j \<Rightarrow> leads ?L (butlast p) j"
      using n(2) k(1) by (auto split: option.splits)
    with n' to show ?thesis by blast
  next
    case (moved p' d k' stored' t')
    have p: "p' = p" by (rule leads_path [OF t moved(4) assms(6)])
    note tp = patch_target_parent [OF moved(3)]
    have "case po_new_name u of None \<Rightarrow> pt_name t' = last p | Some m \<Rightarrow> pt_name t' = m"
      using tp moved(2) live k(3) by (auto simp: node_name_def split: option.splits)
    moreover have "case po_new_parent_id u of None \<Rightarrow> d = butlast p | Some j \<Rightarrow> leads ?L d j"
    proof (cases "po_new_parent_id u")
      case None
      with tp moved(2,7) live k(2) have "k' = k" by (simp add: parent_of_def)
      with leads_path [OF t moved(6)] k(1) None show ?thesis by simp
    qed (use tp moved(6,7) in simp)
    moreover have "namespace s2 = ns_put (d @ [pt_name t'])
        (entry_of (patched u (so_object stored') t' stored')) (ns_rename p (d @ [pt_name t']) (namespace s))"
      using moved(11) assms(3) p by simp
    ultimately show ?thesis by blast
  qed (use assms(3,5) in simp_all)
qed

section \<open>Refinement\<close>

text \<open>The abstract steps keep the shape of a namespace.\<close>

lemma ns_step_ok:
  assumes "ns_step N N'" and "ns_ok N"
  shows "ns_ok N'"
  using assms(1)
proof cases
  case (make d n e)
  have "ns_folder N' q" if q: "N' (q @ [m]) \<noteq> None" for q m
  proof (cases "q @ [m] = d @ [n]")
    case True
    with make(1,2) show ?thesis by (auto simp: ns_folder_def ns_put_def)
  next
    case False
    with q make(1) have "N (q @ [m]) \<noteq> None" by (auto simp: ns_put_def split: if_splits)
    with assms(2) have "ns_folder N q" unfolding ns_ok_def by blast
    moreover from this make(3) have "q \<noteq> d @ [n]" by (auto simp: ns_folder_def)
    ultimately show ?thesis using make(1) by (simp add: ns_folder_def ns_put_def)
  qed
  with assms(2) make(1) show ?thesis by (auto simp: ns_ok_def ns_folder_def ns_put_def)
next
  case (change p e e')
  with assms(2) show ?thesis by (fastforce simp: ns_ok_def ns_folder_def ns_put_def entry_succ_def)
next
  case (relocate p e d n e')
  let ?p = "d @ [n]"
  have other: "N' q = N q" if "\<not> prefix ?p q" "\<not> prefix p q" for q
    using that relocate(1) by (auto simp: ns_put_def ns_rename_def)
  have below: "N' (?p @ r) = N (p @ r)" if "r \<noteq> []" for r
    using that relocate(1) by (simp add: ns_put_def ns_rename_def)
  have here: "ns_folder N' ?p" if "ns_folder N p"
    using that relocate(1,2,7) by (auto simp: ns_folder_def ns_put_def entry_succ_def)
  have "ns_folder N' q" if q: "N' (q @ [m]) \<noteq> None" for q m
  proof -
    consider "q @ [m] = ?p" | r where "q = ?p @ r" | "q @ [m] \<noteq> ?p" "\<not> prefix ?p q"
      by (auto simp: prefix_def)
    then show ?thesis
    proof cases
      case 1
      then show ?thesis using relocate(4,5) other [of d] by (simp add: ns_folder_def)
    next
      case (2 r)
      then have "N ((p @ r) @ [m]) \<noteq> None" using q below [of "r @ [m]"] by simp
      with assms(2) have f: "ns_folder N (p @ r)" unfolding ns_ok_def by blast
      show ?thesis
      proof (cases "r = []")
        case True
        with f here 2 show ?thesis by simp
      next
        case False
        with f below 2 show ?thesis by (simp add: ns_folder_def)
      qed
    next
      case 3
      then have np: "\<not> prefix ?p (q @ [m])" by (auto simp: prefix_snoc)
      have "\<not> prefix p (q @ [m])"
        using q np 3 relocate(1) by (auto simp: ns_put_def ns_rename_def)
      with np q other have "N (q @ [m]) \<noteq> None" "\<not> prefix p q" by (auto simp: prefix_snoc)
      with assms(2) have "ns_folder N q" unfolding ns_ok_def by blast
      with other [OF 3(2)] \<open>\<not> prefix p q\<close> show ?thesis by (simp add: ns_folder_def)
    qed
  qed
  moreover have "ns_folder N' []"
    using assms(2) other [of "[]"] relocate(3) by (simp add: ns_ok_def ns_folder_def)
  ultimately show ?thesis by (simp add: ns_ok_def)
next
  case (remove p)
  with assms(2) show ?thesis
    by (auto simp: ns_ok_def ns_folder_def ns_remove_def prefix_snoc split: if_splits)
qed

lemma namespace_frame:
  "tree_ok s \<Longrightarrow> objects s' = objects s \<Longrightarrow> namespace s' = namespace s \<or> ns_step (namespace s) (namespace s')"
  using namespace_cong by blast

lemma simulation_step:
  assumes "mem_step s s'" and "tree_ok s" and "tree_rooted s"
  shows "namespace s' = namespace s \<or> ns_step (namespace s) (namespace s')"
  using assms(1)
proof cases
  case (create c)
  from assms(2,3) create(2) show ?thesis
  proof (cases rule: create_on_namespace)
    case (made d)
    moreover have "o_revision (so_object (entry_of (created_object c))) = INITIAL"
      by (simp add: created_object_def)
    ultimately show ?thesis unfolding create(1) using ns_step.make by metis
  qed (simp add: create(1))
next
  case (patch cmd)
  from assms(2,3) patch(2) show ?thesis
  proof (cases rule: patch_on_namespace)
    case (changed p stored t)
    then show ?thesis unfolding patch(1) using ns_step.change [OF _ patched_entry] by metis
  next
    case (moved p d k stored t)
    have "namespace s p = Some (entry_of stored)" using assms(2) moved(4,2) by (rule namespace_at)
    then have "ns_step (namespace s) (ns_put (d @ [pt_name t])
        (entry_of (patched cmd (so_object stored) t stored)) (ns_rename p (d @ [pt_name t]) (namespace s)))"
      using moved(5,8,9,10) patched_entry by (rule ns_step.relocate)
    with moved(11) show ?thesis by (simp add: patch(1))
  qed (simp_all add: patch(1))
next
  case (delete d r)
  from assms(2,3) delete show ?thesis
    by (cases rule: delete_on_namespace) (use ns_step.remove in \<open>metis+\<close>)
next
  case (commit m)
  from assms(2,3) show ?thesis
    by (cases rule: commit_on_namespace [where cmd = m]) (use ns_step.change commit(1) in \<open>metis+\<close>)
next
  case (read_feed u rc rr)
  then have "objects s' = objects s" using read_changes_frame by blast
  then show ?thesis by (rule namespace_frame [OF assms(2)])
qed (rule namespace_frame [OF assms(2)], simp add: frame_simps)+

lemma namespace_new: "ns_ok (namespace (mem_new now))"
proof -
  have ok: "tree_ok (mem_new now)" using mem_new_tree by blast
  have live: "live_object (mem_new now) = [ROOT_ID \<mapsto> root_object now]"
    by (auto simp: live_object_def mem_new_def root_object_def ROOT_ID_def is_live_def fun_eq_iff)
  have "leads (live_object (mem_new now)) (p @ [n]) i \<longleftrightarrow> False" for p n i
    unfolding live leads_snoc by (auto simp: root_object_def parent_of_def split: if_splits)
  then have "namespace (mem_new now) (p @ [n]) = None" for p n
    using namespace_shown [OF ok, of "p @ [n]"]
    by (cases "namespace (mem_new now) (p @ [n])") (auto simp: shown_def)
  moreover have "ns_folder (namespace (mem_new now)) []"
    by (rule namespace_folder [OF ok, where i = ROOT_ID and so = "root_object now"])
      (simp_all add: live node_kind_def root_object_def)
  ultimately show ?thesis by (simp add: ns_ok_def)
qed


lemma sample_patch_bound: "move_within_bound sample_patch sample_tree"
proof -
  have "is_ok (render_path sample_tree ROOT_ID)" by code_simp
  then show ?thesis by (simp add: move_within_bound_def sample_patch_def)
qed

lemma sample_patch_result:
  "patch_object sample_patch sample_tree =
     (Ok (stored_response_json 200 ''new''), snd (patch_object sample_patch sample_tree))"
proof -
  have "fst (patch_object sample_patch sample_tree) = Ok (stored_response_json 200 ''new'')" by code_simp
  then show ?thesis by (metis prod.collapse)
qed


text \<open>
  C5: what the mutations do to paths. Creating an object in the folder at \<open>d\<close> adds the path of its
  name in that folder and nothing else. Patching the object at \<open>p\<close> moves it, with everything
  below it, to the new name in the new folder - where a name or folder that is not given stays
  what it was - and touches no other path. Deleting the object at \<open>p\<close> takes away \<open>p\<close> and the
  paths that extend it, and no others.
\<close>

theorem mutations_act_on_paths:
  assumes "tree_ok s" and "tree_rooted s"
  shows "(create_object c s = (Ok r, s1) \<longrightarrow> table_get (objects s) (co_id c) = None \<longrightarrow>
          resolve_segments s ROOT_ID d = Some (co_parent_id c) \<longrightarrow>
            namespace s1 = ns_put (d @ [co_name c]) (entry_of (created_object c)) (namespace s)) \<and>
    (patch_object u s = (Ok r, s2) \<longrightarrow> move_within_bound u s \<longrightarrow> po_id u \<noteq> ROOT_ID \<longrightarrow>
          resolve_segments s ROOT_ID p = Some (po_id u) \<longrightarrow>
            (\<exists>f n e. (case po_new_name u of None \<Rightarrow> n = last p | Some m \<Rightarrow> n = m) \<and>
               (case po_new_parent_id u of None \<Rightarrow> f = butlast p
                | Some k \<Rightarrow> resolve_segments s ROOT_ID f = Some k) \<and>
               namespace s2 = ns_put (f @ [n]) e (ns_rename p (f @ [n]) (namespace s)))) \<and>
    (delete_object x s = Some (Ok r, s3) \<longrightarrow> resolve_segments s ROOT_ID q = Some (do_id x) \<longrightarrow>
            namespace s3 = ns_remove q (namespace s))"
proof -
  note to_path = resolve_leads [OF assms(1)]
  from assms(1) have t: "tree_shape (live_object s)" "names_unique (live_object s)"
    by (simp_all add: tree_ok_def)
  have create: "namespace s1 = ns_put (d @ [co_name c]) (entry_of (created_object c)) (namespace s)"
    if c: "create_object c s = (Ok r, s1)" "table_get (objects s) (co_id c) = None"
      "leads (live_object s) d (co_parent_id c)"
    using assms c(2)
  proof (cases rule: create_on_namespace)
    case (made d')
    with c(1) leads_path [OF t(1) made(1) c(3)] show ?thesis by simp
  qed (use c(1) in simp)
  have patch: "\<exists>f n e. (case po_new_name u of None \<Rightarrow> n = last p | Some m \<Rightarrow> n = m) \<and>
      (case po_new_parent_id u of None \<Rightarrow> f = butlast p | Some k \<Rightarrow> leads (live_object s) f k) \<and>
      namespace s2 = ns_put (f @ [n]) e (ns_rename p (f @ [n]) (namespace s))"
    if u: "patch_object u s = (Ok r, s2)" "move_within_bound u s" "po_id u \<noteq> ROOT_ID"
      "leads (live_object s) p (po_id u)"
    using assms u by (rule patched_path)
  have delete: "namespace s3 = ns_remove q (namespace s)"
    if x: "delete_object x s = Some (Ok r, s3)" "leads (live_object s) q (do_id x)"
    using assms x(1)
  proof (cases rule: delete_on_namespace)
    case (removed q')
    with leads_path [OF t(1) removed(1) x(2)] show ?thesis by simp
  qed simp
  show ?thesis unfolding to_path using create patch delete by blast
qed

theorem mutations_act_on_paths_witness:
  "(let new = sample_file\<lparr>co_id := ''g'', co_name := ''c.txt''\<rparr> in
      namespace (snd (create_object new sample_tree))
        = ns_put [''docs'', ''c.txt''] (entry_of (created_object new)) (namespace sample_tree)) \<and>
   (\<exists>e. namespace (snd (patch_object sample_patch sample_tree))
        = ns_put [''b.txt''] e (ns_rename [''docs'', ''a.txt''] [''b.txt''] (namespace sample_tree))) \<and>
   (\<exists>r s. delete_object sample_delete sample_tree = Some (Ok r, s) \<and>
      namespace s = ns_remove [''docs''] (namespace sample_tree))"
proof -
  note tree = reachable_is_tree [OF sample_reachable]
  let ?new = "sample_file\<lparr>co_id := ''g'', co_name := ''c.txt''\<rparr>"
  let ?made = "stored_response_json 200 ''new''"
  have "fst (create_object ?new sample_tree) = Ok ?made" by code_simp
  then have c: "create_object ?new sample_tree = (Ok ?made, snd (create_object ?new sample_tree))"
    by (metis prod.collapse)
  have fresh: "table_get (objects sample_tree) ''g'' = None" by code_simp
  have docs: "resolve_segments sample_tree ROOT_ID [''docs''] = Some ''d''" by code_simp
  have doc: "resolve_segments sample_tree ROOT_ID [''docs'', ''a.txt''] = Some ''f''" by code_simp
  have "map_option fst (delete_object sample_delete sample_tree) = Some (Ok ?made)" by code_simp
  then obtain s where d: "delete_object sample_delete sample_tree = Some (Ok ?made, s)" by auto
  note all = mutations_act_on_paths [OF tree, where c = ?new and r = ?made and d = "[''docs'']" and
    u = sample_patch and p = "[''docs'', ''a.txt'']" and x = sample_delete and q = "[''docs'']" and
    ?s1.0 = "snd (create_object ?new sample_tree)" and
    ?s2.0 = "snd (patch_object sample_patch sample_tree)" and ?s3.0 = s]
  have "namespace (snd (create_object ?new sample_tree))
      = ns_put ([''docs''] @ [''c.txt'']) (entry_of (created_object ?new)) (namespace sample_tree)"
    using conjunct1 [OF all] c fresh docs by (simp add: sample_file_def)
  moreover have "\<exists>f n e. n = ''b.txt'' \<and> resolve_segments sample_tree ROOT_ID f = Some ROOT_ID \<and>
      namespace (snd (patch_object sample_patch sample_tree))
        = ns_put (f @ [n]) e (ns_rename [''docs'', ''a.txt''] (f @ [n]) (namespace sample_tree))"
    using conjunct1 [OF conjunct2 [OF all]] sample_patch_result sample_patch_bound doc
    by (simp add: sample_patch_def ROOT_ID_def)
  then have "\<exists>e. namespace (snd (patch_object sample_patch sample_tree))
      = ns_put [''b.txt''] e (ns_rename [''docs'', ''a.txt''] [''b.txt''] (namespace sample_tree))"
    using resolve_segments_inj [OF tree(1), where i = ROOT_ID and ys = "[]"] by fastforce
  moreover have "namespace s = ns_remove [''docs''] (namespace sample_tree)"
    using conjunct2 [OF conjunct2 [OF all]] d docs by (simp add: sample_delete_def)
  ultimately show ?thesis using d by (simp add: Let_def)
qed

end
