(* ===== verification/PostgrestRpc.thy ===== *)
theory PostgrestRpc
  imports Ports JsonValue StrTrim Utf8
begin

text \<open>
  The transport of the PostgREST adapter: \<open>anystore-metastore-postgrest/src/lib.rs\<close>, \<open>client.rs\<close>
  and \<open>envelope.rs\<close>. One call is one HTTP request; its answer is unwrapped from the envelope, and
  an error in it is mapped back onto the domain. The gateway is a parameter with a state of its
  own; so are the JSON and time codecs of the third-party crates.
\<close>

section \<open>Configuration\<close>

record postgrest_config =
  pc_base_url :: string
  pc_api_key :: string
  pc_rpc_path :: string
  pc_function_name :: string
  pc_timeout :: int

definition DEFAULT_RPC_PATH :: string where
  "DEFAULT_RPC_PATH = ''/v1/rdb/rest/rpc''"

definition DEFAULT_FUNCTION_NAME :: string where
  "DEFAULT_FUNCTION_NAME = ''anystore_rpc''"

definition DEFAULT_TIMEOUT :: int where
  "DEFAULT_TIMEOUT = 20 * 1000000000"

definition postgrest_config_new :: "string \<Rightarrow> string \<Rightarrow> postgrest_config" where
  "postgrest_config_new base_url api_key =
     \<lparr>pc_base_url = base_url, pc_api_key = api_key, pc_rpc_path = DEFAULT_RPC_PATH,
      pc_function_name = DEFAULT_FUNCTION_NAME, pc_timeout = DEFAULT_TIMEOUT\<rparr>"

section \<open>The client\<close>

text \<open>
  What the adapter uses of other crates: header values and the client's construction, JSON, RFC
  3339 times (the second formatter is the one of cursors), base64, the cursor codec; and one HTTP
  exchange, whose outcome is a transport error, or a status with a body or a read error.
\<close>

record 'g rpc_lib =
  rl_header_ok :: "string \<Rightarrow> bool"
  rl_build :: "int \<Rightarrow> string option"
  rl_to_vec :: "json \<Rightarrow> string + string"
  rl_from_slice :: "string \<Rightarrow> json option"
  rl_timestamp :: "time \<Rightarrow> string"
  rl_rfc3339 :: "time \<Rightarrow> string"
  rl_parse_time :: "string \<Rightarrow> time option"
  rl_base64_encode :: "string \<Rightarrow> string"
  rl_base64_decode :: "string \<Rightarrow> string option"
  rl_codec :: cursor_codec
  rl_send :: "string \<Rightarrow> (string \<times> string) list \<Rightarrow> string \<Rightarrow> 'g \<Rightarrow> (string + nat \<times> (string + string)) \<times> 'g"

record 'g rpc_client =
  rcl_endpoint :: string
  rcl_api_key :: string
  rcl_headers :: "(string \<times> string) list"
  rcl_lib :: "'g rpc_lib"

definition rpc_client_new :: "'g rpc_lib \<Rightarrow> postgrest_config \<Rightarrow> 'g rpc_client result" where
  "rpc_client_new lib config =
     (let base = trim_end_str ''/'' (str_trim (pc_base_url config));
          api_key = str_trim (pc_api_key config);
          rpc_path = trim_end_str ''/'' (str_trim (pc_rpc_path config));
          function_name = trim_matches (CHR ''/'') (str_trim (pc_function_name config));
          authorization = ''Bearer '' @ api_key in
      if base = [] then Err (Internal ''cloudbase postgrest base URL is required'')
      else if api_key = [] then Err (Internal ''cloudbase postgrest API key is required'')
      else if function_name = [] then Err (Internal ''cloudbase postgrest function name is required'')
      else if \<not> rl_header_ok lib authorization
      then Err (Internal ''cloudbase postgrest API key is not a valid header'')
      else case rl_build lib (pc_timeout config) of
        Some e \<Rightarrow> Err (Internal (''HTTP client build failed: '' @ e))
      | None \<Rightarrow> Ok
          \<lparr>rcl_endpoint = base @ rpc_path @ ''/'' @ function_name, rcl_api_key = api_key,
           rcl_headers = [(''authorization'', authorization), (''content-type'', ''application/json''),
             (''accept'', ''application/json'')],
           rcl_lib = lib\<rparr>)"

definition rpc_redact :: "'g rpc_client \<Rightarrow> string \<Rightarrow> string" where
  "rpc_redact c txt = str_replace (rcl_api_key c) ''[redacted]'' txt"

text \<open>\<open>chars().take(n)\<close> of UTF-8 text.\<close>

fun chars_take :: "nat \<Rightarrow> string \<Rightarrow> string" where
  "chars_take 0 s = []"
| "chars_take (Suc n) s =
     (if s = [] then []
      else take (fst (utf8_step s)) s @ chars_take n (drop (fst (utf8_step s)) s))"

definition MAX_QUOTED_BODY :: nat where
  "MAX_QUOTED_BODY = 512"

section \<open>Envelopes\<close>

fun as_bool :: "json \<Rightarrow> bool option" where
  "as_bool (JBool b) = Some b"
| "as_bool _ = None"

fun as_str :: "json \<Rightarrow> string option" where
  "as_str (JString s) = Some s"
| "as_str _ = None"

fun as_u64 :: "json \<Rightarrow> 64 word option" where
  "as_u64 (JNumber (PosInt n)) = Some n"
| "as_u64 _ = None"

fun as_array :: "json \<Rightarrow> json list option" where
  "as_array (JArray xs) = Some xs"
| "as_array _ = None"

definition obind :: "'a option \<Rightarrow> ('a \<Rightarrow> 'b option) \<Rightarrow> 'b option" where
  "obind x f = (case x of None \<Rightarrow> None | Some a \<Rightarrow> f a)"

record rpc_error =
  re_code :: string
  re_message :: string
  re_current_revision :: "64 word option"

definition rpc_error_into_domain :: "rpc_error \<Rightarrow> domain_error" where
  "rpc_error_into_domain e =
     (let c = re_code e; m = re_message e in
      if c = ''invalid_request'' then InvalidRequest m
      else if c = ''invalid_name'' then InvalidName m
      else if c = ''invalid_metadata'' then InvalidMetadata m
      else if c = ''object_not_found'' then ObjectNotFound
      else if c = ''upload_not_found'' then UploadNotFound
      else if c = ''name_conflict'' then NameConflict
      else if c = ''folder_not_empty'' then FolderNotEmpty
      else if c = ''invalid_move'' then InvalidMove m
      else if c = ''not_a_folder'' then NotAFolder
      else if c = ''not_a_file'' then NotAFile
      else if c = ''content_not_ready'' then ContentNotReady
      else if c = ''idempotency_key_reused'' then IdempotencyKeyReused
      else if c = ''changes_cursor_expired'' then ChangesCursorExpired
      else if c = ''revision_conflict'' then
        (case re_current_revision e of
           Some revision \<Rightarrow> RevisionConflict revision
         | None \<Rightarrow> Internal ''revision_conflict without current_revision'')
      else if c = ''checksum_mismatch'' then ChecksumMismatch m
      else if c = ''rate_limited'' then RateLimited
      else if c = ''unauthorized'' then Unauthorized
      else if c = ''storage_error'' then StorageError m
      else Internal (c @ '': '' @ m))"

text \<open>The envelope itself, one wrapped in \<open>data\<close>, or the one row of an array.\<close>

fun locate_envelope :: "json \<Rightarrow> json option" and locate_data :: "(string \<times> json) list \<Rightarrow> json option" where
  "locate_envelope (JObject m) =
     (if map_of m ''ok'' \<noteq> None then Some (JObject m) else locate_data m)"
| "locate_envelope (JArray [item]) = locate_envelope item"
| "locate_envelope v = None"
| "locate_data [] = None"
| "locate_data ((k, v) # m) = (if k = ''data'' then locate_envelope v else locate_data m)"

definition decode_error :: "json \<Rightarrow> rpc_error" where
  "decode_error v =
     \<lparr>re_code = (case obind (json_get v ''code'') as_str of None \<Rightarrow> ''internal_error'' | Some s \<Rightarrow> s),
      re_message = (case obind (json_get v ''message'') as_str of None \<Rightarrow> ''Internal error.'' | Some s \<Rightarrow> s),
      re_current_revision = obind (json_get v ''current_revision'') as_u64\<rparr>"

definition json_or_null :: "json option \<Rightarrow> json" where
  "json_or_null v = (case v of None \<Rightarrow> JNull | Some j \<Rightarrow> j)"

definition decode_envelope :: "json \<Rightarrow> json result" where
  "decode_envelope value =
     (case locate_envelope value of
        Some (JObject m) \<Rightarrow>
          (case obind (map_of m ''ok'') as_bool of
             None \<Rightarrow> Err (Internal (''rpc envelope is missing '' @ CHR 0x27 # ''ok'' @ [CHR 0x27]))
           | Some True \<Rightarrow> Ok (json_or_null (map_of m ''data''))
           | Some False \<Rightarrow> Err (rpc_error_into_domain (decode_error (json_or_null (map_of m ''error'')))))
      | _ \<Rightarrow> Err (Internal ''cloudbase postgrest returned no rpc envelope''))"

definition map_http_status :: "nat \<Rightarrow> string \<Rightarrow> domain_error" where
  "map_http_status st body =
     (if st = 401 \<or> st = 403 then Internal (''cloudbase postgrest rejected the service credential; '' @
        ''check ANYSTORE_CLOUDBASE_PG_API_KEY'')
      else if st = 404 then Internal (''cloudbase postgrest rpc endpoint is missing; '' @
        ''check ANYSTORE_CLOUDBASE_PG_BASE_URL and apply the anystore RPC migration'')
      else if st = 408 \<or> st = 504 then Internal ''cloudbase postgrest request timed out''
      else if st = 429 then RateLimited
      else if st = 400 \<or> st = 422
      then Internal (''cloudbase postgrest rejected the rpc request: '' @ body)
      else if 500 \<le> st \<and> st \<le> 599
      then Internal (''cloudbase postgrest failed ('' @ dec_nat st @ ''): '' @ body)
      else Internal (''cloudbase postgrest returned an unexpected status '' @ dec_nat st @ '': '' @ body))"

section \<open>One call\<close>

definition rpc_call :: "'g rpc_client \<Rightarrow> string \<Rightarrow> json \<Rightarrow> ('g, json) call" where
  "rpc_call c op payload g =
     (case rl_to_vec (rcl_lib c) (JObject [(''op'', JString op), (''payload'', payload)]) of
        Inl e \<Rightarrow> Some (Err (Internal (''rpc request encoding failed: '' @ e)), g)
      | Inr body \<Rightarrow>
          (case rl_send (rcl_lib c) (rcl_endpoint c) (rcl_headers c) body g of
             (Inl e, g') \<Rightarrow>
               Some (Err (Internal (rpc_redact c (''cloudbase postgrest request failed: '' @ e))), g')
           | (Inr (st, Inl e), g') \<Rightarrow>
               Some (Err (Internal (rpc_redact c (''cloudbase postgrest read failed: '' @ e))), g')
           | (Inr (st, Inr bytes), g') \<Rightarrow>
               Some
                 (if st < 200 \<or> 300 \<le> st
                  then Err (map_http_status st
                    (rpc_redact c (chars_take MAX_QUOTED_BODY (from_utf8_lossy bytes))))
                  else case rl_from_slice (rcl_lib c) bytes of
                    None \<Rightarrow> Err (Internal ''cloudbase postgrest returned a non-JSON response'')
                  | Some v \<Rightarrow> decode_envelope v, g')))"

definition rpc_call_unit :: "'g rpc_client \<Rightarrow> string \<Rightarrow> json \<Rightarrow> ('g, unit) call" where
  "rpc_call_unit c op payload = call_then (rpc_call c op payload) (call_ok ())"

text \<open>\<open>check_schema\<close>: the root object must be readable before traffic is served.\<close>

definition check_schema :: "'g rpc_client \<Rightarrow> ('g, unit) call" where
  "check_schema c =
     call_bind
       (call_catch (rpc_call c ''get_object'' (JObject [(''id'', JString ''root'')]))
         (\<lambda>e. call_err (case e of
            Internal inner \<Rightarrow> Internal (''cloudbase postgrest RPC surface is unavailable; '' @
              ''apply the anystore RPC migration ('' @ inner @ '')'')
          | other \<Rightarrow> other)))
       (\<lambda>v. if obind (json_get v ''id'') as_str \<noteq> Some ''root''
            then call_err (Internal ''cloudbase postgrest schema check could not read the root object'')
            else call_ok ())"

end
