(* ===== verification/PostgrestStore.thy ===== *)
theory PostgrestStore
  imports PostgrestRpc DomainTypes
begin

text \<open>
  The metastore behind PostgREST. First \<open>anystore-metastore-postgrest/src/decode.rs\<close>: reading the payload of an answer into the types
  of the domain. Every unexpected shape is an internal error; nothing is filled in.
\<close>

section \<open>Fields\<close>

definition missing :: "string \<Rightarrow> domain_error" where
  "missing field = Internal (''rpc payload is missing '' @ debug_str field)"

definition text_field :: "json \<Rightarrow> string \<Rightarrow> string result" where
  "text_field v field = ok_or (missing field) (obind (json_get v field) as_str)"

definition optional_text :: "json \<Rightarrow> string \<Rightarrow> string option" where
  "optional_text v field = obind (json_get v field) as_str"

definition integer_field :: "json \<Rightarrow> string \<Rightarrow> 64 word result" where
  "integer_field v field = ok_or (missing field) (obind (json_get v field) as_u64)"

definition optional_integer :: "json \<Rightarrow> string \<Rightarrow> 64 word option result" where
  "optional_integer v field =
     (case json_get v field of
        None \<Rightarrow> Ok None
      | Some JNull \<Rightarrow> Ok None
      | Some other \<Rightarrow>
          rbind (ok_or (Internal (''rpc field '' @ debug_str field @ '' is not an integer'')) (as_u64 other))
            (\<lambda>n. Ok (Some n)))"

definition boolean_field :: "json \<Rightarrow> string \<Rightarrow> bool result" where
  "boolean_field v field = ok_or (missing field) (obind (json_get v field) as_bool)"

definition moment :: "'g rpc_lib \<Rightarrow> json \<Rightarrow> string \<Rightarrow> time result" where
  "moment lib v field =
     rbind (text_field v field) (\<lambda>raw.
       ok_or (Internal (''rpc field '' @ debug_str field @ '' is not an RFC 3339 time''))
         (rl_parse_time lib raw))"

definition optional_moment :: "'g rpc_lib \<Rightarrow> json \<Rightarrow> string \<Rightarrow> time option result" where
  "optional_moment lib v field =
     (case json_get v field of
        None \<Rightarrow> Ok None
      | Some JNull \<Rightarrow> Ok None
      | Some _ \<Rightarrow> rbind (moment lib v field) (\<lambda>t. Ok (Some t)))"

definition array_field :: "json \<Rightarrow> string \<Rightarrow> json list result" where
  "array_field v field = ok_or (missing field) (obind (json_get v field) as_array)"

definition parsed :: "(string \<Rightarrow> 'a option) \<Rightarrow> string \<Rightarrow> string \<Rightarrow> 'a result" where
  "parsed parse what raw = ok_or (Internal (what @ debug_str raw)) (parse raw)"

text \<open>A payload that may be \<open>null\<close>.\<close>

definition nullable :: "(json \<Rightarrow> 'a result) \<Rightarrow> json \<Rightarrow> 'a option result" where
  "nullable f v = (if v = JNull then Ok None else rbind (f v) (\<lambda>a. Ok (Some a)))"

section \<open>Records\<close>

definition decode_object_view :: "'g rpc_lib \<Rightarrow> json \<Rightarrow> object_view result" where
  "decode_object_view lib v =
     rbind (text_field v ''kind'') (\<lambda>kind_raw.
     rbind (parsed object_kind_parse ''unknown object kind '' kind_raw) (\<lambda>kind.
     rbind (case optional_text v ''content_state'' of
              None \<Rightarrow> Ok None
            | Some raw \<Rightarrow> rbind (parsed content_state_parse ''unknown content_state '' raw)
                (\<lambda>st. Ok (Some st))) (\<lambda>content_state.
     rbind (text_field v ''id'') (\<lambda>i.
     rbind (integer_field v ''revision'') (\<lambda>revision.
     rbind (text_field v ''name'') (\<lambda>name.
     rbind (optional_integer v ''size'') (\<lambda>sz.
     rbind (moment lib v ''created_at'') (\<lambda>created_at.
     rbind (moment lib v ''updated_at'') (\<lambda>updated_at.
     rbind (text_field v ''path'') (\<lambda>path.
       Ok \<lparr>ov_object =
             \<lparr>o_id = i, o_revision = revision, o_kind = kind, o_name = name,
              o_parent_id = optional_text v ''parent_id'',
              o_content_type = optional_text v ''content_type'', o_size = sz,
              o_sha256 = optional_text v ''sha256'', o_content_state = content_state,
              o_metadata = json_or_null (json_get v ''metadata''), o_created_at = created_at,
              o_updated_at = updated_at\<rparr>,
           ov_path = path\<rparr>))))))))))"

definition decode_content_pointer :: "json \<Rightarrow> content_pointer result" where
  "decode_content_pointer v =
     rbind (text_field v ''blob_backend'') (\<lambda>backend.
     rbind (text_field v ''blob_ref'') (\<lambda>blob_ref.
       Ok \<lparr>cp_blob_backend = backend, cp_blob_ref = blob_ref\<rparr>))"

definition decode_upload_record :: "'g rpc_lib \<Rightarrow> json \<Rightarrow> upload_record result" where
  "decode_upload_record lib v =
     rbind (text_field v ''state'') (\<lambda>state_raw.
     rbind (text_field v ''mode'') (\<lambda>mode_raw.
     rbind (text_field v ''id'') (\<lambda>i.
     rbind (text_field v ''object_id'') (\<lambda>object_id.
     rbind (parsed upload_state_parse ''unknown upload state '' state_raw) (\<lambda>st.
     rbind (parsed upload_mode_parse ''unknown upload mode '' mode_raw) (\<lambda>mode.
     rbind (text_field v ''blob_backend'') (\<lambda>backend.
     rbind (text_field v ''blob_ref'') (\<lambda>blob_ref.
     rbind (integer_field v ''expected_size'') (\<lambda>expected_size.
     rbind (text_field v ''content_type'') (\<lambda>content_type.
     rbind (boolean_field v ''provider_completed'') (\<lambda>provider_completed.
     rbind (moment lib v ''created_at'') (\<lambda>created_at.
     rbind (moment lib v ''expires_at'') (\<lambda>expires_at.
     rbind (optional_moment lib v ''completed_at'') (\<lambda>completed_at.
     rbind (optional_moment lib v ''aborted_at'') (\<lambda>aborted_at.
       Ok \<lparr>u_id = i, u_object_id = object_id, u_state = st, u_mode = mode, u_blob_backend = backend,
           u_blob_ref = blob_ref, u_provider_upload_id = optional_text v ''provider_upload_id'',
           u_expected_size = expected_size, u_content_type = content_type,
           u_expected_sha256 = optional_text v ''expected_sha256'',
           u_provider_completed = provider_completed, u_created_at = created_at,
           u_expires_at = expires_at, u_completed_at = completed_at,
           u_aborted_at = aborted_at\<rparr>)))))))))))))))"

definition decode_change_record :: "'g rpc_lib \<Rightarrow> json \<Rightarrow> change_record result" where
  "decode_change_record lib v =
     rbind (text_field v ''action'') (\<lambda>action_raw.
     rbind (text_field v ''change_id'') (\<lambda>change_id.
     rbind (text_field v ''object_id'') (\<lambda>object_id.
     rbind (integer_field v ''revision'') (\<lambda>revision.
     rbind (parsed change_action_parse ''unknown change action '' action_raw) (\<lambda>action.
     rbind (moment lib v ''changed_at'') (\<lambda>changed_at.
     rbind (text_field v ''request_id'') (\<lambda>request_id.
     rbind (boolean_field v ''tombstone'') (\<lambda>tombstone.
       Ok \<lparr>c_change_id = change_id, c_object_id = object_id, c_revision = revision,
           c_action = action, c_changed_at = changed_at, c_request_id = request_id,
           c_idempotency_key = optional_text v ''idempotency_key'', c_tombstone = tombstone\<rparr>))))))))"

section \<open>Stored responses\<close>

definition decode_header :: "json \<Rightarrow> (string \<times> string) result" where
  "decode_header pair =
     (case as_array pair of
        Some [name, v] \<Rightarrow>
          rbind (ok_or (Internal ''rpc response header name is malformed'') (as_str name)) (\<lambda>n.
          rbind (ok_or (Internal ''rpc response header value is malformed'') (as_str v)) (\<lambda>x.
            Ok (n, x)))
      | _ \<Rightarrow> Err (Internal ''rpc response header is malformed''))"

text \<open>PostgreSQL wraps base64 at 76 characters, so white space is taken out before decoding.\<close>

definition base64_bytes :: "'g rpc_lib \<Rightarrow> string \<Rightarrow> string result" where
  "base64_bytes lib raw =
     ok_or (Internal ''rpc response body is not valid base64'')
       (rl_base64_decode lib (filter (\<lambda>c. \<not> is_ascii_whitespace c) raw))"

definition decode_stored_response :: "'g rpc_lib \<Rightarrow> json \<Rightarrow> stored_response result" where
  "decode_stored_response lib v =
     rbind (integer_field v ''status'') (\<lambda>st.
       if 65535 < unat st then Err (Internal ''rpc response status is out of range'')
       else
         rbind (array_field v ''headers'') (\<lambda>hs.
         rbind (rmap decode_header hs) (\<lambda>headers.
         rbind (text_field v ''body_b64'') (\<lambda>raw.
         rbind (base64_bytes lib raw) (\<lambda>body.
           Ok \<lparr>sr_status = unat st, sr_headers = headers, sr_body = body\<rparr>)))))"

definition encode_response :: "'g rpc_lib \<Rightarrow> stored_response \<Rightarrow> json" where
  "encode_response lib r =
     JObject
       [(''status'', JNumber (PosInt (of_nat (sr_status r)))),
        (''headers'', JArray (map (\<lambda>(n, x). JArray [JString n, JString x]) (sr_headers r))),
        (''body_b64'', JString (rl_base64_encode lib (sr_body r)))]"

text \<open>
  The operations of \<open>PostgrestMetaStore\<close> (\<open>objects_read.rs\<close>, \<open>objects_write.rs\<close>, \<open>uploads.rs\<close>,
  \<open>idempotency.rs\<close>, \<open>changes.rs\<close>, \<open>maintenance.rs\<close>): each builds a payload, makes one call - the
  claim of a key up to ten - and decodes the answer. Together they are a \<open>MetaStore\<close> whose state
  is the gateway's.
\<close>

definition opt_json :: "('a \<Rightarrow> json) \<Rightarrow> 'a option \<Rightarrow> json" where
  "opt_json f x = (case x of None \<Rightarrow> JNull | Some a \<Rightarrow> f a)"

abbreviation pg_u64 :: "64 word \<Rightarrow> json" where
  "pg_u64 n \<equiv> JNumber (PosInt n)"

definition timestamp_json :: "'g rpc_client \<Rightarrow> time \<Rightarrow> json" where
  "timestamp_json c t = JString (rl_timestamp (rcl_lib c) t)"

definition call_map :: "('a \<Rightarrow> 'b result) \<Rightarrow> ('s, 'a) call \<Rightarrow> ('s, 'b) call" where
  "call_map f m = call_bind m (\<lambda>a. call_result (f a))"

section \<open>Mutations\<close>

definition idempotency_context_json :: "idempotency_context \<Rightarrow> json" where
  "idempotency_context_json x =
     JObject
       [(''principal_id'', JString (ic_principal_id x)), (''operation'', JString (ic_operation x)),
        (''key'', JString (ic_key x)), (''request_hash'', JString (ic_request_hash x)),
        (''owner_token'', JString (ic_owner_token x)), (''resource_token'', JString (ic_resource_token x))]"

definition mutation_context_json :: "'g rpc_client \<Rightarrow> mutation_context \<Rightarrow> json" where
  "mutation_context_json c ctx =
     JObject
       [(''now'', timestamp_json c (mc_now ctx)), (''request_id'', JString (mc_request_id ctx)),
        (''idempotency_key'', opt_json JString (mc_idempotency_key ctx)),
        (''idempotency'', opt_json idempotency_context_json (mc_idempotency ctx)),
        (''idempotency_expires_at'', timestamp_json c (mc_idempotency_expires_at ctx))]"

definition pg_mutate :: "'g rpc_client \<Rightarrow> string \<Rightarrow> json \<Rightarrow> ('g, stored_response) call" where
  "pg_mutate c op payload =
     call_map (\<lambda>data.
         rbind (ok_or (Internal ''rpc mutation returned no response'') (json_get data ''response''))
           (decode_stored_response (rcl_lib c)))
       (rpc_call c op payload)"

definition pg_create_object :: "'g rpc_client \<Rightarrow> create_object_commit \<Rightarrow> ('g, stored_response) call" where
  "pg_create_object c cmd =
     pg_mutate c ''create_object'' (JObject
       [(''id'', JString (co_id cmd)), (''kind'', JString (object_kind_as_str (co_kind cmd))),
        (''name'', JString (co_name cmd)), (''parent_id'', JString (co_parent_id cmd)),
        (''content_type'', opt_json JString (co_content_type cmd)), (''metadata'', co_metadata cmd),
        (''ctx'', mutation_context_json c (co_ctx cmd))])"

definition pg_patch_object :: "'g rpc_client \<Rightarrow> patch_object_commit \<Rightarrow> ('g, stored_response) call" where
  "pg_patch_object c cmd =
     pg_mutate c ''patch_object'' (JObject
       [(''id'', JString (po_id cmd)), (''if_match'', opt_json pg_u64 (po_if_match cmd)),
        (''new_name'', opt_json JString (po_new_name cmd)),
        (''new_parent_id'', opt_json JString (po_new_parent_id cmd)),
        (''metadata_patch'', opt_json (\<lambda>p. JObject
           [(''set'', JObject (mp_set p)), (''remove'', JArray (map JString (mp_remove p)))])
          (po_metadata_patch cmd)),
        (''ctx'', mutation_context_json c (po_ctx cmd))])"

definition pg_delete_object :: "'g rpc_client \<Rightarrow> delete_object_commit \<Rightarrow> ('g, stored_response) call" where
  "pg_delete_object c cmd =
     pg_mutate c ''delete_object'' (JObject
       [(''id'', JString (do_id cmd)), (''if_match'', opt_json pg_u64 (do_if_match cmd)),
        (''recursive'', JBool (do_recursive cmd)), (''ctx'', mutation_context_json c (do_ctx cmd))])"

definition pg_commit_content :: "'g rpc_client \<Rightarrow> commit_content_cmd \<Rightarrow> ('g, stored_response) call" where
  "pg_commit_content c cmd =
     pg_mutate c ''commit_content'' (JObject
       [(''upload_id'', JString (cm_upload_id cmd)), (''object_id'', JString (cm_object_id cmd)),
        (''if_match'', opt_json pg_u64 (cm_if_match cmd)),
        (''blob_backend'', JString (cm_blob_backend cmd)), (''blob_ref'', JString (cm_blob_ref cmd)),
        (''size'', pg_u64 (cm_size cmd)), (''content_type'', JString (cm_content_type cmd)),
        (''sha256'', opt_json JString (cm_sha256 cmd)),
        (''gc_not_before'', timestamp_json c (cm_gc_not_before cmd)),
        (''ctx'', mutation_context_json c (cm_ctx cmd))])"

section \<open>Reads\<close>

fun order_by_name :: "order_by \<Rightarrow> string" where
  "order_by_name ByName = ''name''"
| "order_by_name ByCreatedAt = ''created_at''"
| "order_by_name ByUpdatedAt = ''updated_at''"
| "order_by_name BySize = ''size''"

fun order_name :: "list_order \<Rightarrow> string" where
  "order_name Asc = ''asc''"
| "order_name Desc = ''desc''"

definition normalize_sort_key :: "'g rpc_lib \<Rightarrow> order_by \<Rightarrow> string option \<Rightarrow> string result" where
  "normalize_sort_key lib order_by key =
     rbind (ok_or (InvalidRequest ''Invalid cursor.'') key) (\<lambda>k.
       (case order_by of
          ByName \<Rightarrow> Ok k
        | BySize \<Rightarrow>
            rbind (ok_or (InvalidRequest ''Invalid cursor.'') (parse_i64 k)) (\<lambda>n. Ok (dec_int n))
        | _ \<Rightarrow>
            rbind (ok_or (InvalidRequest ''Invalid cursor.'') (rl_parse_time lib k))
              (\<lambda>t. Ok (rl_timestamp lib t))))"

definition sort_key_of :: "'g rpc_lib \<Rightarrow> object_view \<Rightarrow> order_by option \<Rightarrow> string option" where
  "sort_key_of lib v order_by =
     obind order_by (\<lambda>o'.
       (case o' of
          ByName \<Rightarrow> Some (o_name (ov_object v))
        | ByCreatedAt \<Rightarrow> Some (rl_rfc3339 lib (o_created_at (ov_object v)))
        | ByUpdatedAt \<Rightarrow> Some (rl_rfc3339 lib (o_updated_at (ov_object v)))
        | BySize \<Rightarrow> Some (dec_int (case o_size (ov_object v) of None \<Rightarrow> -1 | Some n \<Rightarrow> sint n))))"

definition finish_page ::
  "'g rpc_lib \<Rightarrow> object_view list \<Rightarrow> 32 word \<Rightarrow> order_by option \<Rightarrow> object_view page result" where
  "finish_page lib found limit order_by =
     (let has_more = unat limit < length found;
          items = take (unat limit) found in
      rbind
        (if has_more \<and> items \<noteq> []
         then rbind (encode_cursor (rl_codec lib)
             \<lparr>kc_k = sort_key_of lib (last items) order_by, kc_i = o_id (ov_object (last items))\<rparr>)
           (\<lambda>c. Ok (Some c))
         else Ok None)
        (\<lambda>next_cursor. Ok (page_new items next_cursor has_more)))"

definition metadata_conditions :: "(string \<times> metadata_condition) list \<Rightarrow> json" where
  "metadata_conditions cs =
     JArray (map (\<lambda>(key, condition).
       (case condition of
          MetaEq v \<Rightarrow> JObject [(''key'', JString key), (''op'', JString ''eq''), (''value'', v)]
        | MetaExists present \<Rightarrow>
            JObject [(''key'', JString key), (''op'', JString ''exists''), (''value'', JBool present)])) cs)"

definition pg_get_object :: "'g rpc_client \<Rightarrow> object_id \<Rightarrow> ('g, object_view option) call" where
  "pg_get_object c i =
     call_map (nullable (decode_object_view (rcl_lib c)))
       (rpc_call c ''get_object'' (JObject [(''id'', JString i)]))"

definition pg_content_pointer :: "'g rpc_client \<Rightarrow> object_id \<Rightarrow> ('g, content_pointer option) call" where
  "pg_content_pointer c i =
     call_map (nullable decode_content_pointer)
       (rpc_call c ''content_pointer'' (JObject [(''id'', JString i)]))"

definition decode_cursor_opt :: "'g rpc_lib \<Rightarrow> string option \<Rightarrow> keyset_cursor option result" where
  "decode_cursor_opt lib cursor =
     (case cursor of
        None \<Rightarrow> Ok None
      | Some x \<Rightarrow> rbind (decode_cursor (rl_codec lib) x) (\<lambda>kc. Ok (Some kc)))"

definition page_of ::
  "'g rpc_lib \<Rightarrow> 32 word \<Rightarrow> order_by option \<Rightarrow> json \<Rightarrow> object_view page result" where
  "page_of lib limit order_by data =
     rbind (array_field data ''items'') (\<lambda>items.
     rbind (rmap (decode_object_view lib) items) (\<lambda>found. finish_page lib found limit order_by))"

definition pg_list_children :: "'g rpc_client \<Rightarrow> list_children_cmd \<Rightarrow> ('g, object_view page) call" where
  "pg_list_children c q =
     call_bind (call_result (rbind (decode_cursor_opt (rcl_lib c) (lc_cursor q)) (\<lambda>cursor.
         rbind (case cursor of None \<Rightarrow> Ok None
           | Some kc \<Rightarrow> rbind (normalize_sort_key (rcl_lib c) (lc_order_by q) (kc_k kc)) (\<lambda>k. Ok (Some k)))
           (\<lambda>key. Ok (cursor, key)))))
       (\<lambda>(cursor, key).
         call_map (page_of (rcl_lib c) (lc_limit q) (Some (lc_order_by q)))
           (rpc_call c ''list_children'' (JObject
             [(''parent_id'', JString (lc_parent_id q)), (''limit'', pg_u64 (ucast (lc_limit q) + 1)),
              (''order_by'', JString (order_by_name (lc_order_by q))),
              (''order'', JString (order_name (lc_order q))), (''cursor_key'', opt_json JString key),
              (''cursor_id'', opt_json (\<lambda>kc. JString (kc_i kc)) cursor)])))"

definition pg_resolve_path :: "'g rpc_client \<Rightarrow> string \<Rightarrow> ('g, object_view option) call" where
  "pg_resolve_path c path =
     call_bind (call_result (split_path path)) (\<lambda>segments.
       call_map (nullable (decode_object_view (rcl_lib c)))
         (rpc_call c ''resolve_path'' (JObject [(''segments'', JArray (map JString segments))])))"

definition pg_query_objects :: "'g rpc_client \<Rightarrow> object_query \<Rightarrow> ('g, object_view page) call" where
  "pg_query_objects c q =
     call_bind (call_result (decode_cursor_opt (rcl_lib c) (oq_cursor q))) (\<lambda>cursor.
       call_map (page_of (rcl_lib c) (oq_limit q) None)
         (rpc_call c ''query_objects'' (JObject
           [(''kind'', opt_json (\<lambda>k. JString (object_kind_as_str k)) (oq_kind q)),
            (''name'', opt_json JString (oq_name q)), (''parent_id'', opt_json JString (oq_parent_id q)),
            (''metadata'', metadata_conditions (oq_metadata q)),
            (''limit'', pg_u64 (ucast (oq_limit q) + 1)),
            (''cursor_id'', opt_json (\<lambda>kc. JString (kc_i kc)) cursor)])))"

section \<open>Uploads\<close>

definition pg_create_upload_record ::
  "'g rpc_client \<Rightarrow> create_upload_record_cmd \<Rightarrow> ('g, create_upload_result) call" where
  "pg_create_upload_record c cmd =
     call_map (\<lambda>data.
         rbind (ok_or (Internal ''rpc create_upload_record returned no upload'') (json_get data ''upload''))
           (\<lambda>u. rbind (decode_upload_record (rcl_lib c) u) (\<lambda>upload.
           rbind (boolean_field data ''created'') (\<lambda>created.
             Ok \<lparr>cur_upload = upload, cur_created = created\<rparr>))))
       (rpc_call c ''create_upload_record'' (JObject
         [(''id'', JString (cu_id cmd)), (''object_id'', JString (cu_object_id cmd)),
          (''mode'', JString (upload_mode_as_str (cu_mode cmd))),
          (''blob_backend'', JString (cu_blob_backend cmd)), (''blob_ref'', JString (cu_blob_ref cmd)),
          (''expected_size'', pg_u64 (cu_expected_size cmd)),
          (''content_type'', JString (cu_content_type cmd)),
          (''expected_sha256'', opt_json JString (cu_expected_sha256 cmd)),
          (''created_at'', timestamp_json c (cu_created_at cmd)),
          (''expires_at'', timestamp_json c (cu_expires_at cmd))]))"

definition pg_get_upload :: "'g rpc_client \<Rightarrow> upload_id \<Rightarrow> ('g, upload_record option) call" where
  "pg_get_upload c i =
     call_map (nullable (decode_upload_record (rcl_lib c)))
       (rpc_call c ''get_upload'' (JObject [(''id'', JString i)]))"

definition pg_update_upload_state :: "'g rpc_client \<Rightarrow> update_upload_state_cmd \<Rightarrow> ('g, unit) call" where
  "pg_update_upload_state c cmd =
     rpc_call_unit c ''update_upload_state'' (JObject
       [(''id'', JString (uu_id cmd)), (''state'', JString (upload_state_as_str (uu_state cmd))),
        (''provider_upload_id'', opt_json JString (uu_provider_upload_id cmd)),
        (''provider_completed'', opt_json JBool (uu_provider_completed cmd))])"

definition pg_abort_upload_record :: "'g rpc_client \<Rightarrow> abort_upload_record_cmd \<Rightarrow> ('g, unit) call" where
  "pg_abort_upload_record c cmd =
     rpc_call_unit c ''abort_upload_record'' (JObject
       [(''id'', JString (au_id cmd)), (''now'', timestamp_json c (au_now cmd)),
        (''gc_not_before'', timestamp_json c (au_gc_not_before cmd))])"

section \<open>Idempotency\<close>

definition CONTENTION_POLLS :: nat where
  "CONTENTION_POLLS = 10"

text \<open>What one answer decides: \<open>None\<close> is another poll.\<close>

definition pg_decision :: "'g rpc_lib \<Rightarrow> json \<Rightarrow> idempotency_decision option result" where
  "pg_decision lib data =
     rbind (text_field data ''decision'') (\<lambda>d.
       if d = ''owner''
       then rbind (text_field data ''resource_token'') (\<lambda>t. Ok (Some (Owner t)))
       else if d = ''replay''
       then rbind (ok_or (Internal ''rpc replay decision carries no response'') (json_get data ''response''))
         (\<lambda>r. rbind (decode_stored_response lib r) (\<lambda>resp. Ok (Some (Replay resp))))
       else if d = ''conflict'' then Ok (Some Conflict)
       else if d = ''retry'' \<or> d = ''busy'' then Ok None
       else Err (Internal (''unknown idempotency decision '' @ debug_str d)))"

fun pg_acquire_loop :: "nat \<Rightarrow> 'g rpc_client \<Rightarrow> json \<Rightarrow> ('g, idempotency_decision) call" where
  "pg_acquire_loop 0 c payload = call_err RateLimited"
| "pg_acquire_loop (Suc n) c payload =
     call_bind (call_map (pg_decision (rcl_lib c)) (rpc_call c ''idempotency_acquire'' payload))
       (\<lambda>d. case d of Some decision \<Rightarrow> call_ok decision | None \<Rightarrow> pg_acquire_loop n c payload)"

definition pg_acquire :: "'g rpc_client \<Rightarrow> idempotency_acquire \<Rightarrow> ('g, idempotency_decision) call" where
  "pg_acquire c req =
     pg_acquire_loop CONTENTION_POLLS c (JObject
       [(''context'', idempotency_context_json (ia_context req)), (''now'', timestamp_json c (ia_now req)),
        (''lease_until'', timestamp_json c (ia_lease_until req)),
        (''expires_at'', timestamp_json c (ia_expires_at req))])"

definition pg_complete :: "'g rpc_client \<Rightarrow> idempotency_complete \<Rightarrow> ('g, unit) call" where
  "pg_complete c req =
     rpc_call_unit c ''idempotency_complete'' (JObject
       [(''context'', idempotency_context_json (ico_context req)),
        (''response'', encode_response (rcl_lib c) (ico_response req)),
        (''now'', timestamp_json c (ico_now req)), (''expires_at'', timestamp_json c (ico_expires_at req))])"

definition pg_fail_or_release :: "'g rpc_client \<Rightarrow> idempotency_release \<Rightarrow> ('g, unit) call" where
  "pg_fail_or_release c req =
     rpc_call_unit c ''idempotency_release'' (JObject
       [(''context'', idempotency_context_json (ir_context req))])"

section \<open>Changes\<close>

definition pg_read_page :: "'g rpc_client \<Rightarrow> string \<Rightarrow> read_changes_req \<Rightarrow> ('g, change_page) call" where
  "pg_read_page c ulid req =
     call_map (\<lambda>data.
         rbind (array_field data ''items'') (\<lambda>rows.
         rbind (rmap (decode_change_record (rcl_lib c)) rows) (\<lambda>items.
         rbind (text_field data ''next_cursor'') (\<lambda>next_cursor.
         rbind (boolean_field data ''has_more'') (\<lambda>has_more.
         rbind (integer_field data ''lag'') (\<lambda>lag.
           Ok \<lparr>cpg_items = items, cpg_next_cursor = next_cursor, cpg_has_more = has_more,
               cpg_lag = unat lag\<rparr>))))))
       (rpc_call c ''read_changes'' (JObject
         [(''cursor'', opt_json JString (rc_cursor req)), (''limit'', pg_u64 (ucast (rc_limit req))),
          (''now'', timestamp_json c (rc_now req)),
          (''cursor_expires_at'', timestamp_json c (rc_cursor_expires_at req)),
          (''new_cursor_id'', JString (generate_cursor_id ulid))]))"

definition pg_read_changes :: "'g rpc_client \<Rightarrow> string \<Rightarrow> read_changes_req \<Rightarrow> ('g, change_page) call" where
  "pg_read_changes c ulid req =
     (case rc_cursor req of
        Some cursor \<Rightarrow>
          if \<not> cursor_well_formed cursor then call_err (InvalidRequest ''Invalid cursor.'')
          else pg_read_page c ulid req
      | None \<Rightarrow> pg_read_page c ulid req)"

section \<open>Maintenance\<close>

definition gc_entry :: "json \<Rightarrow> blob_gc_entry result" where
  "gc_entry v =
     rbind (text_field v ''blob_backend'') (\<lambda>backend.
     rbind (text_field v ''blob_ref'') (\<lambda>blob_ref.
     rbind (integer_field v ''attempts'') (\<lambda>attempts.
       Ok \<lparr>ge_blob_backend = backend, ge_blob_ref = blob_ref,
           ge_attempts = (if unat attempts < 2 ^ 31 then ucast attempts else 0x7FFFFFFF)\<rparr>)))"

definition pg_count :: "json \<Rightarrow> nat result" where
  "pg_count v = rbind (ok_or (Internal ''rpc maintenance returned no count'') (as_u64 v)) (\<lambda>n. Ok (unat n))"

definition pg_entries :: "json \<Rightarrow> json list result" where
  "pg_entries v = ok_or (Internal ''rpc maintenance returned no list'') (as_array v)"

definition pg_claim_gc_batch :: "'g rpc_client \<Rightarrow> time \<Rightarrow> 32 word \<Rightarrow> ('g, blob_gc_entry list) call" where
  "pg_claim_gc_batch c now limit =
     call_map (\<lambda>data. rbind (pg_entries data) (rmap gc_entry))
       (rpc_call c ''claim_gc_batch''
         (JObject [(''now'', timestamp_json c now), (''limit'', pg_u64 (ucast limit))]))"

definition pg_finish_gc :: "'g rpc_client \<Rightarrow> blob_gc_entry \<Rightarrow> ('g, unit) call" where
  "pg_finish_gc c e =
     rpc_call_unit c ''finish_gc'' (JObject
       [(''blob_backend'', JString (ge_blob_backend e)), (''blob_ref'', JString (ge_blob_ref e))])"

definition pg_fail_gc :: "'g rpc_client \<Rightarrow> blob_gc_entry \<Rightarrow> string \<Rightarrow> time \<Rightarrow> ('g, unit) call" where
  "pg_fail_gc c e err retry_at =
     rpc_call_unit c ''fail_gc'' (JObject
       [(''blob_backend'', JString (ge_blob_backend e)), (''blob_ref'', JString (ge_blob_ref e)),
        (''error'', JString err), (''retry_at'', timestamp_json c retry_at)])"

definition pg_claim_expired_uploads ::
  "'g rpc_client \<Rightarrow> time \<Rightarrow> 32 word \<Rightarrow> ('g, upload_record list) call" where
  "pg_claim_expired_uploads c now limit =
     call_map (\<lambda>data. rbind (pg_entries data) (rmap (decode_upload_record (rcl_lib c))))
       (rpc_call c ''claim_expired_uploads''
         (JObject [(''now'', timestamp_json c now), (''limit'', pg_u64 (ucast limit))]))"

definition pg_purge_idempotency_records :: "'g rpc_client \<Rightarrow> time \<Rightarrow> ('g, nat) call" where
  "pg_purge_idempotency_records c now =
     call_map pg_count (rpc_call c ''purge_idempotency_records'' (JObject [(''now'', timestamp_json c now)]))"

definition pg_purge_change_cursors :: "'g rpc_client \<Rightarrow> time \<Rightarrow> ('g, nat) call" where
  "pg_purge_change_cursors c now =
     call_map pg_count (rpc_call c ''purge_change_cursors'' (JObject [(''now'', timestamp_json c now)]))"

definition pg_purge_changes :: "'g rpc_client \<Rightarrow> time \<Rightarrow> ('g, nat) call" where
  "pg_purge_changes c older_than =
     call_map pg_count (rpc_call c ''purge_changes'' (JObject [(''older_than'', timestamp_json c older_than)]))"

definition pg_count_pending_gc :: "'g rpc_client \<Rightarrow> ('g, nat) call" where
  "pg_count_pending_gc c = call_map pg_count (rpc_call c ''count_pending_gc'' (JObject []))"

section \<open>The adapter as a store\<close>

definition postgrest_store :: "'g rpc_client \<Rightarrow> 'g meta_store" where
  "postgrest_store c =
     \<lparr>ms_get_object = pg_get_object c, ms_content_pointer = pg_content_pointer c,
      ms_list_children = pg_list_children c, ms_resolve_path = pg_resolve_path c,
      ms_query_objects = pg_query_objects c, ms_create_object = pg_create_object c,
      ms_patch_object = pg_patch_object c, ms_delete_object = pg_delete_object c,
      ms_commit_content = pg_commit_content c, ms_create_upload_record = pg_create_upload_record c,
      ms_get_upload = pg_get_upload c, ms_update_upload_state = pg_update_upload_state c,
      ms_abort_upload_record = pg_abort_upload_record c, ms_acquire = pg_acquire c,
      ms_complete = pg_complete c, ms_fail_or_release = pg_fail_or_release c,
      ms_read_changes = pg_read_changes c, ms_claim_gc_batch = pg_claim_gc_batch c,
      ms_finish_gc = pg_finish_gc c, ms_fail_gc = pg_fail_gc c,
      ms_claim_expired_uploads = pg_claim_expired_uploads c,
      ms_purge_idempotency_records = pg_purge_idempotency_records c,
      ms_purge_change_cursors = pg_purge_change_cursors c, ms_purge_changes = pg_purge_changes c,
      ms_count_pending_gc = pg_count_pending_gc c\<rparr>"

end
