(* ===== verification/PostgrestProps.thy ===== *)
theory PostgrestProps
  imports PostgrestStore LocalAccess
begin

text \<open>
  What the adapter guarantees whatever the gateway answers: an outage is never mistaken for an
  answer, a claim of a key ends after ten requests, recorded responses come back byte for byte, and
  errors keep the code of the contract.
\<close>

section \<open>Outages\<close>

text \<open>An exchange without an answer: no connection, no body, no success status, or no JSON.\<close>

definition no_answer :: "'g rpc_lib \<Rightarrow> string + nat \<times> (string + string) \<Rightarrow> bool" where
  "no_answer lib x =
     (case x of
        Inl _ \<Rightarrow> True
      | Inr (st, Inl _) \<Rightarrow> True
      | Inr (st, Inr bytes) \<Rightarrow> st < 200 \<or> 300 \<le> st \<or> rl_from_slice lib bytes = None)"

definition gateway_down :: "'g rpc_client \<Rightarrow> bool" where
  "gateway_down c \<longleftrightarrow>
     (\<forall>body g. no_answer (rcl_lib c) (fst (rl_send (rcl_lib c) (rcl_endpoint c) (rcl_headers c) body g)))"

definition fails_with :: "string set \<Rightarrow> ('g, 'a) call \<Rightarrow> bool" where
  "fails_with codes m \<longleftrightarrow> (\<forall>g. \<exists>e g'. m g = Some (Err e, g') \<and> code e \<in> codes)"

abbreviation outage :: "string set" where
  "outage \<equiv> {''internal_error'', ''rate_limited''}"

lemma map_http_status_code: "code (map_http_status st body) \<in> outage"
  by (simp add: map_http_status_def)

lemma rpc_call_fails:
  assumes "gateway_down c"
  shows "fails_with outage (rpc_call c op payload)"
  unfolding fails_with_def
proof
  fix g
  show "\<exists>e g'. rpc_call c op payload g = Some (Err e, g') \<and> code e \<in> outage"
  proof (cases "rl_to_vec (rcl_lib c) (JObject [(''op'', JString op), (''payload'', payload)])")
    case (Inl e)
    then show ?thesis by (simp add: rpc_call_def)
  next
    case (Inr body)
    obtain x g' where send: "rl_send (rcl_lib c) (rcl_endpoint c) (rcl_headers c) body g = (x, g')"
      by fastforce
    with assms have "no_answer (rcl_lib c) x" unfolding gateway_down_def by (metis fst_conv)
    with Inr send map_http_status_code show ?thesis
      by (auto simp: rpc_call_def no_answer_def split: sum.splits prod.splits)
  qed
qed

lemma fails_bind: "fails_with codes m \<Longrightarrow> fails_with codes (call_bind m f)"
  unfolding fails_with_def
proof
  fix g assume "\<forall>g. \<exists>e g'. m g = Some (Err e, g') \<and> code e \<in> codes"
  then obtain e g' where "m g = Some (Err e, g')" "code e \<in> codes" by blast
  then show "\<exists>e g'. call_bind m f g = Some (Err e, g') \<and> code e \<in> codes" by (simp add: call_bind_step)
qed

lemma fails_map: "fails_with codes m \<Longrightarrow> fails_with codes (call_map f m)"
  by (simp add: call_map_def fails_bind)

lemma fails_then: "fails_with codes m \<Longrightarrow> fails_with codes (call_then m m')"
  by (simp add: call_then_def fails_bind)

lemma fails_unit: "gateway_down c \<Longrightarrow> fails_with outage (rpc_call_unit c op payload)"
  by (simp add: rpc_call_unit_def fails_then rpc_call_fails)

text \<open>What is checked before the call can be refused as well.\<close>

lemma fails_checked:
  assumes "\<And>e. r = Err e \<Longrightarrow> code e \<in> bad" and "\<And>a. fails_with outage (f a)"
  shows "fails_with (outage \<union> bad) (call_bind (call_result r) f)"
  using assms by (cases r) (auto simp: fails_with_def call_bind_def call_simps, blast+)

lemma decode_cursor_code: "decode_cursor cc x = Err e \<Longrightarrow> code e = ''invalid_request''"
  by (auto simp: decode_cursor_def split: option.splits)

lemma decode_cursor_opt_code: "decode_cursor_opt lib x = Err e \<Longrightarrow> code e = ''invalid_request''"
  by (cases x) (auto simp: decode_cursor_opt_def dest: decode_cursor_code elim!: rbind.elims)

lemma ok_or_Err_iff: "ok_or e x = Err e' \<longleftrightarrow> x = None \<and> e' = e"
  by (auto simp: ok_or_def split: option.splits)

lemma rbind_Err_iff: "rbind r f = Err e \<longleftrightarrow> r = Err e \<or> (\<exists>a. r = Ok a \<and> f a = Err e)"
  by (cases r) auto

lemma normalize_sort_key_code: "normalize_sort_key lib o' k = Err e \<Longrightarrow> code e = ''invalid_request''"
  by (cases o') (auto simp: normalize_sort_key_def rbind_Err_iff ok_or_Err_iff)

lemma split_path_code: "split_path p = Err e \<Longrightarrow> code e = ''invalid_request''"
proof -
  have "collect_segments ps = Err e \<Longrightarrow> code e = ''invalid_request''" for ps
    by (induction ps) (auto split: if_splits sum.splits)
  then show "split_path p = Err e \<Longrightarrow> code e = ''invalid_request''"
    by (auto simp: split_path_def split: if_splits)
qed

lemma acquire_loop_fails: "gateway_down c \<Longrightarrow> fails_with outage (pg_acquire_loop n c payload)"
proof (cases n)
  case 0
  then show ?thesis by (simp add: fails_with_def call_simps)
next
  case (Suc k)
  assume "gateway_down c"
  then show ?thesis unfolding Suc pg_acquire_loop.simps by (intro fails_bind fails_map rpc_call_fails)
qed

text \<open>
  C31: an outage is never mistaken for an answer. When no exchange with the gateway brings an
  answer - there is no connection, or no body, or no success status, or no JSON - then every
  operation of the adapter returns, none returns a value, and the error says internal error or
  rate limited; only the four reads that check a cursor or a path first may refuse that as an
  invalid request. In particular nothing is ever reported as absent, conflicting or done.
\<close>

theorem outage_is_no_answer:
  assumes "gateway_down c"
  shows "fails_with outage (ms_get_object (postgrest_store c) i)
    \<and> fails_with outage (ms_content_pointer (postgrest_store c) i)
    \<and> fails_with (outage \<union> {''invalid_request''}) (ms_list_children (postgrest_store c) q)
    \<and> fails_with (outage \<union> {''invalid_request''}) (ms_resolve_path (postgrest_store c) path)
    \<and> fails_with (outage \<union> {''invalid_request''}) (ms_query_objects (postgrest_store c) oq)
    \<and> fails_with outage (ms_create_object (postgrest_store c) co)
    \<and> fails_with outage (ms_patch_object (postgrest_store c) po)
    \<and> fails_with outage (ms_delete_object (postgrest_store c) dl)
    \<and> fails_with outage (ms_commit_content (postgrest_store c) cm)
    \<and> fails_with outage (ms_create_upload_record (postgrest_store c) cu)
    \<and> fails_with outage (ms_get_upload (postgrest_store c) u)
    \<and> fails_with outage (ms_update_upload_state (postgrest_store c) uu)
    \<and> fails_with outage (ms_abort_upload_record (postgrest_store c) au)
    \<and> fails_with outage (ms_acquire (postgrest_store c) ia)
    \<and> fails_with outage (ms_complete (postgrest_store c) ico)
    \<and> fails_with outage (ms_fail_or_release (postgrest_store c) ir)
    \<and> fails_with (outage \<union> {''invalid_request''}) (ms_read_changes (postgrest_store c) ulid rc)
    \<and> fails_with outage (ms_claim_gc_batch (postgrest_store c) now limit)
    \<and> fails_with outage (ms_finish_gc (postgrest_store c) ge)
    \<and> fails_with outage (ms_fail_gc (postgrest_store c) ge err retry_at)
    \<and> fails_with outage (ms_claim_expired_uploads (postgrest_store c) now limit)
    \<and> fails_with outage (ms_purge_idempotency_records (postgrest_store c) now)
    \<and> fails_with outage (ms_purge_change_cursors (postgrest_store c) now)
    \<and> fails_with outage (ms_purge_changes (postgrest_store c) older)
    \<and> fails_with outage (ms_count_pending_gc (postgrest_store c))"
proof -
  note down = rpc_call_fails [OF assms]
  have checked: "fails_with (outage \<union> {''invalid_request''}) (call_bind (call_result r) f)"
    if "\<And>e. r = Err e \<Longrightarrow> code e = ''invalid_request''" "\<And>a. fails_with outage (f a)"
    for r :: "'x result" and f :: "'x \<Rightarrow> ('a, 'y) call"
    using that by (intro fails_checked) auto
  have list: "fails_with (outage \<union> {''invalid_request''}) (pg_list_children c q)"
    unfolding pg_list_children_def
    by (rule checked)
      (auto simp: rbind_Err_iff split: option.splits prod.split
        dest: decode_cursor_opt_code normalize_sort_key_code intro: fails_map down)
  have path: "fails_with (outage \<union> {''invalid_request''}) (pg_resolve_path c path)"
    unfolding pg_resolve_path_def by (rule checked) (auto dest: split_path_code intro: fails_map down)
  have query: "fails_with (outage \<union> {''invalid_request''}) (pg_query_objects c oq)"
    unfolding pg_query_objects_def by (rule checked) (auto dest: decode_cursor_opt_code intro: fails_map down)
  have page: "fails_with outage (pg_read_page c ulid rc)"
    unfolding pg_read_page_def by (intro fails_map down)
  then have feed: "fails_with (outage \<union> {''invalid_request''}) (pg_read_changes c ulid rc)"
    unfolding pg_read_changes_def fails_with_def
    by (auto simp: call_simps split: option.split) blast+
  have mutate: "fails_with outage (pg_mutate c op payload)" for op payload
    unfolding pg_mutate_def by (intro fails_map down)
  have claim: "fails_with outage (pg_acquire c ia)"
    unfolding pg_acquire_def by (rule acquire_loop_fails [OF assms])
  show ?thesis
    unfolding postgrest_store_def meta_store.simps
    by (intro conjI list path query feed claim)
      (simp_all add: pg_get_object_def pg_content_pointer_def pg_create_object_def pg_patch_object_def
        pg_delete_object_def pg_commit_content_def pg_create_upload_record_def pg_get_upload_def
        pg_update_upload_state_def pg_abort_upload_record_def pg_complete_def pg_fail_or_release_def
        pg_claim_gc_batch_def pg_finish_gc_def pg_fail_gc_def pg_claim_expired_uploads_def
        pg_purge_idempotency_records_def pg_purge_change_cursors_def pg_purge_changes_def
        pg_count_pending_gc_def mutate fails_map fails_unit down assms)
qed

text \<open>A gateway that refuses every connection, and the client of it.\<close>

definition sample_rpc_lib :: "(string \<Rightarrow> nat \<Rightarrow> (string + nat \<times> (string + string)) \<times> nat) \<Rightarrow> nat rpc_lib" where
  "sample_rpc_lib gateway =
     \<lparr>rl_header_ok = (\<lambda>_. True), rl_build = (\<lambda>_. None), rl_to_vec = (\<lambda>_. Inr ''{}''),
      rl_from_slice = (\<lambda>b. if b = ''busy'' then Some (JObject
        [(''ok'', JBool True), (''data'', JObject [(''decision'', JString ''busy'')])]) else None),
      rl_timestamp = dec_int, rl_rfc3339 = dec_int, rl_parse_time = parse_i64,
      rl_base64_encode = hex_encode, rl_base64_decode = (\<lambda>s. Some (unhex s)),
      rl_codec = \<lparr>cc_serialize = (\<lambda>_. None), cc_deserialize = (\<lambda>_. None), cc_base64_encode = id, cc_base64_decode = Some\<rparr>,
      rl_send = (\<lambda>_ _. gateway)\<rparr>"

definition sample_config :: postgrest_config where
  "sample_config = postgrest_config_new ''https://db.example/'' ''k-secret''"

definition sample_rpc_client :: "(string \<Rightarrow> nat \<Rightarrow> (string + nat \<times> (string + string)) \<times> nat) \<Rightarrow> nat rpc_client" where
  "sample_rpc_client gateway =
     \<lparr>rcl_endpoint = ''https://db.example/v1/rdb/rest/rpc/anystore_rpc'', rcl_api_key = ''k-secret'',
      rcl_headers = [(''authorization'', ''Bearer k-secret''), (''content-type'', ''application/json''),
        (''accept'', ''application/json'')],
      rcl_lib = sample_rpc_lib gateway\<rparr>"

text \<open>A gateway that answers every request with the status 503.\<close>

definition sample_outage :: "string \<Rightarrow> nat \<Rightarrow> (string + nat \<times> (string + string)) \<times> nat" where
  "sample_outage body g = (Inr (503, Inr ''gone''), g + 1)"

theorem outage_is_no_answer_witness:
  "fails_with {''internal_error'', ''rate_limited''}
     (ms_get_object (postgrest_store (sample_rpc_client sample_outage)) ''obj_1'')"
proof -
  have "gateway_down (sample_rpc_client sample_outage)"
    by (simp add: gateway_down_def no_answer_def sample_rpc_client_def sample_rpc_lib_def sample_outage_def)
  from outage_is_no_answer [OF this, where i = "''obj_1''"]
  have "fails_with outage (ms_get_object (postgrest_store (sample_rpc_client sample_outage)) ''obj_1'')"
    by (rule conjunct1)
  then show ?thesis .
qed

section \<open>Claiming a key\<close>

definition claim_answer :: "'g rpc_client \<Rightarrow> json \<Rightarrow> 'g \<Rightarrow> idempotency_decision option result" where
  "claim_answer c payload g =
     rbind (fst (the (rpc_call c ''idempotency_acquire'' payload g))) (pg_decision (rcl_lib c))"

definition after_claim :: "'g rpc_client \<Rightarrow> json \<Rightarrow> 'g \<Rightarrow> 'g" where
  "after_claim c payload g = snd (the (rpc_call c ''idempotency_acquire'' payload g))"

lemma rpc_call_returns: "\<exists>r g'. rpc_call c op payload g = Some (r, g')"
  by (auto simp: rpc_call_def split: sum.split prod.split)

lemma claim_request:
  "call_map (pg_decision (rcl_lib c)) (rpc_call c ''idempotency_acquire'' payload) g =
     Some (claim_answer c payload g, after_claim c payload g)"
proof -
  obtain r g' where "rpc_call c ''idempotency_acquire'' payload g = Some (r, g')"
    using rpc_call_returns [of c "''idempotency_acquire''" payload g] by blast
  then show ?thesis
    by (cases r) (simp_all add: call_map_def call_bind_def claim_answer_def after_claim_def call_simps)
qed

lemma acquire_loop_runs:
  "\<exists>r k. pg_acquire_loop (Suc n) c payload g = Some (r, (after_claim c payload ^^ k) g) \<and> 0 < k \<and> k \<le> Suc n \<and>
     (\<forall>j. j + 1 < k \<longrightarrow> claim_answer c payload ((after_claim c payload ^^ j) g) = Ok None) \<and>
     (case claim_answer c payload ((after_claim c payload ^^ (k - 1)) g) of
        Inl e \<Rightarrow> r = Err e
      | Inr None \<Rightarrow> k = Suc n \<and> r = Err RateLimited
      | Inr (Some d) \<Rightarrow> r = Ok d)"
proof (induction n arbitrary: g)
  case 0
  let ?a = "claim_answer c payload g"
  consider e where "?a = Err e" | "?a = Ok None" | d where "?a = Ok (Some d)"
    by (metis option.exhaust sum.exhaust)
  then show ?case
    by cases (rule exI, rule exI [of _ 1], simp add: call_bind_def claim_request call_simps)+
next
  case (Suc n)
  let ?a = "claim_answer c payload g"
  consider e where "?a = Err e" | "?a = Ok None" | d where "?a = Ok (Some d)"
    by (metis option.exhaust sum.exhaust)
  then show ?case
  proof cases
    case 2
    from Suc [of "after_claim c payload g"] obtain r k where
      run: "pg_acquire_loop (Suc n) c payload (after_claim c payload g) =
          Some (r, (after_claim c payload ^^ k) (after_claim c payload g))" "0 < k" "k \<le> Suc n"
      and before: "\<And>j. j + 1 < k \<Longrightarrow> claim_answer c payload ((after_claim c payload ^^ j) (after_claim c payload g)) = Ok None"
      and last: "case claim_answer c payload ((after_claim c payload ^^ (k - 1)) (after_claim c payload g)) of
          Inl e \<Rightarrow> r = Err e | Inr None \<Rightarrow> k = Suc n \<and> r = Err RateLimited | Inr (Some d) \<Rightarrow> r = Ok d"
      by blast
    have shift: "(after_claim c payload ^^ j) (after_claim c payload g) = (after_claim c payload ^^ Suc j) g" for j
      by (simp add: funpow_swap1)
    have "pg_acquire_loop (Suc (Suc n)) c payload g = Some (r, (after_claim c payload ^^ Suc k) g)"
      using run(1) 2 by (subst pg_acquire_loop.simps) (simp add: call_bind_def claim_request shift del: pg_acquire_loop.simps)
    moreover have "claim_answer c payload ((after_claim c payload ^^ j) g) = Ok None" if "j + 1 < Suc k" for j
      using that 2 before [of "j - 1"] by (cases j) (simp_all add: shift del: funpow.simps(2))
    moreover have "case claim_answer c payload ((after_claim c payload ^^ (Suc k - 1)) g) of
        Inl e \<Rightarrow> r = Err e | Inr None \<Rightarrow> Suc k = Suc (Suc n) \<and> r = Err RateLimited | Inr (Some d) \<Rightarrow> r = Ok d"
      using last run(2) by (auto simp: shift simp del: funpow.simps(2) split: sum.splits option.splits)
    ultimately show ?thesis using run(2,3)
      by (intro exI [of _ r] exI [of _ "Suc k"] conjI allI impI) (simp_all del: funpow.simps)
  qed (rule exI, rule exI [of _ 1], simp add: call_bind_def claim_request call_simps)+
qed

text \<open>The payload a claim of a key is sent with.\<close>

definition claim_payload :: "'g rpc_client \<Rightarrow> idempotency_acquire \<Rightarrow> json" where
  "claim_payload c req =
     JObject
       [(''context'', idempotency_context_json (ia_context req)), (''now'', timestamp_json c (ia_now req)),
        (''lease_until'', timestamp_json c (ia_lease_until req)),
        (''expires_at'', timestamp_json c (ia_expires_at req))]"

text \<open>
  C32: claiming a key always returns, after at least one and at most ten requests, and asks again
  only while the answers say busy or retry: all answers but the last were of that kind, the result
  is the decision or the error of the last one, and rate limited is returned of a key that stays
  contended only after the tenth.
\<close>

theorem claim_asks_at_most_ten_times:
  "\<exists>r k. pg_acquire c req g = Some (r, (after_claim c (claim_payload c req) ^^ k) g) \<and> 0 < k \<and> k \<le> 10 \<and>
     {j. j + 1 < k} \<subseteq> {j. claim_answer c (claim_payload c req) ((after_claim c (claim_payload c req) ^^ j) g) = Ok None} \<and>
     (case claim_answer c (claim_payload c req) ((after_claim c (claim_payload c req) ^^ (k - 1)) g) of
        Inl e \<Rightarrow> r = Err e
      | Inr None \<Rightarrow> k = 10 \<and> r = Err RateLimited
      | Inr (Some d) \<Rightarrow> r = Ok d)"
proof -
  have "pg_acquire c req = pg_acquire_loop (Suc 9) c (claim_payload c req)"
    by (simp add: pg_acquire_def CONTENTION_POLLS_def claim_payload_def del: pg_acquire_loop.simps)
  moreover have ten: "Suc 9 = (10::nat)" by simp
  moreover obtain r k where
    "pg_acquire_loop (Suc 9) c (claim_payload c req) g = Some (r, (after_claim c (claim_payload c req) ^^ k) g)"
    "0 < k" "k \<le> 10"
    "\<And>j. j + 1 < k \<Longrightarrow> claim_answer c (claim_payload c req) ((after_claim c (claim_payload c req) ^^ j) g) = Ok None"
    "case claim_answer c (claim_payload c req) ((after_claim c (claim_payload c req) ^^ (k - 1)) g) of
        Inl e \<Rightarrow> r = Err e | Inr None \<Rightarrow> k = 10 \<and> r = Err RateLimited | Inr (Some d) \<Rightarrow> r = Ok d"
    using acquire_loop_runs [of 9 c "claim_payload c req" g] unfolding ten by blast
  ultimately show ?thesis
    by (intro exI [of _ r] exI [of _ k] conjI) (auto simp del: pg_acquire_loop.simps)
qed

section \<open>Recorded responses\<close>

text \<open>A base64 codec: decoding undoes encoding, and the encoding has no white space.\<close>

definition base64_codec :: "'g rpc_lib \<Rightarrow> bool" where
  "base64_codec lib \<longleftrightarrow>
     (\<forall>s. rl_base64_decode lib (rl_base64_encode lib s) = Some s) \<and>
     (\<forall>s. \<forall>c\<in>set (rl_base64_encode lib s). \<not> is_ascii_whitespace c)"

text \<open>The recorded response as the database sends it back, its base64 broken into lines.\<close>

definition replayed :: "'g rpc_lib \<Rightarrow> stored_response \<Rightarrow> string \<Rightarrow> json" where
  "replayed lib r raw =
     (case encode_response lib r of
        JObject m \<Rightarrow> JObject (map (\<lambda>(k, v). if k = ''body_b64'' then (k, JString raw) else (k, v)) m)
      | v \<Rightarrow> v)"

lemma rmap_decode_header:
  "rmap decode_header (map (\<lambda>(n, x). JArray [JString n, JString x]) hs) = Ok hs"
  by (induction hs) (auto simp: decode_header_def)

text \<open>
  C33: a recorded response comes back as it was. Whatever \<open>complete\<close> sends for a response, the
  answer \<open>replay\<close> with the same document - its base64 body broken into lines at will, as
  PostgreSQL does - is read as the decision to replay exactly that response: status, headers in
  their order, body byte for byte.
\<close>

theorem stored_responses_roundtrip:
  assumes "base64_codec lib" and "sr_status r \<le> 65535"
    and "filter (\<lambda>c. \<not> is_ascii_whitespace c) raw = rl_base64_encode lib (sr_body r)"
  shows "pg_decision lib (JObject [(''decision'', JString ''replay''), (''response'', replayed lib r raw)])
    = Ok (Some (Replay r))"
proof -
  have st: "unat (word_of_nat (sr_status r) :: 64 word) = sr_status r"
    using assms(2) by (simp add: unat_of_nat take_bit_nat_eq_self)
  have "base64_bytes lib raw = Ok (sr_body r)"
    using assms(1,3) by (simp add: base64_bytes_def base64_codec_def)
  with st assms(2) show ?thesis
    by (simp add: pg_decision_def text_field_def obind_def replayed_def encode_response_def
        decode_stored_response_def integer_field_def array_field_def rmap_decode_header)
qed

lemma hexdigit_not_space: "is_ascii_hexdigit c \<Longrightarrow> \<not> is_ascii_whitespace c"
  by (auto simp: is_ascii_hexdigit_def is_ascii_digit_def in_range_def is_ascii_whitespace_def)

theorem stored_responses_roundtrip_witness:
  "pg_decision (sample_rpc_lib sample_outage) (JObject [(''decision'', JString ''replay''),
     (''response'', replayed (sample_rpc_lib sample_outage)
        \<lparr>sr_status = 201, sr_headers = [(''etag'', ''1'')], sr_body = ''ok''\<rparr>
        (hex_encode ''o'' @ CHR 0x0A # hex_encode ''k''))])
   = Ok (Some (Replay \<lparr>sr_status = 201, sr_headers = [(''etag'', ''1'')], sr_body = ''ok''\<rparr>))"
proof (rule stored_responses_roundtrip)
  have "\<forall>c\<in>set (hex_encode s). \<not> is_ascii_whitespace c" for s
    using hex_encode_hexdigits [of s] hexdigit_not_space by (auto simp: list_all_iff)
  then show "base64_codec (sample_rpc_lib sample_outage)"
    by (simp add: base64_codec_def sample_rpc_lib_def unhex_hex_encode)
  show "filter (\<lambda>c. \<not> is_ascii_whitespace c) (hex_encode ''o'' @ CHR 0x0A # hex_encode ''k'') =
      rl_base64_encode (sample_rpc_lib sample_outage)
        (sr_body \<lparr>sr_status = 201, sr_headers = [(''etag'', ''1'')], sr_body = ''ok''\<rparr>)"
    by (simp add: sample_rpc_lib_def) code_simp
qed simp

section \<open>Errors\<close>

text \<open>The document of a failure, and the layers a gateway may put around it.\<close>

definition failure_document :: "string \<Rightarrow> string \<Rightarrow> 64 word option \<Rightarrow> json" where
  "failure_document c m r =
     JObject [(''ok'', JBool False),
       (''error'', JObject ([(''code'', JString c), (''message'', JString m)] @
         (case r of None \<Rightarrow> [] | Some n \<Rightarrow> [(''current_revision'', JNumber (PosInt n))])))]"

fun wrap_in :: "bool list \<Rightarrow> json \<Rightarrow> json" where
  "wrap_in [] v = v"
| "wrap_in (row # ws) v = (if row then JArray [wrap_in ws v] else JObject [(''data'', wrap_in ws v)])"

lemma locate_wrapped: "locate_envelope (wrap_in ws (failure_document c m r)) = Some (failure_document c m r)"
  by (induction ws) (auto simp: failure_document_def)

definition contract_codes :: "string list" where
  "contract_codes =
     [''invalid_request'', ''invalid_name'', ''invalid_metadata'', ''object_not_found'', ''upload_not_found'',
      ''name_conflict'', ''folder_not_empty'', ''invalid_move'', ''not_a_folder'', ''not_a_file'',
      ''content_not_ready'', ''idempotency_key_reused'', ''changes_cursor_expired'', ''revision_conflict'',
      ''checksum_mismatch'', ''rate_limited'', ''unauthorized'', ''internal_error'', ''storage_error'']"

lemma contract_codes_complete: "set contract_codes = range code"
proof
  have "code e \<in> set contract_codes" for e by (cases e) (simp_all add: contract_codes_def)
  then show "range code \<subseteq> set contract_codes" by blast
  have "code ` {InvalidRequest [], InvalidName [], InvalidMetadata [], ObjectNotFound, UploadNotFound,
      NameConflict, FolderNotEmpty, InvalidMove [], NotAFolder, NotAFile, ContentNotReady,
      IdempotencyKeyReused, ChangesCursorExpired, RevisionConflict 0, ChecksumMismatch [], RateLimited,
      Unauthorized, Internal [], StorageError []} = set contract_codes"
    by (simp add: contract_codes_def)
  then show "set contract_codes \<subseteq> range code" by blast
qed

lemma decode_failure:
  "decode_envelope (wrap_in ws (failure_document c m r)) =
     Err (rpc_error_into_domain \<lparr>re_code = c, re_message = m, re_current_revision = r\<rparr>)"
  using locate_wrapped [of ws c m r]
  by (auto simp: decode_envelope_def failure_document_def obind_def json_or_null_def decode_error_def
      split: option.split)

definition message_codes :: "string list" where
  "message_codes = [''invalid_request'', ''invalid_name'', ''invalid_metadata'', ''invalid_move'', ''checksum_mismatch'']"

text \<open>
  C34: errors keep the code of the contract. However many rows and \<open>data\<close> layers the gateway puts
  around the failure, it is read as an error with the code the database gave, when that is one of
  the codes of the contract, and as an internal error otherwise, a revision conflict without its
  revision included; the message of a validation error reaches the client, no other message does,
  and a revision conflict carries the revision that was sent.
\<close>

theorem rpc_errors_keep_contract:
  "\<exists>e. decode_envelope (wrap_in ws (failure_document c m r)) = Err e \<and>
     code e = (if c = ''revision_conflict'' \<and> r = None then ''internal_error''
               else if c \<in> range code then c else ''internal_error'') \<and>
     (if c \<in> set message_codes then public_message e = m
      else \<forall>m'. public_message (rpc_error_into_domain
        \<lparr>re_code = c, re_message = m', re_current_revision = r\<rparr>) = public_message e) \<and>
     (case e of RevisionConflict n \<Rightarrow> r = Some n | _ \<Rightarrow> True)"
proof -
  define e where "e = rpc_error_into_domain \<lparr>re_code = c, re_message = m, re_current_revision = r\<rparr>"
  have "code e = (if c = ''revision_conflict'' \<and> r = None then ''internal_error''
      else if c \<in> set contract_codes then c else ''internal_error'')"
    by (simp add: e_def rpc_error_into_domain_def contract_codes_def Let_def split: option.split)
  moreover have "if c \<in> set message_codes then public_message e = m
      else \<forall>m'. public_message (rpc_error_into_domain
        \<lparr>re_code = c, re_message = m', re_current_revision = r\<rparr>) = public_message e"
    by (simp add: e_def rpc_error_into_domain_def message_codes_def public_message_def Let_def split: option.split)
  moreover have "case e of RevisionConflict n \<Rightarrow> r = Some n | _ \<Rightarrow> True"
    by (simp add: e_def rpc_error_into_domain_def Let_def split: option.split)
  ultimately show ?thesis unfolding contract_codes_complete by (metis decode_failure e_def)
qed

end
