(* ===== verification/MemTyping.thy ===== *)
theory MemTyping
  imports MemGc MemReads
begin

text \<open>
  The shape of what the in-memory metastore holds: the optional fields of an object are there
  exactly when its kind and the state of its content say so, and the fields of an upload session
  when its state does.
\<close>

definition typed_object :: "object_id \<Rightarrow> stored_object \<Rightarrow> bool" where
  "typed_object i so \<longleftrightarrow>
     (let ob = so_object so;
          no_content = (o_size ob = None \<and> o_sha256 ob = None \<and> so_blob_backend so = None \<and> so_blob_ref so = None) in
      o_id ob = i \<and>
      (case o_kind ob of
         Folder \<Rightarrow> o_content_state ob = None \<and> no_content
       | File \<Rightarrow>
           (case o_content_state ob of
              None \<Rightarrow> False
            | Some CsNone \<Rightarrow> no_content
            | Some CsReady \<Rightarrow> o_size ob \<noteq> None \<and> o_content_type ob \<noteq> None \<and>
                so_blob_backend so \<noteq> None \<and> so_blob_ref so \<noteq> None)))"

definition typed_upload :: "upload_id \<Rightarrow> upload_record \<Rightarrow> bool" where
  "typed_upload i u \<longleftrightarrow>
     u_id u = i \<and> (u_state u = UsCompleted) = (u_completed_at u \<noteq> None) \<and>
     (if u_state u = UsAborted then u_aborted_at u \<noteq> None else True)"

definition typed_state :: "mem_state \<Rightarrow> bool" where
  "typed_state s \<longleftrightarrow>
     (\<forall>i so. table_get (objects s) i = Some so \<longrightarrow> typed_object i so) \<and>
     (\<forall>i u. table_get (uploads s) i = Some u \<longrightarrow> typed_upload i u)"

text \<open>A step keeps the types if every entry it leaves is old, or typed.\<close>

lemma typed_stateI:
  assumes "typed_state s"
    and "\<And>i so. table_get (objects s') i = Some so \<Longrightarrow> table_get (objects s) i = Some so \<or> typed_object i so"
    and "\<And>i u. table_get (uploads s') i = Some u \<Longrightarrow> table_get (uploads s) i = Some u \<or> typed_upload i u"
  shows "typed_state s'"
  using assms unfolding typed_state_def by metis

lemma typed_frame: "typed_state s \<Longrightarrow> objects s' = objects s \<Longrightarrow> uploads s' = uploads s \<Longrightarrow> typed_state s'"
  by (simp add: typed_state_def)

lemma typed_live: "typed_state s \<Longrightarrow> live_object s i = Some so \<Longrightarrow> typed_object i so"
  by (auto simp: typed_state_def live_object_iff)

lemma typed_created: "typed_object (co_id cmd) (created_object cmd)"
  by (simp add: typed_object_def created_object_def split: object_kind.split)

lemma typed_patched: "typed_object i so \<Longrightarrow> typed_object i (patch_fields t r now so)"
  by (simp add: typed_object_def patch_fields_def Let_def split: object_kind.splits option.splits content_state.splits)

lemma typed_tombstone: "typed_object i so \<Longrightarrow> typed_object i (tombstone now so)"
  by (simp add: typed_object_def tombstone_def Let_def split: object_kind.splits option.splits content_state.splits)

lemma typed_content: "typed_object i so \<Longrightarrow> is_file (so_object so) \<Longrightarrow> typed_object i (content_fields cmd r so)"
  by (simp add: typed_object_def content_fields_def is_file_def Let_def split: object_kind.splits option.splits content_state.splits)

lemma create_typed: "typed_state s \<Longrightarrow> typed_state (snd (create_object c s))"
  by (rule typed_stateI)
    (auto simp: create_object_def frame_simps table_simps Let_def split_def typed_created split: option.splits if_splits)

lemma patch_typed:
  assumes "typed_state s"
  shows "typed_state (snd (patch_object p s))"
proof -
  have old: "typed_object i so" if "table_get (objects s) i = Some so" for i so
    using assms that by (simp add: typed_state_def)
  have "typed_state (snd (write_patch p ob t s))" for ob t
    by (rule typed_stateI [OF assms])
      (auto simp: write_patch_def frame_simps table_simps Let_def split_def typed_patched old split: if_splits)
  with assms show ?thesis
    by (auto simp: patch_object_def Let_def intro: typed_frame split: option.split sum.split)
      (simp_all add: typed_state_def frame_simps)
qed

lemma delete_typed:
  assumes "typed_state s" and "delete_object d s = Some (r, s')"
  shows "typed_state s'"
proof -
  have old: "typed_object i so" if "table_get (objects s) i = Some so" for i so
    using assms that by (simp add: typed_state_def)
  have "typed_state (snd (write_delete d targets s))" for targets
    by (rule typed_stateI [OF assms(1)])
      (auto simp: write_delete_def frame_simps Let_def split_def tombstone_all_get typed_tombstone old
        split: if_splits)
  with assms show ?thesis
    by (auto simp: delete_object_def Let_def split: option.splits sum.splits if_splits) (metis snd_conv)
qed

lemma commit_typed:
  assumes "typed_state s"
  shows "typed_state (snd (commit_content m s))"
proof -
  have old: "typed_object i so" if "table_get (objects s) i = Some so" for i so
    using assms that by (simp add: typed_state_def)
  have oldu: "typed_upload i u" if "table_get (uploads s) i = Some u" for i u
    using assms that by (simp add: typed_state_def)
  have "typed_upload i (complete_upload_row now u)" if "typed_upload i u" for i u now
    using that by (simp add: typed_upload_def complete_upload_row_def)
  then have "typed_state (snd (write_content m so s))"
    if "live_object s (cm_object_id m) = Some so" "is_file (so_object so)" for so
    using that
    by (intro typed_stateI [OF assms])
      (auto simp: write_content_def frame_simps table_simps Let_def split_def typed_content old oldu
        live_object_iff split: if_splits)
  with assms show ?thesis
    by (auto simp: commit_content_def frame_simps intro: typed_frame split: option.split sum.split)
qed

lemma uploads_typed:
  assumes "typed_state s"
  shows "typed_state (snd (create_upload_record cu s))" "typed_state (snd (update_upload_state uu s))"
    "typed_state (snd (abort_upload_record au s))"
proof -
  have old: "typed_upload i u" if "table_get (uploads s) i = Some u" for i u
    using assms that by (simp add: typed_state_def)
  have new: "typed_upload (cu_id cu) (new_upload cu)"
    by (simp add: typed_upload_def new_upload_def)
  have moved: "typed_upload i (update_upload_row uu u)"
    if "typed_upload i u" "transition_allowed (u_state u) (uu_state uu)" for i u
    using that by (cases "uu_state uu")
      (auto simp: typed_upload_def update_upload_row_def transition_allowed_def Let_def split: option.splits)
  have aborted: "typed_upload i (u\<lparr>u_state := UsAborted, u_aborted_at := Some now\<rparr>)"
    if "typed_upload i u" "u_state u \<noteq> UsCompleted" for i u now
    using that by (simp add: typed_upload_def)
  show "typed_state (snd (create_upload_record cu s))" "typed_state (snd (update_upload_state uu s))"
    "typed_state (snd (abort_upload_record au s))"
    by (rule typed_stateI [OF assms],
      auto simp: create_upload_record_def update_upload_state_def abort_upload_record_def frame_simps table_simps
        new moved aborted old split: option.splits if_splits)+
qed

lemma expired_typed:
  assumes "typed_state s" and "table_ok (uploads s)"
  shows "typed_state (snd (claim_expired_uploads now limit s))"
proof (rule typed_stateI [OF assms(1)])
  let ?t = "snd (expire_rows now (unat limit) (uploads s))"
  fix i v assume "table_get (uploads (snd (claim_expired_uploads now limit s))) i = Some v"
  then have v: "table_get ?t i = Some v" by (simp add: frame_simps)
  consider "table_get ?t i = table_get (uploads s) i"
    | u where "table_get (uploads s) i = Some u" "upload_overdue now u"
      "table_get ?t i = Some (u\<lparr>u_state := UsExpired\<rparr>)"
    using expire_rows_get [OF assms(2), of now "unat limit"] by blast
  then show "table_get (uploads s) i = Some v \<or> typed_upload i v"
  proof cases
    case 1
    with v show ?thesis by (simp only: simp_thms)
  next
    case 2
    have "typed_upload i u" using assms(1) 2(1) by (simp add: typed_state_def)
    moreover have "v = u\<lparr>u_state := UsExpired\<rparr>" using 2(3) v by simp
    ultimately show ?thesis using 2(2) by (auto simp: typed_upload_def upload_overdue_def)
  qed
qed (simp add: frame_simps)

lemma typed_step:
  assumes "mem_step s s'" and "typed_state s" and "table_ok (uploads s)"
  shows "typed_state s'"
  using assms(1)
proof cases
  case (delete d r)
  then show ?thesis using delete_typed [OF assms(2)] by blast
next
  case (read_feed u rc rr)
  then have "objects s' = objects s" "uploads s' = uploads s" using read_changes_frame by blast+
  then show ?thesis by (rule typed_frame [OF assms(2)])
next
  case (claim_expired now limit)
  then show ?thesis using expired_typed [OF assms(2,3)] by simp
qed (simp_all add: create_typed patch_typed commit_typed uploads_typed assms(2),
    (rule typed_frame [OF assms(2)]; simp add: frame_simps)+)

lemma reachable_typed: "mem_reachable s \<Longrightarrow> typed_state s"
proof (induction rule: mem_reachable.induct)
  case (start now)
  show ?case
    by (auto simp: typed_state_def mem_new_def typed_object_def root_object_def ROOT_ID_def table_simps
        split: if_splits)
next
  case (step s s')
  then have "table_ok (uploads s)" using reachable_owned [OF step(1)] by (simp add: owned_state_def)
  with step show ?case using typed_step by blast
qed

text \<open>
  C13: what the store hands out is well typed. In every reachable state an object that is found has
  the id it was asked for; a folder has no content; a file says in which state its content is, a
  file without content has no size, no digest and no blob to point to, and a file with ready
  content has a size, a content type and a blob; and an upload session that is found has its id,
  and a time of completion exactly if it is completed.
\<close>

theorem reachable_store_typed:
  assumes "mem_reachable s"
  shows "(case get_object i s of
       None \<Rightarrow> True
     | Some v \<Rightarrow>
         o_id (ov_object v) = i \<and>
         (case (o_kind (ov_object v), o_content_state (ov_object v)) of
            (Folder, None) \<Rightarrow> o_size (ov_object v) = None \<and> o_sha256 (ov_object v) = None \<and> content_pointer_of i s = None
          | (File, Some CsNone) \<Rightarrow> o_size (ov_object v) = None \<and> o_sha256 (ov_object v) = None \<and> content_pointer_of i s = None
          | (File, Some CsReady) \<Rightarrow> o_size (ov_object v) \<noteq> None \<and> o_content_type (ov_object v) \<noteq> None \<and>
              content_pointer_of i s \<noteq> None
          | _ \<Rightarrow> False)) \<and>
    (case get_upload i s of
       Ok (Some u) \<Rightarrow> u_id u = i \<and> (u_state u = UsCompleted) = (u_completed_at u \<noteq> None)
     | Ok None \<Rightarrow> True
     | Err _ \<Rightarrow> False)"
proof
  note typed = reachable_typed [OF assms]
  show "case get_object i s of
       None \<Rightarrow> True
     | Some v \<Rightarrow>
         o_id (ov_object v) = i \<and>
         (case (o_kind (ov_object v), o_content_state (ov_object v)) of
            (Folder, None) \<Rightarrow> o_size (ov_object v) = None \<and> o_sha256 (ov_object v) = None \<and> content_pointer_of i s = None
          | (File, Some CsNone) \<Rightarrow> o_size (ov_object v) = None \<and> o_sha256 (ov_object v) = None \<and> content_pointer_of i s = None
          | (File, Some CsReady) \<Rightarrow> o_size (ov_object v) \<noteq> None \<and> o_content_type (ov_object v) \<noteq> None \<and>
              content_pointer_of i s \<noteq> None
          | _ \<Rightarrow> False)"
  proof (cases "get_object i s")
    case (Some v)
    then obtain so where so: "live_object s i = Some so" "ov_object v = so_object so"
      by (auto simp: get_object_def view_of_def rbind_Ok_iff split: sum.splits)
    with typed_live [OF typed] have "typed_object i so" by blast
    with Some so show ?thesis
      by (auto simp: typed_object_def content_pointer_of_def has_ready_content_def Let_def
          split: object_kind.splits option.splits content_state.splits)
  qed simp
  show "case get_upload i s of
       Ok (Some u) \<Rightarrow> u_id u = i \<and> (u_state u = UsCompleted) = (u_completed_at u \<noteq> None)
     | Ok None \<Rightarrow> True
     | Err _ \<Rightarrow> False"
    using typed by (auto simp: get_upload_def typed_state_def typed_upload_def split: option.split)
qed

theorem reachable_store_typed_witness:
  "mem_reachable sample_second \<and>
   (\<exists>v. get_object ''f'' sample_second = Some v \<and> o_kind (ov_object v) = File \<and>
      o_content_state (ov_object v) = Some CsReady \<and> o_size (ov_object v) \<noteq> None \<and>
      content_pointer_of ''f'' sample_second \<noteq> None)"
proof -
  have "map_option (\<lambda>v. (o_kind (ov_object v), o_content_state (ov_object v))) (get_object ''f'' sample_second) =
      Some (File, Some CsReady)" by code_simp
  then obtain v where v: "get_object ''f'' sample_second = Some v" "o_kind (ov_object v) = File"
    "o_content_state (ov_object v) = Some CsReady" by auto
  with reachable_store_typed [OF sample_second_reachable, of "''f''"] show ?thesis
    using sample_second_reachable by simp
qed

end
