(* ===== verification/MaintenanceLive.thy ===== *)
theory MaintenanceLive
  imports AppMaintenance AppSamples
begin

text \<open>
  Maintenance over the in-memory metastore ends and does its work, whatever the blob backends
  answer: every batch moves as many due entries out of the way as it claims, so the number of due
  entries bounds the number of batches.
\<close>

section \<open>The backlog\<close>

definition row_due :: "time \<Rightarrow> (string \<times> string) list \<Rightarrow> gc_row \<Rightarrow> bool" where
  "row_due now live row \<longleftrightarrow> gr_not_before row \<le> now \<and> (gr_blob_backend row, gr_blob_ref row) \<notin> set live"

definition due_blobs :: "time \<Rightarrow> mem_state \<Rightarrow> nat" where
  "due_blobs now s = length (filter (row_due now (live_blobs s)) (gc s))"

definition overdue_uploads :: "time \<Rightarrow> mem_state \<Rightarrow> nat" where
  "overdue_uploads now s = length (filter (\<lambda>(i, u). upload_overdue now u) (uploads s))"

lemma gc_lease_pos: "0 < gc_lease" by (simp add: gc_lease_def)

lemma live_blobs_cong: "objects s' = objects s \<Longrightarrow> live_blobs s' = live_blobs s"
  by (simp add: live_blobs_def)

lemma length_filter_le_also: "(\<And>x. x \<in> set xs \<Longrightarrow> P x \<Longrightarrow> Q x) \<Longrightarrow> length (filter P xs) \<le> length (filter Q xs)"
  by (induction xs) (auto simp: le_Suc_eq)

text \<open>A batch is as large as the limit and the backlog allow, and is then no longer due.\<close>

lemma claim_rows_due:
  "length (fst (claim_rows live now n rows)) = min n (length (filter (row_due now live) rows)) \<and>
   length (filter (row_due now live) (snd (claim_rows live now n rows))) +
     length (fst (claim_rows live now n rows)) = length (filter (row_due now live) rows)"
proof (induction live now n rows rule: claim_rows.induct)
  case (2 live now n row rows)
  have later: "\<not> row_due now live (row\<lparr>gr_not_before := now + gc_lease\<rparr>)"
    using gc_lease_pos by (simp add: row_due_def)
  show ?case
  proof (cases "n = 0")
    case False
    then obtain k where n: "n = Suc k" by (cases n) simp_all
    show ?thesis
    proof (cases "row_due now live row")
      case True
      then have "gr_not_before row \<le> now \<and> (gr_blob_backend row, gr_blob_ref row) \<notin> set live" by (simp add: row_due_def)
      from 2(1) [OF False this] show ?thesis
        using True later by (simp add: n split_def) (simp add: row_due_def)
    next
      case other: False
      then have skip: "\<not> (gr_not_before row \<le> now \<and> (gr_blob_backend row, gr_blob_ref row) \<notin> set live)"
        by (simp add: row_due_def)
      then have "claim_rows live now n (row # rows) =
          (fst (claim_rows live now n rows), row # snd (claim_rows live now n rows))"
        using False by (auto simp: split_def)
      with 2(2) [OF False skip] other show ?thesis by simp
    qed
  qed simp
qed simp

lemma claim_batch_due:
  assumes "claim_gc_batch now limit s = (r, s')"
  shows "\<exists>batch. r = Ok batch \<and> length batch = min (unat limit) (due_blobs now s) \<and>
    due_blobs now s' + length batch = due_blobs now s \<and> objects s' = objects s \<and> uploads s' = uploads s"
proof -
  have live: "live_blobs (s\<lparr>gc := rows\<rparr>) = live_blobs s" for rows by (simp add: live_blobs_def)
  show ?thesis
    using assms claim_rows_due [of "live_blobs s" now "unat limit" "gc s"]
    by (auto simp: claim_gc_batch_def due_blobs_def live split: prod.splits)
qed

lemma fail_first_due:
  "now < retry_at \<Longrightarrow>
     length (filter (row_due now live) (fail_first e retry_at rows)) \<le> length (filter (row_due now live) rows)"
  by (induction e retry_at rows rule: fail_first.induct) (auto simp: row_due_def)

lemma finish_due: "due_blobs now (snd (finish_gc e s)) \<le> due_blobs now s"
proof -
  have "live_blobs (s\<lparr>gc := rows\<rparr>) = live_blobs s" for rows by (simp add: live_blobs_def)
  then show ?thesis
    by (simp add: finish_gc_def due_blobs_def) (rule length_filter_le_also, simp)
qed

lemma fail_due: "now < retry_at \<Longrightarrow> due_blobs now (snd (fail_gc e err retry_at s)) \<le> due_blobs now s"
proof -
  have "live_blobs (s\<lparr>gc := rows\<rparr>) = live_blobs s" for rows by (simp add: live_blobs_def)
  then show "now < retry_at \<Longrightarrow> ?thesis" by (simp add: fail_gc_def due_blobs_def fail_first_due)
qed

lemma expire_rows_overdue:
  "length (fst (expire_rows now n t)) = min n (length (filter (\<lambda>(i, u). upload_overdue now u) t)) \<and>
   length (filter (\<lambda>(i, u). upload_overdue now u) (snd (expire_rows now n t))) +
     length (fst (expire_rows now n t)) = length (filter (\<lambda>(i, u). upload_overdue now u) t)"
proof (induction now n t rule: expire_rows.induct)
  case (2 now n i u t)
  have "\<not> upload_overdue now (u\<lparr>u_state := UsExpired\<rparr>)" by (simp add: upload_overdue_def)
  with 2 show ?case by (cases n; cases "upload_overdue now u") (simp_all add: split_def)
qed simp

lemma enqueue_due: "due_blobs now (enqueue_gc b r t s) \<le> due_blobs now s + 1"
proof -
  have "live_blobs (s\<lparr>gc := rows\<rparr>) = live_blobs s" for rows by (simp add: live_blobs_def)
  then show ?thesis by (simp add: enqueue_gc_def due_blobs_def)
qed

lemma enqueue_all_due:
  "due_blobs now (fold (\<lambda>u. enqueue_gc (u_blob_backend u) (u_blob_ref u) t) us s) \<le> due_blobs now s + length us \<and>
   uploads (fold (\<lambda>u. enqueue_gc (u_blob_backend u) (u_blob_ref u) t) us s) = uploads s"
proof (induction us arbitrary: s)
  case (Cons u us)
  let ?s = "enqueue_gc (u_blob_backend u) (u_blob_ref u) t s"
  have "due_blobs now ?s \<le> due_blobs now s + 1" by (rule enqueue_due)
  with Cons [of ?s] show ?case by (simp add: frame_simps)
qed simp

lemma claim_expired_overdue:
  assumes "claim_expired_uploads now limit s = (r, s')"
  shows "\<exists>us. r = Ok us \<and> length us = min (unat limit) (overdue_uploads now s) \<and>
    overdue_uploads now s' + length us = overdue_uploads now s \<and> due_blobs now s' \<le> due_blobs now s + length us"
proof -
  have "due_blobs now (s\<lparr>uploads := t\<rparr>) = due_blobs now s" for t
    by (simp add: due_blobs_def live_blobs_def)
  then show ?thesis
    using assms expire_rows_overdue [of now "unat limit" "uploads s"]
      enqueue_all_due [of now now "fst (expire_rows now (unat limit) (uploads s))"
        "s\<lparr>uploads := snd (expire_rows now (unat limit) (uploads s))\<rparr>"]
    by (auto simp: claim_expired_uploads_def overdue_uploads_def split: prod.splits)
qed

section \<open>One batch\<close>

text \<open>The backends may fail as they like, but they return.\<close>

definition backends_return :: "'b blob_registry \<Rightarrow> bool" where
  "backends_return reg \<longleftrightarrow>
     (\<forall>i store. registry_get reg i = Ok store \<longrightarrow>
        (\<forall>blob b. bs_delete_blob store blob b \<noteq> None) \<and> (\<forall>req b. bs_abort_upload store req b \<noteq> None))"

text \<open>Over the in-memory metastore, with backends that return.\<close>

definition maintained :: "(mem_state, 'b) app_env \<Rightarrow> bool" where
  "maintained env \<longleftrightarrow> (\<exists>cc rfc3339. ae_meta env = mem_store cc rfc3339) \<and> backends_return (ae_blobs env)"

text \<open>What a collection step leaves: no more due entries, and the sessions as they are.\<close>

definition collects :: "time \<Rightarrow> (mem_state, 'b) world \<Rightarrow> (mem_state, 'b) world \<Rightarrow> bool" where
  "collects now w w' \<longleftrightarrow>
     due_blobs now (w_meta w') \<le> due_blobs now (w_meta w) \<and> uploads (w_meta w') = uploads (w_meta w)"

lemma collects_refl: "collects now w w" by (simp add: collects_def)

lemma collects_trans: "collects now w w' \<Longrightarrow> collects now w' w'' \<Longrightarrow> collects now w w''"
  by (simp add: collects_def)

lemma maintained_meta:
  assumes "maintained env"
  shows "ms_claim_gc_batch (ae_meta env) now limit = call_of (claim_gc_batch now limit)"
    "ms_finish_gc (ae_meta env) e = call_of (finish_gc e)"
    "ms_fail_gc (ae_meta env) e err t = call_of (fail_gc e err t)"
    "ms_claim_expired_uploads (ae_meta env) now limit = call_of (claim_expired_uploads now limit)"
    "ms_purge_idempotency_records (ae_meta env) now = call_of (purge_idempotency_records now)"
    "ms_purge_change_cursors (ae_meta env) now = call_of (purge_change_cursors now)"
    "ms_purge_changes (ae_meta env) t = call_of (purge_changes t)"
    "ms_count_pending_gc (ae_meta env) = call_read count_pending_gc"
  using assms by (auto simp: maintained_def mem_store_def)

lemma gc_backoff_pos: "0 < gc_backoff n"
  by (simp add: gc_backoff_def seconds_def)

lemma collect_blob_returns:
  assumes "maintained env"
  shows "\<exists>gone w'. collect_blob env now entry w = Some (Ok gone, w') \<and> collects now w w'"
proof (cases "registry_get (ae_blobs env) (ge_blob_backend entry)")
  case (Inl e)
  then show ?thesis
    by (intro exI [of _ False] exI [of _ w]) (simp add: collect_blob_def call_simps collects_refl)
next
  case (Inr store)
  with assms obtain r b where delete: "bs_delete_blob store (ge_blob_ref entry) (w_blobs w) = Some (r, b)"
    unfolding maintained_def backends_return_def by fast
  let ?w = "w\<lparr>w_blobs := b\<rparr>"
  note found = Inr
  have attempt: "call_try (on_blobs (bs_delete_blob store (ge_blob_ref entry))) w = Some (Ok r, ?w)"
    using delete by (simp add: call_simps)
  show ?thesis
  proof (cases r)
    case (Inl e)
    let ?m = "snd (fail_gc entry (display e) (now + gc_backoff (ge_attempts entry)) (w_meta w))"
    have "due_blobs now ?m \<le> due_blobs now (w_meta w)" by (rule fail_due) (simp add: gc_backoff_pos)
    moreover have "uploads ?m = uploads (w_meta w)" by (simp add: fail_gc_def)
    ultimately show ?thesis
      using found attempt Inl
      by (intro exI [of _ False] exI [of _ "w\<lparr>w_blobs := b, w_meta := ?m\<rparr>"])
        (simp add: collect_blob_def call_bind_step(1) call_then_def maintained_meta [OF assms] on_meta_def
          call_of_def call_bind_def call_ok_def collects_def fail_gc_def)
  next
    case (Inr u)
    have "due_blobs now (snd (finish_gc entry (w_meta w))) \<le> due_blobs now (w_meta w)" by (rule finish_due)
    moreover have "uploads (snd (finish_gc entry (w_meta w))) = uploads (w_meta w)" by (simp add: finish_gc_def)
    ultimately show ?thesis
      using found attempt Inr
      by (intro exI [of _ True] exI [of _ "w\<lparr>w_blobs := b, w_meta := snd (finish_gc entry (w_meta w))\<rparr>"])
        (simp add: collect_blob_def call_bind_step(1) call_then_def maintained_meta [OF assms] on_meta_def
          call_of_def call_bind_def call_ok_def collects_def finish_gc_def)
  qed
qed

lemma collect_batch_returns:
  assumes "maintained env"
  shows "\<exists>d f w'. collect_batch env now batch (d0, f0) w = Some (Ok (d, f), w') \<and> collects now w w' \<and>
    d + f = d0 + f0 + of_nat (length batch)"
proof (induction batch arbitrary: d0 f0 w)
  case (Cons entry rest)
  from collect_blob_returns [OF assms] obtain gone w1 where
    one: "collect_blob env now entry w = Some (Ok gone, w1)" "collects now w w1" by blast
  let ?c = "if gone then (d0 + 1, f0) else (d0, f0 + 1)"
  from Cons [of "fst ?c" "snd ?c" w1] obtain d f w' where
    rest: "collect_batch env now rest ?c w1 = Some (Ok (d, f), w')" "collects now w1 w'"
    "d + f = fst ?c + snd ?c + of_nat (length rest)" by auto
  have "d + f = d0 + f0 + of_nat (length (entry # rest))"
    using rest(3) by (simp add: algebra_simps split: if_splits)
  moreover have "collect_batch env now (entry # rest) (d0, f0) w = Some (Ok (d, f), w')"
    using one(1) rest(1) by (simp add: call_bind_step(1))
  ultimately show ?case using collects_trans [OF one(2) rest(2)] by blast
qed (simp add: call_simps collects_refl)

text \<open>A batch of collection: as many entries as it claims, which are then not due.\<close>

lemma collect_blobs_returns:
  assumes "maintained env"
  shows "\<exists>d f w'. collect_blobs env batch_size now w = Some (Ok (d, f), w') \<and>
    unat (d + f) = min (unat batch_size) (due_blobs now (w_meta w)) \<and>
    due_blobs now (w_meta w') + unat (d + f) \<le> due_blobs now (w_meta w) \<and> uploads (w_meta w') = uploads (w_meta w)"
proof -
  obtain r s where claim: "claim_gc_batch now batch_size (w_meta w) = (r, s)" by fastforce
  from claim_batch_due [OF this] obtain batch where
    b: "r = Ok batch" "length batch = min (unat batch_size) (due_blobs now (w_meta w))"
    "due_blobs now s + length batch = due_blobs now (w_meta w)" "uploads s = uploads (w_meta w)" by blast
  from collect_batch_returns [OF assms, of now batch 0 0 "w\<lparr>w_meta := s\<rparr>"] obtain d f w' where
    c: "collect_batch env now batch (0, 0) (w\<lparr>w_meta := s\<rparr>) = Some (Ok (d, f), w')"
    "collects now (w\<lparr>w_meta := s\<rparr>) w'" "d + f = of_nat (length batch)" by auto
  have "unat batch_size < 2 ^ 32" using unsigned_less [of batch_size] by simp
  with b(2) have "length batch < 2 ^ 32" by simp
  then have "unat (d + f) = length batch" using c(3) by (simp add: unat_of_nat take_bit_nat_eq_self)
  moreover have "collect_blobs env batch_size now w = Some (Ok (d, f), w')"
    using claim b(1) c(1) by (simp add: collect_blobs_def call_bind_def on_meta_def maintained_meta [OF assms] call_of_def)
  ultimately show ?thesis using b(2-4) c(2) by (auto simp: collects_def)
qed

section \<open>The loops\<close>

text \<open>
  Collecting ends after at most as many further batches as there are due entries; nothing due is
  left unless time ran out, which the report says.
\<close>

lemma collect_loop_ends:
  assumes "maintained env" and "0 < batch_size" and "due_blobs now (w_meta w) < fuel"
  shows "\<exists>report' w'. collect_loop env batch_size now late fuel k report w = Some (Ok report', w') \<and>
    uploads (w_meta w') = uploads (w_meta w) \<and>
    (mr_drained report' \<and> mr_drained report \<and> due_blobs now (w_meta w') = 0 \<or> \<not> mr_drained report' \<and>
      (\<not> mr_drained report \<or> (\<exists>j. late j)))"
  using assms(3)
proof (induction fuel arbitrary: w k report)
  case (Suc fuel)
  from collect_blobs_returns [OF assms(1), of batch_size now w] obtain d f w1 where
    run: "collect_blobs env batch_size now w = Some (Ok (d, f), w1)"
    and n: "unat (d + f) = min (unat batch_size) (due_blobs now (w_meta w))"
    and due: "due_blobs now (w_meta w1) + unat (d + f) \<le> due_blobs now (w_meta w)"
    and up: "uploads (w_meta w1) = uploads (w_meta w)" by blast
  let ?r = "report\<lparr>mr_blobs_deleted := mr_blobs_deleted report + d, mr_blobs_failed := mr_blobs_failed report + f\<rparr>"
  have step: "collect_loop env batch_size now late (Suc fuel) k report w =
      (if d + f < batch_size then Some (Ok ?r, w1)
       else if late k then Some (Ok (?r\<lparr>mr_drained := False\<rparr>), w1)
       else collect_loop env batch_size now late fuel (k + 1) ?r w1)"
    using run by (simp add: call_bind_step(1) call_ok_def Let_def)
  consider "d + f < batch_size" | "\<not> d + f < batch_size" "late k" | "\<not> d + f < batch_size" "\<not> late k" by blast
  then show ?case
  proof cases
    case 1
    then have "due_blobs now (w_meta w1) = 0" using n due by (simp add: word_less_nat_alt min_def split: if_splits)
    with step 1 up show ?thesis by (cases "mr_drained report") auto
  next
    case 2
    with step up show ?thesis by auto
  next
    case 3
    then have "unat (d + f) = unat batch_size" using n by (simp add: word_less_nat_alt min_def split: if_splits)
    moreover have "0 < unat batch_size" using assms(2) by (simp add: word_less_nat_alt)
    ultimately have "due_blobs now (w_meta w1) < fuel" using due Suc.prems by linarith
    from Suc.IH [OF this, of "k + 1" ?r] step 3 up show ?thesis by simp
  qed
qed simp

lemma abort_expired_returns:
  assumes "maintained env"
  shows "\<exists>w'. abort_expired env u w = Some (Ok (), w') \<and> w_meta w' = w_meta w"
proof (cases "registry_get (ae_blobs env) (u_blob_backend u)")
  case (Inl e)
  then show ?thesis by (simp add: abort_expired_def call_simps)
next
  case (Inr store)
  let ?req = "\<lparr>ab_blob_ref = u_blob_ref u, ab_mode = u_mode u, ab_provider_upload_id = u_provider_upload_id u\<rparr>"
  from Inr assms obtain r b where "bs_abort_upload store ?req (w_blobs w) = Some (r, b)"
    unfolding maintained_def backends_return_def by fast
  then have "on_blobs (bs_abort_upload store ?req) w = Some (r, w\<lparr>w_blobs := b\<rparr>)" by (rule on_blobs_step)
  with Inr show ?thesis by (simp add: abort_expired_def call_ignore_def)
qed

lemma abort_each_returns:
  assumes "maintained env"
  shows "\<exists>w'. call_each (abort_expired env) us w = Some (Ok (), w') \<and> w_meta w' = w_meta w"
proof (induction us arbitrary: w)
  case (Cons u us)
  from abort_expired_returns [OF assms] obtain w1 where
    "abort_expired env u w = Some (Ok (), w1)" "w_meta w1 = w_meta w" by blast
  with Cons [of w1] show ?case by (simp add: call_then_step(1))
qed (simp add: call_simps)

lemma expire_loop_ends:
  assumes "maintained env" and "0 < batch_size" and "overdue_uploads now (w_meta w) < fuel"
  shows "\<exists>report' w'. expire_loop env batch_size now late fuel k report w = Some (Ok report', w') \<and>
    due_blobs now (w_meta w') + overdue_uploads now (w_meta w') \<le> due_blobs now (w_meta w) + overdue_uploads now (w_meta w) \<and>
    (mr_drained report' \<and> mr_drained report \<and> overdue_uploads now (w_meta w') = 0 \<or> \<not> mr_drained report' \<and>
      (\<not> mr_drained report \<or> (\<exists>j. late j)))"
  using assms(3)
proof (induction fuel arbitrary: w k report)
  case (Suc fuel)
  obtain r s where claim: "claim_expired_uploads now batch_size (w_meta w) = (r, s)" by fastforce
  from claim_expired_overdue [OF this] obtain us where us: "r = Ok us"
    "length us = min (unat batch_size) (overdue_uploads now (w_meta w))"
    "overdue_uploads now s + length us = overdue_uploads now (w_meta w)"
    "due_blobs now s \<le> due_blobs now (w_meta w) + length us" by blast
  from abort_each_returns [OF assms(1), of us "w\<lparr>w_meta := s\<rparr>"] obtain w1 where
    each: "call_each (abort_expired env) us (w\<lparr>w_meta := s\<rparr>) = Some (Ok (), w1)" "w_meta w1 = s" by auto
  define n where "n = (of_nat (length us) :: 32 word)"
  have "unat batch_size < 2 ^ 32" using unsigned_less [of batch_size] by simp
  with us(2) have n: "unat n = length us" by (simp add: n_def unat_of_nat take_bit_nat_eq_self)
  have run: "abort_expired_uploads env batch_size now w = Some (Ok n, w1)"
    using claim us(1) each(1)
    by (simp add: abort_expired_uploads_def call_bind_def on_meta_def maintained_meta [OF assms(1)] call_of_def
        call_then_step(1) call_ok_def n_def)
  let ?r = "report\<lparr>mr_uploads_expired := mr_uploads_expired report + n\<rparr>"
  have step: "expire_loop env batch_size now late (Suc fuel) k report w =
      (if n < batch_size then Some (Ok ?r, w1)
       else if late k then Some (Ok (?r\<lparr>mr_drained := False\<rparr>), w1)
       else expire_loop env batch_size now late fuel (k + 1) ?r w1)"
    using run by (simp add: call_bind_step(1) call_ok_def Let_def)
  have sum: "due_blobs now (w_meta w1) + overdue_uploads now (w_meta w1) \<le> due_blobs now (w_meta w) + overdue_uploads now (w_meta w)"
    using us(3,4) each(2) by simp
  consider "n < batch_size" | "\<not> n < batch_size" "late k" | "\<not> n < batch_size" "\<not> late k" by blast
  then show ?case
  proof cases
    case 1
    then have "overdue_uploads now (w_meta w1) = 0"
      using n us(2,3) each(2) by (simp add: word_less_nat_alt min_def split: if_splits)
    with step 1 sum show ?thesis by (cases "mr_drained report") auto
  next
    case 2
    with step sum show ?thesis by auto
  next
    case 3
    then have "length us = unat batch_size" using n us(2) by (simp add: word_less_nat_alt min_def split: if_splits)
    moreover have "0 < unat batch_size" using assms(2) by (simp add: word_less_nat_alt)
    ultimately have "overdue_uploads now (w_meta w1) < fuel" using us(3) each(2) Suc.prems by simp
    from Suc.IH [OF this, of "k + 1" ?r] step 3 sum show ?thesis by fastforce
  qed
qed simp

lemma purge_all_ends:
  assumes "maintained env"
  shows "\<exists>report' w'. purge_all env now report w = Some (Ok report', w') \<and> mr_drained report' = mr_drained report \<and>
    uploads (w_meta w') = uploads (w_meta w) \<and> due_blobs now (w_meta w') = due_blobs now (w_meta w)"
  by (simp add: purge_all_def call_bind_def on_meta_def maintained_meta [OF assms] call_of_def call_ok_def
      purge_idempotency_records_def purge_change_cursors_def purge_changes_def Let_def split_def
      due_blobs_def live_blobs_def)

lemma record_pending_ends:
  assumes "maintained env"
  shows "\<exists>w'. record_pending env w = Some (Ok (), w') \<and> w_meta w' = w_meta w"
  by (simp add: record_pending_def call_ignore_def call_bind_def on_meta_def maintained_meta [OF assms]
      call_read_def count_pending_gc_def on_metrics_def)

text \<open>
  C8: maintenance makes progress and ends. Over the in-memory metastore, and whatever errors the
  blob backends give as long as they return, a pass always returns a report, with at most one batch
  more than there are due blobs and overdue uploads in each of its loops. When the report says that
  the backlog is drained there is no overdue upload and no due blob left that a live object does not
  use - each has been deleted or put off to a later time -, and it says so whenever time does not
  run out.
\<close>

theorem maintenance_drains:
  assumes "maintained env" and "0 < batch_size"
    and "due_blobs now (w_meta w) + overdue_uploads now (w_meta w) < fuel"
  shows "\<exists>report w'. maintenance_pass env batch_size now late fuel w = Some (Ok report, w') \<and>
    (if mr_drained report then due_blobs now (w_meta w') = 0 \<and> overdue_uploads now (w_meta w') = 0
     else \<exists>j. late j)"
proof -
  have "overdue_uploads now (w_meta w) < fuel" using assms(3) by simp
  from expire_loop_ends [OF assms(1,2) this, of late 0 report_new] obtain r1 w1 where
    l1: "expire_loop env batch_size now late fuel 0 report_new w = Some (Ok r1, w1)"
    "due_blobs now (w_meta w1) + overdue_uploads now (w_meta w1) \<le> due_blobs now (w_meta w) + overdue_uploads now (w_meta w)"
    "mr_drained r1 \<and> overdue_uploads now (w_meta w1) = 0 \<or> \<not> mr_drained r1 \<and> (\<exists>j. late j)"
    by (auto simp: report_new_def)
  then have "due_blobs now (w_meta w1) < fuel" using assms(3) by simp
  from collect_loop_ends [OF assms(1,2) this, of late 0 r1] obtain r2 w2 where
    l2: "collect_loop env batch_size now late fuel 0 r1 w1 = Some (Ok r2, w2)" "uploads (w_meta w2) = uploads (w_meta w1)"
    "mr_drained r2 \<and> mr_drained r1 \<and> due_blobs now (w_meta w2) = 0 \<or> \<not> mr_drained r2 \<and> (\<not> mr_drained r1 \<or> (\<exists>j. late j))"
    by blast
  from purge_all_ends [OF assms(1), of now r2 w2] obtain r3 w3 where
    l3: "purge_all env now r2 w2 = Some (Ok r3, w3)" "mr_drained r3 = mr_drained r2"
    "uploads (w_meta w3) = uploads (w_meta w2)" "due_blobs now (w_meta w3) = due_blobs now (w_meta w2)" by blast
  from record_pending_ends [OF assms(1), of w3] obtain w4 where
    l4: "record_pending env w3 = Some (Ok (), w4)" "w_meta w4 = w_meta w3" by blast
  have "maintenance_pass env batch_size now late fuel w = Some (Ok r3, w4)"
    using l1(1) l2(1) l3(1) l4(1)
    by (simp add: maintenance_pass_def call_bind_step(1) call_then_step(1) call_ok_def)
  moreover have "if mr_drained r3 then due_blobs now (w_meta w4) = 0 \<and> overdue_uploads now (w_meta w4) = 0
      else \<exists>j. late j"
    using l1(3) l2(2,3) l3(2-4) l4(2) by (auto simp: overdue_uploads_def)
  ultimately show ?thesis by blast
qed

lemma sample_maintained: "maintained sample_env"
  by (auto simp: maintained_def sample_env_def backends_return_def registry_get_def registry_new_def table_simps
      mem_blob_store_def call_of_def ok_or_def split: if_splits option.splits)

definition sample_backlog :: "(mem_state, blob_state) world" where
  "sample_backlog =
     sample_world\<lparr>w_meta := enqueue_gc BACKEND_ID ''x2'' 6 (enqueue_gc BACKEND_ID ''x1'' 5 (mem_new 0))\<rparr>"

theorem maintenance_drains_witness:
  "due_blobs 10 (w_meta sample_backlog) = 2 \<and>
   (\<exists>report w'. maintenance_pass sample_env 1 10 (\<lambda>_. False) 3 sample_backlog = Some (Ok report, w') \<and>
      mr_drained report \<and> due_blobs 10 (w_meta w') = 0)"
proof -
  have due: "due_blobs 10 (w_meta sample_backlog) = 2" "overdue_uploads 10 (w_meta sample_backlog) = 0"
    by code_simp+
  have "due_blobs 10 (w_meta sample_backlog) + overdue_uploads 10 (w_meta sample_backlog) < 3" by (simp add: due)
  from maintenance_drains [OF sample_maintained _ this, of 1 "\<lambda>_. False"] due show ?thesis
    by (auto split: if_splits)
qed

end
