(* ===== verification/CosStore.thy ===== *)
theory CosStore
  imports RequestHash StrTrim "HOL-Library.Product_Lexorder" Ports Utf8
begin

text \<open>
  The COS blob store: the signing of its requests, \<open>anystore-blobstore-cos/src/signing.rs\<close>,
  then the store itself, \<open>anystore-blobstore-cos/src/lib.rs\<close>. Percent encoding with a set of
  characters, SHA-1 and HMAC-SHA1 are third-party functions on bytes, hence parameters.
\<close>

record cos_crypto =
  ck_percent :: "(char \<Rightarrow> bool) \<Rightarrow> string \<Rightarrow> string"
  ck_sha1 :: "string \<Rightarrow> string"
  ck_hmac_sha1 :: "string \<Rightarrow> string \<Rightarrow> string"

text \<open>\<open>UNRESERVED\<close>: despite its name the set of the characters that are encoded.\<close>

definition UNRESERVED :: "char \<Rightarrow> bool" where
  "UNRESERVED c \<longleftrightarrow> \<not> is_ascii_alphanumeric c \<and> c \<notin> {CHR ''-'', CHR ''_'', CHR ''.'', CHR ''~''}"

definition cos_url_encode :: "cos_crypto \<Rightarrow> string \<Rightarrow> string" where
  "cos_url_encode ck v = ck_percent ck UNRESERVED v"

definition encode_path :: "cos_crypto \<Rightarrow> string \<Rightarrow> string" where
  "encode_path ck path = join ''/'' (map (cos_url_encode ck) (split_on (CHR ''/'') path))"

definition sha1_hex :: "cos_crypto \<Rightarrow> string \<Rightarrow> string" where
  "sha1_hex ck input = hex_encode (ck_sha1 ck input)"

definition hmac_sha1_hex :: "cos_crypto \<Rightarrow> string \<Rightarrow> string \<Rightarrow> string" where
  "hmac_sha1_hex ck key message = hex_encode (ck_hmac_sha1 ck key message)"

text \<open>Sorted, encoded \<open>key=value\<close> pairs, and the list of the keys.\<close>

definition encoded_pairs :: "cos_crypto \<Rightarrow> (string \<times> string) list \<Rightarrow> (string \<times> string) list" where
  "encoded_pairs ck pairs =
     sort (map (\<lambda>(k, v). (cos_url_encode ck (to_ascii_lowercase k), cos_url_encode ck v)) pairs)"

definition canonicalize :: "cos_crypto \<Rightarrow> (string \<times> string) list \<Rightarrow> string \<times> string" where
  "canonicalize ck pairs =
     (let encoded = encoded_pairs ck pairs in
      (join '';'' (map fst encoded), join ''&'' (map (\<lambda>(k, v). k @ ''='' @ v) encoded)))"

record signature_input =
  si_method :: string
  si_path :: string
  si_query :: "(string \<times> string) list"
  si_headers :: "(string \<times> string) list"
  si_start :: int
  si_end :: int

record signature =
  sig_key_time :: string
  sig_header_list :: string
  sig_url_param_list :: string
  sig_signature :: string

definition render_signature :: "signature \<Rightarrow> string \<Rightarrow> bool \<Rightarrow> string" where
  "render_signature s secret_id encode_semicolons =
     (let key_time = (if encode_semicolons then str_replace '';'' ''%3B'' (sig_key_time s) else sig_key_time s) in
      ''q-sign-algorithm=sha1&q-ak='' @ secret_id @ ''&q-sign-time='' @ key_time @ ''&q-key-time='' @
      key_time @ ''&q-header-list='' @ sig_header_list s @ ''&q-url-param-list='' @ sig_url_param_list s @
      ''&q-signature='' @ sig_signature s)"

abbreviation line_feed :: string where
  "line_feed \<equiv> [CHR 0x0A]"

definition http_string :: "cos_crypto \<Rightarrow> signature_input \<Rightarrow> string" where
  "http_string ck input =
     to_ascii_lowercase (si_method input) @ line_feed @ si_path input @ line_feed @
     snd (canonicalize ck (si_query input)) @ line_feed @
     snd (canonicalize ck (si_headers input)) @ line_feed"

definition cos_sign :: "cos_crypto \<Rightarrow> string \<Rightarrow> signature_input \<Rightarrow> signature" where
  "cos_sign ck secret_key input =
     (let key_time = dec_int (si_start input) @ '';'' @ dec_int (si_end input);
          sign_key = hmac_sha1_hex ck secret_key key_time;
          string_to_sign = ''sha1'' @ line_feed @ key_time @ line_feed @
            sha1_hex ck (http_string ck input) @ line_feed in
      \<lparr>sig_key_time = key_time, sig_header_list = fst (canonicalize ck (si_headers input)),
       sig_url_param_list = fst (canonicalize ck (si_query input)),
       sig_signature = hmac_sha1_hex ck sign_key string_to_sign\<rparr>)"

text \<open>
  The blob store on Tencent COS: \<open>anystore-blobstore-cos/src/lib.rs\<close>. The provider is a parameter
  with a state of its own: one HTTP exchange, and the wall clock in seconds, which every signature
  reads. Parsing XML into events and building the HTTP client are third-party code as well.
\<close>

definition COS_BACKEND_ID :: string where
  "COS_BACKEND_ID = ''tencent_cos''"

definition SIGN_SKEW_SECONDS :: int where
  "SIGN_SKEW_SECONDS = 60"

record cos_config =
  cc_bucket :: string
  cc_endpoint :: string
  cc_secret_id :: string
  cc_secret_key :: string
  cc_session_token :: "string option"

record cos_request =
  cq_method :: string
  cq_url :: string
  cq_headers :: "(string \<times> string) list"
  cq_body :: "string option"

datatype xml_event = XStart string | XText string | XCData string | XEnd string | XOther

text \<open>
  The events of a document are those before its end or its first error. An exchange gives a
  transport error, or the status, the headers with lower-case names, and the body or a read error.
\<close>

record 'g cos_lib =
  kl_crypto :: cos_crypto
  kl_build :: "string option"
  kl_to_str :: "string \<Rightarrow> string option"
  kl_xml_events :: "string \<Rightarrow> xml_event list"
  kl_timestamp :: "'g \<Rightarrow> int"
  kl_send :: "cos_request \<Rightarrow> 'g \<Rightarrow> (string + nat \<times> (string \<times> string) list \<times> (string + string)) \<times> 'g"

record 'g cos_store =
  cs_config :: cos_config
  cs_host :: string
  cs_lib :: "'g cos_lib"

definition cos_new :: "'g cos_lib \<Rightarrow> cos_config \<Rightarrow> 'g cos_store result" where
  "cos_new lib config =
     (let endpoint = trim_end_str ''/'' (trim_start_str ''http://'' (trim_start_str ''https://''
            (str_trim (cc_endpoint config)))) in
      if endpoint = [] \<or> str_trim (cc_bucket config) = []
      then Err (Internal ''COS bucket and endpoint are required'')
      else
        (let host = (if starts_with (cc_bucket config @ ''.'') endpoint then endpoint
           else cc_bucket config @ ''.'' @ endpoint) in
         case kl_build lib of
           Some e \<Rightarrow> Err (Internal (''HTTP client build failed: '' @ e))
         | None \<Rightarrow> Ok \<lparr>cs_config = config, cs_host = host, cs_lib = lib\<rparr>))"

section \<open>URLs and signatures\<close>

abbreviation encode_text :: "'g cos_store \<Rightarrow> string \<Rightarrow> string" where
  "encode_text c \<equiv> cos_url_encode (kl_crypto (cs_lib c))"

definition object_path :: "blob_ref \<Rightarrow> string" where
  "object_path blob = ''/'' @ blob"

definition render_query :: "'g cos_store \<Rightarrow> (string \<times> string) list \<Rightarrow> string" where
  "render_query c query =
     join ''&'' (map (\<lambda>(k, v). if v = [] then encode_text c k else encode_text c k @ ''='' @ encode_text c v) query)"

definition cos_url :: "'g cos_store \<Rightarrow> string \<Rightarrow> (string \<times> string) list \<Rightarrow> string" where
  "cos_url c path query =
     ''https://'' @ cs_host c @ encode_path (kl_crypto (cs_lib c)) path @
     (if query = [] then [] else ''?'' @ render_query c query)"

definition whole_secs :: "int \<Rightarrow> int" where
  "whole_secs d = d div 1000000000"

text \<open>Only the host is signed among the headers; the window opens a minute before now.\<close>

definition cos_signature ::
  "'g cos_store \<Rightarrow> int \<Rightarrow> string \<Rightarrow> string \<Rightarrow> (string \<times> string) list \<Rightarrow> int \<Rightarrow> signature" where
  "cos_signature c timestamp verb path query valid_for =
     cos_sign (kl_crypto (cs_lib c)) (cc_secret_key (cs_config c))
       \<lparr>si_method = verb, si_path = path, si_query = query, si_headers = [(''host'', cs_host c)],
        si_start = timestamp - SIGN_SKEW_SECONDS, si_end = timestamp + whole_secs valid_for\<rparr>"

definition presign ::
  "'g cos_store \<Rightarrow> string \<Rightarrow> string \<Rightarrow> (string \<times> string) list \<Rightarrow> int \<Rightarrow> int \<Rightarrow> string" where
  "presign c verb path query expires_in timestamp =
     cos_url c path query @ (if query = [] then ''?'' else ''&'') @
     render_signature (cos_signature c timestamp verb path query expires_in) (cc_secret_id (cs_config c)) True @
     (case cc_session_token (cs_config c) of
        None \<Rightarrow> []
      | Some token \<Rightarrow> ''&x-cos-security-token='' @ encode_text c token)"

section \<open>Answers\<close>

fun text_before :: "string \<Rightarrow> string \<Rightarrow> string option" where
  "text_before pat s =
     (if starts_with pat s then Some []
      else case s of [] \<Rightarrow> None | c # cs \<Rightarrow> map_option (Cons c) (text_before pat cs))"

declare text_before.simps [simp del]

definition cos_redact :: "string \<Rightarrow> string" where
  "cos_redact message =
     (case text_before ''q-signature='' message of
        Some before \<Rightarrow> before @ ''q-signature=<redacted>''
      | None \<Rightarrow> message)"

fun tag_text :: "string \<Rightarrow> bool \<Rightarrow> string \<Rightarrow> xml_event list \<Rightarrow> string option" where
  "tag_text tag inside collected [] = None"
| "tag_text tag inside collected (XStart name # es) =
     (if name = tag then tag_text tag True [] es else tag_text tag inside collected es)"
| "tag_text tag inside collected (XText content # es) =
     tag_text tag inside (if inside then collected @ content else collected) es"
| "tag_text tag inside collected (XCData content # es) =
     tag_text tag inside (if inside then collected @ content else collected) es"
| "tag_text tag inside collected (XEnd name # es) =
     (if name = tag \<and> inside then Some (str_trim collected) else tag_text tag inside collected es)"
| "tag_text tag inside collected (XOther # es) = tag_text tag inside collected es"

definition extract_tag :: "'g cos_lib \<Rightarrow> string \<Rightarrow> string \<Rightarrow> string option" where
  "extract_tag lib xml tag =
     (case from_utf8 xml of None \<Rightarrow> None | Some txt \<Rightarrow> tag_text tag False [] (kl_xml_events lib txt))"

definition cos_error :: "'g cos_lib \<Rightarrow> string \<Rightarrow> nat \<Rightarrow> string \<Rightarrow> domain_error" where
  "cos_error lib action st body =
     StorageError (''COS '' @ action @ '' failed with '' @
       (case extract_tag lib body ''Code'' of Some found \<Rightarrow> found | None \<Rightarrow> dec_nat st))"

definition is_success :: "nat \<Rightarrow> bool" where
  "is_success st \<longleftrightarrow> 200 \<le> st \<and> st < 300"

section \<open>Completing a multipart upload\<close>

definition escape_xml :: "string \<Rightarrow> string" where
  "escape_xml v =
     str_replace [CHR 0x22] ''&quot;'' (str_replace ''>'' ''&gt;''
       (str_replace ''<'' ''&lt;'' (str_replace ''&'' ''&amp;'' v)))"

definition part_xml :: "completed_part \<Rightarrow> string" where
  "part_xml p =
     ''<Part><PartNumber>'' @ dec_nat (unat (cpt_part_number p)) @ ''</PartNumber><ETag>'' @
     escape_xml (cpt_etag p) @ ''</ETag></Part>''"

definition complete_multipart_body :: "completed_part list \<Rightarrow> string" where
  "complete_multipart_body parts =
     ''<CompleteMultipartUpload>'' @ concat (map part_xml (sort_key cpt_part_number parts)) @
     ''</CompleteMultipartUpload>''"

section \<open>Requests\<close>

definition cos_request_of ::
  "'g cos_store \<Rightarrow> int \<Rightarrow> string \<Rightarrow> string \<Rightarrow> (string \<times> string) list \<Rightarrow> string option \<Rightarrow> cos_request" where
  "cos_request_of c timestamp verb path query body =
     \<lparr>cq_method = verb, cq_url = cos_url c path query,
      cq_headers =
        [(''authorization'', render_signature (cos_signature c timestamp verb path query (300 * 1000000000))
            (cc_secret_id (cs_config c)) False),
         (''host'', cs_host c)] @
        (case cc_session_token (cs_config c) of None \<Rightarrow> [] | Some token \<Rightarrow> [(''x-cos-security-token'', token)]) @
        (if body = None then [] else [(''content-type'', ''application/xml'')]),
      cq_body = body\<rparr>"

definition cos_send ::
  "'g cos_store \<Rightarrow> string \<Rightarrow> string \<Rightarrow> (string \<times> string) list \<Rightarrow> string option \<Rightarrow>
   ('g, nat \<times> (string \<times> string) list \<times> string) call" where
  "cos_send c verb path query body g =
     (case kl_send (cs_lib c) (cos_request_of c (kl_timestamp (cs_lib c) g) verb path query body) g of
        (Inl e, g') \<Rightarrow> Some (Err (StorageError (''COS request failed: '' @ cos_redact e)), g')
      | (Inr (st, headers, Inl e), g') \<Rightarrow>
          Some (Err (StorageError (''reading COS response failed: '' @ e)), g')
      | (Inr (st, headers, Inr bytes), g') \<Rightarrow> Some (Ok (st, headers, bytes), g'))"

definition stat_of_headers :: "'g cos_lib \<Rightarrow> (string \<times> string) list \<Rightarrow> blob_stat" where
  "stat_of_headers lib headers =
     (let get = (\<lambda>name. case map_of headers name of None \<Rightarrow> None | Some v \<Rightarrow> kl_to_str lib v) in
      \<lparr>bst_size = (case get ''content-length'' of
           None \<Rightarrow> 0
         | Some v \<Rightarrow> (case parse_unsigned (2 ^ 64) v of None \<Rightarrow> 0 | Some n \<Rightarrow> of_nat n)),
       bst_content_type = get ''content-type'',
       bst_etag = map_option (trim_matches (CHR 0x22)) (get ''etag''),
       bst_sha256 = None\<rparr>)"

definition cos_head :: "'g cos_store \<Rightarrow> blob_ref \<Rightarrow> ('g, blob_stat option) call" where
  "cos_head c blob =
     call_bind (cos_send c ''HEAD'' (object_path blob) [] None) (\<lambda>(st, headers, _).
       if st = 404 then call_ok None
       else if \<not> is_success st then call_err (StorageError (''COS stat returned '' @ dec_nat st))
       else call_ok (Some (stat_of_headers (cs_lib c) headers)))"

definition initiate_multipart :: "'g cos_store \<Rightarrow> blob_ref \<Rightarrow> ('g, string) call" where
  "initiate_multipart c blob =
     call_bind (cos_send c ''POST'' (object_path blob) [(''uploads'', [])] None) (\<lambda>(st, _, body).
       if \<not> is_success st then call_err (cos_error (cs_lib c) ''initiating multipart upload'' st body)
       else call_result (ok_or (StorageError ''COS did not return an upload id'')
         (extract_tag (cs_lib c) body ''UploadId'')))"

section \<open>The operations\<close>

definition cos_blob_ref_for :: "string \<Rightarrow> blob_ref" where
  "cos_blob_ref_for upload_id = ''blobs/'' @ upload_id"

text \<open>\<open>chrono::Duration::from_std\<close> with its fallback.\<close>

definition from_std_or :: "int \<Rightarrow> int \<Rightarrow> int" where
  "from_std_or other d = (if d \<le> 9223372036854775807 * 1000000 then d else other)"

definition cos_prepare_upload ::
  "'g cos_store \<Rightarrow> time \<Rightarrow> prepare_upload_req \<Rightarrow> ('g, prepared_upload) call" where
  "cos_prepare_upload c clock req =
     (let blob = cos_blob_ref_for (pu_upload_id req);
          path = object_path blob;
          expires_at = clock + from_std_or (6 * 3600 * 1000000000) (pu_expires_in req) in
      case pu_mode req of
        Single \<Rightarrow> call_read (\<lambda>g. Ok
          \<lparr>pd_blob_ref = blob, pd_mode = pu_mode req, pd_provider_upload_id = None,
           pd_single = Some \<lparr>sq_method = ''PUT'',
             sq_url = presign c ''PUT'' path [] (pu_expires_in req) (kl_timestamp (cs_lib c) g), sq_headers = []\<rparr>,
           pd_part_size = None, pd_expires_at = expires_at\<rparr>)
      | Multipart \<Rightarrow>
          call_bind (initiate_multipart c blob) (\<lambda>provider_upload_id. call_ok
            \<lparr>pd_blob_ref = blob, pd_mode = pu_mode req, pd_provider_upload_id = Some provider_upload_id,
             pd_single = None, pd_part_size = Some (pu_part_size req), pd_expires_at = expires_at\<rparr>))"

definition cos_sign_parts :: "'g cos_store \<Rightarrow> sign_parts_req \<Rightarrow> int \<Rightarrow> signed_part list" where
  "cos_sign_parts c req timestamp =
     map (\<lambda>n. \<lparr>sg_part_number = n, sg_method = ''PUT'',
         sg_url = presign c ''PUT'' (object_path (sp_blob_ref req))
           [(''partNumber'', dec_nat (unat n)), (''uploadId'', sp_provider_upload_id req)]
           (sp_expires_in req) timestamp\<rparr>)
       (sp_part_numbers req)"

definition head_or_not_ready :: "'g cos_store \<Rightarrow> blob_ref \<Rightarrow> ('g, blob_stat) call" where
  "head_or_not_ready c blob =
     call_bind (cos_head c blob) (\<lambda>found. call_result (ok_or ContentNotReady found))"

definition cos_ensure_upload_completed :: "'g cos_store \<Rightarrow> complete_blob_upload \<Rightarrow> ('g, blob_stat) call" where
  "cos_ensure_upload_completed c req =
     (let blob = cb_blob_ref req in
      if cb_mode req = Multipart then
        (case cb_provider_upload_id req of
           None \<Rightarrow> call_err (StorageError ''multipart upload has no provider id'')
         | Some provider_upload_id \<Rightarrow>
             if cb_parts req = []
             then call_err (InvalidRequest ''Multipart completion requires the uploaded parts.'')
             else
               call_bind (cos_send c ''POST'' (object_path blob) [(''uploadId'', provider_upload_id)]
                 (Some (complete_multipart_body (cb_parts req)))) (\<lambda>(st, _, body).
               if \<not> is_success st \<or> extract_tag (cs_lib c) body ''Code'' \<noteq> None
               then call_bind (cos_head c blob) (\<lambda>found. case found of
                   Some stat \<Rightarrow> call_ok stat
                 | None \<Rightarrow> call_err (cos_error (cs_lib c) ''completing multipart upload'' st body))
               else head_or_not_ready c blob))
      else head_or_not_ready c blob)"

definition success_or_gone :: "'g cos_store \<Rightarrow> string \<Rightarrow> nat \<times> (string \<times> string) list \<times> string \<Rightarrow> unit result" where
  "success_or_gone c action answer =
     (case answer of (st, _, body) \<Rightarrow>
        if is_success st \<or> st = 404 then Ok () else Err (cos_error (cs_lib c) action st body))"

definition cos_abort_upload :: "'g cos_store \<Rightarrow> abort_blob_upload \<Rightarrow> ('g, unit) call" where
  "cos_abort_upload c req =
     (case ab_provider_upload_id req of
        None \<Rightarrow> call_ok ()
      | Some provider_upload_id \<Rightarrow>
          call_bind (cos_send c ''DELETE'' (object_path (ab_blob_ref req)) [(''uploadId'', provider_upload_id)] None)
            (\<lambda>answer. call_result (success_or_gone c ''aborting multipart upload'' answer)))"

definition cos_stat :: "'g cos_store \<Rightarrow> blob_ref \<Rightarrow> ('g, blob_stat) call" where
  "cos_stat c blob = head_or_not_ready c blob"

definition cos_sign_download :: "'g cos_store \<Rightarrow> time \<Rightarrow> blob_ref \<Rightarrow> string \<Rightarrow> int \<Rightarrow> int \<Rightarrow> signed_download" where
  "cos_sign_download c clock blob filename expires_in timestamp =
     (let disposition = ''attachment; filename*=UTF-8'' @ [CHR 0x27, CHR 0x27] @ encode_text c filename in
      \<lparr>sd_url = presign c ''GET'' (object_path blob) [(''response-content-disposition'', disposition)]
         expires_in timestamp,
       sd_expires_at = clock + from_std_or (600 * 1000000000) expires_in\<rparr>)"

definition cos_delete_blob :: "'g cos_store \<Rightarrow> blob_ref \<Rightarrow> ('g, unit) call" where
  "cos_delete_blob c blob =
     call_bind (cos_send c ''DELETE'' (object_path blob) [] None)
       (\<lambda>answer. call_result (success_or_gone c ''deleting blob'' answer))"

definition cos_blob_store :: "'g cos_store \<Rightarrow> 'g blob_store" where
  "cos_blob_store c =
     \<lparr>bs_backend_id = COS_BACKEND_ID, bs_verifies_sha256 = False, bs_blob_ref_for = cos_blob_ref_for,
      bs_prepare_upload = cos_prepare_upload c,
      bs_sign_parts = (\<lambda>clock req. call_read (\<lambda>g. Ok (cos_sign_parts c req (kl_timestamp (cs_lib c) g)))),
      bs_ensure_upload_completed = cos_ensure_upload_completed c,
      bs_abort_upload = cos_abort_upload c, bs_stat = cos_stat c,
      bs_sign_download = (\<lambda>clock blob filename expires_in.
        call_read (\<lambda>g. Ok (cos_sign_download c clock blob filename expires_in (kl_timestamp (cs_lib c) g)))),
      bs_delete_blob = cos_delete_blob c\<rparr>"

end
