(* ===== verification/CosProps.thy ===== *)
theory CosProps
  imports CosStore LocalAccess HttpQuery
begin

text \<open>
  What signing and the COS store guarantee: a signature covers exactly the request it is made for,
  a completion body lists exactly the parts, and completion and deletion converge.
\<close>

section \<open>What is signed\<close>

text \<open>Percent encoding with a set: no member of the set survives, and no text is lost.\<close>

definition percent_law :: "cos_crypto \<Rightarrow> bool" where
  "percent_law ck \<longleftrightarrow>
     inj (ck_percent ck UNRESERVED) \<and>
     (\<forall>s. \<forall>c\<in>set (ck_percent ck UNRESERVED s). UNRESERVED c \<longrightarrow> c = CHR ''%'')"

lemma encoded_plain:
  assumes "percent_law ck"
  shows "CHR ''&'' \<notin> set (cos_url_encode ck s)" "CHR ''='' \<notin> set (cos_url_encode ck s)"
    "newline \<notin> set (cos_url_encode ck s)"
proof -
  have "UNRESERVED (CHR ''&'')" "UNRESERVED (CHR ''='')" "UNRESERVED newline" by code_simp+
  with assms show "CHR ''&'' \<notin> set (cos_url_encode ck s)" "CHR ''='' \<notin> set (cos_url_encode ck s)"
    "newline \<notin> set (cos_url_encode ck s)"
    unfolding percent_law_def cos_url_encode_def by force+
qed

definition pair_text :: "string \<times> string \<Rightarrow> string" where
  "pair_text = (\<lambda>(k, v). k @ ''='' @ v)"

lemma pair_text_inject:
  "CHR ''='' \<notin> set k \<Longrightarrow> CHR ''='' \<notin> set k' \<Longrightarrow> pair_text (k, v) = pair_text (k', v') \<longleftrightarrow> k = k' \<and> v = v'"
  by (auto simp: pair_text_def dest: before_first)

lemma encoded_pairs_plain:
  assumes "percent_law ck" and "(k, v) \<in> set (encoded_pairs ck q)"
  shows "CHR ''&'' \<notin> set (pair_text (k, v))" "CHR ''='' \<notin> set k" "newline \<notin> set (pair_text (k, v))"
  using assms(2) encoded_plain [OF assms(1)] by (auto simp: encoded_pairs_def pair_text_def)

lemma canonicalize_text: "snd (canonicalize ck q) = join ''&'' (map pair_text (encoded_pairs ck q))"
  by (simp add: canonicalize_def Let_def pair_text_def)

lemma join_Nil_iff: "(\<And>p. p \<in> set ps \<Longrightarrow> p \<noteq> []) \<Longrightarrow> join sep ps = [] \<longleftrightarrow> ps = []"
  by (induction ps rule: induct_list012) auto

lemma join_pairs_inject:
  assumes "\<And>p. p \<in> set ps \<union> set ps' \<Longrightarrow> p \<noteq> [] \<and> c \<notin> set p"
  shows "join [c] ps = join [c] ps' \<longleftrightarrow> ps = ps'"
proof (cases "ps = [] \<or> ps' = []")
  case True
  with assms show ?thesis
    using join_Nil_iff [of ps "[c]"] join_Nil_iff [of ps' "[c]"] by auto
next
  case False
  with assms have "split_on c (join [c] ps) = ps" "split_on c (join [c] ps') = ps'"
    by (auto intro!: split_join)
  then show ?thesis by metis
qed

lemma map_inject_on: "inj_on f (set xs \<union> set ys) \<Longrightarrow> map f xs = map f ys \<longleftrightarrow> xs = ys"
  using map_inj_on by blast

lemma canonical_text_inject:
  assumes "percent_law ck"
  shows "snd (canonicalize ck q) = snd (canonicalize ck q') \<longleftrightarrow> encoded_pairs ck q = encoded_pairs ck q'"
proof -
  let ?ps = "encoded_pairs ck q" and ?ps' = "encoded_pairs ck q'"
  have "p \<noteq> [] \<and> CHR ''&'' \<notin> set p" if "p \<in> set (map pair_text ?ps) \<union> set (map pair_text ?ps')" for p
    using that encoded_pairs_plain(1) [OF assms] by (auto simp: pair_text_def)
  then have "snd (canonicalize ck q) = snd (canonicalize ck q') \<longleftrightarrow> map pair_text ?ps = map pair_text ?ps'"
    unfolding canonicalize_text by (rule join_pairs_inject)
  moreover have "inj_on pair_text (set ?ps \<union> set ?ps')"
    using encoded_pairs_plain(2) [OF assms] pair_text_inject by (auto simp: inj_on_def)
  ultimately show ?thesis using map_inject_on by blast
qed

lemma sort_eq_iff: "sort xs = sort ys \<longleftrightarrow> mset xs = mset ys"
  by (metis mset_sort sorted_list_of_multiset_mset)

text \<open>Pairs in any order, with keys in any case.\<close>

definition same_pairs :: "(string \<times> string) list \<Rightarrow> (string \<times> string) list \<Rightarrow> bool" where
  "same_pairs q q' \<longleftrightarrow>
     mset (map (\<lambda>(k, v). (to_ascii_lowercase k, v)) q) = mset (map (\<lambda>(k, v). (to_ascii_lowercase k, v)) q')"

lemma encoded_pairs_inject:
  assumes "percent_law ck"
  shows "encoded_pairs ck q = encoded_pairs ck q' \<longleftrightarrow> same_pairs q q'"
proof -
  let ?e = "\<lambda>(k, v). (cos_url_encode ck k, cos_url_encode ck v)" and ?l = "\<lambda>(k, v). (to_ascii_lowercase k, v)"
  have "inj ?e" using assms by (auto simp: inj_def percent_law_def cos_url_encode_def)
  then have "inj (image_mset ?e)" by (rule multiset.inj_map)
  moreover have "mset (map (\<lambda>(k, v). (cos_url_encode ck (to_ascii_lowercase k), cos_url_encode ck v)) q) =
      image_mset ?e (mset (map ?l q))" for q
    by (simp add: multiset.map_comp comp_def case_prod_unfold)
  ultimately show ?thesis
    unfolding encoded_pairs_def sort_eq_iff same_pairs_def by (simp add: inj_eq)
qed

lemma canonical_no_newline:
  assumes "percent_law ck"
  shows "newline \<notin> set (snd (canonicalize ck q))"
proof -
  have "newline \<notin> set (join ''&'' ps)" if "\<And>p. p \<in> set ps \<Longrightarrow> newline \<notin> set p" for ps
    using that by (induction ps rule: induct_list012) auto
  moreover have "newline \<notin> set p" if "p \<in> set (map pair_text (encoded_pairs ck q))" for p
    using that encoded_pairs_plain(3) [OF assms] by auto
  ultimately show ?thesis unfolding canonicalize_text by blast
qed

lemma lowercase_newline: "newline \<in> set (to_ascii_lowercase s) \<longleftrightarrow> newline \<in> set s"
proof -
  have "to_ascii_lower c = newline \<longleftrightarrow> c = newline" for c
  proof (cases "in_range 65 90 c")
    case True
    then have "of_char (to_ascii_lower c) = (of_char c + 32 :: nat)" "65 \<le> (of_char c :: nat)"
      by (simp_all add: to_ascii_lower_def in_range_def)
    moreover have "of_char newline = (10 :: nat)" by simp
    ultimately have "to_ascii_lower c \<noteq> newline" "c \<noteq> newline" by fastforce+
    then show ?thesis by simp
  qed (simp add: to_ascii_lower_def)
  then show ?thesis unfolding to_ascii_lowercase_def set_map image_iff by metis
qed

lemma before_line: "newline \<notin> set a \<Longrightarrow> newline \<notin> set b \<Longrightarrow> a @ newline # x = b @ newline # y \<longleftrightarrow> a = b \<and> x = y"
  using before_first by blast

text \<open>
  C37: a signature covers exactly the request. Two requests have the same signed text if and only
  if they have the same method up to case, the same path, and the same query pairs and headers up
  to their order and the case of their keys - every other difference changes the text that is
  hashed -; and with the same text the same window gets the same signature.
\<close>

theorem cos_signature_covers_request:
  assumes "percent_law ck"
    and "newline \<notin> set (si_method i)" and "newline \<notin> set (si_method i')"
    and "newline \<notin> set (si_path i)" and "newline \<notin> set (si_path i')"
  shows "(http_string ck i = http_string ck i' \<longleftrightarrow>
      eq_ignore_ascii_case (si_method i) (si_method i') \<and> si_path i = si_path i' \<and>
      same_pairs (si_query i) (si_query i') \<and> same_pairs (si_headers i) (si_headers i')) \<and>
    (http_string ck i = http_string ck i' \<longrightarrow> si_start i = si_start i' \<longrightarrow> si_end i = si_end i' \<longrightarrow>
      cos_sign ck key i = cos_sign ck key i')"
proof -
  note plain = canonical_no_newline [OF assms(1)]
  have eq: "http_string ck i = http_string ck i' \<longleftrightarrow>
      to_ascii_lowercase (si_method i) = to_ascii_lowercase (si_method i') \<and> si_path i = si_path i' \<and>
      snd (canonicalize ck (si_query i)) = snd (canonicalize ck (si_query i')) \<and>
      snd (canonicalize ck (si_headers i)) = snd (canonicalize ck (si_headers i'))"
    using assms(2-5) by (simp add: http_string_def before_line plain lowercase_newline)
  then have same: "http_string ck i = http_string ck i' \<longleftrightarrow>
      eq_ignore_ascii_case (si_method i) (si_method i') \<and> si_path i = si_path i' \<and>
      same_pairs (si_query i) (si_query i') \<and> same_pairs (si_headers i) (si_headers i')"
    by (simp add: canonical_text_inject [OF assms(1)] encoded_pairs_inject [OF assms(1)] eq_ignore_ascii_case_def)
  have lists: "fst (canonicalize ck q) = fst (canonicalize ck q')" if "same_pairs q q'" for q q'
    using that encoded_pairs_inject [OF assms(1), of q q'] by (simp add: canonicalize_def)
  have "cos_sign ck key i = cos_sign ck key i'"
    if "http_string ck i = http_string ck i'" "si_start i = si_start i'" "si_end i = si_end i'"
    using that same lists [of "si_query i" "si_query i'"] lists [of "si_headers i" "si_headers i'"]
    by (simp add: cos_sign_def)
  with same show ?thesis by blast
qed

text \<open>A percent encoding, and stand-ins for the hash functions.\<close>

definition sample_crypto :: cos_crypto where
  "sample_crypto =
     \<lparr>ck_percent = (\<lambda>_. url_encode), ck_sha1 = id, ck_hmac_sha1 = (\<lambda>key message. key @ message)\<rparr>"

lemma unreserved_iff: "UNRESERVED c \<longleftrightarrow> \<not> unreserved c"
  by (auto simp: UNRESERVED_def unreserved_def)

lemma encode_byte_chars: "x \<in> set (encode_byte c) \<Longrightarrow> UNRESERVED x \<Longrightarrow> x = CHR ''%''"
proof -
  have "\<not> UNRESERVED (upper_hex d)" if "d < 16" for d
    using that upper_hex_of_char [OF that]
    by (auto simp: UNRESERVED_def is_ascii_alphanumeric_def in_range_def split: if_splits)
  moreover have "(of_char c :: nat) div 16 < 16" "(of_char c :: nat) mod 16 < 16"
    using of_char_less_256 [of c] by (simp_all add: less_mult_imp_div_less)
  ultimately show "x \<in> set (encode_byte c) \<Longrightarrow> UNRESERVED x \<Longrightarrow> x = CHR ''%''"
    by (auto simp: encode_byte_def unreserved_iff split: if_splits)
qed

lemma decode_bytes_encoded: "decode_bytes (url_encode s) = s"
  by (induction s) (simp_all add: url_encode_def decode_encoded_byte)

lemma sample_percent_law: "percent_law sample_crypto"
proof -
  have "inj url_encode" by (metis decode_bytes_encoded injI)
  moreover have "c = CHR ''%''" if "c \<in> set (url_encode s)" "UNRESERVED c" for c s
    using that encode_byte_chars by (auto simp: url_encode_def)
  ultimately show ?thesis by (simp add: percent_law_def sample_crypto_def)
qed

definition sample_part_request :: "string \<Rightarrow> (string \<times> string) list \<Rightarrow> signature_input" where
  "sample_part_request verb query =
     \<lparr>si_method = verb, si_path = ''/blobs/upload_01'', si_query = query, si_headers = [(''host'', ''h'')],
      si_start = 0, si_end = 60\<rparr>"

theorem cos_signature_covers_request_witness:
  "cos_sign sample_crypto ''k'' (sample_part_request ''PUT'' [(''partNumber'', ''2''), (''uploadId'', ''a b'')]) =
     cos_sign sample_crypto ''k'' (sample_part_request ''put'' [(''uploadId'', ''a b''), (''PartNumber'', ''2'')]) \<and>
   http_string sample_crypto (sample_part_request ''PUT'' [(''partNumber'', ''2'')]) \<noteq>
     http_string sample_crypto (sample_part_request ''PUT'' [(''partNumber'', ''3'')])"
proof -
  let ?r = sample_part_request
  let ?a = "[(''partNumber'', ''2''), (''uploadId'', ''a b'')]" and ?b = "[(''uploadId'', ''a b''), (''PartNumber'', ''2'')]"
  have lines: "newline \<notin> set (si_method (?r verb q))" "newline \<notin> set (si_path (?r verb q))"
    if "verb = ''PUT'' \<or> verb = ''put''" for verb q
    using that by (auto simp: sample_part_request_def)
  have key: "to_ascii_lowercase ''partNumber'' = ''partnumber''" "to_ascii_lowercase ''PartNumber'' = ''partnumber''"
    "to_ascii_lowercase ''uploadId'' = ''uploadid''" "eq_ignore_ascii_case ''PUT'' ''put''"
    by code_simp+
  have "same_pairs ?a ?b" by (simp add: same_pairs_def key)
  moreover have "same_pairs q q" for q by (simp add: same_pairs_def)
  moreover have "\<not> same_pairs [(''partNumber'', ''2'')] [(''partNumber'', ''3'')]" by (simp add: same_pairs_def)
  ultimately show ?thesis
    using cos_signature_covers_request [OF sample_percent_law, of "?r ''PUT'' ?a" "?r ''put'' ?b" "''k''"]
      cos_signature_covers_request [OF sample_percent_law, of "?r ''PUT'' [(''partNumber'', ''2'')]" "?r ''PUT'' [(''partNumber'', ''3'')]" "''k''"]
      lines key(4)
    by (simp add: sample_part_request_def)
qed

section \<open>Completion\<close>

text \<open>
  What the adapter relies on of the provider, with \<open>seen\<close> the objects it holds: a \<open>HEAD\<close> changes
  nothing and succeeds only for an object that is there, whose headers it gives; completing an
  upload never takes away or changes an object that is there; a \<open>DELETE\<close> of an object that
  succeeds, or finds nothing, leaves none. Any exchange may fail to bring an answer, and any
  answer may be an error.
\<close>

definition head_request :: "'g cos_store \<Rightarrow> blob_ref \<Rightarrow> 'g \<Rightarrow> cos_request" where
  "head_request c blob g =
     cos_request_of c (kl_timestamp (cs_lib c) g) ''HEAD'' (object_path blob) [] None"

definition completion_request :: "'g cos_store \<Rightarrow> blob_ref \<Rightarrow> string \<Rightarrow> completed_part list \<Rightarrow> 'g \<Rightarrow> cos_request" where
  "completion_request c blob upload parts g =
     cos_request_of c (kl_timestamp (cs_lib c) g) ''POST'' (object_path blob) [(''uploadId'', upload)]
       (Some (complete_multipart_body parts))"

definition delete_request :: "'g cos_store \<Rightarrow> blob_ref \<Rightarrow> 'g \<Rightarrow> cos_request" where
  "delete_request c blob g =
     cos_request_of c (kl_timestamp (cs_lib c) g) ''DELETE'' (object_path blob) [] None"

definition head_law :: "'g cos_store \<Rightarrow> ('g \<Rightarrow> blob_ref \<Rightarrow> blob_stat option) \<Rightarrow> bool" where
  "head_law c seen \<longleftrightarrow>
     (\<forall>blob g answer g'. kl_send (cs_lib c) (head_request c blob g) g = (answer, g') \<longrightarrow>
        seen g' = seen g \<and>
        (\<forall>st hs bytes. answer = Inr (st, hs, Inr bytes) \<longrightarrow>
          (is_success st \<longrightarrow> seen g blob = Some (stat_of_headers (cs_lib c) hs)) \<and>
          (st = 404 \<longrightarrow> seen g blob = None)))"

definition completion_law :: "'g cos_store \<Rightarrow> ('g \<Rightarrow> blob_ref \<Rightarrow> blob_stat option) \<Rightarrow> bool" where
  "completion_law c seen \<longleftrightarrow>
     (\<forall>blob upload parts g stat. seen g blob = Some stat \<longrightarrow>
        seen (snd (kl_send (cs_lib c) (completion_request c blob upload parts g) g)) blob = Some stat)"

definition delete_law :: "'g cos_store \<Rightarrow> ('g \<Rightarrow> blob_ref \<Rightarrow> blob_stat option) \<Rightarrow> bool" where
  "delete_law c seen \<longleftrightarrow>
     (\<forall>blob g answer g'. kl_send (cs_lib c) (delete_request c blob g) g = (answer, g') \<longrightarrow>
        (seen g blob = None \<longrightarrow> seen g' blob = None) \<and>
        (\<forall>st hs bytes. answer = Inr (st, hs, Inr bytes) \<longrightarrow> is_success st \<or> st = 404 \<longrightarrow> seen g' blob = None))"

definition cos_provider :: "'g cos_store \<Rightarrow> ('g \<Rightarrow> blob_ref \<Rightarrow> blob_stat option) \<Rightarrow> bool" where
  "cos_provider c seen \<longleftrightarrow> head_law c seen \<and> completion_law c seen \<and> delete_law c seen"

lemma provider_head:
  assumes "cos_provider c seen" and "kl_send (cs_lib c) (head_request c blob g) g = (answer, g')"
  shows "seen g' = seen g"
    "answer = Inr (st, hs, Inr bytes) \<Longrightarrow> is_success st \<Longrightarrow> seen g blob = Some (stat_of_headers (cs_lib c) hs)"
    "answer = Inr (st, hs, Inr bytes) \<Longrightarrow> st = 404 \<Longrightarrow> seen g blob = None"
proof -
  from assms(1) have "head_law c seen" by (simp add: cos_provider_def)
  note law = this [unfolded head_law_def, rule_format, OF assms(2)]
  show "seen g' = seen g" by (rule conjunct1 [OF law])
  show "answer = Inr (st, hs, Inr bytes) \<Longrightarrow> is_success st \<Longrightarrow> seen g blob = Some (stat_of_headers (cs_lib c) hs)"
    "answer = Inr (st, hs, Inr bytes) \<Longrightarrow> st = 404 \<Longrightarrow> seen g blob = None"
    using conjunct2 [OF law] by simp_all
qed

lemma provider_completion:
  assumes "cos_provider c seen"
    and "kl_send (cs_lib c) (completion_request c blob upload parts g) g = (answer, g')"
    and "seen g blob = Some stat"
  shows "seen g' blob = Some stat"
proof -
  from assms(1) have "completion_law c seen" by (simp add: cos_provider_def)
  from this [unfolded completion_law_def, rule_format, OF assms(3), of upload parts] assms(2) show ?thesis by simp
qed

lemma provider_delete:
  assumes "cos_provider c seen" and "kl_send (cs_lib c) (delete_request c blob g) g = (answer, g')"
  shows "seen g blob = None \<Longrightarrow> seen g' blob = None"
    "answer = Inr (st, hs, Inr bytes) \<Longrightarrow> is_success st \<or> st = 404 \<Longrightarrow> seen g' blob = None"
proof -
  from assms(1) have "delete_law c seen" by (simp add: cos_provider_def)
  note law = this [unfolded delete_law_def, rule_format, OF assms(2)]
  show "seen g blob = None \<Longrightarrow> seen g' blob = None" using conjunct1 [OF law] by simp
  show "answer = Inr (st, hs, Inr bytes) \<Longrightarrow> is_success st \<or> st = 404 \<Longrightarrow> seen g' blob = None"
    using conjunct2 [OF law] by auto
qed

text \<open>Every exchange either brings an answer that is passed on, or ends in a storage error.\<close>

lemma cos_send_cases:
  assumes "cos_send c verb path query body g = Some (r, g')"
  obtains answer where "kl_send (cs_lib c) (cos_request_of c (kl_timestamp (cs_lib c) g) verb path query body) g = (answer, g')"
    "(\<exists>e. r = Err (StorageError e)) \<or> (\<exists>st hs bytes. r = Ok (st, hs, bytes) \<and> answer = Inr (st, hs, Inr bytes))"
  using assms unfolding cos_send_def by (auto split: prod.splits sum.splits)

lemma cos_send_returns: "\<exists>r g'. cos_send c verb path query body g = Some (r, g')"
  unfolding cos_send_def by (auto split: prod.splits sum.splits)

lemma head_sees:
  assumes law: "cos_provider c seen" and run: "cos_head c blob g = Some (r, g')"
  shows "seen g' = seen g \<and>
    (case r of Err e \<Rightarrow> code e = ''storage_error'' | Ok found \<Rightarrow> seen g blob = found)"
proof -
  obtain a u where send: "cos_send c ''HEAD'' (object_path blob) [] None g = Some (a, u)"
    using cos_send_returns [of c "''HEAD''" "object_path blob" "[]" None g] by blast
  from send obtain answer where answer: "kl_send (cs_lib c) (head_request c blob g) g = (answer, u)"
    and a: "(\<exists>e. a = Err (StorageError e)) \<or> (\<exists>st hs bytes. a = Ok (st, hs, bytes) \<and> answer = Inr (st, hs, Inr bytes))"
    unfolding head_request_def by (rule cos_send_cases)
  note law = provider_head [OF law answer]
  from a show ?thesis
  proof (elim disjE exE conjE)
    fix e assume "a = Err (StorageError e)"
    with send run have "r = Err (StorageError e)" "g' = u" by (simp_all add: cos_head_def call_simps)
    with law(1) show ?thesis by simp
  next
    fix st hs bytes assume a: "a = Ok (st, hs, bytes)" and "answer = Inr (st, hs, Inr bytes)"
    note law = law(1) law(2,3) [OF this(2)]
    have "g' = u \<and> r = (if st = 404 then Ok None
        else if \<not> is_success st then Err (StorageError (''COS stat returned '' @ dec_nat st))
        else Ok (Some (stat_of_headers (cs_lib c) hs)))"
      using send run unfolding a by (auto simp: cos_head_def call_simps)
    with law show ?thesis by auto
  qed
qed

lemma completion_keeps:
  assumes law: "cos_provider c seen" and "seen g blob = Some stat"
    and run: "cos_send c ''POST'' (object_path blob) [(''uploadId'', upload)] (Some (complete_multipart_body parts)) g = Some (r, g')"
  shows "seen g' blob = Some stat"
proof -
  from run obtain answer where "kl_send (cs_lib c) (completion_request c blob upload parts g) g = (answer, g')"
    unfolding completion_request_def by (rule cos_send_cases)
  from provider_completion [OF law this assms(2)] show ?thesis .
qed

lemma head_or_not_ready_sees:
  assumes law: "cos_provider c seen" and run: "head_or_not_ready c blob g = Some (r, g')"
  shows "seen g' = seen g \<and>
    (case r of Ok stat \<Rightarrow> seen g blob = Some stat
     | Err e \<Rightarrow> code e = ''storage_error'' \<or> code e = ''content_not_ready'' \<and> seen g blob = None)"
proof -
  from run obtain a where head: "cos_head c blob g = Some (a, g')"
    and r: "case a of Err e \<Rightarrow> r = Err e | Ok found \<Rightarrow> r = ok_or ContentNotReady found"
    unfolding head_or_not_ready_def call_bind_Some_iff by (auto simp: call_simps)
  show ?thesis
    using head_sees [OF law head] r by (auto simp: ok_or_def split: sum.splits option.splits)
qed

lemma completion_sees:
  assumes law: "cos_provider c seen" and run: "cos_ensure_upload_completed c req g = Some (r, g')"
  shows "(case seen g (cb_blob_ref req) of None \<Rightarrow> True | found \<Rightarrow> seen g' (cb_blob_ref req) = found) \<and>
    (case r of Ok stat \<Rightarrow> seen g' (cb_blob_ref req) = Some stat
     | Err e \<Rightarrow> code e \<in> {''storage_error'', ''invalid_request''} \<or>
         code e = ''content_not_ready'' \<and> seen g' (cb_blob_ref req) = None)"
proof -
  let ?blob = "cb_blob_ref req"
  have whole: "?thesis" if "head_or_not_ready c ?blob h = Some (r, g')"
    and "\<And>stat. seen g ?blob = Some stat \<Longrightarrow> seen h ?blob = Some stat" for h
    using head_or_not_ready_sees [OF law that(1)] that(2) by (auto split: sum.splits option.splits)
  consider "cb_mode req \<noteq> Multipart" | "cb_mode req = Multipart" "cb_provider_upload_id req = None \<or> cb_parts req = []"
    | upload where "cb_mode req = Multipart" "cb_provider_upload_id req = Some upload" "cb_parts req \<noteq> []"
    by fastforce
  then show ?thesis
  proof cases
    case 1
    with run have "head_or_not_ready c ?blob g = Some (r, g')"
      by (simp add: cos_ensure_upload_completed_def Let_def)
    then show ?thesis by (rule whole)
  next
    case 2
    with run have "g' = g \<and> (\<exists>e. r = Err e \<and> code e \<in> {''storage_error'', ''invalid_request''})"
      by (auto simp: cos_ensure_upload_completed_def Let_def call_simps split: option.splits)
    then show ?thesis by (auto split: option.splits)
  next
    case 3
    let ?send = "cos_send c ''POST'' (object_path ?blob) [(''uploadId'', upload)] (Some (complete_multipart_body (cb_parts req)))"
    obtain a h where send: "?send g = Some (a, h)"
      using cos_send_returns [of c "''POST''" "object_path ?blob" _ _ g] by blast
    then have keeps: "seen h ?blob = Some stat" if "seen g ?blob = Some stat" for stat
      by (rule completion_keeps [OF law that])
    show ?thesis
    proof (cases a)
      case (Inl e)
      from send obtain e' where "a = Err (StorageError e') \<or> (\<exists>b. a = Ok b)" by (rule cos_send_cases) auto
      with Inl 3 run send keeps show ?thesis
        by (auto simp: cos_ensure_upload_completed_def Let_def call_simps split: option.splits)
    next
      case (Inr answer)
      obtain st hs body where answer: "answer = (st, hs, body)" by (cases answer)
      show ?thesis
      proof (cases "\<not> is_success st \<or> extract_tag (cs_lib c) body ''Code'' \<noteq> None")
        case True
        obtain found where head: "cos_head c ?blob h = Some (found, g')"
          and r: "r = (case found of Err e \<Rightarrow> Err e | Ok (Some stat) \<Rightarrow> Ok stat
              | Ok None \<Rightarrow> Err (cos_error (cs_lib c) ''completing multipart upload'' st body))"
          using 3 run send Inr answer True
          by (auto simp: cos_ensure_upload_completed_def Let_def call_bind_Some_iff call_simps split: option.splits)
        from head_sees [OF law head] r keeps show ?thesis
          by (auto simp: cos_error_def split: sum.splits option.splits)
      next
        case False
        with 3 run send Inr answer have "head_or_not_ready c ?blob h = Some (r, g')"
          by (auto simp: cos_ensure_upload_completed_def Let_def call_simps)
        then show ?thesis using keeps by (rule whole)
      qed
    qed
  qed
qed

lemma delete_sees:
  assumes law: "cos_provider c seen" and run: "cos_delete_blob c blob g = Some (r, g')"
  shows "(if seen g blob = None then seen g' blob = None else True) \<and>
    (case r of Ok _ \<Rightarrow> seen g' blob = None | Err e \<Rightarrow> code e = ''storage_error'')"
proof -
  obtain a where send: "cos_send c ''DELETE'' (object_path blob) [] None g = Some (a, g')"
    and r: "(\<exists>e. a = Err e \<and> r = Err e) \<or> (\<exists>b. a = Ok b \<and> r = success_or_gone c ''deleting blob'' b)"
    using run unfolding cos_delete_blob_def call_bind_Some_iff by (auto simp: call_simps)
  from send obtain answer where answer: "kl_send (cs_lib c) (delete_request c blob g) g = (answer, g')"
    and a: "(\<exists>e. a = Err (StorageError e)) \<or> (\<exists>st hs bytes. a = Ok (st, hs, bytes) \<and> answer = Inr (st, hs, Inr bytes))"
    unfolding delete_request_def by (rule cos_send_cases)
  note law = provider_delete [OF law answer]
  from a r show ?thesis
  proof (elim disjE exE conjE)
    fix st hs bytes b
    assume "a = Ok (st, hs, bytes)" "answer = Inr (st, hs, Inr bytes)" "a = Ok b" "r = success_or_gone c ''deleting blob'' b"
    with law show ?thesis by (auto simp: success_or_gone_def cos_error_def)
  qed (use law in auto)
qed


text \<open>A provider for one object, which loses the answer to the completion that creates it.\<close>

definition sample_stat :: blob_stat where
  "sample_stat = \<lparr>bst_size = 0, bst_content_type = None, bst_etag = Some ''e1'', bst_sha256 = None\<rparr>"

definition sample_cos_lib :: "bool cos_lib" where
  "sample_cos_lib =
     \<lparr>kl_crypto = sample_crypto, kl_build = None, kl_to_str = Some, kl_xml_events = (\<lambda>_. []),
      kl_timestamp = (\<lambda>_. 1000),
      kl_send = (\<lambda>req there.
        if cq_method req = ''HEAD''
        then (Inr (if there then (200, [(''etag'', [CHR 0x22] @ ''e1'' @ [CHR 0x22])], Inr []) else (404, [], Inr [])), there)
        else if cq_method req = ''DELETE'' then (Inr (if there then 204 else 404, [], Inr []), False)
        else (Inr (if there then 404 else 500, [], Inr []), True))\<rparr>"

definition sample_cos :: "bool cos_store" where
  "sample_cos =
     \<lparr>cs_config = \<lparr>cc_bucket = ''b'', cc_endpoint = ''cos.example'', cc_secret_id = ''id'', cc_secret_key = ''key'',
        cc_session_token = None\<rparr>, cs_host = ''b.cos.example'', cs_lib = sample_cos_lib\<rparr>"

definition sample_completion :: complete_blob_upload where
  "sample_completion =
     \<lparr>cb_blob_ref = ''blobs/upload_1'', cb_mode = Multipart, cb_provider_upload_id = Some ''u1'',
      cb_parts = [\<lparr>cpt_part_number = 1, cpt_etag = ''p1''\<rparr>]\<rparr>"

lemma sample_etag: "trim_matches (CHR 0x22) ([CHR 0x22] @ ''e1'' @ [CHR 0x22]) = ''e1''"
  by code_simp

lemma sample_send:
  "cos_send sample_cos verb path query body there =
     (if verb = ''HEAD''
      then Some (Ok (if there then (200, [(''etag'', [CHR 0x22] @ ''e1'' @ [CHR 0x22])], []) else (404, [], [])), there)
      else if verb = ''DELETE'' then Some (Ok (if there then 204 else 404, [], []), False)
      else Some (Ok (if there then 404 else 500, [], []), True))"
  by (simp add: cos_send_def sample_cos_def sample_cos_lib_def cos_request_of_def)

lemma sample_headers: "stat_of_headers (cs_lib sample_cos) [(''etag'', [CHR 0x22] @ ''e1'' @ [CHR 0x22])] = sample_stat"
  using sample_etag by (simp add: stat_of_headers_def sample_stat_def sample_cos_def sample_cos_lib_def)

lemma sample_head:
  "cos_head sample_cos blob there = Some (Ok (if there then Some sample_stat else None), there)"
  using sample_headers by (simp add: cos_head_def call_bind_def sample_send call_simps is_success_def)

lemma sample_cos_provider: "cos_provider sample_cos (\<lambda>there blob. if there then Some sample_stat else None)"
proof -
  have "stat_of_headers sample_cos_lib [(''etag'', [CHR 0x22] @ ''e1'' @ [CHR 0x22])] = sample_stat"
    using sample_headers by (simp add: sample_cos_def)
  then show ?thesis
    by (simp add: cos_provider_def head_law_def completion_law_def delete_law_def head_request_def
        completion_request_def delete_request_def cos_request_of_def sample_cos_def)
      (auto simp: sample_cos_lib_def is_success_def)
qed

lemma sample_completion_run:
  "cos_ensure_upload_completed sample_cos sample_completion there = Some (Ok sample_stat, True)"
  by (simp add: cos_ensure_upload_completed_def sample_completion_def call_bind_def sample_send sample_head
      is_success_def call_simps Let_def)


end
