(* ===== verification/ServerConfig.thy ===== *)
theory ServerConfig
  imports AppState StrTrim PostgrestRpc
begin

text \<open>
  \<open>anystore-server/src/config.rs\<close> and \<open>schedule.rs\<close>: the settings of a deployment, read in the
  order the code reads them from a source of named values, and the daily schedule. Reading can
  panic, since \<open>Duration::hours\<close> and its siblings do so out of their range, so it is a call over
  the unit state. Times of day and UTC offsets are parsed by chrono, hence parameters.
\<close>

section \<open>Types\<close>

type_synonym config_source = "string \<Rightarrow> string option"

record time_lib =
  tl_parse_time :: "string \<Rightarrow> time option"
  tl_parse_offset :: "string \<Rightarrow> int option"

record daily_schedule =
  ds_at :: time
  ds_offset :: int

datatype database_backend =
    Postgres (db_url: string) (db_migrate_on_start: bool)
  | CloudBasePostgrest postgrest_config

datatype blob_backend_config =
    LocalFs (lf_root: string) (lf_secret: string)
  | TencentCos (tc_bucket: string) (tc_endpoint: string) (tc_secret_id: string)
      (tc_secret_key: string) (tc_session_token: "string option")

record server_config =
  sc_port :: "16 word"
  sc_database :: database_backend
  sc_auth_token :: "string option"
  sc_public_base_url :: string
  sc_blob_backend :: blob_backend_config
  sc_maintenance_schedule :: "daily_schedule option"
  sc_maintenance_budget :: int
  sc_ignored_settings :: "string list"
  sc_app :: app_config

definition MIN_LOCAL_BLOB_SECRET_BYTES :: nat where
  "MIN_LOCAL_BLOB_SECRET_BYTES = 16"

section \<open>Reading one value\<close>

definition cfg_var :: "config_source \<Rightarrow> string \<Rightarrow> string option" where
  "cfg_var src key =
     (case src key of
        None \<Rightarrow> None
      | Some v \<Rightarrow> if str_trim v = [] then None else Some v)"

definition cfg_var_or :: "config_source \<Rightarrow> string \<Rightarrow> string \<Rightarrow> string" where
  "cfg_var_or src key other = (case cfg_var src key of None \<Rightarrow> other | Some v \<Rightarrow> v)"

definition cfg_required :: "config_source \<Rightarrow> string \<Rightarrow> string result" where
  "cfg_required src key = ok_or (Internal (key @ '' must be set'')) (cfg_var src key)"

definition cfg_parse :: "(string \<Rightarrow> 'a option) \<Rightarrow> config_source \<Rightarrow> string \<Rightarrow> 'a \<Rightarrow> 'a result" where
  "cfg_parse parse src key other =
     (case cfg_var src key of
        None \<Rightarrow> Ok other
      | Some raw \<Rightarrow> ok_or (Internal (key @ '' is not a valid value'')) (parse (str_trim raw)))"

definition parse_word :: "string \<Rightarrow> 'w::len word option" where
  "parse_word s = map_option of_nat (parse_unsigned (2 ^ LENGTH('w)) s)"

definition bool_from_str :: "string \<Rightarrow> bool option" where
  "bool_from_str s = (if s = ''true'' then Some True else if s = ''false'' then Some False else None)"

text \<open>A chrono duration holds a number of milliseconds of 64 bits; beyond it the constructors panic.\<close>

definition MAX_DURATION_SECONDS :: int where
  "MAX_DURATION_SECONDS = 9223372036854775"

definition duration_seconds :: "int \<Rightarrow> (unit, int) call" where
  "duration_seconds n = (if \<bar>n\<bar> \<le> MAX_DURATION_SECONDS then call_ok (seconds n) else call_panic)"

definition duration_hours :: "int \<Rightarrow> (unit, int) call" where
  "duration_hours n = duration_seconds (n * 3600)"

definition duration_days :: "int \<Rightarrow> (unit, int) call" where
  "duration_days n = duration_seconds (n * 86400)"

definition std_seconds :: "64 word \<Rightarrow> int" where
  "std_seconds n = seconds (uint n)"

section \<open>The sections of the configuration\<close>

definition blob_backend_of :: "config_source \<Rightarrow> blob_backend_config result" where
  "blob_backend_of src =
     rbind (cfg_required src ''ANYSTORE_BLOB_BACKEND'') (\<lambda>name.
       if name = ''local_fs'' then
         rbind (cfg_required src ''ANYSTORE_LOCAL_BLOB_SECRET'') (\<lambda>secret.
           if length secret < MIN_LOCAL_BLOB_SECRET_BYTES
           then Err (Internal (''ANYSTORE_LOCAL_BLOB_SECRET must be at least '' @
             dec_nat MIN_LOCAL_BLOB_SECRET_BYTES @ '' bytes''))
           else Ok (LocalFs (cfg_var_or src ''ANYSTORE_LOCAL_BLOB_ROOT'' ''./.anystore-blobs'') secret))
       else if name = ''tencent_cos'' then
         rbind (cfg_required src ''ANYSTORE_COS_BUCKET'') (\<lambda>bucket.
         rbind (cfg_required src ''ANYSTORE_COS_ENDPOINT'') (\<lambda>endpoint.
         rbind (cfg_required src ''ANYSTORE_COS_SECRET_ID'') (\<lambda>secret_id.
         rbind (cfg_required src ''ANYSTORE_COS_SECRET_KEY'') (\<lambda>secret_key.
           Ok (TencentCos bucket endpoint secret_id secret_key (cfg_var src ''ANYSTORE_COS_SESSION_TOKEN''))))))
       else Err (Internal (''unsupported ANYSTORE_BLOB_BACKEND '' @ debug_str name)))"

definition database_of :: "config_source \<Rightarrow> database_backend result" where
  "database_of src =
     (let name = cfg_var_or src ''ANYSTORE_DATABASE_BACKEND'' ''postgres'' in
      if name = ''postgres'' then
        rbind (cfg_required src ''ANYSTORE_DATABASE_URL'') (\<lambda>url.
        rbind (cfg_parse bool_from_str src ''ANYSTORE_MIGRATE_ON_START'' True) (\<lambda>migrate.
          Ok (Postgres url migrate)))
      else if name = ''cloudbase_postgrest'' then
        rbind (cfg_required src ''ANYSTORE_CLOUDBASE_PG_BASE_URL'') (\<lambda>base_url.
        rbind (cfg_required src ''ANYSTORE_CLOUDBASE_PG_API_KEY'') (\<lambda>api_key.
        rbind (cfg_parse parse_word src ''ANYSTORE_CLOUDBASE_PG_TIMEOUT_SECONDS'' 20) (\<lambda>timeout.
          Ok (CloudBasePostgrest
            \<lparr>pc_base_url = base_url, pc_api_key = api_key,
             pc_rpc_path = cfg_var_or src ''ANYSTORE_CLOUDBASE_PG_RPC_PATH'' DEFAULT_RPC_PATH,
             pc_function_name = cfg_var_or src ''ANYSTORE_CLOUDBASE_PG_FUNCTION'' DEFAULT_FUNCTION_NAME,
             pc_timeout = std_seconds timeout\<rparr>))))
      else Err (Internal (''unsupported ANYSTORE_DATABASE_BACKEND '' @ debug_str name)))"

definition port_of :: "config_source \<Rightarrow> 16 word result" where
  "port_of src =
     (case cfg_var src ''ANYSTORE_PORT'' of
        Some _ \<Rightarrow> cfg_parse parse_word src ''ANYSTORE_PORT'' 8088
      | None \<Rightarrow> cfg_parse parse_word src ''PORT'' 8088)"

definition duration_setting ::
  "(int \<Rightarrow> (unit, int) call) \<Rightarrow> config_source \<Rightarrow> string \<Rightarrow> int \<Rightarrow> (unit, int) call" where
  "duration_setting unit_of src key other =
     call_bind (call_result (cfg_parse parse_i64 src key other)) unit_of"

definition app_config_of :: "config_source \<Rightarrow> (unit, app_config) call" where
  "app_config_of src =
     call_bind (duration_setting duration_hours src ''ANYSTORE_IDEMPOTENCY_RETENTION_HOURS'' 24) (\<lambda>retention.
     call_bind (duration_setting duration_days src ''ANYSTORE_CHANGES_RETENTION_DAYS'' 30) (\<lambda>changes.
     call_bind (duration_setting duration_days src ''ANYSTORE_CHANGES_CURSOR_TTL_DAYS'' 30) (\<lambda>cursor_ttl.
     call_bind (duration_setting duration_hours src ''ANYSTORE_UPLOAD_EXPIRY_HOURS'' 24) (\<lambda>upload_expiry.
     call_bind (duration_setting duration_seconds src ''ANYSTORE_DOWNLOAD_URL_EXPIRY_SECONDS'' 600) (\<lambda>download_url.
     call_bind (duration_setting duration_seconds src ''ANYSTORE_UPLOAD_URL_EXPIRY_SECONDS'' 21600) (\<lambda>upload_url.
     call_bind (call_result (cfg_parse parse_word src ''ANYSTORE_MULTIPART_THRESHOLD_BYTES'' (64 * 1024 * 1024))) (\<lambda>threshold.
     call_bind (call_result (cfg_parse parse_word src ''ANYSTORE_PART_SIZE_BYTES'' (16 * 1024 * 1024))) (\<lambda>part_size.
       call_ok (config_default
         \<lparr>ac_idempotency_retention := retention, ac_changes_retention := changes,
          ac_changes_cursor_ttl := cursor_ttl, ac_upload_expiry := upload_expiry,
          ac_download_url_expiry := download_url, ac_upload_url_expiry := upload_url,
          ac_multipart_threshold := threshold, ac_part_size := part_size\<rparr>)))))))))"

definition maintenance_schedule_of :: "time_lib \<Rightarrow> config_source \<Rightarrow> daily_schedule option result" where
  "maintenance_schedule_of lib src =
     (let raw = cfg_var_or src ''ANYSTORE_MAINTENANCE_DAILY_AT'' ''03:00'' in
      if eq_ignore_ascii_case (str_trim raw) ''off'' then Ok None
      else
        rbind (ok_or (Internal ''ANYSTORE_MAINTENANCE_DAILY_AT must be HH:MM or off'')
          (tl_parse_time lib (str_trim raw))) (\<lambda>clock.
        rbind (cfg_parse (tl_parse_offset lib) src ''ANYSTORE_MAINTENANCE_UTC_OFFSET'' (seconds (8 * 3600)))
          (\<lambda>offset. Ok (Some \<lparr>ds_at = clock, ds_offset = offset\<rparr>))))"

definition auth_token_of :: "config_source \<Rightarrow> string option result" where
  "auth_token_of src =
     (case cfg_var src ''ANYSTORE_AUTH_TOKEN'' of
        Some token \<Rightarrow> Ok (Some token)
      | None \<Rightarrow>
          rbind (cfg_parse bool_from_str src ''ANYSTORE_ALLOW_ANONYMOUS'' False) (\<lambda>allowed.
            if \<not> allowed
            then Err (Internal (''ANYSTORE_AUTH_TOKEN must be set; set ANYSTORE_ALLOW_ANONYMOUS=true '' @
              ''to run without authentication''))
            else Ok None))"

definition from_source :: "time_lib \<Rightarrow> config_source \<Rightarrow> (unit, server_config) call" where
  "from_source lib src =
     call_bind (call_result (blob_backend_of src)) (\<lambda>blob.
     call_bind (call_result (database_of src)) (\<lambda>database.
     call_bind (call_result (port_of src)) (\<lambda>port.
     call_bind (app_config_of src) (\<lambda>app.
     call_bind (call_result (auth_token_of src)) (\<lambda>token.
     call_bind (call_result (maintenance_schedule_of lib src)) (\<lambda>schedule.
     call_bind (call_result (cfg_parse parse_word src ''ANYSTORE_MAINTENANCE_BUDGET_SECONDS'' 20)) (\<lambda>budget.
       call_ok
         \<lparr>sc_port = port, sc_database = database, sc_auth_token = token,
          sc_public_base_url = cfg_var_or src ''ANYSTORE_PUBLIC_BASE_URL''
            (''http://127.0.0.1:'' @ dec_nat (unat port)),
          sc_blob_backend = blob, sc_maintenance_schedule = schedule,
          sc_maintenance_budget = std_seconds budget,
          sc_ignored_settings = filter (\<lambda>key. cfg_var src key \<noteq> None) [''ANYSTORE_MAINTENANCE_INTERVAL_SECONDS''],
          sc_app = app\<rparr>)))))))"

section \<open>The daily schedule\<close>

text \<open>
  \<open>next_after\<close>: today's run in local time if it is still ahead, else tomorrow's. Instants and
  offsets are nanoseconds; a local time is the instant plus the offset.
\<close>

definition one_day :: time where
  "one_day = days 1"

definition next_after :: "daily_schedule \<Rightarrow> time \<Rightarrow> time" where
  "next_after sched now =
     (let local_date = (now + ds_offset sched) div one_day;
          today = local_date * one_day + ds_at sched - ds_offset sched in
      if now < today then today else today + one_day)"

text \<open>How long the background task sleeps: \<open>to_std().unwrap_or_default()\<close> of what is left.\<close>

definition maintenance_wait :: "daily_schedule \<Rightarrow> time \<Rightarrow> time \<Rightarrow> time" where
  "maintenance_wait sched now later = max 0 (next_after sched now - later)"

section \<open>Lemmas\<close>

lemma duration_setting_Ok:
  "duration_setting unit_of src key other s = Some (Ok d, t) \<longleftrightarrow>
     (\<exists>n. cfg_parse parse_i64 src key other = Ok n \<and> unit_of n s = Some (Ok d, t))"
  by (simp add: duration_setting_def call_bind_Ok_iff call_simps)

lemma cfg_var_Some: "cfg_var src key = Some v \<longleftrightarrow> src key = Some v \<and> str_trim v \<noteq> []"
  by (auto simp: cfg_var_def split: option.splits if_splits)

text \<open>A configuration is made of what its sections gave, one after the other.\<close>

lemma from_source_Ok:
  assumes "from_source lib src () = Some (Ok cfg, ())"
  shows "blob_backend_of src = Ok (sc_blob_backend cfg) \<and> database_of src = Ok (sc_database cfg) \<and>
    port_of src = Ok (sc_port cfg) \<and> app_config_of src () = Some (Ok (sc_app cfg), ()) \<and>
    auth_token_of src = Ok (sc_auth_token cfg) \<and>
    maintenance_schedule_of lib src = Ok (sc_maintenance_schedule cfg)"
  using assms by (auto simp: from_source_def call_bind_Ok_iff call_simps)

end
