(* ===== verification/ServerProps.thy ===== *)
theory ServerProps
  imports ServerConfig HttpAuth
begin

text \<open>
  What the configuration guarantees: authentication is never off by accident, storage is always
  chosen, a token that no request can present; and the daily schedule.
\<close>

section \<open>Configuration\<close>

text \<open>The authentication that \<open>main.rs\<close> hands to the HTTP layer.\<close>

definition auth_of :: "server_config \<Rightarrow> string option" where
  "auth_of cfg = (case sc_auth_token cfg of Some token \<Rightarrow> Some token | None \<Rightarrow> None)"

lemma auth_of_token [simp]: "auth_of cfg = sc_auth_token cfg"
  by (simp add: auth_of_def split: option.split)

lemma cfg_required_Ok [simp]:
  "cfg_required src key = Ok v \<longleftrightarrow> src key = Some v \<and> str_trim v \<noteq> []"
  by (simp add: cfg_required_def cfg_var_Some)

lemma cfg_parse_Ok:
  "cfg_parse parse src key other = Ok a \<longleftrightarrow>
     (case cfg_var src key of None \<Rightarrow> a = other | Some raw \<Rightarrow> parse (str_trim raw) = Some a)"
  by (auto simp: cfg_parse_def split: option.split)

lemma bool_from_str_True: "bool_from_str s = Some True \<longleftrightarrow> s = ''true''"
  by (simp add: bool_from_str_def)

lemma auth_token_open:
  "auth_token_of src = Ok None \<Longrightarrow>
     cfg_var src ''ANYSTORE_AUTH_TOKEN'' = None \<and>
     (\<exists>v. src ''ANYSTORE_ALLOW_ANONYMOUS'' = Some v \<and> str_trim v = ''true'')"
  by (auto simp: auth_token_of_def rbind_Ok_iff cfg_parse_Ok cfg_var_Some bool_from_str_True
      split: option.splits if_splits)

lemma auth_token_set:
  "auth_token_of src = Ok (Some t) \<Longrightarrow> src ''ANYSTORE_AUTH_TOKEN'' = Some t \<and> str_trim t \<noteq> []"
  by (auto simp: auth_token_of_def rbind_Ok_iff cfg_var_Some split: option.splits if_splits)

lemma blob_backend_chosen:
  "blob_backend_of src = Ok b \<Longrightarrow>
     (case b of
        LocalFs dir secret \<Rightarrow> src ''ANYSTORE_BLOB_BACKEND'' = Some ''local_fs'' \<and>
          src ''ANYSTORE_LOCAL_BLOB_SECRET'' = Some secret \<and> 16 \<le> length secret
      | TencentCos bucket endpoint i k t \<Rightarrow> src ''ANYSTORE_BLOB_BACKEND'' = Some ''tencent_cos'' \<and>
          src ''ANYSTORE_COS_BUCKET'' = Some bucket \<and> src ''ANYSTORE_COS_ENDPOINT'' = Some endpoint \<and>
          src ''ANYSTORE_COS_SECRET_ID'' = Some i \<and> src ''ANYSTORE_COS_SECRET_KEY'' = Some k)"
  by (auto simp: blob_backend_of_def rbind_Ok_iff MIN_LOCAL_BLOB_SECRET_BYTES_def split: if_splits)

text \<open>
  C38: the server is never open or unsafe by accident. A configuration without a token exists only
  where no token is set and \<open>ANYSTORE_ALLOW_ANONYMOUS\<close> says true; a token is the value of its
  variable and not blank; and blobs go nowhere but to the backend that is named, on local disk
  only with a signing secret of at least sixteen bytes.
\<close>

theorem server_open_only_on_request:
  assumes "from_source lib src () = Some (Ok cfg, ())"
  shows "(case auth_of cfg of
      None \<Rightarrow> cfg_var src ''ANYSTORE_AUTH_TOKEN'' = None \<and>
        (\<exists>v. src ''ANYSTORE_ALLOW_ANONYMOUS'' = Some v \<and> str_trim v = ''true'')
    | Some t \<Rightarrow> src ''ANYSTORE_AUTH_TOKEN'' = Some t \<and> str_trim t \<noteq> []) \<and>
    (case sc_blob_backend cfg of
        LocalFs dir secret \<Rightarrow> src ''ANYSTORE_BLOB_BACKEND'' = Some ''local_fs'' \<and>
          src ''ANYSTORE_LOCAL_BLOB_SECRET'' = Some secret \<and> 16 \<le> length secret
      | TencentCos bucket endpoint i k t \<Rightarrow> src ''ANYSTORE_BLOB_BACKEND'' = Some ''tencent_cos'' \<and>
          src ''ANYSTORE_COS_BUCKET'' = Some bucket \<and> src ''ANYSTORE_COS_ENDPOINT'' = Some endpoint \<and>
          src ''ANYSTORE_COS_SECRET_ID'' = Some i \<and> src ''ANYSTORE_COS_SECRET_KEY'' = Some k)"
proof -
  from from_source_Ok [OF assms]
  have auth: "auth_token_of src = Ok (sc_auth_token cfg)" and blob: "blob_backend_of src = Ok (sc_blob_backend cfg)"
    by blast+
  show ?thesis
    using auth_token_open [of src] auth_token_set [of src] auth blob_backend_chosen [OF blob]
    by (cases "sc_auth_token cfg") simp_all
qed

definition sample_settings :: "string \<Rightarrow> config_source" where
  "sample_settings token =
     [''ANYSTORE_BLOB_BACKEND'' \<mapsto> ''local_fs'', ''ANYSTORE_LOCAL_BLOB_SECRET'' \<mapsto> ''0123456789abcdef'',
      ''ANYSTORE_DATABASE_URL'' \<mapsto> ''postgres://localhost/anystore'', ''ANYSTORE_AUTH_TOKEN'' \<mapsto> token,
      ''ANYSTORE_MAINTENANCE_DAILY_AT'' \<mapsto> ''off'']"

definition sample_time_lib :: time_lib where
  "sample_time_lib = \<lparr>tl_parse_time = parse_i64, tl_parse_offset = parse_i64\<rparr>"

lemma sample_shown:
  "str_trim ''local_fs'' = ''local_fs''" "str_trim ''0123456789abcdef'' = ''0123456789abcdef''"
  "str_trim ''postgres://localhost/anystore'' = ''postgres://localhost/anystore''" "str_trim ''off'' = ''off''"
  by (rule str_trim_visible; simp add: is_ascii_graphic_def in_range_def)+

lemma sample_absent:
  "key \<notin> dom (sample_settings token) \<Longrightarrow> cfg_var (sample_settings token) key = None"
  by (auto simp: cfg_var_def split: option.split)

lemma sample_keys:
  "dom (sample_settings token) = {''ANYSTORE_BLOB_BACKEND'', ''ANYSTORE_LOCAL_BLOB_SECRET'',
     ''ANYSTORE_DATABASE_URL'', ''ANYSTORE_AUTH_TOKEN'', ''ANYSTORE_MAINTENANCE_DAILY_AT''}"
  by (auto simp: sample_settings_def)

lemma sample_present:
  "cfg_var (sample_settings token) ''ANYSTORE_BLOB_BACKEND'' = Some ''local_fs''"
  "cfg_var (sample_settings token) ''ANYSTORE_LOCAL_BLOB_SECRET'' = Some ''0123456789abcdef''"
  "cfg_var (sample_settings token) ''ANYSTORE_DATABASE_URL'' = Some ''postgres://localhost/anystore''"
  "cfg_var (sample_settings token) ''ANYSTORE_MAINTENANCE_DAILY_AT'' = Some ''off''"
  "str_trim token \<noteq> [] \<Longrightarrow> cfg_var (sample_settings token) ''ANYSTORE_AUTH_TOKEN'' = Some token"
  by (simp_all add: cfg_var_Some sample_shown) (simp_all add: sample_settings_def)

lemma sample_app: "\<exists>a. app_config_of (sample_settings token) () = Some (Ok a, ())"
  by (simp add: app_config_of_def duration_setting_def cfg_parse_def sample_absent sample_keys
      duration_hours_def duration_days_def duration_seconds_def MAX_DURATION_SECONDS_def call_simps)

lemma sample_blob:
  "blob_backend_of (sample_settings token) = Ok (LocalFs ''./.anystore-blobs'' ''0123456789abcdef'')"
  by (simp add: blob_backend_of_def cfg_required_def cfg_var_or_def sample_present sample_absent sample_keys
      MIN_LOCAL_BLOB_SECRET_BYTES_def)

lemma sample_database:
  "database_of (sample_settings token) = Ok (Postgres ''postgres://localhost/anystore'' True)"
  by (simp add: database_of_def cfg_required_def cfg_var_or_def cfg_parse_def sample_present sample_absent sample_keys)

lemma sample_rest:
  "port_of (sample_settings token) = Ok 8088"
  "maintenance_schedule_of sample_time_lib (sample_settings token) = Ok None"
  "cfg_parse parse_word (sample_settings token) ''ANYSTORE_MAINTENANCE_BUDGET_SECONDS'' n = Ok n"
  by (simp_all add: port_of_def maintenance_schedule_of_def cfg_var_or_def cfg_parse_def sample_present
      sample_absent sample_keys sample_shown eq_ignore_ascii_case_def)

lemma sample_settings_read:
  assumes "str_trim token \<noteq> []"
  shows "\<exists>cfg. from_source sample_time_lib (sample_settings token) () = Some (Ok cfg, ()) \<and>
     sc_auth_token cfg = Some token \<and> sc_blob_backend cfg = LocalFs ''./.anystore-blobs'' ''0123456789abcdef''"
proof -
  obtain a where "app_config_of (sample_settings token) () = Some (Ok a, ())" using sample_app by blast
  moreover have "auth_token_of (sample_settings token) = Ok (Some token)"
    by (simp add: auth_token_of_def sample_present assms)
  ultimately show ?thesis
    by (simp add: from_source_def sample_blob sample_database sample_rest call_simps)
qed

lemma sample_token_shown: "str_trim ''s3cret'' \<noteq> []" "str_trim ''s3cret '' \<noteq> []"
  by code_simp+

theorem server_open_only_on_request_witness:
  "\<exists>cfg. from_source sample_time_lib (sample_settings ''s3cret'') () = Some (Ok cfg, ()) \<and>
     sc_auth_token cfg = Some ''s3cret'' \<and> (\<exists>dir secret. sc_blob_backend cfg = LocalFs dir secret \<and> 16 \<le> length secret)"
proof -
  from sample_settings_read [of "''s3cret''"] sample_token_shown obtain cfg where
    run: "from_source sample_time_lib (sample_settings ''s3cret'') () = Some (Ok cfg, ())"
    and cfg: "sc_auth_token cfg = Some ''s3cret''" "sc_blob_backend cfg = LocalFs ''./.anystore-blobs'' ''0123456789abcdef''"
    by blast
  from server_open_only_on_request [OF run] cfg run show ?thesis by auto
qed

section \<open>A token with blanks around it\<close>

lemma dropWhile_idem: "dropWhile P (dropWhile P s) = dropWhile P s"
  by (induction s) simp_all

lemma dropWhile_rev_keeps: "dropWhile P s = s \<Longrightarrow> dropWhile P (rev (dropWhile Q (rev s))) = rev (dropWhile Q (rev s))"
proof -
  assume s: "dropWhile P s = s"
  have "\<exists>t. s = rev (dropWhile Q (rev s)) @ t"
    by (metis rev_append rev_rev_ident takeWhile_dropWhile_id)
  then obtain t where t: "s = rev (dropWhile Q (rev s)) @ t" by blast
  show ?thesis
  proof (cases "rev (dropWhile Q (rev s))")
    case Nil
    show ?thesis unfolding Nil by simp
  next
    case (Cons c cs)
    with t have "hd s = c" "s \<noteq> []" by (metis append_Cons list.sel(1), metis append_is_Nil_conv list.distinct(1))
    with s have "\<not> P c" by (metis hd_dropWhile)
    then show ?thesis unfolding Cons by simp
  qed
qed

lemma trim_idem: "trim (trim s) = trim s"
  by (simp add: trim_def dropWhile_rev_keeps dropWhile_idem)

lemma str_trim_Nil: "str_trim [] = []"
  by code_simp

text \<open>
  C39: a token with white space around it locks every client out. The configuration takes the
  value of \<open>ANYSTORE_AUTH_TOKEN\<close> as it is, and the HTTP layer trims what a client presents before
  it compares, so no \<open>Authorization\<close> header whatsoever is accepted.
\<close>

theorem padded_token_locks_out:
  assumes "from_source lib src () = Some (Ok cfg, ())"
    and "cfg_var src ''ANYSTORE_AUTH_TOKEN'' = Some token" and "trim token \<noteq> token"
  shows "authenticate http (auth_of cfg) headers = Err Unauthorized"
proof -
  from assms(2) have set: "src ''ANYSTORE_AUTH_TOKEN'' = Some token" "str_trim token \<noteq> []"
    by (simp_all add: cfg_var_Some)
  from from_source_Ok [OF assms(1)] assms(2) have "sc_auth_token cfg = Some token"
    by (simp add: auth_token_of_def)
  moreover have "presented_token http headers \<noteq> token"
  proof
    assume "presented_token http headers = token"
    then consider "token = []" | v where "token = trim v"
      by (auto simp: presented_token_def split: option.splits)
    then show False
      using set(2) assms(3) by cases (simp_all add: str_trim_Nil trim_idem)
  qed
  ultimately show ?thesis by (simp add: authenticate_def secret_eq_iff)
qed

theorem padded_token_locks_out_witness:
  "\<exists>cfg. from_source sample_time_lib (sample_settings ''s3cret '') () = Some (Ok cfg, ()) \<and>
     authenticate sample_http_lib (auth_of cfg) [(''authorization'', ''Bearer s3cret '')] = Err Unauthorized"
proof -
  from sample_settings_read [of "''s3cret ''"] sample_token_shown obtain cfg where
    run: "from_source sample_time_lib (sample_settings ''s3cret '') () = Some (Ok cfg, ())" by blast
  moreover have "cfg_var (sample_settings ''s3cret '') ''ANYSTORE_AUTH_TOKEN'' = Some ''s3cret ''" by code_simp
  moreover have "trim ''s3cret '' \<noteq> ''s3cret ''" by code_simp
  ultimately show ?thesis using padded_token_locks_out by blast
qed

section \<open>The schedule\<close>

text \<open>An instant at which the schedule fires: its local time of day is the one that is set.\<close>

definition fires_at :: "daily_schedule \<Rightarrow> time \<Rightarrow> bool" where
  "fires_at sched t \<longleftrightarrow> (t + ds_offset sched) mod one_day = ds_at sched"

lemma one_day_pos: "0 < one_day"
  by (simp add: one_day_def days_def hours_def seconds_def)

lemma fires_apart:
  assumes "fires_at sched t" and "fires_at sched u" and "t < u"
  shows "t + one_day \<le> u"
proof -
  from assms(1,2) have "(u + ds_offset sched) mod one_day = (t + ds_offset sched) mod one_day"
    by (simp add: fires_at_def)
  then have "one_day dvd (u + ds_offset sched) - (t + ds_offset sched)" by (simp add: mod_eq_dvd_iff)
  then have "one_day dvd u - t" by simp
  with assms(3) have "one_day \<le> u - t" by (intro zdvd_imp_le) simp_all
  then show ?thesis by simp
qed

lemma next_after_fires:
  assumes "0 \<le> ds_at sched" and "ds_at sched < one_day"
  shows "fires_at sched (next_after sched now) \<and> now < next_after sched now \<and> next_after sched now \<le> now + one_day"
proof -
  define q where "q = (now + ds_offset sched) div one_day"
  define r where "r = (now + ds_offset sched) mod one_day"
  have now: "now = q * one_day + r - ds_offset sched" by (simp add: q_def r_def)
  have r: "0 \<le> r" "r < one_day" using one_day_pos by (simp_all add: r_def)
  have "next_after sched now =
      (if r < ds_at sched then q else q + 1) * one_day + ds_at sched - ds_offset sched"
    by (simp add: next_after_def Let_def q_def [symmetric] distrib_right) (simp add: now)
  moreover have "(k * one_day + ds_at sched) mod one_day = ds_at sched" for k
    using assms by simp
  ultimately show ?thesis
    using r assms by (simp add: fires_at_def now distrib_right)
qed

text \<open>
  The next run is the first instant after now at which local time is the set time of day. It
  lies at most one day ahead, nothing in between fires, the run after it comes exactly one day
  later, and the background task, which computes how long to sleep from a later reading of the
  clock, does not wake up before it.
\<close>

theorem next_run_is_the_first:
  assumes "0 \<le> ds_at sched" and "ds_at sched < one_day"
  shows "fires_at sched (next_after sched now) \<and> now < next_after sched now \<and>
    next_after sched now \<le> now + one_day \<and>
    (\<forall>t. now < t \<and> t < next_after sched now \<longrightarrow> \<not> fires_at sched t) \<and>
    next_after sched (next_after sched now) = next_after sched now + one_day \<and>
    next_after sched now \<le> later + maintenance_wait sched now later"
proof -
  note first = next_after_fires [OF assms]
  have "\<not> fires_at sched t" if "now < t" "t < next_after sched now" for t
    using fires_apart [of sched t "next_after sched now"] first [of now] that by auto
  moreover have "next_after sched (next_after sched now) = next_after sched now + one_day"
    using fires_apart [of sched "next_after sched now"] first [of now] first [of "next_after sched now"] by force
  ultimately show ?thesis
    using first [of now] by (auto simp: maintenance_wait_def)
qed

text \<open>03:00 at +08:00, on the evening of the epoch and just at the run.\<close>

theorem next_run_is_the_first_witness:
  "next_after \<lparr>ds_at = hours 3, ds_offset = hours 8\<rparr> (hours 17) = hours 19 \<and>
   fires_at \<lparr>ds_at = hours 3, ds_offset = hours 8\<rparr> (hours 19) \<and>
   next_after \<lparr>ds_at = hours 3, ds_offset = hours 8\<rparr> (hours 19) = hours 19 + one_day"
proof -
  let ?s = "\<lparr>ds_at = hours 3, ds_offset = hours 8\<rparr>"
  have "next_after ?s (hours 17) = hours 19" by code_simp
  with next_run_is_the_first [of ?s "hours 17"] show ?thesis
    by (simp add: one_day_def days_def hours_def seconds_def)
qed

end
