(* ===== verification/SqlDatabase.thy ===== *)
theory SqlDatabase
  imports Calls
begin

text \<open>
  The database behind \<open>anystore-metastore-postgres\<close> (\<open>migrations/0001_init.sql\<close>, \<open>errors.rs\<close>) as the
  adapter's transactions see it: the tables as lists of rows, statements, transactions that are
  rolled back or committed, failures at any statement, and other sessions that commit in between.
\<close>

section \<open>Errors\<close>

text \<open>
  An error of the \<open>sqlx\<close> crate: one that the database reports, with its SQLSTATE, the constraint
  it names and its text, or any other.
\<close>

datatype sqlx_error =
    SqlxDatabase "string option" "string option" string
  | SqlxOther string

fun sqlx_text :: "sqlx_error \<Rightarrow> string" where
  "sqlx_text (SqlxDatabase _ _ text) = text"
| "sqlx_text (SqlxOther text) = text"

definition LIVE_NAME_UNIQUE :: string where
  "LIVE_NAME_UNIQUE = ''objects_live_parent_name_uq''"

definition RETRYABLE_SQLSTATES :: "string list" where
  "RETRYABLE_SQLSTATES = [''55P03'', ''40P01'', ''40001'']"

fun map_sqlx :: "sqlx_error \<Rightarrow> domain_error" where
  "map_sqlx (SqlxDatabase state constraint text) =
     (if constraint = Some LIVE_NAME_UNIQUE then NameConflict
      else if (case state of None \<Rightarrow> False | Some c \<Rightarrow> c \<in> set RETRYABLE_SQLSTATES) then RateLimited
      else Internal (sqlx_text (SqlxDatabase state constraint text)))"
| "map_sqlx (SqlxOther text) = Internal (sqlx_text (SqlxOther text))"

fun is_name_conflict :: "sqlx_error \<Rightarrow> bool" where
  "is_name_conflict (SqlxDatabase _ constraint _) \<longleftrightarrow> constraint = Some LIVE_NAME_UNIQUE"
| "is_name_conflict (SqlxOther _) \<longleftrightarrow> False"

text \<open>The errors that the statements themselves can raise.\<close>

definition unique_violation :: "string \<Rightarrow> sqlx_error" where
  "unique_violation constraint =
     SqlxDatabase (Some ''23505'') (Some constraint) (''duplicate key: '' @ constraint)"

definition foreign_key_violation :: "string \<Rightarrow> sqlx_error" where
  "foreign_key_violation constraint =
     SqlxDatabase (Some ''23503'') (Some constraint) (''missing key: '' @ constraint)"

definition out_of_range :: sqlx_error where
  "out_of_range = SqlxDatabase (Some ''22003'') None ''out of range''"

section \<open>The pool\<close>

text \<open>
  \<open>PoolConfig\<close> with its defaults, and the statement that \<open>connect\<close> runs on every new connection.
  Durations are numbers of milliseconds.
\<close>

record pool_config =
  pc_min_connections :: nat
  pc_max_connections :: nat
  pc_acquire_timeout :: nat
  pc_statement_timeout :: nat
  pc_lock_timeout :: nat
  pc_idle_in_transaction_timeout :: nat

definition pool_config_default :: pool_config where
  "pool_config_default =
     \<lparr>pc_min_connections = 0, pc_max_connections = 5, pc_acquire_timeout = 10 * 1000,
      pc_statement_timeout = 15 * 1000, pc_lock_timeout = 5 * 1000,
      pc_idle_in_transaction_timeout = 30 * 1000\<rparr>"

definition session_settings :: "pool_config \<Rightarrow> string" where
  "session_settings config =
     ''SET statement_timeout = '' @ dec_nat (pc_statement_timeout config)
     @ ''; SET lock_timeout = '' @ dec_nat (pc_lock_timeout config)
     @ ''; SET idle_in_transaction_session_timeout = ''
     @ dec_nat (pc_idle_in_transaction_timeout config)"

section \<open>Tables\<close>

text \<open>
  The columns as the schema declares them. A \<open>BIGINT\<close> that the code casts from or to \<open>u64\<close> is
  its 64 bits, and \<open>INTEGER\<close> likewise; the state columns are text.
\<close>

record object_row =
  obr_id :: string
  obr_revision :: "64 word"
  obr_kind :: string
  obr_name :: string
  obr_parent_id :: "string option"
  obr_content_type :: "string option"
  obr_size_bytes :: "64 word option"
  obr_sha256 :: "string option"
  obr_content_state :: "string option"
  obr_blob_backend :: "string option"
  obr_blob_ref :: "string option"
  obr_metadata :: json
  obr_created_at :: time
  obr_updated_at :: time
  obr_deleted_at :: "time option"

record upload_row =
  upr_id :: string
  upr_object_id :: string
  upr_state :: string
  upr_mode :: string
  upr_blob_backend :: string
  upr_blob_ref :: string
  upr_provider_upload_id :: "string option"
  upr_expected_size :: "64 word"
  upr_content_type :: string
  upr_expected_sha256 :: "string option"
  upr_provider_completed :: bool
  upr_created_at :: time
  upr_expires_at :: time
  upr_completed_at :: "time option"
  upr_aborted_at :: "time option"

record key_row =
  ker_principal_id :: string
  ker_operation :: string
  ker_idempotency_key :: string
  ker_request_hash :: string
  ker_state :: string
  ker_owner_token :: "string option"
  ker_lease_until :: "time option"
  ker_status_code :: "nat option"
  ker_response_headers :: "json option"
  ker_response_body :: "string option"
  ker_created_at :: time
  ker_completed_at :: "time option"
  ker_expires_at :: time

record change_row =
  chr_seq :: int
  chr_change_id :: string
  chr_object_id :: string
  chr_revision :: "64 word"
  chr_action :: string
  chr_changed_at :: time
  chr_request_id :: string
  chr_idempotency_key :: "string option"
  chr_tombstone :: bool

record feed_cursor_row =
  fcr_cursor_id :: string
  fcr_after_seq :: int
  fcr_materialized :: bool
  fcr_page_limit :: "32 word option"
  fcr_snapshot_max_seq :: "int option"
  fcr_page_end_seq :: "int option"
  fcr_has_more :: "bool option"
  fcr_next_cursor_id :: "string option"
  fcr_created_at :: time
  fcr_expires_at :: time

record queue_row =
  qur_blob_backend :: string
  qur_blob_ref :: string
  qur_not_before :: time
  qur_attempts :: "32 word"
  qur_last_error :: "string option"

record sql_tables =
  tb_objects :: "object_row list"
  tb_uploads :: "upload_row list"
  tb_keys :: "key_row list"
  tb_changes :: "change_row list"
  tb_cursors :: "feed_cursor_row list"
  tb_purged_through :: int
  tb_queue :: "queue_row list"

text \<open>The state after \<open>0001_init.sql\<close>: the root folder, and the watermark at zero.\<close>

definition root_row :: "time \<Rightarrow> object_row" where
  "root_row now =
     \<lparr>obr_id = ''root'', obr_revision = 1, obr_kind = ''folder'', obr_name = [], obr_parent_id = None,
      obr_content_type = None, obr_size_bytes = None, obr_sha256 = None, obr_content_state = None,
      obr_blob_backend = None, obr_blob_ref = None, obr_metadata = JObject [], obr_created_at = now,
      obr_updated_at = now, obr_deleted_at = None\<rparr>"

definition migrated_tables :: "time \<Rightarrow> sql_tables" where
  "migrated_tables now =
     \<lparr>tb_objects = [root_row now], tb_uploads = [], tb_keys = [], tb_changes = [], tb_cursors = [],
      tb_purged_through = 0, tb_queue = []\<rparr>"

text \<open>
  What the database does to values, and how it compares them: what a \<open>TIMESTAMPTZ\<close> and a \<open>JSONB\<close>
  read back as, equality of \<open>JSONB\<close>, and the sort key of a text under the collation of the
  database. And the codecs of the cursors: base64 of JSON, and the format of instants in them.
\<close>

record sql_lib =
  sl_timestamptz :: "time \<Rightarrow> time"
  sl_jsonb :: "json \<Rightarrow> json"
  sl_jsonb_eq :: "json \<Rightarrow> json \<Rightarrow> bool"
  sl_collate :: "string \<Rightarrow> string"
  sl_codec :: cursor_codec
  sl_to_rfc3339 :: "time \<Rightarrow> string"
  sl_parse_rfc3339 :: "string \<Rightarrow> time option"

section \<open>Sessions\<close>

text \<open>
  One session and what happens around it. A script says, statement by statement, what the other
  sessions have committed since the last one, and whether the statement fails: it is refused, or
  it runs and its answer is lost. Without a script nobody interferes and nothing fails.
\<close>

datatype fault = NoFault | Refused sqlx_error | AnswerLost sqlx_error

record script_step =
  ss_others :: "sql_tables \<Rightarrow> sql_tables"
  ss_fault :: fault

text \<open>
  The writes of the open transaction stand on top of what is committed: under \<open>READ COMMITTED\<close> a
  statement sees what others have committed and what its own transaction has written. The
  sequence is outside of transactions. \<open>db_change_lock\<close> says whether the session holds the
  advisory lock that orders changes; as every writer of an object and of the feed takes it before
  it commits, others neither write objects nor append changes while it does. Old changes can be
  purged all the same.
\<close>

record database =
  db_committed :: sql_tables
  db_writes :: "sql_tables \<Rightarrow> sql_tables"
  db_next_seq :: int
  db_change_lock :: bool
  db_script :: "script_step list"

definition session_of :: "sql_tables \<Rightarrow> int \<Rightarrow> script_step list \<Rightarrow> database" where
  "session_of t n script =
     \<lparr>db_committed = t, db_writes = id, db_next_seq = n, db_change_lock = False, db_script = script\<rparr>"

definition db_view :: "database \<Rightarrow> sql_tables" where
  "db_view d = db_writes d (db_committed d)"

definition under_lock :: "sql_tables \<Rightarrow> sql_tables \<Rightarrow> sql_tables" where
  "under_lock t u =
     u\<lparr>tb_objects := tb_objects t, tb_changes := filter (\<lambda>r. r \<in> set (tb_changes t)) (tb_changes u)\<rparr>"

definition others_commit :: "(sql_tables \<Rightarrow> sql_tables) \<Rightarrow> database \<Rightarrow> database" where
  "others_commit f d =
     (let t = f (db_committed d)
      in d\<lparr>db_committed := (if db_change_lock d then under_lock (db_committed d) t else t)\<rparr>)"

definition next_step :: "database \<Rightarrow> fault \<times> database" where
  "next_step d =
     (case db_script d of
        [] \<Rightarrow> (NoFault, d)
      | st # rest \<Rightarrow> (ss_fault st, (others_commit (ss_others st) d)\<lparr>db_script := rest\<rparr>))"

text \<open>
  A statement reads the tables and gives its rows and its writes, or an error. \<open>run_sql\<close> is its
  execution, with the error of the driver as the code gets it; \<open>sql\<close> is that with the usual
  \<open>.map_err(map_sqlx)?\<close>.
\<close>

type_synonym 'a statement = "sql_tables \<Rightarrow> sqlx_error + ('a \<times> (sql_tables \<Rightarrow> sql_tables))"

definition run_sql :: "'a statement \<Rightarrow> (database, sqlx_error + 'a) call" where
  "run_sql q d =
     (case next_step d of
        (Refused e, d1) \<Rightarrow> Some (Ok (Inl e), d1)
      | (flt, d1) \<Rightarrow>
          (case q (db_view d1) of
             Inl e \<Rightarrow> Some (Ok (Inl e), d1)
           | Inr (rows, w) \<Rightarrow>
               Some (Ok (case flt of AnswerLost e \<Rightarrow> Inl e | _ \<Rightarrow> Inr rows),
                     d1\<lparr>db_writes := w \<circ> db_writes d1\<rparr>)))"

definition sql_ok :: "sqlx_error + 'a \<Rightarrow> (database, 'a) call" where
  "sql_ok r = (case r of Inl e \<Rightarrow> call_err (map_sqlx e) | Inr a \<Rightarrow> call_ok a)"

definition sql :: "'a statement \<Rightarrow> (database, 'a) call" where
  "sql q = call_bind (run_sql q) sql_ok"

text \<open>A query only reads.\<close>

definition select :: "(sql_tables \<Rightarrow> 'a) \<Rightarrow> 'a statement" where
  "select f t = Inr (f t, id)"

text \<open>
  Transactions. Dropping a transaction that is not committed rolls it back, which every early
  return of an error does; the locks go with it. Committing is an exchange of its own: refused,
  it commits nothing; its answer lost, it has committed.
\<close>

definition end_transaction :: "sql_tables \<Rightarrow> database \<Rightarrow> database" where
  "end_transaction t d = d\<lparr>db_committed := t, db_writes := id, db_change_lock := False\<rparr>"

definition begin_transaction :: "(database, unit) call" where
  "begin_transaction = sql (select (\<lambda>_. ()))"

definition rollback :: "database \<Rightarrow> database" where
  "rollback d = end_transaction (db_committed d) d"

definition commit :: "'a \<Rightarrow> (database, 'a) call" where
  "commit a d =
     (case next_step d of
        (NoFault, d1) \<Rightarrow> Some (Ok a, end_transaction (db_view d1) d1)
      | (Refused e, d1) \<Rightarrow> Some (Err (map_sqlx e), rollback d1)
      | (AnswerLost e, d1) \<Rightarrow> Some (Err (map_sqlx e), end_transaction (db_view d1) d1))"

definition in_transaction :: "(database, 'a) call \<Rightarrow> (database, 'a) call" where
  "in_transaction body d =
     (case call_then begin_transaction body d of
        None \<Rightarrow> None
      | Some (Inl e, d') \<Rightarrow> Some (Err e, rollback d')
      | Some (Inr a, d') \<Rightarrow> commit a d')"

text \<open>A statement on a connection of the pool commits as it ends, if it has run at all.\<close>

definition autocommit :: "(database, 'a) call \<Rightarrow> (database, 'a) call" where
  "autocommit m d = map_option (\<lambda>(r, d'). (r, end_transaction (db_view d') d')) (m d)"

definition on_pool :: "'a statement \<Rightarrow> (database, 'a) call" where
  "on_pool q = autocommit (sql q)"

end
