(* ===== verification/SqlRows.thy ===== *)
theory SqlRows
  imports SqlDatabase "HOL-Library.Product_Lexorder"
begin

text \<open>
  Rows as values of the domain, and the rendering of paths (\<open>rows.rs\<close>), with the two lookups of
  \<open>objects_read.rs\<close> that the writes share. A recursive query carries the ids it has visited, so
  its walk ends on any table.
\<close>

section \<open>Decoding\<close>

record decoded_object =
  dco_object :: object
  dco_blob_backend :: "string option"
  dco_blob_ref :: "string option"

definition decode_kind :: "string \<Rightarrow> object_kind result" where
  "decode_kind s = ok_or (Internal (''unknown object kind '' @ debug_str s)) (object_kind_parse s)"

definition decode_content_state :: "string option \<Rightarrow> content_state option result" where
  "decode_content_state v =
     (case v of
        None \<Rightarrow> Ok None
      | Some s \<Rightarrow>
          rbind (ok_or (Internal (''unknown content_state '' @ debug_str s)) (content_state_parse s))
            (\<lambda>st. Ok (Some st)))"

definition decode_object :: "object_row \<Rightarrow> decoded_object result" where
  "decode_object row =
     rbind (decode_kind (obr_kind row)) (\<lambda>kind.
     rbind (decode_content_state (obr_content_state row)) (\<lambda>cstate.
       Ok \<lparr>dco_object =
             \<lparr>o_id = obr_id row, o_revision = obr_revision row, o_kind = kind, o_name = obr_name row,
              o_parent_id = obr_parent_id row, o_content_type = obr_content_type row,
              o_size = obr_size_bytes row, o_sha256 = obr_sha256 row, o_content_state = cstate,
              o_metadata = obr_metadata row, o_created_at = obr_created_at row,
              o_updated_at = obr_updated_at row\<rparr>,
           dco_blob_backend = obr_blob_backend row, dco_blob_ref = obr_blob_ref row\<rparr>))"

definition decode_upload :: "upload_row \<Rightarrow> upload_record result" where
  "decode_upload row =
     rbind (ok_or (Internal (''unknown upload state '' @ debug_str (upr_state row)))
       (upload_state_parse (upr_state row))) (\<lambda>st.
     rbind (ok_or (Internal (''unknown upload mode '' @ debug_str (upr_mode row)))
       (upload_mode_parse (upr_mode row))) (\<lambda>mode.
       Ok \<lparr>u_id = upr_id row, u_object_id = upr_object_id row, u_state = st, u_mode = mode,
           u_blob_backend = upr_blob_backend row, u_blob_ref = upr_blob_ref row,
           u_provider_upload_id = upr_provider_upload_id row,
           u_expected_size = upr_expected_size row, u_content_type = upr_content_type row,
           u_expected_sha256 = upr_expected_sha256 row,
           u_provider_completed = upr_provider_completed row, u_created_at = upr_created_at row,
           u_expires_at = upr_expires_at row, u_completed_at = upr_completed_at row,
           u_aborted_at = upr_aborted_at row\<rparr>))"

section \<open>Recursive queries\<close>

text \<open>
  \<open>WITH RECURSIVE\<close> over the table of objects: from a row to every row that the join condition
  links to it and that the walk has not visited, with the depth of each.
\<close>

function cte_walk ::
  "(object_row \<Rightarrow> object_row \<Rightarrow> bool) \<Rightarrow> object_row list \<Rightarrow> nat \<Rightarrow> string list \<Rightarrow> object_row \<Rightarrow>
   (nat \<times> object_row) list" where
  "cte_walk linked rows depth visited r =
     (depth, r) # concat (map (\<lambda>q. cte_walk linked rows (Suc depth) (visited @ [obr_id q]) q)
       (filter (\<lambda>q. linked r q \<and> obr_id q \<notin> set visited) rows))"
  by pat_completeness auto
termination
proof (relation "measure (\<lambda>(linked, rows, depth, visited, r). card (set (map obr_id rows) - set visited))")
  fix linked :: "object_row \<Rightarrow> object_row \<Rightarrow> bool" and rows depth visited r q
  assume "q \<in> set (filter (\<lambda>q. linked r q \<and> obr_id q \<notin> set visited) rows)"
  then have "set (map obr_id rows) - set (visited @ [obr_id q]) \<subset> set (map obr_id rows) - set visited"
    by auto
  then have "card (set (map obr_id rows) - set (visited @ [obr_id q]))
      < card (set (map obr_id rows) - set visited)" by (intro psubset_card_mono) simp_all
  then show "((linked, rows, Suc depth, visited @ [obr_id q], q), (linked, rows, depth, visited, r))
      \<in> measure (\<lambda>(linked, rows, depth, visited, r). card (set (map obr_id rows) - set visited))"
    by simp
qed simp

declare cte_walk.simps [simp del]

definition walk_from ::
  "(object_row \<Rightarrow> object_row \<Rightarrow> bool) \<Rightarrow> object_row list \<Rightarrow> object_row \<Rightarrow> (nat \<times> object_row) list" where
  "walk_from linked rows r = cte_walk linked rows 0 [obr_id r] r"

definition live_row :: "object_row \<Rightarrow> bool" where
  "live_row r \<longleftrightarrow> obr_deleted_at r = None"

definition parent_of_row :: "object_row \<Rightarrow> object_row \<Rightarrow> bool" where
  "parent_of_row r q \<longleftrightarrow> obr_parent_id r = Some (obr_id q)"

definition live_child_of_row :: "object_row \<Rightarrow> object_row \<Rightarrow> bool" where
  "live_child_of_row r q \<longleftrightarrow> obr_parent_id q = Some (obr_id r) \<and> live_row q"

section \<open>Paths\<close>

text \<open>\<open>PATH_QUERY\<close>: the names from the root down, the empty one of the root left out.\<close>

definition row_path :: "object_row list \<Rightarrow> object_row \<Rightarrow> string" where
  "row_path rows r =
     CHR ''/'' # join ''/''
       (filter (\<lambda>n. n \<noteq> [])
         (map (\<lambda>(_, q). obr_name q) (sort_key (\<lambda>(depth, _). - int depth)
           (walk_from parent_of_row rows r))))"

definition path_query :: "string list \<Rightarrow> sql_tables \<Rightarrow> (string \<times> string) list" where
  "path_query ids t =
     map (\<lambda>r. (obr_id r, row_path (tb_objects t) r))
       (filter (\<lambda>r. obr_id r \<in> set ids) (tb_objects t))"

definition fetch_paths :: "string list \<Rightarrow> (database, (string, string) table) call" where
  "fetch_paths ids =
     (if ids = [] then call_ok []
      else call_bind (sql (select (path_query ids))) (\<lambda>rows.
        call_ok (fold (\<lambda>(i, path). table_insert i path) rows [])))"

definition attach_path :: "(string, string) table \<Rightarrow> decoded_object \<Rightarrow> object_view result" where
  "attach_path paths r =
     rbind (ok_or (Internal ''failed to render object path'') (table_get paths (o_id (dco_object r))))
       (\<lambda>path. Ok \<lparr>ov_object = dco_object r, ov_path = path\<rparr>)"

definition attach_paths :: "decoded_object list \<Rightarrow> (database, object_view list) call" where
  "attach_paths rows =
     call_bind (fetch_paths (map (\<lambda>r. o_id (dco_object r)) rows)) (\<lambda>paths.
       call_result (rmap (attach_path paths) rows))"

section \<open>Lookups\<close>

text \<open>\<open>fetch_optional\<close>: the first row, if there is one.\<close>

definition fetch_optional :: "'a list \<Rightarrow> 'a option" where
  "fetch_optional rows = (case rows of [] \<Rightarrow> None | r # _ \<Rightarrow> Some r)"

definition live_rows_of :: "string \<Rightarrow> sql_tables \<Rightarrow> object_row list" where
  "live_rows_of i t = filter (\<lambda>r. obr_id r = i \<and> live_row r) (tb_objects t)"

definition load_view :: "object_id \<Rightarrow> (database, object_view option) call" where
  "load_view i =
     call_bind (sql (select (\<lambda>t. fetch_optional (live_rows_of i t)))) (\<lambda>row.
       case row of
         None \<Rightarrow> call_ok None
       | Some row \<Rightarrow>
           call_bind (call_result (decode_object row)) (\<lambda>decoded.
           call_bind (attach_paths [decoded]) (\<lambda>views.
             call_ok (if views = [] then None else Some (last views)))))"

text \<open>The kind of a live object; the shared lock it may take has no effect on the answer.\<close>

definition live_kind :: "object_id \<Rightarrow> (database, object_kind option) call" where
  "live_kind i =
     call_bind (sql (select (\<lambda>t. fetch_optional (live_rows_of i t)))) (\<lambda>row.
       case row of
         None \<Rightarrow> call_ok None
       | Some row \<Rightarrow> call_bind (call_result (decode_kind (obr_kind row))) (\<lambda>kind. call_ok (Some kind)))"

end
