(* ===== verification/SqlObjects.thy ===== *)
theory SqlObjects
  imports SqlRows
begin

text \<open>
  Transactional object mutations of the Postgres adapter (\<open>objects_write.rs\<close>), with the
  finalization of the idempotency record inside them (\<open>idempotency.rs\<close>). Each statement is the
  SQL that the code sends, over lists of rows.
\<close>

section \<open>Finalizing a key\<close>

definition encode_headers :: "(string \<times> string) list \<Rightarrow> json" where
  "encode_headers headers = JArray (map (\<lambda>(k, v). JArray [JString k, JString v]) headers)"

definition is_scope :: "idempotency_context \<Rightarrow> key_row \<Rightarrow> bool" where
  "is_scope ctx r \<longleftrightarrow> ker_principal_id r = ic_principal_id ctx \<and> ker_operation r = ic_operation ctx
     \<and> ker_idempotency_key r = ic_key ctx"

definition held_by :: "idempotency_context \<Rightarrow> key_row \<Rightarrow> bool" where
  "held_by ctx r \<longleftrightarrow>
     is_scope ctx r \<and> ker_state r = ''in_progress'' \<and> ker_owner_token r = Some (ic_owner_token ctx)"

definition finalized_row :: "sql_lib \<Rightarrow> stored_response \<Rightarrow> time \<Rightarrow> time \<Rightarrow> key_row \<Rightarrow> key_row" where
  "finalized_row lib response now expires_at r =
     r\<lparr>ker_state := ''completed'', ker_status_code := Some (sr_status response),
       ker_response_headers := Some (sl_jsonb lib (encode_headers (sr_headers response))),
       ker_response_body := Some (sr_body response), ker_completed_at := Some (sl_timestamptz lib now),
       ker_expires_at := sl_timestamptz lib expires_at, ker_owner_token := None,
       ker_lease_until := None\<rparr>"

text \<open>An \<open>UPDATE\<close> that reports how many rows it changed.\<close>

definition update_keys :: "(key_row \<Rightarrow> bool) \<Rightarrow> (key_row \<Rightarrow> key_row) \<Rightarrow> nat statement" where
  "update_keys P f t =
     Inr (length (filter P (tb_keys t)),
          \<lambda>t. t\<lparr>tb_keys := map (\<lambda>r. if P r then f r else r) (tb_keys t)\<rparr>)"

definition finalize_in_tx ::
  "sql_lib \<Rightarrow> idempotency_context option \<Rightarrow> stored_response \<Rightarrow> time \<Rightarrow> time \<Rightarrow> (database, unit) call" where
  "finalize_in_tx lib context response now expires_at =
     (case context of
        None \<Rightarrow> call_ok ()
      | Some ctx \<Rightarrow>
          call_bind (sql (update_keys (held_by ctx) (finalized_row lib response now expires_at)))
            (\<lambda>rows_affected.
              call_unless (rows_affected \<noteq> 1)
                (Internal ''idempotency lease was lost during the mutation'')))"

section \<open>Shared helpers\<close>

definition DESCENDANT_LOCK_ATTEMPTS :: nat where
  "DESCENDANT_LOCK_ATTEMPTS = 5"

record locked_object =
  lko_row :: decoded_object
  lko_deleted :: bool

definition lock_object :: "object_id \<Rightarrow> (database, locked_object option) call" where
  "lock_object i =
     call_bind (sql (select (\<lambda>t. fetch_optional (filter (\<lambda>r. obr_id r = i) (tb_objects t))))) (\<lambda>row.
       case row of
         None \<Rightarrow> call_ok None
       | Some row \<Rightarrow>
           call_bind (call_result (decode_object row)) (\<lambda>decoded.
             call_ok (Some \<lparr>lko_row = decoded, lko_deleted = obr_deleted_at row \<noteq> None\<rparr>)))"

text \<open>An object that is there and live, or the error that it is not.\<close>

definition lock_live :: "object_id \<Rightarrow> (database, decoded_object) call" where
  "lock_live i =
     call_bind (lock_object i) (\<lambda>locked.
     call_bind (call_result (ok_or ObjectNotFound locked)) (\<lambda>locked.
       if lko_deleted locked then call_err ObjectNotFound else call_ok (lko_row locked)))"

definition invalid_folder_move :: domain_error where
  "invalid_folder_move =
     InvalidMove ''A folder cannot be moved into itself or one of its descendants.''"

definition sql_check_if_match :: "revision \<Rightarrow> revision option \<Rightarrow> unit result" where
  "sql_check_if_match current if_match =
     (case if_match of
        Some expected \<Rightarrow> if expected \<noteq> current then Err (RevisionConflict current) else Ok ()
      | None \<Rightarrow> Ok ())"

definition lock_change_order :: "(database, unit) call" where
  "lock_change_order d =
     map_option (\<lambda>(r, d'). (r, d'\<lparr>db_change_lock := True\<rparr>)) (sql (select (\<lambda>_. ())) d)"

text \<open>
  \<open>nextval\<close>, once per row of a series: numbers are drawn whether or not the answer arrives. No
  number comes twice: what the others have drawn shows in the feed or in its watermark.
\<close>

definition next_seqs :: "nat \<Rightarrow> (database, int list) call" where
  "next_seqs n d =
     (case next_step d of
        (Refused e, d1) \<Rightarrow> Some (Err (map_sqlx e), d1)
      | (flt, d1) \<Rightarrow>
          (let from = foldr max (map (\<lambda>r. chr_seq r + 1) (tb_changes (db_view d1)))
                 (max (db_next_seq d1) (tb_purged_through (db_view d1) + 1));
               d2 = d1\<lparr>db_next_seq := from + int n\<rparr>
           in case flt of
                AnswerLost e \<Rightarrow> Some (Err (map_sqlx e), d2)
              | _ \<Rightarrow> Some (Ok (map (\<lambda>k. from + int k) [0..<n]), d2)))"

definition sql_change_record ::
  "request_id \<Rightarrow> idempotency_key option \<Rightarrow> time \<Rightarrow> pending_change \<times> int \<Rightarrow> change_record" where
  "sql_change_record request_id key changed_at x =
     (case x of (p, seq) \<Rightarrow>
        \<lparr>c_change_id = change_id_from_seq seq, c_object_id = p_object_id p, c_revision = p_revision p,
         c_action = p_action p, c_changed_at = changed_at, c_request_id = request_id,
         c_idempotency_key = key, c_tombstone = p_tombstone p\<rparr>)"

definition change_row_of :: "sql_lib \<Rightarrow> change_record \<times> int \<Rightarrow> change_row" where
  "change_row_of lib x =
     (case x of (r, seq) \<Rightarrow>
        \<lparr>chr_seq = seq, chr_change_id = c_change_id r, chr_object_id = c_object_id r,
         chr_revision = c_revision r, chr_action = change_action_as_str (c_action r),
         chr_changed_at = sl_timestamptz lib (c_changed_at r), chr_request_id = c_request_id r,
         chr_idempotency_key = c_idempotency_key r, chr_tombstone = c_tombstone r\<rparr>)"

definition insert_changes :: "change_row list \<Rightarrow> unit statement" where
  "insert_changes rows t =
     (if \<exists>r\<in>set rows. chr_seq r \<in> set (map chr_seq (tb_changes t)) then Inl (unique_violation ''changes_pkey'')
      else if \<exists>r\<in>set rows. chr_change_id r \<in> set (map chr_change_id (tb_changes t))
      then Inl (unique_violation ''changes_change_id_key'')
      else Inr ((), \<lambda>t. t\<lparr>tb_changes := tb_changes t @ rows\<rparr>))"

definition sql_append_changes ::
  "sql_lib \<Rightarrow> pending_change list \<Rightarrow> request_id \<Rightarrow> idempotency_key option \<Rightarrow> time \<Rightarrow>
   (database, change_record list) call" where
  "sql_append_changes lib pending request_id key changed_at =
     (if pending = [] then call_ok []
      else
        call_then lock_change_order
          (call_bind (next_seqs (length pending)) (\<lambda>seqs.
             let records = map (sql_change_record request_id key changed_at) (zip pending seqs)
             in call_then (sql (insert_changes (map (change_row_of lib) (zip records seqs))))
                  (call_ok records))))"

definition same_queue_row :: "string \<Rightarrow> string \<Rightarrow> queue_row \<Rightarrow> bool" where
  "same_queue_row backend blob_ref r \<longleftrightarrow> qur_blob_backend r = backend \<and> qur_blob_ref r = blob_ref"

definition insert_queue :: "string \<Rightarrow> string \<Rightarrow> time \<Rightarrow> unit statement" where
  "insert_queue backend blob_ref not_before t =
     Inr ((), \<lambda>t. if list_ex (same_queue_row backend blob_ref) (tb_queue t) then t
                  else t\<lparr>tb_queue := tb_queue t @ [\<lparr>qur_blob_backend = backend, qur_blob_ref = blob_ref,
                         qur_not_before = not_before, qur_attempts = 0, qur_last_error = None\<rparr>]\<rparr>)"

definition enqueue_blob_gc :: "sql_lib \<Rightarrow> string \<Rightarrow> string \<Rightarrow> time \<Rightarrow> (database, unit) call" where
  "enqueue_blob_gc lib backend blob_ref not_before =
     sql (insert_queue backend blob_ref (sl_timestamptz lib not_before))"

definition finish :: "sql_lib \<Rightarrow> mutation_context \<Rightarrow> mutation_outcome \<Rightarrow> (database, stored_response) call" where
  "finish lib ctx outcome =
     call_bind (call_result (mc_render ctx outcome)) (\<lambda>response.
       call_then (finalize_in_tx lib (mc_idempotency ctx) response (mc_now ctx)
           (mc_idempotency_expires_at ctx))
         (call_ok response))"

text \<open>The end of a mutation that answers with an object: its view, the outcome, the response.\<close>

definition finish_with_view ::
  "sql_lib \<Rightarrow> mutation_context \<Rightarrow> object_id \<Rightarrow> change_record list \<Rightarrow> bool \<Rightarrow>
   (database, stored_response) call" where
  "finish_with_view lib ctx i chs no_op =
     call_bind (load_view i) (\<lambda>view.
     call_bind (call_result (ok_or ObjectNotFound view)) (\<lambda>view.
       finish lib ctx \<lparr>mo_object = Some view, mo_changes = chs, mo_no_op = no_op\<rparr>))"

definition append_for ::
  "sql_lib \<Rightarrow> mutation_context \<Rightarrow> pending_change list \<Rightarrow> (database, change_record list) call" where
  "append_for lib ctx pending =
     sql_append_changes lib pending (mc_request_id ctx) (mc_idempotency_key ctx) (mc_now ctx)"

section \<open>Writes to the table of objects\<close>

text \<open>The unique index over the names of live siblings; rows without a parent never collide.\<close>

definition name_clash :: "object_row \<Rightarrow> object_row list \<Rightarrow> bool" where
  "name_clash r rows \<longleftrightarrow>
     list_ex (\<lambda>q. live_row q \<and> obr_parent_id r \<noteq> None \<and> obr_parent_id q = obr_parent_id r
        \<and> obr_name q = obr_name r) rows"

definition parent_missing :: "object_row \<Rightarrow> object_row list \<Rightarrow> bool" where
  "parent_missing r rows \<longleftrightarrow>
     (case obr_parent_id r of None \<Rightarrow> False | Some p \<Rightarrow> p \<notin> set (map obr_id rows))"

definition insert_object :: "object_row \<Rightarrow> unit statement" where
  "insert_object r t =
     (if obr_id r \<in> set (map obr_id (tb_objects t)) then Inl (unique_violation ''objects_pkey'')
      else if name_clash r (tb_objects t) then Inl (unique_violation LIVE_NAME_UNIQUE)
      else if parent_missing r (tb_objects t) then Inl (foreign_key_violation ''objects_parent_id_fkey'')
      else Inr ((), \<lambda>t. t\<lparr>tb_objects := tb_objects t @ [r]\<rparr>))"

text \<open>\<open>revision + 1\<close> on a \<open>BIGINT\<close>.\<close>

definition bumped_out_of_range :: "object_row \<Rightarrow> bool" where
  "bumped_out_of_range r \<longleftrightarrow> sint (obr_revision r) = 2 ^ 63 - 1"

definition bumped :: "object_row \<Rightarrow> object_row" where
  "bumped r = r\<lparr>obr_revision := obr_revision r + 1\<rparr>"

text \<open>\<open>UPDATE objects SET revision = revision + 1, ... WHERE id = $1 AND deleted_at IS NULL\<close>.\<close>

definition update_live ::
  "string \<Rightarrow> (object_row \<Rightarrow> object_row) \<Rightarrow> object_row option statement" where
  "update_live i f t =
     (case live_rows_of i t of
        [] \<Rightarrow> Inr (None, id)
      | r # _ \<Rightarrow>
          (let r' = f (bumped r); others = filter (\<lambda>q. obr_id q \<noteq> i) (tb_objects t) in
           if bumped_out_of_range r then Inl out_of_range
           else if name_clash r' others then Inl (unique_violation LIVE_NAME_UNIQUE)
           else if parent_missing r' (tb_objects t)
           then Inl (foreign_key_violation ''objects_parent_id_fkey'')
           else Inr (Some r', \<lambda>t. t\<lparr>tb_objects :=
                  map (\<lambda>q. if obr_id q = i \<and> live_row q then f (bumped q) else q) (tb_objects t)\<rparr>)))"

section \<open>Create\<close>

definition new_object_row :: "sql_lib \<Rightarrow> create_object_commit \<Rightarrow> object_row" where
  "new_object_row lib cmd =
     \<lparr>obr_id = co_id cmd, obr_revision = 1, obr_kind = object_kind_as_str (co_kind cmd),
      obr_name = co_name cmd, obr_parent_id = Some (co_parent_id cmd),
      obr_content_type = co_content_type cmd, obr_size_bytes = None, obr_sha256 = None,
      obr_content_state =
        (case co_kind cmd of File \<Rightarrow> Some (content_state_as_str CsNone) | Folder \<Rightarrow> None),
      obr_blob_backend = None, obr_blob_ref = None, obr_metadata = sl_jsonb lib (co_metadata cmd),
      obr_created_at = sl_timestamptz lib (mc_now (co_ctx cmd)),
      obr_updated_at = sl_timestamptz lib (mc_now (co_ctx cmd)), obr_deleted_at = None\<rparr>"

definition require_folder :: "object_id \<Rightarrow> (database, unit) call" where
  "require_folder i =
     call_bind (live_kind i) (\<lambda>kind.
       case kind of
         None \<Rightarrow> call_err ObjectNotFound
       | Some File \<Rightarrow> call_err NotAFolder
       | Some Folder \<Rightarrow> call_ok ())"

definition create_in_tx ::
  "sql_lib \<Rightarrow> create_object_commit \<Rightarrow> (database, stored_response) call" where
  "create_in_tx lib cmd =
       (call_then (require_folder (co_parent_id cmd))
       (call_bind (run_sql (insert_object (new_object_row lib cmd))) (\<lambda>inserted.
          case inserted of
            Inl e \<Rightarrow> if is_name_conflict e then call_err NameConflict else call_err (map_sqlx e)
          | Inr _ \<Rightarrow>
              call_bind (load_view (co_id cmd)) (\<lambda>view.
              call_bind (call_result (ok_or (Internal ''created object disappeared'') view)) (\<lambda>view.
              call_bind (append_for lib (co_ctx cmd)
                  [pending_change_new (co_id cmd) INITIAL Created]) (\<lambda>chs.
                finish lib (co_ctx cmd) \<lparr>mo_object = Some view, mo_changes = chs, mo_no_op = False\<rparr>))))))"

definition sql_create_object ::
  "sql_lib \<Rightarrow> create_object_commit \<Rightarrow> (database, stored_response) call" where
  "sql_create_object lib cmd = in_transaction (create_in_tx lib cmd)"

end
