(* ===== verification/SqlMutations.thy ===== *)
theory SqlMutations
  imports SqlObjects
begin

text \<open>
  Patching and deleting an object and committing content in Postgres (\<open>objects_write.rs\<close>). A move
  is checked twice against the tree: before the write, and again under the lock that orders
  changes.
\<close>

section \<open>Walks over the tree\<close>

text \<open>\<open>ANCESTOR_QUERY\<close>: whether the walk up from the candidate meets the subject.\<close>

definition ancestor_query :: "string \<Rightarrow> string \<Rightarrow> sql_tables \<Rightarrow> bool" where
  "ancestor_query candidate subject t =
     list_ex (\<lambda>(_, r). obr_id r = subject)
       (concat (map (walk_from parent_of_row (tb_objects t))
          (filter (\<lambda>r. obr_id r = candidate) (tb_objects t))))"

definition sql_is_self_or_descendant :: "object_id \<Rightarrow> object_id \<Rightarrow> (database, bool) call" where
  "sql_is_self_or_descendant candidate subject = sql (select (ancestor_query candidate subject))"

text \<open>\<open>DESCENDANTS_QUERY\<close>: the live subtree, the deepest first, then by id.\<close>

definition descendants_query :: "sql_lib \<Rightarrow> string \<Rightarrow> sql_tables \<Rightarrow> string list" where
  "descendants_query lib i t =
     map (\<lambda>(_, r). obr_id r)
       (sort_key (\<lambda>(depth, r). (- int depth, sl_collate lib (obr_id r)))
         (concat (map (walk_from live_child_of_row (tb_objects t)) (live_rows_of i t))))"

fun lock_loop :: "sql_lib \<Rightarrow> object_id \<Rightarrow> nat \<Rightarrow> string list \<Rightarrow> (database, string list) call" where
  "lock_loop lib i 0 previous =
     call_err (Internal ''subtree kept changing while acquiring delete locks'')"
| "lock_loop lib i (Suc n) previous =
     call_bind (sql (select (descendants_query lib i))) (\<lambda>ids.
       if ids = previous then call_ok ids
       else call_then (sql (select (\<lambda>t. filter (\<lambda>r. obr_id r \<in> set ids) (tb_objects t))))
              (lock_loop lib i n ids))"

definition collect_and_lock_descendants :: "sql_lib \<Rightarrow> object_id \<Rightarrow> (database, string list) call" where
  "collect_and_lock_descendants lib i = lock_loop lib i DESCENDANT_LOCK_ATTEMPTS []"

definition has_live_children :: "object_id \<Rightarrow> (database, bool) call" where
  "has_live_children i =
     sql (select (\<lambda>t. list_ex (\<lambda>r. obr_parent_id r = Some i \<and> live_row r) (tb_objects t)))"

section \<open>Patch\<close>

definition sql_check_root_patch :: "patch_object_commit \<Rightarrow> object \<Rightarrow> unit result" where
  "sql_check_root_patch cmd current =
     (if object_is_root current then
        if po_new_parent_id cmd \<noteq> None then Err (InvalidMove ''Root cannot be moved.'')
        else if po_new_name cmd \<noteq> None then Err (InvalidRequest ''Root cannot be renamed.'')
        else Ok ()
      else Ok ())"

record sql_target =
  st_name :: string
  st_parent :: "object_id option"
  st_metadata :: json

definition sql_target_of :: "patch_object_commit \<Rightarrow> object \<Rightarrow> sql_target result" where
  "sql_target_of cmd current =
     rbind (case po_metadata_patch cmd of
              Some patch \<Rightarrow> apply_metadata_patch (o_metadata current) patch
            | None \<Rightarrow> Ok (o_metadata current)) (\<lambda>metadata.
       Ok \<lparr>st_name = (case po_new_name cmd of Some n \<Rightarrow> n | None \<Rightarrow> o_name current),
           st_parent = (case po_new_parent_id cmd of Some p \<Rightarrow> Some p | None \<Rightarrow> o_parent_id current),
           st_metadata = metadata\<rparr>)"

definition renames :: "object \<Rightarrow> sql_target \<Rightarrow> bool" where
  "renames current target \<longleftrightarrow> st_name target \<noteq> o_name current"

definition moves :: "object \<Rightarrow> sql_target \<Rightarrow> bool" where
  "moves current target \<longleftrightarrow> st_parent target \<noteq> o_parent_id current"

definition changes_metadata :: "object \<Rightarrow> sql_target \<Rightarrow> bool" where
  "changes_metadata current target \<longleftrightarrow> \<not> metadata_equal (st_metadata target) (o_metadata current)"

definition check_move :: "object \<Rightarrow> sql_target \<Rightarrow> (database, unit) call" where
  "check_move current target =
     (if moves current target then
        call_bind (call_result (ok_or (InvalidMove ''Destination is required.'') (st_parent target)))
          (\<lambda>destination.
            call_then (require_folder destination)
              (if is_folder current
               then call_bind (sql_is_self_or_descendant destination (o_id current))
                      (\<lambda>below. call_unless below invalid_folder_move)
               else call_ok ()))
      else call_ok ())"

text \<open>
  The second check, under the lock: it sees every move that has been committed, and this one.
\<close>

definition recheck_move :: "object \<Rightarrow> sql_target \<Rightarrow> (database, unit) call" where
  "recheck_move current target =
     (if moves current target \<and> is_folder current then
        call_then lock_change_order
          (case st_parent target of
             Some destination \<Rightarrow>
               call_bind (sql_is_self_or_descendant destination (o_id current))
                 (\<lambda>below. call_unless below invalid_folder_move)
           | None \<Rightarrow> call_ok ())
      else call_ok ())"

definition patched_row :: "sql_lib \<Rightarrow> sql_target \<Rightarrow> time \<Rightarrow> object_row \<Rightarrow> object_row" where
  "patched_row lib target now r =
     r\<lparr>obr_name := st_name target, obr_parent_id := st_parent target,
       obr_metadata := sl_jsonb lib (st_metadata target), obr_updated_at := sl_timestamptz lib now\<rparr>"

definition sql_patch_pending ::
  "object_id \<Rightarrow> revision \<Rightarrow> object \<Rightarrow> sql_target \<Rightarrow> pending_change list" where
  "sql_patch_pending i r current target =
     sort_key (\<lambda>p. emission_order (p_action p))
       ((if renames current target then [pending_change_new i r Renamed] else []) @
        (if moves current target then [pending_change_new i r Moved] else []) @
        (if changes_metadata current target then [pending_change_new i r MetadataUpdated] else []))"

definition sql_write_patch ::
  "sql_lib \<Rightarrow> patch_object_commit \<Rightarrow> object \<Rightarrow> sql_target \<Rightarrow> (database, stored_response) call" where
  "sql_write_patch lib cmd current target =
     call_bind (run_sql (update_live (po_id cmd) (patched_row lib target (mc_now (po_ctx cmd))))) (\<lambda>updated.
       case updated of
         Inl e \<Rightarrow> if is_name_conflict e then call_err NameConflict else call_err (map_sqlx e)
       | Inr None \<Rightarrow> call_err ObjectNotFound
       | Inr (Some row) \<Rightarrow>
           call_then (recheck_move current target)
           (call_bind (append_for lib (po_ctx cmd)
               (sql_patch_pending (po_id cmd) (obr_revision row) current target)) (\<lambda>chs.
             finish_with_view lib (po_ctx cmd) (po_id cmd) chs False)))"

definition patch_in_tx ::
  "sql_lib \<Rightarrow> patch_object_commit \<Rightarrow> (database, stored_response) call" where
  "patch_in_tx lib cmd =
       (call_bind (lock_live (po_id cmd)) (\<lambda>row.
        let current = dco_object row in
        call_then (call_result (sql_check_if_match (o_revision current) (po_if_match cmd)))
        (call_then (call_result (sql_check_root_patch cmd current))
        (call_bind (call_result (sql_target_of cmd current)) (\<lambda>target.
          if \<not> renames current target \<and> \<not> moves current target \<and> \<not> changes_metadata current target
          then finish_with_view lib (po_ctx cmd) (po_id cmd) [] True
          else call_then (check_move current target) (sql_write_patch lib cmd current target))))))"

definition sql_patch_object ::
  "sql_lib \<Rightarrow> patch_object_commit \<Rightarrow> (database, stored_response) call" where
  "sql_patch_object lib cmd = in_transaction (patch_in_tx lib cmd)"

section \<open>Delete\<close>

definition sql_delete_targets ::
  "sql_lib \<Rightarrow> delete_object_commit \<Rightarrow> object \<Rightarrow> (database, string list) call" where
  "sql_delete_targets lib cmd current =
     (if is_folder current \<and> do_recursive cmd then collect_and_lock_descendants lib (do_id cmd)
      else
        call_then (if is_folder current
                   then call_bind (has_live_children (do_id cmd))
                          (\<lambda>children. call_unless children FolderNotEmpty)
                   else call_ok ())
          (call_ok [do_id cmd]))"

definition deleted_row :: "time \<Rightarrow> object_row \<Rightarrow> object_row" where
  "deleted_row now r = (bumped r)\<lparr>obr_deleted_at := Some now, obr_updated_at := now\<rparr>"

definition delete_rows :: "string list \<Rightarrow> time \<Rightarrow> object_row list statement" where
  "delete_rows targets now t =
     (let hit = (\<lambda>r. obr_id r \<in> set targets \<and> live_row r); rows = filter hit (tb_objects t) in
      if list_ex bumped_out_of_range rows then Inl out_of_range
      else Inr (map (deleted_row now) rows,
             \<lambda>t. t\<lparr>tb_objects := map (\<lambda>r. if hit r then deleted_row now r else r) (tb_objects t)\<rparr>))"

fun enqueue_deleted :: "sql_lib \<Rightarrow> time \<Rightarrow> object_row list \<Rightarrow> (database, unit) call" where
  "enqueue_deleted lib now [] = call_ok ()"
| "enqueue_deleted lib now (r # rows) =
     call_then
       (case (obr_blob_backend r, obr_blob_ref r) of
          (Some backend, Some blob_ref) \<Rightarrow> enqueue_blob_gc lib backend blob_ref now
        | _ \<Rightarrow> call_ok ())
       (enqueue_deleted lib now rows)"

text \<open>One tombstone per deleted object, in the order of the walk.\<close>

definition deleted_pending :: "string list \<Rightarrow> object_row list \<Rightarrow> pending_change list" where
  "deleted_pending targets rows =
     List.map_filter (\<lambda>i. map_option (\<lambda>revision. pending_change_new i revision Deleted)
       (table_get (fold (\<lambda>r. table_insert (obr_id r) (obr_revision r)) rows []) i)) targets"

definition delete_in_tx ::
  "sql_lib \<Rightarrow> delete_object_commit \<Rightarrow> (database, stored_response) call" where
  "delete_in_tx lib cmd =
       (call_bind (lock_live (do_id cmd)) (\<lambda>row.
        let current = dco_object row in
        call_then (call_result (sql_check_if_match (o_revision current) (do_if_match cmd)))
        (call_then (call_unless (object_is_root current) (InvalidRequest ''Root cannot be deleted.''))
        (call_bind (sql_delete_targets lib cmd current) (\<lambda>targets.
         call_bind (sql (delete_rows targets (sl_timestamptz lib (mc_now (do_ctx cmd))))) (\<lambda>rows.
         call_then (enqueue_deleted lib (mc_now (do_ctx cmd)) rows)
         (call_bind (append_for lib (do_ctx cmd) (deleted_pending targets rows)) (\<lambda>chs.
           finish lib (do_ctx cmd)
             \<lparr>mo_object = None, mo_changes = chs, mo_no_op = False\<rparr>))))))))"

definition sql_delete_object ::
  "sql_lib \<Rightarrow> delete_object_commit \<Rightarrow> (database, stored_response) call" where
  "sql_delete_object lib cmd = in_transaction (delete_in_tx lib cmd)"

section \<open>Content\<close>

definition sql_content_action :: "object \<Rightarrow> change_action" where
  "sql_content_action current =
     (case (case o_content_state current of Some st \<Rightarrow> st | None \<Rightarrow> CsNone) of
        CsNone \<Rightarrow> ContentReady
      | CsReady \<Rightarrow> ContentReplaced)"

definition lock_upload :: "upload_id \<Rightarrow> (database, upload_row) call" where
  "lock_upload i =
     call_bind (sql (select (\<lambda>t. fetch_optional (filter (\<lambda>r. upr_id r = i) (tb_uploads t))))) (\<lambda>row.
       call_result (ok_or UploadNotFound row))"

definition check_upload :: "commit_content_cmd \<Rightarrow> upload_row \<Rightarrow> upload_state result" where
  "check_upload cmd row =
     rbind (ok_or (Internal ''unknown persisted upload state'') (upload_state_parse (upr_state row))) (\<lambda>st.
       if st \<notin> {UsReady, UsCompleting, UsCompleted} then Err UploadNotFound
       else if upr_object_id row \<noteq> cm_object_id cmd \<or> upr_blob_backend row \<noteq> cm_blob_backend cmd
            \<or> upr_blob_ref row \<noteq> cm_blob_ref cmd
       then Err (Internal ''content commit does not match the upload record'')
       else Ok st)"

definition content_row :: "sql_lib \<Rightarrow> commit_content_cmd \<Rightarrow> object_row \<Rightarrow> object_row" where
  "content_row lib cmd r =
     r\<lparr>obr_blob_backend := Some (cm_blob_backend cmd), obr_blob_ref := Some (cm_blob_ref cmd),
       obr_size_bytes := Some (cm_size cmd), obr_content_type := Some (cm_content_type cmd),
       obr_sha256 := cm_sha256 cmd, obr_content_state := Some ''ready'',
       obr_updated_at := sl_timestamptz lib (mc_now (cm_ctx cmd))\<rparr>"

definition enqueue_superseded :: "sql_lib \<Rightarrow> commit_content_cmd \<Rightarrow> decoded_object \<Rightarrow> (database, unit) call" where
  "enqueue_superseded lib cmd row =
     (case (dco_blob_backend row, dco_blob_ref row) of
        (Some backend, Some blob_ref) \<Rightarrow>
          if blob_ref \<noteq> cm_blob_ref cmd then enqueue_blob_gc lib backend blob_ref (cm_gc_not_before cmd)
          else call_ok ()
      | _ \<Rightarrow> call_ok ())"

definition completable_upload :: "upload_id \<Rightarrow> upload_row \<Rightarrow> bool" where
  "completable_upload i r \<longleftrightarrow> upr_id r = i \<and> upr_state r \<in> {''ready'', ''completing''}"

definition complete_upload :: "upload_id \<Rightarrow> time \<Rightarrow> nat statement" where
  "complete_upload i now t =
     Inr (length (filter (completable_upload i) (tb_uploads t)),
          \<lambda>t. t\<lparr>tb_uploads := map (\<lambda>r. if completable_upload i r
             then r\<lparr>upr_state := ''completed'', upr_provider_completed := True, upr_completed_at := Some now\<rparr>
             else r) (tb_uploads t)\<rparr>)"

definition delete_queue :: "string \<Rightarrow> string \<Rightarrow> unit statement" where
  "delete_queue backend blob_ref t =
     Inr ((), \<lambda>t. t\<lparr>tb_queue := filter (\<lambda>r. \<not> same_queue_row backend blob_ref r) (tb_queue t)\<rparr>)"

definition sql_write_content ::
  "sql_lib \<Rightarrow> commit_content_cmd \<Rightarrow> decoded_object \<Rightarrow> (database, stored_response) call" where
  "sql_write_content lib cmd row =
     call_bind (sql (update_live (cm_object_id cmd) (content_row lib cmd))) (\<lambda>updated.
     call_bind (call_result (ok_or ObjectNotFound updated)) (\<lambda>updated.
     call_then (enqueue_superseded lib cmd row)
     (call_bind (sql (complete_upload (cm_upload_id cmd) (sl_timestamptz lib (mc_now (cm_ctx cmd))))) (\<lambda>n.
      call_then (call_unless (n \<noteq> 1) UploadNotFound)
      (call_then (sql (delete_queue (cm_blob_backend cmd) (cm_blob_ref cmd)))
      (call_bind (append_for lib (cm_ctx cmd)
          [pending_change_new (cm_object_id cmd) (obr_revision updated)
             (sql_content_action (dco_object row))]) (\<lambda>chs.
        finish_with_view lib (cm_ctx cmd) (cm_object_id cmd) chs False)))))))"

definition commit_in_tx ::
  "sql_lib \<Rightarrow> commit_content_cmd \<Rightarrow> (database, stored_response) call" where
  "commit_in_tx lib cmd =
       (call_bind (lock_upload (cm_upload_id cmd)) (\<lambda>upload.
        call_bind (call_result (check_upload cmd upload)) (\<lambda>st.
        call_bind (lock_live (cm_object_id cmd)) (\<lambda>row.
        let current = dco_object row in
        call_then (call_unless (\<not> is_file current) NotAFile)
        (call_then (call_result (sql_check_if_match (o_revision current) (cm_if_match cmd)))
          (if st = UsCompleted then finish_with_view lib (cm_ctx cmd) (cm_object_id cmd) [] True
           else sql_write_content lib cmd row))))))"

definition sql_commit_content ::
  "sql_lib \<Rightarrow> commit_content_cmd \<Rightarrow> (database, stored_response) call" where
  "sql_commit_content lib cmd = in_transaction (commit_in_tx lib cmd)"

end
