(* ===== verification/SqlSessions.thy ===== *)
theory SqlSessions
  imports SqlObjects
begin

text \<open>
  Upload sessions (\<open>uploads.rs\<close>) and idempotency records (\<open>idempotency.rs\<close>) in Postgres. A claim is a
  statement of its own, so that other sessions see it at once. The wall clock is read up
  to twice in a round, and is a function of the number of the reading; waiting between two polls is not modelled, since other sessions may
  commit before any statement.
\<close>

definition row_not_found :: sqlx_error where
  "row_not_found =
     SqlxOther ''no rows returned by a query that expected to return at least one row''"

text \<open>\<open>fetch_one\<close>: no row is an error.\<close>

definition select_one :: "(sql_tables \<Rightarrow> 'a list) \<Rightarrow> 'a statement" where
  "select_one f t =
     (case f t of [] \<Rightarrow> Inl row_not_found | r # _ \<Rightarrow> Inr (r, id))"

section \<open>Upload sessions\<close>

definition new_upload_row :: "sql_lib \<Rightarrow> create_upload_record_cmd \<Rightarrow> upload_row" where
  "new_upload_row lib cmd =
     \<lparr>upr_id = cu_id cmd, upr_object_id = cu_object_id cmd, upr_state = ''initiating'',
      upr_mode = upload_mode_as_str (cu_mode cmd), upr_blob_backend = cu_blob_backend cmd,
      upr_blob_ref = cu_blob_ref cmd, upr_provider_upload_id = None,
      upr_expected_size = cu_expected_size cmd, upr_content_type = cu_content_type cmd,
      upr_expected_sha256 = cu_expected_sha256 cmd, upr_provider_completed = False,
      upr_created_at = sl_timestamptz lib (cu_created_at cmd),
      upr_expires_at = sl_timestamptz lib (cu_expires_at cmd), upr_completed_at = None,
      upr_aborted_at = None\<rparr>"

text \<open>\<open>INSERT ... ON CONFLICT (id) DO NOTHING\<close>, with the number of rows inserted.\<close>

definition insert_upload :: "upload_row \<Rightarrow> nat statement" where
  "insert_upload r t =
     (if upr_id r \<in> set (map upr_id (tb_uploads t)) then Inr (0, id)
      else if upr_object_id r \<notin> set (map obr_id (tb_objects t))
      then Inl (foreign_key_violation ''uploads_object_id_fkey'')
      else Inr (1, \<lambda>t. t\<lparr>tb_uploads := tb_uploads t @ [r]\<rparr>))"

definition uploads_with_id :: "upload_id \<Rightarrow> sql_tables \<Rightarrow> upload_row list" where
  "uploads_with_id i t = filter (\<lambda>r. upr_id r = i) (tb_uploads t)"

definition sql_create_upload_record ::
  "sql_lib \<Rightarrow> create_upload_record_cmd \<Rightarrow> (database, create_upload_result) call" where
  "sql_create_upload_record lib cmd =
     in_transaction
       (call_bind (sql (insert_upload (new_upload_row lib cmd))) (\<lambda>inserted.
        call_bind (sql (select_one (uploads_with_id (cu_id cmd)))) (\<lambda>row.
        call_bind (call_result (decode_upload row)) (\<lambda>upload.
          call_ok \<lparr>cur_upload = upload, cur_created = (inserted = 1)\<rparr>))))"

definition sql_get_upload :: "upload_id \<Rightarrow> (database, upload_record option) call" where
  "sql_get_upload i =
     call_bind (on_pool (select (\<lambda>t. fetch_optional (uploads_with_id i t)))) (\<lambda>row.
       case row of
         None \<Rightarrow> call_ok None
       | Some row \<Rightarrow> call_bind (call_result (decode_upload row)) (\<lambda>u. call_ok (Some u)))"

definition may_become :: "update_upload_state_cmd \<Rightarrow> upload_row \<Rightarrow> bool" where
  "may_become cmd r \<longleftrightarrow>
     upr_id r = uu_id cmd \<and>
     (upload_state_as_str (uu_state cmd) = ''ready'' \<and> upr_state r \<in> {''initiating'', ''ready''} \<or>
      upload_state_as_str (uu_state cmd) = ''completing'' \<and> upr_state r \<in> {''ready'', ''completing''})"

definition state_updated :: "update_upload_state_cmd \<Rightarrow> upload_row \<Rightarrow> upload_row" where
  "state_updated cmd r =
     r\<lparr>upr_state := upload_state_as_str (uu_state cmd),
       upr_provider_upload_id :=
         (case uu_provider_upload_id cmd of Some p \<Rightarrow> Some p | None \<Rightarrow> upr_provider_upload_id r),
       upr_provider_completed :=
         (case uu_provider_completed cmd of Some b \<Rightarrow> b | None \<Rightarrow> upr_provider_completed r)\<rparr>"

definition update_uploads :: "(upload_row \<Rightarrow> bool) \<Rightarrow> (upload_row \<Rightarrow> upload_row) \<Rightarrow> upload_row list statement" where
  "update_uploads P f t =
     Inr (map f (filter P (tb_uploads t)),
          \<lambda>t. t\<lparr>tb_uploads := map (\<lambda>r. if P r then f r else r) (tb_uploads t)\<rparr>)"

definition sql_update_upload_state :: "update_upload_state_cmd \<Rightarrow> (database, unit) call" where
  "sql_update_upload_state cmd =
     call_bind (on_pool (update_uploads (may_become cmd) (state_updated cmd))) (\<lambda>rows.
       call_unless (length rows = 0) UploadNotFound)"

definition sql_abort_upload_record ::
  "sql_lib \<Rightarrow> abort_upload_record_cmd \<Rightarrow> (database, unit) call" where
  "sql_abort_upload_record lib cmd =
     in_transaction
       (call_bind (sql (update_uploads (\<lambda>r. upr_id r = au_id cmd \<and> upr_state r \<noteq> ''completed'')
            (\<lambda>r. r\<lparr>upr_state := ''aborted'', upr_aborted_at := Some (sl_timestamptz lib (au_now cmd))\<rparr>)))
          (\<lambda>rows.
            case fetch_optional rows of
              None \<Rightarrow> call_ok ()
            | Some row \<Rightarrow>
                enqueue_blob_gc lib (upr_blob_backend row) (upr_blob_ref row) (au_gc_not_before cmd)))"

section \<open>Claiming a key\<close>

definition SQL_CONTENTION_POLLS :: nat where
  "SQL_CONTENTION_POLLS = 10"

definition header_pair :: "json \<Rightarrow> (string \<times> string) option" where
  "header_pair item =
     (case item of JArray [JString k, JString v] \<Rightarrow> Some (k, v) | _ \<Rightarrow> None)"

definition decode_headers :: "json option \<Rightarrow> (string \<times> string) list" where
  "decode_headers v =
     (case v of Some (JArray items) \<Rightarrow> List.map_filter header_pair items | _ \<Rightarrow> [])"

text \<open>\<open>as u16\<close> keeps the low sixteen bits.\<close>

definition sql_decode_stored_response :: "key_row \<Rightarrow> stored_response" where
  "sql_decode_stored_response row =
     \<lparr>sr_status = (case ker_status_code row of Some st \<Rightarrow> st | None \<Rightarrow> 200) mod 2 ^ 16,
      sr_headers = decode_headers (ker_response_headers row),
      sr_body = (case ker_response_body row of Some b \<Rightarrow> b | None \<Rightarrow> [])\<rparr>"

definition claimed_row :: "sql_lib \<Rightarrow> idempotency_acquire \<Rightarrow> key_row" where
  "claimed_row lib req =
     \<lparr>ker_principal_id = ic_principal_id (ia_context req), ker_operation = ic_operation (ia_context req),
      ker_idempotency_key = ic_key (ia_context req),
      ker_request_hash = ic_request_hash (ia_context req), ker_state = ''in_progress'',
      ker_owner_token = Some (ic_owner_token (ia_context req)),
      ker_lease_until = Some (sl_timestamptz lib (ia_lease_until req)), ker_status_code = None,
      ker_response_headers = None, ker_response_body = None,
      ker_created_at = sl_timestamptz lib (ia_now req), ker_completed_at = None,
      ker_expires_at = sl_timestamptz lib (ia_expires_at req)\<rparr>"

definition insert_claim :: "idempotency_context \<Rightarrow> key_row \<Rightarrow> nat statement" where
  "insert_claim ctx r t =
     (if list_ex (is_scope ctx) (tb_keys t) then Inr (0, id)
      else Inr (1, \<lambda>t. t\<lparr>tb_keys := tb_keys t @ [r]\<rparr>))"

definition read_record :: "idempotency_context \<Rightarrow> (database, key_row option) call" where
  "read_record ctx =
     on_pool (select (\<lambda>t. fetch_optional (filter (is_scope ctx) (tb_keys t))))"

definition stealable :: "idempotency_context \<Rightarrow> time \<Rightarrow> key_row \<Rightarrow> bool" where
  "stealable ctx now r \<longleftrightarrow>
     is_scope ctx r \<and> ker_state r = ''in_progress'' \<and>
     (case ker_lease_until r of None \<Rightarrow> False | Some until \<Rightarrow> until \<le> now)"

definition stolen_row :: "sql_lib \<Rightarrow> idempotency_acquire \<Rightarrow> key_row \<Rightarrow> key_row" where
  "stolen_row lib req r =
     r\<lparr>ker_owner_token := Some (ic_owner_token (ia_context req)),
       ker_lease_until := Some (sl_timestamptz lib (ia_lease_until req)),
       ker_request_hash := ic_request_hash (ia_context req)\<rparr>"

text \<open>A round: \<open>Some\<close> answer ends the polling, \<open>None\<close> goes on.\<close>

definition steal_round ::
  "sql_lib \<Rightarrow> time \<Rightarrow> idempotency_acquire \<Rightarrow> key_row \<Rightarrow> (database, idempotency_decision option) call" where
  "steal_round lib now req row =
     call_bind (on_pool (update_keys (stealable (ia_context req) (sl_timestamptz lib now))
         (stolen_row lib req))) (\<lambda>n.
       call_ok (if n = 1 then Some (Owner (dec_int (timestamp_micros (ker_created_at row)))) else None))"

definition acquire_round ::
  "sql_lib \<Rightarrow> (nat \<Rightarrow> time) \<Rightarrow> nat \<Rightarrow> idempotency_acquire \<Rightarrow> (database, idempotency_decision option) call" where
  "acquire_round lib clock k req =
     (let ctx = ia_context req in
      call_bind (on_pool (insert_claim ctx (claimed_row lib req))) (\<lambda>n.
        if n = 1 then call_ok (Some (Owner (dec_int (timestamp_micros (ia_now req)))))
        else call_bind (read_record ctx) (\<lambda>row.
          case row of
            None \<Rightarrow> call_ok None
          | Some row \<Rightarrow>
              if ker_request_hash row \<noteq> ic_request_hash ctx then call_ok (Some Conflict)
              else if ker_state row = ''completed''
              then call_ok (Some (Replay (sql_decode_stored_response row)))
              else if (case ker_lease_until row of None \<Rightarrow> True | Some until \<Rightarrow> until \<le> clock (2 * k))
              then steal_round lib (clock (2 * k + 1)) req row
              else call_ok None)))"

fun acquire_rounds ::
  "sql_lib \<Rightarrow> (nat \<Rightarrow> time) \<Rightarrow> idempotency_acquire \<Rightarrow> nat \<Rightarrow> nat \<Rightarrow> (database, idempotency_decision) call" where
  "acquire_rounds lib clock req k 0 = call_err RateLimited"
| "acquire_rounds lib clock req k (Suc n) =
     call_bind (acquire_round lib clock k req) (\<lambda>decision.
       case decision of
         Some x \<Rightarrow> call_ok x
       | None \<Rightarrow> acquire_rounds lib clock req (Suc k) n)"

definition sql_acquire ::
  "sql_lib \<Rightarrow> (nat \<Rightarrow> time) \<Rightarrow> idempotency_acquire \<Rightarrow> (database, idempotency_decision) call" where
  "sql_acquire lib clock req = acquire_rounds lib clock req 0 SQL_CONTENTION_POLLS"

definition sql_complete :: "sql_lib \<Rightarrow> idempotency_complete \<Rightarrow> (database, unit) call" where
  "sql_complete lib req =
     autocommit (finalize_in_tx lib (Some (ico_context req)) (ico_response req) (ico_now req)
       (ico_expires_at req))"

definition delete_keys :: "(key_row \<Rightarrow> bool) \<Rightarrow> nat statement" where
  "delete_keys P t =
     Inr (length (filter P (tb_keys t)), \<lambda>t. t\<lparr>tb_keys := filter (\<lambda>r. \<not> P r) (tb_keys t)\<rparr>)"

definition sql_fail_or_release :: "idempotency_release \<Rightarrow> (database, unit) call" where
  "sql_fail_or_release req =
     call_bind (on_pool (delete_keys (held_by (ir_context req)))) (\<lambda>_. call_ok ())"

end
