(* ===== verification/SqlChanges.thy ===== *)
theory SqlChanges
  imports SqlSessions
begin

text \<open>
  The change feed (\<open>changes.rs\<close>) and maintenance (\<open>maintenance.rs\<close>) in Postgres. A page is cut at a
  snapshot of the highest sequence number, and the cursor it was read with remembers it.
\<close>

section \<open>The feed\<close>

definition decode_change :: "change_row \<Rightarrow> (int \<times> change_record) result" where
  "decode_change row =
     rbind (ok_or (Internal (''unknown change action '' @ debug_str (chr_action row)))
       (change_action_parse (chr_action row))) (\<lambda>action.
       Ok (chr_seq row,
         \<lparr>c_change_id = chr_change_id row, c_object_id = chr_object_id row,
          c_revision = chr_revision row, c_action = action, c_changed_at = chr_changed_at row,
          c_request_id = chr_request_id row, c_idempotency_key = chr_idempotency_key row,
          c_tombstone = chr_tombstone row\<rparr>))"

record built_page =
  bp_items :: "change_record list"
  bp_page_end_seq :: int
  bp_snapshot_max_seq :: int
  bp_has_more :: bool
  bp_lag :: nat

text \<open>\<open>WHERE seq > $1 AND seq <= $2 ORDER BY seq ASC\<close>.\<close>

definition rows_between :: "int \<Rightarrow> int \<Rightarrow> sql_tables \<Rightarrow> change_row list" where
  "rows_between after_seq end_seq t =
     sort_key chr_seq (filter (\<lambda>r. after_seq < chr_seq r \<and> chr_seq r \<le> end_seq) (tb_changes t))"

definition max_seq :: "int \<Rightarrow> change_row list \<Rightarrow> int" where
  "max_seq dflt rows = (case rows of [] \<Rightarrow> dflt | r # rs \<Rightarrow> foldr max (map chr_seq rs) (chr_seq r))"

definition count_changes_after :: "int \<Rightarrow> (database, nat) call" where
  "count_changes_after after_seq =
     sql (select (\<lambda>t. length (filter (\<lambda>r. after_seq < chr_seq r) (tb_changes t))))"

definition build_page :: "int \<Rightarrow> 32 word \<Rightarrow> (database, built_page) call" where
  "build_page after_seq limit =
     call_bind (sql (select (\<lambda>t. max_seq after_seq (tb_changes t)))) (\<lambda>m.
     let snapshot = max m after_seq in
     call_bind (sql (select (\<lambda>t. take (unat limit) (rows_between after_seq snapshot t)))) (\<lambda>rows.
     call_bind (call_result (rmap decode_change rows)) (\<lambda>decoded.
     let end_seq = (if decoded = [] then after_seq else fst (last decoded)) in
     call_bind (sql (select (\<lambda>t. rows_between end_seq snapshot t \<noteq> []))) (\<lambda>has_more.
     call_bind (count_changes_after end_seq) (\<lambda>lag.
       call_ok \<lparr>bp_items = map snd decoded, bp_page_end_seq = end_seq,
         bp_snapshot_max_seq = snapshot, bp_has_more = has_more, bp_lag = lag\<rparr>)))))"

definition new_cursor_row :: "sql_lib \<Rightarrow> cursor_id \<Rightarrow> int \<Rightarrow> time \<Rightarrow> time \<Rightarrow> feed_cursor_row" where
  "new_cursor_row lib i after_seq now expires_at =
     \<lparr>fcr_cursor_id = i, fcr_after_seq = after_seq, fcr_materialized = False, fcr_page_limit = None,
      fcr_snapshot_max_seq = None, fcr_page_end_seq = None, fcr_has_more = None,
      fcr_next_cursor_id = None, fcr_created_at = sl_timestamptz lib now,
      fcr_expires_at = sl_timestamptz lib expires_at\<rparr>"

definition insert_cursor :: "feed_cursor_row \<Rightarrow> unit statement" where
  "insert_cursor r t =
     (if fcr_cursor_id r \<in> set (map fcr_cursor_id (tb_cursors t))
      then Inl (unique_violation ''change_cursors_pkey'')
      else Inr ((), \<lambda>t. t\<lparr>tb_cursors := tb_cursors t @ [r]\<rparr>))"

definition create_cursor :: "sql_lib \<Rightarrow> string \<Rightarrow> int \<Rightarrow> time \<Rightarrow> time \<Rightarrow> (database, cursor_id) call" where
  "create_cursor lib ulid after_seq now expires_at =
     call_then (sql (insert_cursor (new_cursor_row lib (generate_cursor_id ulid) after_seq now expires_at)))
       (call_ok (generate_cursor_id ulid))"

definition update_cursor :: "cursor_id \<Rightarrow> (feed_cursor_row \<Rightarrow> feed_cursor_row) \<Rightarrow> unit statement" where
  "update_cursor i f t =
     Inr ((), \<lambda>t. t\<lparr>tb_cursors := map (\<lambda>r. if fcr_cursor_id r = i then f r else r) (tb_cursors t)\<rparr>)"

definition materialized_row :: "32 word \<Rightarrow> built_page \<Rightarrow> cursor_id \<Rightarrow> feed_cursor_row \<Rightarrow> feed_cursor_row" where
  "materialized_row limit built next_cursor r =
     r\<lparr>fcr_materialized := True, fcr_page_limit := Some limit,
       fcr_snapshot_max_seq := Some (bp_snapshot_max_seq built),
       fcr_page_end_seq := Some (bp_page_end_seq built), fcr_has_more := Some (bp_has_more built),
       fcr_next_cursor_id := Some next_cursor\<rparr>"

text \<open>A column that the code reads as not null.\<close>

definition not_null :: "'a option \<Rightarrow> 'a result" where
  "not_null v = ok_or (map_sqlx (SqlxOther ''unexpected null'')) v"

definition reread_cursor :: "read_changes_req \<Rightarrow> feed_cursor_row \<Rightarrow> (database, change_page) call" where
  "reread_cursor req row =
     call_bind (call_result (not_null (fcr_page_limit row))) (\<lambda>page_limit.
     if page_limit \<noteq> rc_limit req
     then call_err (InvalidRequest ''This cursor was already read with a different limit.'')
     else
       call_bind (call_result (not_null (fcr_page_end_seq row))) (\<lambda>end_seq.
       call_bind (call_result (not_null (fcr_has_more row))) (\<lambda>has_more.
       call_bind (call_result (not_null (fcr_next_cursor_id row))) (\<lambda>next_cursor.
       call_bind (sql (select (rows_between (fcr_after_seq row) end_seq))) (\<lambda>rows.
       call_bind (call_result (rmap decode_change rows)) (\<lambda>decoded.
       call_bind (count_changes_after end_seq) (\<lambda>lag.
         call_ok \<lparr>cpg_items = map snd decoded, cpg_next_cursor = next_cursor,
           cpg_has_more = has_more, cpg_lag = lag\<rparr>)))))))"

text \<open>A page that is built, with the cursor after it; the cursor it was read with is bound to it.\<close>

definition fresh_page ::
  "sql_lib \<Rightarrow> string \<Rightarrow> read_changes_req \<Rightarrow> int \<Rightarrow> cursor_id option \<Rightarrow> (database, change_page) call" where
  "fresh_page lib ulid req after_seq cursor =
     call_bind (build_page after_seq (rc_limit req)) (\<lambda>built.
     call_bind (create_cursor lib ulid (bp_page_end_seq built) (rc_now req) (rc_cursor_expires_at req)) (\<lambda>next_cursor.
     call_then
       (case cursor of
          None \<Rightarrow> call_ok ()
        | Some c \<Rightarrow> sql (update_cursor c (materialized_row (rc_limit req) built next_cursor)))
       (call_ok \<lparr>cpg_items = bp_items built, cpg_next_cursor = next_cursor,
          cpg_has_more = bp_has_more built, cpg_lag = bp_lag built\<rparr>)))"

definition sql_read_changes ::
  "sql_lib \<Rightarrow> string \<Rightarrow> read_changes_req \<Rightarrow> (database, change_page) call" where
  "sql_read_changes lib ulid req =
     in_transaction
       (call_bind (sql (select tb_purged_through)) (\<lambda>watermark.
        case rc_cursor req of
          None \<Rightarrow> fresh_page lib ulid req watermark None
        | Some cursor \<Rightarrow>
            if \<not> cursor_well_formed cursor then call_err (InvalidRequest ''Invalid cursor.'')
            else
              call_bind (sql (select (\<lambda>t. fetch_optional
                  (filter (\<lambda>r. fcr_cursor_id r = cursor) (tb_cursors t))))) (\<lambda>row.
              call_bind (call_result (ok_or ChangesCursorExpired row)) (\<lambda>row.
                if fcr_expires_at row \<le> rc_now req \<or> fcr_after_seq row < watermark
                then call_err ChangesCursorExpired
                else if fcr_materialized row then reread_cursor req row
                else fresh_page lib ulid req (fcr_after_seq row) (Some cursor)))))"

section \<open>Maintenance\<close>

definition SQL_GC_LEASE :: time where
  "SQL_GC_LEASE = 5 * 60 * 1000000000"

definition refers_to :: "queue_row \<Rightarrow> object_row \<Rightarrow> bool" where
  "refers_to g r \<longleftrightarrow> live_row r \<and> obr_content_state r = Some ''ready''
     \<and> obr_blob_backend r = Some (qur_blob_backend g) \<and> obr_blob_ref r = Some (qur_blob_ref g)"

definition collectable :: "time \<Rightarrow> sql_tables \<Rightarrow> queue_row \<Rightarrow> bool" where
  "collectable now t g \<longleftrightarrow> qur_not_before g \<le> now \<and> \<not> list_ex (refers_to g) (tb_objects t)"

definition queue_key :: "queue_row \<Rightarrow> string \<times> string" where
  "queue_key g = (qur_blob_backend g, qur_blob_ref g)"

definition claim_queue :: "time \<Rightarrow> time \<Rightarrow> 32 word \<Rightarrow> queue_row list statement" where
  "claim_queue now until limit t =
     (let picked = map queue_key (take (unat limit)
            (sort_key qur_not_before (filter (collectable now t) (tb_queue t))))
      in Inr (filter (\<lambda>g. queue_key g \<in> set picked) (tb_queue t),
           \<lambda>t. t\<lparr>tb_queue := map (\<lambda>g. if queue_key g \<in> set picked then g\<lparr>qur_not_before := until\<rparr> else g)
             (tb_queue t)\<rparr>))"

definition sql_claim_gc_batch :: "sql_lib \<Rightarrow> time \<Rightarrow> 32 word \<Rightarrow> (database, blob_gc_entry list) call" where
  "sql_claim_gc_batch lib now limit =
     call_bind (on_pool (claim_queue (sl_timestamptz lib now) (sl_timestamptz lib (now + SQL_GC_LEASE)) limit))
       (\<lambda>rows. call_ok (map (\<lambda>g. \<lparr>ge_blob_backend = qur_blob_backend g, ge_blob_ref = qur_blob_ref g,
          ge_attempts = qur_attempts g\<rparr>) rows))"

definition sql_finish_gc :: "blob_gc_entry \<Rightarrow> (database, unit) call" where
  "sql_finish_gc e =
     on_pool (\<lambda>t. Inr ((), \<lambda>t. t\<lparr>tb_queue :=
       filter (\<lambda>g. \<not> same_queue_row (ge_blob_backend e) (ge_blob_ref e) g) (tb_queue t)\<rparr>))"

definition fail_queue :: "blob_gc_entry \<Rightarrow> string \<Rightarrow> time \<Rightarrow> unit statement" where
  "fail_queue e err retry_at t =
     (let hit = same_queue_row (ge_blob_backend e) (ge_blob_ref e) in
      if list_ex (\<lambda>g. hit g \<and> sint (qur_attempts g) = 2 ^ 31 - 1) (tb_queue t) then Inl out_of_range
      else Inr ((), \<lambda>t. t\<lparr>tb_queue := map (\<lambda>g. if hit g
             then g\<lparr>qur_attempts := qur_attempts g + 1, qur_last_error := Some err, qur_not_before := retry_at\<rparr>
             else g) (tb_queue t)\<rparr>))"

definition sql_fail_gc :: "sql_lib \<Rightarrow> blob_gc_entry \<Rightarrow> string \<Rightarrow> time \<Rightarrow> (database, unit) call" where
  "sql_fail_gc lib e err retry_at = on_pool (fail_queue e err (sl_timestamptz lib retry_at))"

definition row_overdue :: "time \<Rightarrow> upload_row \<Rightarrow> bool" where
  "row_overdue now r \<longleftrightarrow>
     upr_expires_at r \<le> now \<and> upr_state r \<in> {''initiating'', ''ready'', ''completing''}"

definition expire_uploads :: "time \<Rightarrow> 32 word \<Rightarrow> upload_row list statement" where
  "expire_uploads now limit t =
     (let picked = map upr_id (take (unat limit)
            (sort_key upr_expires_at (filter (row_overdue now) (tb_uploads t))))
      in update_uploads (\<lambda>r. upr_id r \<in> set picked) (\<lambda>r. r\<lparr>upr_state := ''expired''\<rparr>) t)"

fun enqueue_expired :: "sql_lib \<Rightarrow> time \<Rightarrow> upload_record list \<Rightarrow> (database, unit) call" where
  "enqueue_expired lib now [] = call_ok ()"
| "enqueue_expired lib now (u # us) =
     call_then (enqueue_blob_gc lib (u_blob_backend u) (u_blob_ref u) now) (enqueue_expired lib now us)"

definition sql_claim_expired_uploads ::
  "sql_lib \<Rightarrow> time \<Rightarrow> 32 word \<Rightarrow> (database, upload_record list) call" where
  "sql_claim_expired_uploads lib now limit =
     in_transaction
       (call_bind (sql (expire_uploads (sl_timestamptz lib now) limit)) (\<lambda>rows.
        call_bind (call_result (rmap decode_upload rows)) (\<lambda>us.
        call_then (enqueue_expired lib now us) (call_ok us))))"

definition sql_purge_idempotency_records :: "sql_lib \<Rightarrow> time \<Rightarrow> (database, nat) call" where
  "sql_purge_idempotency_records lib now =
     on_pool (delete_keys (\<lambda>r. ker_expires_at r \<le> sl_timestamptz lib now))"

definition sql_purge_change_cursors :: "sql_lib \<Rightarrow> time \<Rightarrow> (database, nat) call" where
  "sql_purge_change_cursors lib now =
     on_pool (\<lambda>t. let old = (\<lambda>r. fcr_expires_at r \<le> sl_timestamptz lib now) in
       Inr (length (filter old (tb_cursors t)),
            \<lambda>t. t\<lparr>tb_cursors := filter (\<lambda>r. \<not> old r) (tb_cursors t)\<rparr>))"

text \<open>The deletion of old changes, with their number and the highest sequence number among them.\<close>

definition delete_changes :: "time \<Rightarrow> (nat \<times> int option) statement" where
  "delete_changes older_than t =
     (let old = (\<lambda>r. chr_changed_at r < older_than); rows = filter old (tb_changes t) in
      Inr ((length rows, if rows = [] then None else Some (max_seq 0 rows)),
           \<lambda>t. t\<lparr>tb_changes := filter (\<lambda>r. \<not> old r) (tb_changes t)\<rparr>))"

definition raise_watermark :: "int \<Rightarrow> unit statement" where
  "raise_watermark seq t = Inr ((), \<lambda>t. t\<lparr>tb_purged_through := max (tb_purged_through t) seq\<rparr>)"

definition sql_purge_changes :: "sql_lib \<Rightarrow> time \<Rightarrow> (database, nat) call" where
  "sql_purge_changes lib older_than =
     in_transaction
       (call_bind (sql (delete_changes (sl_timestamptz lib older_than))) (\<lambda>(purged, highest).
        call_then (case highest of None \<Rightarrow> call_ok () | Some seq \<Rightarrow> sql (raise_watermark seq))
          (call_ok purged)))"

definition sql_count_pending_gc :: "(database, nat) call" where
  "sql_count_pending_gc = on_pool (select (\<lambda>t. length (tb_queue t)))"

end
