(* ===== verification/SqlReads.thy ===== *)
theory SqlReads
  imports SqlMutations SqlChanges MemReads StrTrim Ports
begin

text \<open>
  Reading objects from Postgres (\<open>objects_read.rs\<close>), and the port that the adapter's operations
  make up. A listing is one query with its conditions, its order and one row more than the page;
  text is compared under the collation of the database.
\<close>

section \<open>One object\<close>

definition sql_content_pointer :: "object_id \<Rightarrow> (database, content_pointer option) call" where
  "sql_content_pointer i =
     call_bind (on_pool (select (\<lambda>t. fetch_optional (filter (\<lambda>r. obr_content_state r = Some ''ready'')
         (live_rows_of i t))))) (\<lambda>row.
       call_ok (case row of
         None \<Rightarrow> None
       | Some row \<Rightarrow>
           (case (obr_blob_backend row, obr_blob_ref row) of
              (Some backend, Some r) \<Rightarrow> Some \<lparr>cp_blob_backend = backend, cp_blob_ref = r\<rparr>
            | _ \<Rightarrow> None)))"

text \<open>\<open>RESOLVE_QUERY\<close>: from the root, one lookup by parent and name per segment.\<close>

fun resolve_walk :: "object_row list \<Rightarrow> string \<Rightarrow> string list \<Rightarrow> string list" where
  "resolve_walk rows i [] = [i]"
| "resolve_walk rows i (segment # rest) =
     concat (map (\<lambda>r. resolve_walk rows (obr_id r) rest)
       (filter (\<lambda>r. obr_parent_id r = Some i \<and> obr_name r = segment \<and> live_row r) rows))"

definition sql_resolve_path :: "string \<Rightarrow> (database, object_view option) call" where
  "sql_resolve_path path =
     call_bind (call_result (split_path path)) (\<lambda>segments.
       if segments = [] then load_view ROOT_ID
       else
         call_bind (on_pool (select (\<lambda>t. fetch_optional (resolve_walk (tb_objects t) ''root'' segments))))
           (\<lambda>i. case i of None \<Rightarrow> call_ok None | Some i \<Rightarrow> load_view i))"

section \<open>Listings\<close>

text \<open>The sort expression of a row, as the database compares it.\<close>

definition order_expression :: "sql_lib \<Rightarrow> order_by \<Rightarrow> object_row \<Rightarrow> sort_value" where
  "order_expression lib order_by r =
     (case order_by of
        ByName \<Rightarrow> SortText (sl_collate lib (obr_name r))
      | ByCreatedAt \<Rightarrow> SortNumber (obr_created_at r)
      | ByUpdatedAt \<Rightarrow> SortNumber (obr_updated_at r)
      | BySize \<Rightarrow> SortNumber (case obr_size_bytes r of None \<Rightarrow> - 1 | Some z \<Rightarrow> sint z))"

definition row_key :: "sql_lib \<Rightarrow> order_by \<Rightarrow> object_row \<Rightarrow> sort_value \<times> string" where
  "row_key lib order_by r = (order_expression lib order_by r, sl_collate lib (obr_id r))"

definition bind_sort_key :: "sql_lib \<Rightarrow> order_by \<Rightarrow> string option \<Rightarrow> sort_value result" where
  "bind_sort_key lib order_by key =
     rbind (ok_or (InvalidRequest ''Invalid cursor.'') key) (\<lambda>key.
       case order_by of
         ByName \<Rightarrow> Ok (SortText (sl_collate lib key))
       | BySize \<Rightarrow>
           rbind (ok_or (InvalidRequest ''Invalid cursor.'') (parse_i64 key)) (\<lambda>z. Ok (SortNumber z))
       | _ \<Rightarrow>
           rbind (ok_or (InvalidRequest ''Invalid cursor.'') (sl_parse_rfc3339 lib key)) (\<lambda>ts.
             Ok (SortNumber (sl_timestamptz lib ts))))"

definition decode_cursor_option :: "sql_lib \<Rightarrow> string option \<Rightarrow> keyset_cursor option result" where
  "decode_cursor_option lib cursor =
     (case cursor of
        None \<Rightarrow> Ok None
      | Some c \<Rightarrow> rbind (decode_cursor (sl_codec lib) c) (\<lambda>kc. Ok (Some kc)))"

text \<open>Where a listing goes on: nowhere in particular, or beyond a key in the direction of the order.\<close>

definition resume_key ::
  "sql_lib \<Rightarrow> order_by \<Rightarrow> keyset_cursor option \<Rightarrow> (sort_value \<times> string) option result" where
  "resume_key lib order_by cursor =
     (case cursor of
        None \<Rightarrow> Ok None
      | Some kc \<Rightarrow>
          rbind (bind_sort_key lib order_by (kc_k kc)) (\<lambda>v. Ok (Some (v, sl_collate lib (kc_i kc)))))"

definition beyond :: "list_order \<Rightarrow> 'k::linorder \<Rightarrow> 'k option \<Rightarrow> bool" where
  "beyond order k resume =
     (case resume of
        None \<Rightarrow> True
      | Some c \<Rightarrow> (case order of Asc \<Rightarrow> c < k | Desc \<Rightarrow> k < c))"

definition children_query ::
  "sql_lib \<Rightarrow> list_children_cmd \<Rightarrow> (sort_value \<times> string) option \<Rightarrow> sql_tables \<Rightarrow> object_row list" where
  "children_query lib q resume t =
     take (unat (lc_limit q) + 1)
       (sort_listing (lc_order q) (row_key lib (lc_order_by q))
         (filter (\<lambda>r. live_row r \<and> obr_parent_id r = Some (lc_parent_id q)
                    \<and> beyond (lc_order q) (row_key lib (lc_order_by q) r) resume) (tb_objects t)))"

definition sql_sort_key_of :: "sql_lib \<Rightarrow> object_view \<Rightarrow> order_by option \<Rightarrow> string option" where
  "sql_sort_key_of lib v order_by =
     (case order_by of
        None \<Rightarrow> None
      | Some ByName \<Rightarrow> Some (o_name (ov_object v))
      | Some ByCreatedAt \<Rightarrow> Some (sl_to_rfc3339 lib (o_created_at (ov_object v)))
      | Some ByUpdatedAt \<Rightarrow> Some (sl_to_rfc3339 lib (o_updated_at (ov_object v)))
      | Some BySize \<Rightarrow> Some (dec_int (case o_size (ov_object v) of None \<Rightarrow> - 1 | Some z \<Rightarrow> sint z)))"

definition sql_finish_page ::
  "sql_lib \<Rightarrow> decoded_object list \<Rightarrow> 32 word \<Rightarrow> order_by option \<Rightarrow> (database, object_view page) call" where
  "sql_finish_page lib rows limit order_by =
     (let has_more = unat limit < length rows in
      call_bind (attach_paths (take (unat limit) rows)) (\<lambda>items.
      call_bind (call_result
        (if has_more \<and> items \<noteq> []
         then rbind (encode_cursor (sl_codec lib)
                \<lparr>kc_k = sql_sort_key_of lib (last items) order_by, kc_i = o_id (ov_object (last items))\<rparr>)
                (\<lambda>c. Ok (Some c))
         else Ok None)) (\<lambda>next_cursor.
        call_ok (page_new items next_cursor has_more))))"

definition sql_list_children :: "sql_lib \<Rightarrow> list_children_cmd \<Rightarrow> (database, object_view page) call" where
  "sql_list_children lib q =
     call_bind (call_result (rbind (decode_cursor_option lib (lc_cursor q))
       (resume_key lib (lc_order_by q)))) (\<lambda>resume.
     call_bind (sql (select (children_query lib q resume))) (\<lambda>rows.
     call_bind (call_result (rmap decode_object rows)) (\<lambda>decoded.
       sql_finish_page lib decoded (lc_limit q) (Some (lc_order_by q)))))"

section \<open>Queries\<close>

text \<open>\<open>jsonb_exists\<close>: a key of an object, a text in an array, or the text itself.\<close>

fun jsonb_exists :: "json \<Rightarrow> string \<Rightarrow> bool" where
  "jsonb_exists (JObject m) key \<longleftrightarrow> json_get (JObject m) key \<noteq> None"
| "jsonb_exists (JArray vs) key \<longleftrightarrow> JString key \<in> set vs"
| "jsonb_exists (JString s) key \<longleftrightarrow> s = key"
| "jsonb_exists _ key \<longleftrightarrow> False"

definition sql_condition :: "sql_lib \<Rightarrow> json \<Rightarrow> string \<times> metadata_condition \<Rightarrow> bool" where
  "sql_condition lib metadata e =
     (case snd e of
        MetaEq v \<Rightarrow>
          (case json_get metadata (fst e) of
             None \<Rightarrow> False
           | Some x \<Rightarrow> sl_jsonb_eq lib x (sl_jsonb lib v))
      | MetaExists True \<Rightarrow> jsonb_exists metadata (fst e)
      | MetaExists False \<Rightarrow> \<not> jsonb_exists metadata (fst e))"

definition row_matches :: "sql_lib \<Rightarrow> object_query \<Rightarrow> object_row \<Rightarrow> bool" where
  "row_matches lib q r \<longleftrightarrow>
     live_row r \<and>
     (case oq_kind q of None \<Rightarrow> True | Some k \<Rightarrow> obr_kind r = object_kind_as_str k) \<and>
     (case oq_name q of None \<Rightarrow> True | Some n \<Rightarrow> obr_name r = n) \<and>
     (case oq_parent_id q of None \<Rightarrow> True | Some p \<Rightarrow> obr_parent_id r = Some p) \<and>
     list_all (sql_condition lib (obr_metadata r)) (oq_metadata q)"

definition matches_query ::
  "sql_lib \<Rightarrow> object_query \<Rightarrow> keyset_cursor option \<Rightarrow> sql_tables \<Rightarrow> object_row list" where
  "matches_query lib q cursor t =
     take (unat (oq_limit q) + 1)
       (sort_key (\<lambda>r. sl_collate lib (obr_id r))
         (filter (\<lambda>r. row_matches lib q r \<and>
             beyond Asc (sl_collate lib (obr_id r)) (map_option (\<lambda>kc. sl_collate lib (kc_i kc)) cursor))
           (tb_objects t)))"

definition sql_query_objects :: "sql_lib \<Rightarrow> object_query \<Rightarrow> (database, object_view page) call" where
  "sql_query_objects lib q =
     call_bind (call_result (decode_cursor_option lib (oq_cursor q))) (\<lambda>cursor.
     call_bind (sql (select (matches_query lib q cursor))) (\<lambda>rows.
     call_bind (call_result (rmap decode_object rows)) (\<lambda>decoded.
       sql_finish_page lib decoded (oq_limit q) None)))"

section \<open>The port\<close>

definition check_sql_schema :: "bool \<Rightarrow> (database, unit) call" where
  "check_sql_schema present =
     call_bind (on_pool (select (\<lambda>_. present))) (\<lambda>there.
       call_unless (\<not> there) (Internal ''database schema is not initialised; run migrations''))"

definition sql_store :: "sql_lib \<Rightarrow> (nat \<Rightarrow> time) \<Rightarrow> database meta_store" where
  "sql_store lib clock =
     \<lparr>ms_get_object = load_view, ms_content_pointer = sql_content_pointer,
      ms_list_children = sql_list_children lib, ms_resolve_path = sql_resolve_path,
      ms_query_objects = sql_query_objects lib, ms_create_object = sql_create_object lib,
      ms_patch_object = sql_patch_object lib, ms_delete_object = sql_delete_object lib,
      ms_commit_content = sql_commit_content lib,
      ms_create_upload_record = sql_create_upload_record lib, ms_get_upload = sql_get_upload,
      ms_update_upload_state = sql_update_upload_state,
      ms_abort_upload_record = sql_abort_upload_record lib, ms_acquire = sql_acquire lib clock,
      ms_complete = sql_complete lib, ms_fail_or_release = sql_fail_or_release,
      ms_read_changes = sql_read_changes lib, ms_claim_gc_batch = sql_claim_gc_batch lib,
      ms_finish_gc = sql_finish_gc, ms_fail_gc = sql_fail_gc lib,
      ms_claim_expired_uploads = sql_claim_expired_uploads lib,
      ms_purge_idempotency_records = sql_purge_idempotency_records lib,
      ms_purge_change_cursors = sql_purge_change_cursors lib,
      ms_purge_changes = sql_purge_changes lib, ms_count_pending_gc = sql_count_pending_gc\<rparr>"

end
