(* ===== verification/SqlAtomic.thy ===== *)
theory SqlAtomic
  imports SqlReads MemPaths
begin

text \<open>
  What a transaction guarantees, whatever fails and whoever commits in between. Statements are
  followed through a mutation by rules for the combinators of calls: what every statement keeps,
  and what holds where a call succeeds.
\<close>

section \<open>Rules for calls\<close>

definition call_inv :: "('s \<Rightarrow> bool) \<Rightarrow> ('s, 'a) call \<Rightarrow> bool" where
  "call_inv I m \<longleftrightarrow> (\<forall>s r s'. I s \<and> m s = Some (r, s') \<longrightarrow> I s')"

definition call_post :: "('s \<Rightarrow> bool) \<Rightarrow> ('a \<Rightarrow> 's \<Rightarrow> bool) \<Rightarrow> ('s, 'a) call \<Rightarrow> bool" where
  "call_post I Q m \<longleftrightarrow> (\<forall>s a s'. I s \<and> m s = Some (Ok a, s') \<longrightarrow> Q a s')"

named_theorems call_rules \<open>rules for what calls keep and establish\<close>

lemma call_invD: "call_inv I m \<Longrightarrow> m s = Some (r, s') \<Longrightarrow> I s \<Longrightarrow> I s'"
  unfolding call_inv_def by blast

lemma call_postD: "call_post I Q m \<Longrightarrow> m s = Some (Ok a, s') \<Longrightarrow> I s \<Longrightarrow> Q a s'"
  unfolding call_post_def by blast

lemma call_inv_atoms [call_rules]:
  "call_inv I (call_ok a)" "call_inv I (call_err e)" "call_inv I (call_result r)"
  "call_inv I (call_unless b e)"
  by (auto simp: call_inv_def call_simps call_unless_def split: if_splits)

lemma call_inv_bind [call_rules]:
  "call_inv I m \<Longrightarrow> (\<And>a. call_inv I (f a)) \<Longrightarrow> call_inv I (call_bind m f)"
  unfolding call_inv_def call_bind_Some_iff by blast

lemma call_inv_then [call_rules]:
  "call_inv I m \<Longrightarrow> call_inv I m' \<Longrightarrow> call_inv I (call_then m m')"
  unfolding call_then_def by (rule call_inv_bind)

lemma call_post_err [call_rules]: "call_post I Q (call_err e)"
  by (auto simp: call_post_def call_simps)

lemma call_post_bind [call_rules]:
  "call_inv I m \<Longrightarrow> (\<And>a. call_post I Q (f a)) \<Longrightarrow> call_post I Q (call_bind m f)"
  unfolding call_post_def call_inv_def call_bind_Ok_iff by blast

lemma call_post_then [call_rules]:
  "call_inv I m \<Longrightarrow> call_post I Q m' \<Longrightarrow> call_post I Q (call_then m m')"
  unfolding call_then_def by (rule call_post_bind)

lemma call_inv_weaken:
  assumes "call_inv I m" and "\<And>s. J s \<longleftrightarrow> I s"
  shows "call_inv J m"
  using assms unfolding call_inv_def by blast

section \<open>Statements\<close>

lemma next_step_cases:
  obtains "db_script d = []" "next_step d = (NoFault, d)"
  | st rest where "db_script d = st # rest"
      "next_step d = (ss_fault st, (others_commit (ss_others st) d)\<lparr>db_script := rest\<rparr>)"
  by (cases "db_script d") (simp_all add: next_step_def)

lemma run_sql_cases:
  assumes "run_sql q d = Some (r, d')"
  obtains flt d1 where "next_step d = (flt, d1)" "d' = d1"
    "\<exists>e. r = Ok (Inl e) \<and> ((\<exists>e'. flt = Refused e') \<or> q (db_view d1) = Inl e)"
  | flt d1 rows w where "next_step d = (flt, d1)" "q (db_view d1) = Inr (rows, w)"
    "d' = d1\<lparr>db_writes := w \<circ> db_writes d1\<rparr>" "\<nexists>e. flt = Refused e"
    "r = Ok (Inr rows) \<or> (\<exists>e. r = Ok (Inl e) \<and> flt = AnswerLost e)"
proof -
  obtain flt d1 where n: "next_step d = (flt, d1)" by (cases "next_step d")
  show thesis
  proof (cases flt)
    case (Refused e)
    with assms n show thesis by (intro that(1) [OF n]) (auto simp: run_sql_def)
  next
    case NoFault
    with assms n show thesis
      by (cases "q (db_view d1)") (auto simp: run_sql_def intro: that(1) [OF n] that(2) [OF n])
  next
    case (AnswerLost e)
    with assms n show thesis
      by (cases "q (db_view d1)") (auto simp: run_sql_def intro: that(1) [OF n] that(2) [OF n])
  qed
qed

lemma sql_Ok_iff: "sql q d = Some (Ok x, d') \<longleftrightarrow> run_sql q d = Some (Ok (Inr x), d')"
proof
  assume "sql q d = Some (Ok x, d')"
  then obtain a d1 where a: "run_sql q d = Some (Ok a, d1)" "sql_ok a d1 = Some (Ok x, d')"
    by (auto simp: sql_def call_bind_Ok_iff)
  then show "run_sql q d = Some (Ok (Inr x), d')" by (cases a) (auto simp: sql_ok_def call_simps)
qed (simp add: sql_def sql_ok_def call_simps)

text \<open>
  Properties of a session that the others and the sequence do not disturb, and statements whose
  writes keep a property. A query writes nothing.
\<close>

definition steady :: "(database \<Rightarrow> bool) \<Rightarrow> bool" where
  "steady I \<longleftrightarrow>
     (\<forall>d. I d \<longrightarrow> I (snd (next_step d))) \<and> (\<forall>d n. I d \<longrightarrow> I (d\<lparr>db_next_seq := n\<rparr>))"

definition absorbs :: "(database \<Rightarrow> bool) \<Rightarrow> 'a statement \<Rightarrow> bool" where
  "absorbs I q \<longleftrightarrow>
     (\<forall>d t rows w. I d \<and> q t = Inr (rows, w) \<longrightarrow> I (d\<lparr>db_writes := w \<circ> db_writes d\<rparr>))"

definition lockable :: "(database \<Rightarrow> bool) \<Rightarrow> bool" where
  "lockable I \<longleftrightarrow> steady I \<and> (\<forall>d. I d \<longrightarrow> I (d\<lparr>db_change_lock := True\<rparr>))"

lemma lockable_steady: "lockable I \<Longrightarrow> steady I"
  by (simp add: lockable_def)

lemma absorbs_select [simp]: "absorbs I (select f)"
  by (auto simp: absorbs_def select_def)

lemma inv_run_sql [call_rules]:
  assumes "steady I" and "absorbs I q"
  shows "call_inv I (run_sql q)"
proof -
  have "I d'" if I: "I d" and run: "run_sql q d = Some (r, d')" for d r d'
    using run
  proof (cases rule: run_sql_cases)
    case (1 flt d1)
    with assms(1) I show ?thesis unfolding steady_def by (metis snd_conv)
  next
    case (2 flt d1 rows w)
    with assms(1) I have "I d1" unfolding steady_def by (metis snd_conv)
    with assms(2) 2(2,3) show ?thesis unfolding absorbs_def by blast
  qed
  then show ?thesis unfolding call_inv_def by blast
qed

lemma inv_sql [call_rules]: "steady I \<Longrightarrow> absorbs I q \<Longrightarrow> call_inv I (sql q)"
  unfolding sql_def sql_ok_def
  by (intro call_inv_bind inv_run_sql) (auto intro: call_inv_atoms split: sum.split)

lemma inv_select [call_rules]: "steady I \<Longrightarrow> call_inv I (sql (select f))"
  by (simp add: inv_sql)

lemma inv_lock [call_rules]: "lockable I \<Longrightarrow> call_inv I lock_change_order"
  using inv_select [of I "\<lambda>_. ()"]
  unfolding call_inv_def lock_change_order_def lockable_def by (auto split: option.splits)

lemma inv_seqs [call_rules]:
  assumes "steady I"
  shows "call_inv I (next_seqs n)"
proof -
  have "I d'" if I: "I d" and run: "next_seqs n d = Some (r, d')" for d r d'
  proof -
    obtain flt d1 where n: "next_step d = (flt, d1)" by (cases "next_step d")
    with assms I have "I d1" and "\<And>k. I (d1\<lparr>db_next_seq := k\<rparr>)"
      unfolding steady_def by (metis snd_conv)+
    with run n show ?thesis by (auto simp: next_seqs_def Let_def split: fault.splits)
  qed
  then show ?thesis unfolding call_inv_def by blast
qed

text \<open>The helpers of the adapter, in the order of their definition.\<close>

lemma inv_option_case [call_rules]:
  "call_inv I m \<Longrightarrow> (\<And>x. call_inv I (f x)) \<Longrightarrow> call_inv I (case v of None \<Rightarrow> m | Some x \<Rightarrow> f x)"
  by (cases v) simp_all

lemma inv_if [call_rules]:
  "call_inv I m \<Longrightarrow> call_inv I m' \<Longrightarrow> call_inv I (if b then m else m')"
  by simp

lemma inv_reads [call_rules]:
  assumes "steady I"
  shows "call_inv I (fetch_paths ids)" "call_inv I (attach_paths rows)" "call_inv I (load_view i)"
    "call_inv I (live_kind i)" "call_inv I (lock_object i)" "call_inv I (lock_live i)"
    "call_inv I (require_folder i)" "call_inv I (sql_is_self_or_descendant i j)"
    "call_inv I (has_live_children i)" "call_inv I (lock_upload i)"
proof -
  note rules = call_rules inv_select [OF assms]
  show paths: "call_inv I (fetch_paths ids)" for ids
    unfolding fetch_paths_def by (intro rules)
  show attach: "call_inv I (attach_paths rows)" for rows
    unfolding attach_paths_def by (intro rules paths)
  show "call_inv I (load_view i)" unfolding load_view_def by (intro rules attach)
  show kind: "call_inv I (live_kind i)" unfolding live_kind_def by (intro rules)
  show lock: "call_inv I (lock_object i)" unfolding lock_object_def by (intro rules)
  show "call_inv I (lock_live i)" unfolding lock_live_def by (intro rules lock)
  show "call_inv I (require_folder i)"
    unfolding require_folder_def by (intro rules kind) (auto intro: rules split: object_kind.split)
  show "call_inv I (sql_is_self_or_descendant i j)" unfolding sql_is_self_or_descendant_def by (intro rules)
  show "call_inv I (has_live_children i)" unfolding has_live_children_def by (intro rules)
  show "call_inv I (lock_upload i)" unfolding lock_upload_def by (intro rules)
qed

lemma inv_collect [call_rules]: "steady I \<Longrightarrow> call_inv I (lock_loop lib i n previous)"
  by (induction n arbitrary: previous) (auto intro!: call_rules)

lemma inv_targets [call_rules]: "steady I \<Longrightarrow> call_inv I (sql_delete_targets lib cmd current)"
  unfolding sql_delete_targets_def collect_and_lock_descendants_def by (intro call_rules)

lemma inv_check_move [call_rules]: "steady I \<Longrightarrow> call_inv I (check_move current target)"
  unfolding check_move_def by (intro call_rules)

lemma inv_recheck_move [call_rules]: "lockable I \<Longrightarrow> call_inv I (recheck_move current target)"
  unfolding recheck_move_def by (intro call_rules lockable_steady)

lemma inv_append:
  "lockable I \<Longrightarrow> (\<And>rows. absorbs I (insert_changes rows)) \<Longrightarrow> call_inv I (append_for lib ctx pending)"
  unfolding append_for_def sql_append_changes_def Let_def by (intro call_rules lockable_steady)

lemma inv_enqueue [call_rules]:
  "steady I \<Longrightarrow> (\<And>b r t. absorbs I (insert_queue b r t)) \<Longrightarrow> call_inv I (enqueue_blob_gc lib b r t)"
  unfolding enqueue_blob_gc_def by (intro call_rules)

lemma inv_enqueue_deleted [call_rules]:
  "steady I \<Longrightarrow> (\<And>b r t. absorbs I (insert_queue b r t)) \<Longrightarrow> call_inv I (enqueue_deleted lib now rows)"
  by (induction rows) (auto intro!: call_rules split: option.split)

lemma inv_enqueue_superseded [call_rules]:
  "steady I \<Longrightarrow> (\<And>b r t. absorbs I (insert_queue b r t)) \<Longrightarrow> call_inv I (enqueue_superseded lib cmd row)"
  unfolding enqueue_superseded_def by (auto intro!: call_rules split: option.split)

lemma inv_finalize [call_rules]:
  "steady I \<Longrightarrow> (\<And>P f. absorbs I (update_keys P f)) \<Longrightarrow> call_inv I (finalize_in_tx lib c response now e)"
  unfolding finalize_in_tx_def by (intro call_rules)

lemma inv_finish [call_rules]:
  "steady I \<Longrightarrow> (\<And>P f. absorbs I (update_keys P f)) \<Longrightarrow> call_inv I (finish lib ctx outcome)"
  unfolding finish_def by (intro call_rules)

lemma inv_finish_with_view [call_rules]:
  "steady I \<Longrightarrow> (\<And>P f. absorbs I (update_keys P f)) \<Longrightarrow> call_inv I (finish_with_view lib ctx i chs n)"
  unfolding finish_with_view_def by (intro call_rules)

section \<open>Nothing is committed inside a transaction\<close>

text \<open>
  What the tables can become while others commit: their steps, one after the other, each as far
  as the lock lets it.
\<close>

inductive drift :: "script_step list \<Rightarrow> sql_tables \<Rightarrow> sql_tables \<Rightarrow> bool" where
  none: "drift [] t t"
| free: "drift steps (ss_others st t) t' \<Longrightarrow> drift (st # steps) t t'"
| locked: "drift steps (under_lock t (ss_others st t)) t' \<Longrightarrow> drift (st # steps) t t'"

lemma drift_append: "drift xs t u \<Longrightarrow> drift ys u v \<Longrightarrow> drift (xs @ ys) t v"
  by (induction rule: drift.induct) (auto intro: drift.intros)

lemma drift_quiet:
  "drift steps t t' \<Longrightarrow> (\<And>st t. st \<in> set steps \<Longrightarrow> ss_others st t = t) \<Longrightarrow> t' = t"
  by (induction rule: drift.induct) (auto simp: under_lock_def)

definition since :: "database \<Rightarrow> database \<Rightarrow> bool" where
  "since d0 d \<longleftrightarrow> (\<exists>steps. db_script d0 = steps @ db_script d \<and> drift steps (db_committed d0) (db_committed d))"

lemma since_refl: "since d d"
  by (auto simp: since_def intro: drift.none)

lemma since_step: "since d0 d \<Longrightarrow> since d0 (snd (next_step d))"
proof (cases rule: next_step_cases [of d])
  case (2 st rest)
  assume "since d0 d"
  then obtain steps where s: "db_script d0 = steps @ st # rest" "drift steps (db_committed d0) (db_committed d)"
    using 2(1) by (auto simp: since_def)
  have "drift [st] (db_committed d) (db_committed (others_commit (ss_others st) d))"
    by (auto simp: others_commit_def Let_def intro: drift.intros)
  from drift_append [OF s(2) this] s(1) 2(2) show ?thesis
    by (auto simp: since_def)
qed simp

lemma since_lockable: "lockable (since d0)"
  using since_step by (auto simp: lockable_def steady_def since_def)

lemma since_absorbs [simp]: "absorbs (since d0) q"
  by (simp add: absorbs_def since_def)

section \<open>All or nothing\<close>

text \<open>A transaction as a whole, for a property that its statements keep.\<close>

lemma in_transaction_cases:
  assumes "in_transaction body d = Some (r, d')" and "steady I" and "call_inv I body" and "I d"
  obtains e d1 where "r = Err e" "d' = rollback d1" "I d1"
  | a d1 flt d2 where "call_then begin_transaction body d = Some (Ok a, d1)" "I d1" "next_step d1 = (flt, d2)"
      "d' = end_transaction (db_view d2) d2" "r = Ok a \<and> flt = NoFault \<or> (\<exists>e. flt = AnswerLost e \<and> r = Err (map_sqlx e))"
proof -
  have inv: "call_inv I (call_then begin_transaction body)"
    unfolding begin_transaction_def by (intro call_rules assms(2,3))
  from assms(1) obtain x d1 where x: "call_then begin_transaction body d = Some (x, d1)"
    by (auto simp: in_transaction_def split: option.splits)
  then have I1: "I d1" using inv assms(4) by (blast dest: call_invD)
  show thesis
  proof (cases x)
    case (Inl e)
    with assms(1) x I1 show thesis by (intro that(1)) (auto simp: in_transaction_def)
  next
    case (Inr a)
    obtain flt d2 where n: "next_step d1 = (flt, d2)" by (cases "next_step d1")
    with assms(2) I1 have I2: "I d2" unfolding steady_def by (metis snd_conv)
    from assms(1) x Inr have c: "commit a d1 = Some (r, d')" by (auto simp: in_transaction_def)
    show thesis
    proof (cases flt)
      case (Refused e)
      with c n I2 show thesis by (intro that(1)) (auto simp: commit_def)
    next
      case NoFault
      with c n x Inr I1 show thesis by (intro that(2) [of a d1 flt d2]) (auto simp: commit_def)
    next
      case (AnswerLost e)
      with c n x Inr I1 show thesis by (intro that(2) [of a d1 flt d2]) (auto simp: commit_def)
    qed
  qed
qed

lemma since_start: "since (session_of t n script) (session_of t n script)"
  by (rule since_refl)

lemma since_end:
  "since d0 (rollback d) = since d0 d"
  by (simp add: since_def rollback_def end_transaction_def)

lemma session_parts:
  "db_script (session_of t n script) = script" "db_committed (session_of t n script) = t"
  by (simp_all add: session_of_def)

lemma failed_transaction:
  assumes "\<And>d0. call_inv (since d0) body" and "in_transaction body d = Some (Err e, d')"
  shows "(\<exists>steps. db_script d = steps @ db_script d' \<and> drift steps (db_committed d) (db_committed d')) \<or>
    (\<exists>a d1 st e'. call_then begin_transaction body d = Some (Ok a, d1) \<and>
      db_script d1 = st # db_script d' \<and> ss_fault st = AnswerLost e' \<and> e = map_sqlx e')"
  using assms(2) lockable_steady [OF since_lockable] assms(1) since_refl [of d]
proof (cases rule: in_transaction_cases)
  case (1 e1 d1)
  then have "since d d'" by (simp add: since_end)
  then show ?thesis by (auto simp: since_def)
next
  case (2 a d1 flt d2)
  then obtain e' where f: "flt = AnswerLost e'" "e = map_sqlx e'" by auto
  from 2(3,4) f(1) obtain st where "db_script d1 = st # db_script d'" "ss_fault st = AnswerLost e'"
    by (auto simp: next_step_def end_transaction_def split: list.splits)
  with 2(1) f(2) show ?thesis by blast
qed

lemma mutations_keep:
  assumes lock: "lockable I" and app: "\<And>ctx pending. call_inv I (append_for lib ctx pending)"
    and absorbed: "\<And>P f. absorbs I (update_keys P f)" "\<And>b r t. absorbs I (insert_queue b r t)"
      "\<And>r. absorbs I (insert_object r)" "\<And>i f. absorbs I (update_live i f)"
      "\<And>ids now. absorbs I (delete_rows ids now)" "\<And>i now. absorbs I (complete_upload i now)"
      "\<And>b r. absorbs I (delete_queue b r)"
  shows "call_inv I (create_in_tx lib c)" "call_inv I (patch_in_tx lib p)"
    "call_inv I (delete_in_tx lib dl)" "call_inv I (commit_in_tx lib cc)"
proof -
  note steady = lockable_steady [OF lock]
  note rules = call_rules steady lock app absorbed
  show "call_inv I (create_in_tx lib c)" unfolding create_in_tx_def
    by (intro call_inv_then call_inv_bind rules; auto intro!: rules split: sum.split)
  have body: "call_inv I (sql_write_patch lib p current target)" for current target
    unfolding sql_write_patch_def
    by (intro call_inv_bind inv_run_sql steady absorbed) (auto intro!: rules split: sum.split option.split)
  show "call_inv I (patch_in_tx lib p)" unfolding patch_in_tx_def Let_def by (intro rules body)
  show "call_inv I (delete_in_tx lib dl)" unfolding delete_in_tx_def Let_def by (intro rules)
  have content: "call_inv I (sql_write_content lib cc row)" for row
    unfolding sql_write_content_def by (intro rules)
  show "call_inv I (commit_in_tx lib cc)" unfolding commit_in_tx_def Let_def by (intro rules content)
qed

text \<open>
  The mutations of the Postgres adapter are atomic: one that fails leaves the tables as the other
  sessions made them, whichever statement failed.
\<close>

definition object_mutations ::
  "sql_lib \<Rightarrow> create_object_commit \<Rightarrow> patch_object_commit \<Rightarrow> delete_object_commit \<Rightarrow> commit_content_cmd \<Rightarrow>
   (database, stored_response) call set" where
  "object_mutations lib c p dl cc =
     {sql_create_object lib c, sql_patch_object lib p, sql_delete_object lib dl, sql_commit_content lib cc}"

definition mutations_in_tx ::
  "sql_lib \<Rightarrow> create_object_commit \<Rightarrow> patch_object_commit \<Rightarrow> delete_object_commit \<Rightarrow> commit_content_cmd \<Rightarrow>
   (database, stored_response) call set" where
  "mutations_in_tx lib c p dl cc =
     {create_in_tx lib c, patch_in_tx lib p, delete_in_tx lib dl, commit_in_tx lib cc}"

lemma object_mutations_tx: "object_mutations lib c p dl cc = in_transaction ` mutations_in_tx lib c p dl cc"
  by (simp add: object_mutations_def mutations_in_tx_def sql_create_object_def sql_patch_object_def
      sql_delete_object_def sql_commit_content_def)

lemma since_mutations [call_rules]:
  "call_inv (since d0) (create_in_tx lib c)" "call_inv (since d0) (patch_in_tx lib p)"
  "call_inv (since d0) (delete_in_tx lib dl)" "call_inv (since d0) (commit_in_tx lib cc)"
  by (intro mutations_keep since_lockable inv_append since_absorbs)+

text \<open>
  C9: a mutation over Postgres is all or nothing on the error side: whatever statement is refused,
  whatever answer is lost and whatever other sessions commit in between, if it returns an error
  then the tables are what the others made of them - no object, change, queue entry or completed
  key of the failed attempt remains - unless all of its statements had succeeded and the answer
  that was lost is that of the commit.
\<close>

theorem failed_mutation_leaves_nothing:
  assumes "m \<in> object_mutations lib c p dl cc" and "m (session_of t n script) = Some (Err e, d')"
  shows "(\<exists>steps. script = steps @ db_script d' \<and> drift steps t (db_committed d')) \<or>
    (\<exists>body\<in>mutations_in_tx lib c p dl cc. \<exists>response d1 st e'.
      call_then begin_transaction body (session_of t n script) = Some (Ok response, d1) \<and>
      db_script d1 = st # db_script d' \<and> ss_fault st = AnswerLost e' \<and> e = map_sqlx e')"
proof -
  from assms(1) obtain body where
    body: "m = in_transaction body" "body \<in> mutations_in_tx lib c p dl cc"
    by (auto simp: object_mutations_tx)
  then have "call_inv (since d0) body" for d0 by (auto simp: mutations_in_tx_def intro: call_rules)
  from failed_transaction [OF this assms(2) [unfolded body(1)]] body(2) show ?thesis
    unfolding session_parts by blast
qed

section \<open>A sample database\<close>

definition sample_lib :: sql_lib where
  "sample_lib =
     \<lparr>sl_timestamptz = id, sl_jsonb = id, sl_jsonb_eq = json_eq, sl_collate = id,
      sl_codec = sample_codec, sl_to_rfc3339 = dec_int, sl_parse_rfc3339 = parse_i64\<rparr>"

text \<open>
  A script for the creation of a folder: others raise the watermark, and the insertion of the
  change is refused.
\<close>

definition sample_script :: "script_step list" where
  "sample_script =
     replicate 5 \<lparr>ss_others = id, ss_fault = NoFault\<rparr> @
     [\<lparr>ss_others = (\<lambda>t. t\<lparr>tb_purged_through := 7\<rparr>), ss_fault = NoFault\<rparr>,
      \<lparr>ss_others = id, ss_fault = Refused (SqlxOther ''gone'')\<rparr>]"

lemma sample_failure:
  "map_option fst (sql_create_object sample_lib sample_folder
     (session_of (migrated_tables 0) 1 sample_script)) = Some (Err (Internal ''gone''))"
  by code_simp

theorem failed_mutation_leaves_nothing_witness:
  "\<exists>d'. sql_create_object sample_lib sample_folder (session_of (migrated_tables 0) 1 sample_script) =
       Some (Err (Internal ''gone''), d') \<and>
     (\<exists>steps. sample_script = steps @ db_script d' \<and> drift steps (migrated_tables 0) (db_committed d'))"
proof -
  let ?d = "session_of (migrated_tables 0) 1 sample_script"
  let ?bodies = "mutations_in_tx sample_lib sample_folder sample_patch sample_delete (sample_commit ''1'')"
  from sample_failure obtain d' where
    d': "sql_create_object sample_lib sample_folder ?d = Some (Err (Internal ''gone''), d')"
    by auto
  have "(\<exists>steps. sample_script = steps @ db_script d' \<and> drift steps (migrated_tables 0) (db_committed d')) \<or>
    (\<exists>body\<in>?bodies. \<exists>response d1 st e'. call_then begin_transaction body ?d = Some (Ok response, d1) \<and>
        db_script d1 = st # db_script d' \<and> ss_fault st = AnswerLost e' \<and> Internal ''gone'' = map_sqlx e')"
    by (rule failed_mutation_leaves_nothing
        [where m = "sql_create_object sample_lib sample_folder", OF _ d']) (simp add: object_mutations_def)
  moreover have "ss_fault st \<noteq> AnswerLost e'"
    if "body \<in> ?bodies" "call_then begin_transaction body ?d = Some (Ok response, d1)"
      "db_script d1 = st # db_script d'" for body response d1 st e'
  proof -
    have "call_inv (since ?d) (call_then begin_transaction body)"
      using that(1) unfolding begin_transaction_def mutations_in_tx_def
      by (auto intro!: call_rules lockable_steady [OF since_lockable])
    with that(2) have "since ?d d1" using since_refl by (blast dest: call_invD)
    with that(3) have "st \<in> set sample_script"
      by (auto simp: since_def session_of_def in_set_conv_decomp)
    then show ?thesis by (auto simp: sample_script_def)
  qed
  ultimately show ?thesis using d' by blast
qed

end
