(* ===== verification/SqlKeys.thy ===== *)
theory SqlKeys
  imports SqlAtomic IdempotencyContract
begin

text \<open>
  Exactly-once in Postgres: a mutation commits the response together with its effects, so the key
  it ran under answers every retry with that response.
\<close>

section \<open>The key of a mutation\<close>

definition spares_key :: "idempotency_context \<Rightarrow> (sql_tables \<Rightarrow> sql_tables) \<Rightarrow> bool" where
  "spares_key ic f \<longleftrightarrow> (\<forall>t. filter (is_scope ic) (tb_keys (f t)) = filter (is_scope ic) (tb_keys t))"

definition key_inv ::
  "idempotency_context \<Rightarrow> key_row list \<Rightarrow> (key_row list \<Rightarrow> key_row list) \<Rightarrow> database \<Rightarrow> bool" where
  "key_inv ic K W d \<longleftrightarrow>
     (\<forall>st\<in>set (db_script d). spares_key ic (ss_others st)) \<and>
     filter (is_scope ic) (tb_keys (db_committed d)) = K \<and>
     (\<forall>t. tb_keys (db_writes d t) = W (tb_keys t))"

lemma key_inv_step:
  assumes "key_inv ic K W d"
  shows "key_inv ic K W (snd (next_step d))"
proof (cases rule: next_step_cases [of d])
  case 1
  with assms show ?thesis by simp
next
  case (2 st rest)
  with assms have "spares_key ic (ss_others st)" by (simp add: key_inv_def)
  with assms 2 show ?thesis
    by (cases "db_change_lock d") (simp_all add: key_inv_def others_commit_def under_lock_def Let_def spares_key_def)
qed

lemma key_inv_lockable: "lockable (key_inv ic K W)"
proof -
  have "key_inv ic K W (d\<lparr>db_next_seq := n\<rparr>)" if "key_inv ic K W d" for d n
    using that by (simp add: key_inv_def)
  moreover have "key_inv ic K W (d\<lparr>db_change_lock := True\<rparr>)" if "key_inv ic K W d" for d
    using that by (simp add: key_inv_def)
  ultimately show ?thesis unfolding lockable_def steady_def using key_inv_step by blast
qed

lemma key_inv_absorbs:
  assumes "\<And>t rows w u. q t = Inr (rows, w) \<Longrightarrow> tb_keys (w u) = tb_keys u"
  shows "absorbs (key_inv ic K W) q"
  unfolding absorbs_def
proof (intro allI impI, elim conjE)
  fix d t rows w assume "key_inv ic K W d" "q t = Inr (rows, w)"
  with assms [of t rows w] show "key_inv ic K W (d\<lparr>db_writes := w \<circ> db_writes d\<rparr>)"
    by (simp add: key_inv_def)
qed

lemma key_inv_writes [simp]:
  "absorbs (key_inv ic K W) (insert_changes rows)" "absorbs (key_inv ic K W) (insert_queue b r t)"
  "absorbs (key_inv ic K W) (insert_object obr)" "absorbs (key_inv ic K W) (update_live i f)"
  "absorbs (key_inv ic K W) (delete_rows ids now)" "absorbs (key_inv ic K W) (complete_upload u now)"
  "absorbs (key_inv ic K W) (delete_queue b r)"
  by (rule key_inv_absorbs;
      auto simp: insert_changes_def insert_queue_def insert_object_def update_live_def delete_rows_def
        complete_upload_def delete_queue_def Let_def split: if_splits list.splits)+

lemmas key_rules = call_rules inv_append key_inv_lockable lockable_steady [OF key_inv_lockable] key_inv_writes

text \<open>What a mutation has done to its key where it succeeds.\<close>

definition key_done ::
  "sql_lib \<Rightarrow> mutation_context \<Rightarrow> idempotency_context \<Rightarrow> key_row list \<Rightarrow> stored_response \<Rightarrow> database \<Rightarrow> bool" where
  "key_done lib ctx ic K response d \<longleftrightarrow>
     length (filter (held_by ic) K) = 1 \<and>
     key_inv ic K (map (\<lambda>r. if held_by ic r
       then finalized_row lib response (mc_now ctx) (mc_idempotency_expires_at ctx) r else r)) d"

lemma held_in_scope: "(\<lambda>r. is_scope ic r \<and> held_by ic r) = held_by ic"
  by (auto simp: held_by_def)

lemma finalize_done:
  assumes ctx: "mc_idempotency ctx = Some ic" and inv: "key_inv ic K id d"
    and run: "finalize_in_tx lib (mc_idempotency ctx) response (mc_now ctx) (mc_idempotency_expires_at ctx) d
      = Some (Ok u, d')"
  shows "key_done lib ctx ic K response d'"
proof -
  let ?f = "finalized_row lib response (mc_now ctx) (mc_idempotency_expires_at ctx)"
  from run ctx have "run_sql (update_keys (held_by ic) ?f) d = Some (Ok (Inr 1), d')"
    by (auto simp: finalize_in_tx_def call_bind_Ok_iff call_unless_Ok_iff sql_Ok_iff)
  then show ?thesis
  proof (cases rule: run_sql_cases)
    case (1 flt d1)
    then show ?thesis by simp
  next
    case (2 flt d1 rows w)
    have inv1: "key_inv ic K id d1" using key_inv_step [OF inv] 2(1) by simp
    with 2 have "length (filter (held_by ic) (tb_keys (db_committed d1))) = 1"
      by (auto simp: update_keys_def key_inv_def db_view_def)
    with inv1 have "length (filter (held_by ic) K) = 1"
      by (auto simp: key_inv_def held_in_scope)
    with inv1 2 show ?thesis
      by (auto simp: key_done_def key_inv_def update_keys_def)
  qed
qed

lemma finish_done [call_rules]:
  assumes "mc_idempotency ctx = Some ic"
  shows "call_post (key_inv ic K id) (key_done lib ctx ic K) (finish lib ctx outcome)"
    "call_post (key_inv ic K id) (key_done lib ctx ic K) (finish_with_view lib ctx i chs b)"
proof -
  show *: "call_post (key_inv ic K id) (key_done lib ctx ic K) (finish lib ctx outcome)" for outcome
    using finalize_done [OF assms]
    by (auto simp: call_post_def finish_def call_bind_Ok_iff call_then_Ok_iff call_simps)
  show "call_post (key_inv ic K id) (key_done lib ctx ic K) (finish_with_view lib ctx i chs b)"
    unfolding finish_with_view_def by (intro key_rules *)
qed

lemma call_post_if [call_rules]: "call_post I Q m \<Longrightarrow> call_post I Q m' \<Longrightarrow> call_post I Q (if b then m else m')"
  by simp

lemma call_post_option [call_rules]:
  "call_post I Q m \<Longrightarrow> (\<And>x. call_post I Q (f x)) \<Longrightarrow> call_post I Q (case v of None \<Rightarrow> m | Some x \<Rightarrow> f x)"
  by (cases v) simp_all

lemma call_post_sum [call_rules]:
  "(\<And>x. call_post I Q (f x)) \<Longrightarrow> (\<And>y. call_post I Q (g y)) \<Longrightarrow>
   call_post I Q (case v of Inl x \<Rightarrow> f x | Inr y \<Rightarrow> g y)"
  by (cases v) simp_all

lemma mutations_done:
  assumes "mc_idempotency ctx = Some ic"
  shows "co_ctx c = ctx \<Longrightarrow> call_post (key_inv ic K id) (key_done lib ctx ic K) (create_in_tx lib c)"
    "po_ctx p = ctx \<Longrightarrow> call_post (key_inv ic K id) (key_done lib ctx ic K) (patch_in_tx lib p)"
    "do_ctx dl = ctx \<Longrightarrow> call_post (key_inv ic K id) (key_done lib ctx ic K) (delete_in_tx lib dl)"
    "cm_ctx cc = ctx \<Longrightarrow> call_post (key_inv ic K id) (key_done lib ctx ic K) (commit_in_tx lib cc)"
proof -
  note rules = call_rules key_rules finish_done [OF assms]
  show "call_post (key_inv ic K id) (key_done lib ctx ic K) (create_in_tx lib c)" if "co_ctx c = ctx"
    unfolding create_in_tx_def that by (intro rules)
  show "call_post (key_inv ic K id) (key_done lib ctx ic K) (patch_in_tx lib p)" if "po_ctx p = ctx"
    unfolding patch_in_tx_def sql_write_patch_def Let_def that by (intro rules)
  show "call_post (key_inv ic K id) (key_done lib ctx ic K) (delete_in_tx lib dl)" if "do_ctx dl = ctx"
    unfolding delete_in_tx_def Let_def that by (intro rules)
  show "call_post (key_inv ic K id) (key_done lib ctx ic K) (commit_in_tx lib cc)" if "cm_ctx cc = ctx"
    unfolding commit_in_tx_def sql_write_content_def Let_def that by (intro rules)
qed

lemma filter_scope_finalized:
  "filter (is_scope ic) (map (\<lambda>r. if held_by ic r then finalized_row lib response now e r else r) rows)
     = map (\<lambda>r. if held_by ic r then finalized_row lib response now e r else r) (filter (is_scope ic) rows)"
  by (induction rows) (auto simp: is_scope_def finalized_row_def)

lemma done_committed:
  assumes body: "call_post (key_inv ic [row] id) (key_done lib ctx ic [row]) body"
    and steps: "\<And>st. st \<in> set script \<Longrightarrow> spares_key ic (ss_others st)"
    and row: "filter (is_scope ic) (tb_keys t) = [row]"
    and run: "in_transaction body (session_of t n script) = Some (Ok response, d')"
  shows "held_by ic row \<and> filter (is_scope ic) (tb_keys (db_committed d')) =
    [finalized_row lib response (mc_now ctx) (mc_idempotency_expires_at ctx) row]"
proof -
  let ?d = "session_of t n script"
  from run obtain d1 where d1: "call_then begin_transaction body ?d = Some (Ok response, d1)"
    and c: "commit response d1 = Some (Ok response, d')"
    by (auto simp: in_transaction_def commit_def split: option.splits sum.splits prod.splits fault.splits)
  then have d2: "d' = end_transaction (db_view (snd (next_step d1))) (snd (next_step d1))"
    by (auto simp: commit_def split: prod.splits fault.splits)
  have "key_inv ic [row] id ?d" using steps row by (simp add: key_inv_def session_of_def)
  moreover have "call_post (key_inv ic [row] id) (key_done lib ctx ic [row]) (call_then begin_transaction body)"
    unfolding begin_transaction_def by (intro key_rules body)
  ultimately have "key_done lib ctx ic [row] response d1" using d1 by (blast dest: call_postD)
  then have held: "held_by ic row" and inv: "key_inv ic [row] (map (\<lambda>r. if held_by ic r
       then finalized_row lib response (mc_now ctx) (mc_idempotency_expires_at ctx) r else r)) (snd (next_step d1))"
    using key_inv_step by (auto simp: key_done_def split: if_splits)
  then show ?thesis
    by (simp add: d2 end_transaction_def db_view_def key_inv_def filter_scope_finalized)
qed

section \<open>The retry\<close>

text \<open>What is asked of the database here: headers survive as \<open>JSONB\<close>; a status has sixteen bits.\<close>

definition headers_survive :: "sql_lib \<Rightarrow> bool" where
  "headers_survive lib \<longleftrightarrow> (\<forall>hs. sl_jsonb lib (encode_headers hs) = encode_headers hs)"

lemma decode_encode_headers: "decode_headers (Some (encode_headers hs)) = hs"
  by (induction hs) (auto simp: decode_headers_def encode_headers_def header_pair_def List.map_filter_simps)

lemma decode_finalized:
  assumes "headers_survive lib" and "sr_status response < 2 ^ 16"
  shows "sql_decode_stored_response (finalized_row lib response now e row) = response"
  using assms
  by (simp add: sql_decode_stored_response_def finalized_row_def headers_survive_def decode_encode_headers)

lemma quiet_on_pool:
  "db_script d = [] \<Longrightarrow> on_pool q d = (case q (db_view d) of
     Inl e \<Rightarrow> Some (Err (map_sqlx e), end_transaction (db_view d) d)
   | Inr (rows, w) \<Rightarrow> Some (Ok rows, end_transaction (w (db_view d)) d))"
  by (auto simp: on_pool_def autocommit_def sql_def run_sql_def next_step_def call_bind_def sql_ok_def
      call_simps db_view_def end_transaction_def split: sum.splits prod.splits)

lemma acquire_completed:
  assumes "filter (is_scope (ia_context req)) (tb_keys t) = [row]" and "ker_state row = ''completed''"
    and "ker_request_hash row = ic_request_hash (ia_context req)"
  shows "sql_acquire lib clock req (session_of t n [])
    = Some (Ok (Replay (sql_decode_stored_response row)), session_of t n [])"
proof -
  from assms(1) have ex: "list_ex (is_scope (ia_context req)) (tb_keys t)"
    by (auto simp: list_all_ex_iff dest: filter_eq_ConsD)
  have d: "db_script (session_of t n []) = []" "db_view (session_of t n []) = t"
    "end_transaction t (session_of t n []) = session_of t n []"
    by (simp_all add: session_of_def db_view_def end_transaction_def)
  have "acquire_round lib clock k req (session_of t n [])
    = Some (Ok (Some (Replay (sql_decode_stored_response row))), session_of t n [])" for k
    using assms ex
    by (simp add: acquire_round_def Let_def call_bind_def quiet_on_pool d insert_claim_def read_record_def
        select_def fetch_optional_def call_simps)
  then show ?thesis
    by (simp add: sql_acquire_def SQL_CONTENTION_POLLS_def numeral_eq_Suc call_bind_def call_simps)
qed

lemma is_scope_key: "scope_key a = scope_key b \<Longrightarrow> is_scope a = is_scope b"
  by (auto simp: scope_key_def is_scope_def fun_eq_iff)

text \<open>
  C12: a mutation over Postgres commits its response together with its effects: if it succeeds, it
  still held the lease on its key, and from then on the same request under that key is answered
  with that response, byte for byte, whatever the other sessions did meanwhile to everything but
  the row of the key.
\<close>

theorem committed_mutation_is_replayed:
  assumes "headers_survive lib" and "sr_status response < 2 ^ 16"
    and m: "m \<in> object_mutations lib c p dl cc"
    and ctx: "co_ctx c = ctx" "po_ctx p = ctx" "do_ctx dl = ctx" "cm_ctx cc = ctx"
    and ic: "mc_idempotency ctx = Some ic"
    and row: "filter (is_scope ic) (tb_keys t) = [row]" "ker_request_hash row = ic_request_hash ic"
    and others: "\<And>st. st \<in> set script \<Longrightarrow> spares_key ic (ss_others st)"
    and run: "m (session_of t n script) = Some (Ok response, d')"
    and retry: "scope_key (ia_context req) = scope_key ic" "ic_request_hash (ia_context req) = ic_request_hash ic"
  shows "held_by ic row \<and>
    sql_acquire lib clock req (session_of (db_committed d') k []) =
      Some (Ok (Replay response), session_of (db_committed d') k [])"
proof -
  from m obtain body where b: "m = in_transaction body" "body \<in> mutations_in_tx lib c p dl cc"
    by (auto simp: object_mutations_tx)
  from b(2) have "call_post (key_inv ic [row] id) (key_done lib ctx ic [row]) body"
    using mutations_done [OF ic] ctx by (auto simp: mutations_in_tx_def)
  from done_committed [OF this others row(1) run [unfolded b(1)]]
  have held: "held_by ic row" and keys: "filter (is_scope (ia_context req)) (tb_keys (db_committed d')) =
    [finalized_row lib response (mc_now ctx) (mc_idempotency_expires_at ctx) row]"
    by (simp_all add: is_scope_key [OF retry(1)])
  from acquire_completed [OF keys] row(2) retry(2) decode_finalized [OF assms(1,2)]
  show ?thesis using held by (simp add: finalized_row_def)
qed

text \<open>A folder is created under a key, while another session adds a key of its own.\<close>

definition sample_key_ic :: idempotency_context where
  "sample_key_ic =
     \<lparr>ic_principal_id = ''local'', ic_operation = ''create'', ic_key = ''k'', ic_request_hash = ''h'',
      ic_owner_token = ''o'', ic_resource_token = []\<rparr>"

definition sql_sample_acquire :: idempotency_acquire where
  "sql_sample_acquire = \<lparr>ia_context = sample_key_ic, ia_now = 1, ia_lease_until = 50, ia_expires_at = 90\<rparr>"

definition sample_keyed_ctx :: mutation_context where
  "sample_keyed_ctx = (sample_ctx 1)\<lparr>mc_idempotency := Some sample_key_ic, mc_idempotency_expires_at := 100\<rparr>"

definition sql_sample_claimed :: sql_tables where
  "sql_sample_claimed = (migrated_tables 0)\<lparr>tb_keys := [claimed_row sample_lib sql_sample_acquire]\<rparr>"

definition add_key :: "sql_tables \<Rightarrow> sql_tables" where
  "add_key t = t\<lparr>tb_keys := (claimed_row sample_lib sql_sample_acquire)\<lparr>ker_idempotency_key := ''other''\<rparr> # tb_keys t\<rparr>"

definition sample_key_script :: "script_step list" where
  "sample_key_script = replicate 3 \<lparr>ss_others = add_key, ss_fault = NoFault\<rparr>"

lemma sample_keyed_run:
  "map_option fst (sql_create_object sample_lib (sample_folder\<lparr>co_ctx := sample_keyed_ctx\<rparr>)
     (session_of sql_sample_claimed 1 sample_key_script)) = Some (Ok (stored_response_json 200 ''new''))"
  by code_simp

theorem committed_mutation_is_replayed_witness:
  "\<exists>d'. sql_create_object sample_lib (sample_folder\<lparr>co_ctx := sample_keyed_ctx\<rparr>)
       (session_of sql_sample_claimed 1 sample_key_script) = Some (Ok (stored_response_json 200 ''new''), d') \<and>
     sql_acquire sample_lib (\<lambda>_. 60) sql_sample_acquire (session_of (db_committed d') 9 []) =
       Some (Ok (Replay (stored_response_json 200 ''new'')), session_of (db_committed d') 9 [])"
proof -
  from sample_keyed_run obtain d' where d': "sql_create_object sample_lib (sample_folder\<lparr>co_ctx := sample_keyed_ctx\<rparr>)
       (session_of sql_sample_claimed 1 sample_key_script) = Some (Ok (stored_response_json 200 ''new''), d')"
    by auto
  have "sql_acquire sample_lib (\<lambda>_. 60) sql_sample_acquire (session_of (db_committed d') 9 []) =
       Some (Ok (Replay (stored_response_json 200 ''new'')), session_of (db_committed d') 9 [])"
  proof (rule committed_mutation_is_replayed [where
        m = "sql_create_object sample_lib (sample_folder\<lparr>co_ctx := sample_keyed_ctx\<rparr>)" and lib = sample_lib
        and c = "sample_folder\<lparr>co_ctx := sample_keyed_ctx\<rparr>" and p = "sample_patch\<lparr>po_ctx := sample_keyed_ctx\<rparr>"
        and dl = "sample_delete\<lparr>do_ctx := sample_keyed_ctx\<rparr>"
        and cc = "(sample_commit ''1'')\<lparr>cm_ctx := sample_keyed_ctx\<rparr>" and ctx = sample_keyed_ctx
        and ic = sample_key_ic and t = sql_sample_claimed and n = 1 and script = sample_key_script
        and row = "claimed_row sample_lib sql_sample_acquire" and d' = d', THEN conjunct2])
    show "headers_survive sample_lib" by (simp add: headers_survive_def sample_lib_def)
    show "spares_key sample_key_ic (ss_others st)" if "st \<in> set sample_key_script" for st
      using that by (auto simp: sample_key_script_def spares_key_def add_key_def is_scope_def claimed_row_def
          sample_key_ic_def)
    show "sql_create_object sample_lib (sample_folder\<lparr>co_ctx := sample_keyed_ctx\<rparr>)
       (session_of sql_sample_claimed 1 sample_key_script) = Some (Ok (stored_response_json 200 ''new''), d')"
      by (rule d')
  qed (simp_all add: object_mutations_def sample_keyed_ctx_def sql_sample_claimed_def claimed_row_def
      sql_sample_acquire_def is_scope_def sample_key_ic_def stored_response_json_def)
  with d' show ?thesis by blast
qed

end
