(* ===== verification/SqlMoveSafety.thy ===== *)
theory SqlMoveSafety
  imports SqlAtomic "HOL-Library.Transitive_Closure_Table"
begin

text \<open>
  Moving folders concurrently. The check before the write takes no lock, so two moves can each
  pass it against the tree before the other; the second check, under the lock that orders
  changes, is what keeps the tree free of cycles.
\<close>

section \<open>The tree of the table\<close>

definition row_edges :: "object_row list \<Rightarrow> (string \<times> string) set" where
  "row_edges rows = {(obr_id r, p) | r p. r \<in> set rows \<and> obr_parent_id r = Some p}"

definition sql_tree :: "object_row list \<Rightarrow> bool" where
  "sql_tree rows \<longleftrightarrow> distinct (map obr_id rows) \<and> acyclic (row_edges rows) \<and>
     (\<forall>r\<in>set rows. \<forall>q\<in>set rows. obr_parent_id r = Some (obr_id q) \<longrightarrow> obr_kind q = ''folder'')"

lemma row_edgesI: "r \<in> set rows \<Longrightarrow> obr_parent_id r = Some p \<Longrightarrow> (obr_id r, p) \<in> row_edges rows"
  by (auto simp: row_edges_def)

lemma row_edges_iff: "(x, y) \<in> row_edges rows \<longleftrightarrow> (\<exists>r\<in>set rows. obr_id r = x \<and> obr_parent_id r = Some y)"
  by (auto simp: row_edges_def)

lemma unique_row: "distinct (map obr_id rows) \<Longrightarrow> r \<in> set rows \<Longrightarrow> q \<in> set rows \<Longrightarrow> obr_id r = obr_id q \<Longrightarrow> r = q"
  by (simp add: distinct_map inj_on_def)

lemma unique_filter:
  assumes "distinct (map obr_id rows)" and "r \<in> set rows"
  shows "filter (\<lambda>q. obr_id q = obr_id r) rows = [r]"
  using assms
proof (induction rows)
  case (Cons a rows)
  show ?case
  proof (cases "a = r")
    case True
    with Cons.prems(1) have "filter (\<lambda>q. obr_id q = obr_id r) rows = []"
      by (simp add: filter_empty_conv) (metis imageI)
    with True show ?thesis by simp
  next
    case False
    with Cons.prems have "obr_id a \<noteq> obr_id r" "r \<in> set rows" by auto
    with Cons show ?thesis by simp
  qed
qed simp

text \<open>The walk up finds every row that the parents lead to.\<close>

lemma path_has_row:
  assumes "rtrancl_path (\<lambda>x y. (x, y) \<in> row_edges rows) x xs (obr_id q)" and "q \<in> set rows"
  shows "\<exists>r\<in>set rows. obr_id r = x"
  using assms by cases (auto simp: row_edges_def)

lemma cte_walk_up:
  assumes "distinct (map obr_id rows)" and "q \<in> set rows"
    and "rtrancl_path (\<lambda>x y. (x, y) \<in> row_edges rows) x xs (obr_id q)"
    and "r \<in> set rows" and "obr_id r = x" and "distinct xs" and "set xs \<inter> set visited = {}"
  shows "\<exists>n. (n, q) \<in> set (cte_walk parent_of_row rows depth visited r)"
  using assms(3-)
proof (induction x xs "obr_id q" arbitrary: r depth visited rule: rtrancl_path.induct)
  case base
  with assms(1,2) have "r = q" by (auto intro: unique_row)
  then show ?case by (subst cte_walk.simps) auto
next
  case (step x y ys)
  from path_has_row [OF step.hyps(2) assms(2)] obtain p where p: "p \<in> set rows" "obr_id p = y" by blast
  from step.hyps(1) obtain r' where r': "r' \<in> set rows" "obr_id r' = x" "obr_parent_id r' = Some y"
    by (auto simp: row_edges_def)
  with step.prems(1,2) assms(1) have "r' = r" by (auto intro: unique_row)
  with r'(3) p(2) have "parent_of_row r p" by (simp add: parent_of_row_def)
  moreover from step.prems(4) p(2) have "obr_id p \<notin> set visited" by auto
  moreover have "\<exists>n. (n, q) \<in> set (cte_walk parent_of_row rows (Suc depth) (visited @ [obr_id p]) p)"
    using step.prems(3,4) p by (intro step.hyps(3)) auto
  ultimately show ?case using p(1) by (subst cte_walk.simps) auto
qed

lemma ancestor_query_complete:
  assumes "distinct (map obr_id (tb_objects t))" and "q \<in> set (tb_objects t)"
    and "(candidate, obr_id q) \<in> (row_edges (tb_objects t))\<^sup>*"
  shows "ancestor_query candidate (obr_id q) t"
proof -
  let ?rel = "\<lambda>x y. (x, y) \<in> row_edges (tb_objects t)"
  from assms(3) obtain xs where "rtrancl_path ?rel candidate xs (obr_id q)"
    by (auto simp: rtrancl_def rtranclp_eq_rtrancl_path)
  then obtain ys where ys: "rtrancl_path ?rel candidate ys (obr_id q)" "distinct (candidate # ys)"
    by (rule rtrancl_path_distinct)
  from path_has_row [OF ys(1) assms(2)] obtain r where r: "r \<in> set (tb_objects t)" "obr_id r = candidate" by blast
  have "\<exists>n. (n, q) \<in> set (walk_from parent_of_row (tb_objects t) r)"
    unfolding walk_from_def using ys(2) r
    by (intro cte_walk_up [OF assms(1,2) ys(1)]) auto
  with r show ?thesis by (force simp: ancestor_query_def list_all_ex_iff)
qed

section \<open>The tree after a move\<close>

definition moved :: "string \<Rightarrow> (object_row \<Rightarrow> object_row) \<Rightarrow> object_row list \<Rightarrow> object_row list" where
  "moved i f rows = map (\<lambda>q. if obr_id q = i \<and> live_row q then f q else q) rows"

lemma moved_ids: "(\<And>q. obr_id (f q) = obr_id q) \<Longrightarrow> map obr_id (moved i f rows) = map obr_id rows"
  unfolding moved_def map_map by (rule map_cong) auto

lemma moved_rows:
  assumes "r \<in> set rows" and "\<And>q. obr_id (f q) = obr_id q" and "\<And>q. obr_kind (f q) = obr_kind q"
  shows "\<exists>q\<in>set (moved i f rows). obr_id q = obr_id r \<and> obr_kind q = obr_kind r"
  using assms by (intro bexI [of _ "if obr_id r = i \<and> live_row r then f r else r"]) (auto simp: moved_def)

lemma sql_tree_moved:
  assumes tree: "sql_tree rows" and r: "r \<in> set rows" "obr_id r = i" "live_row r"
    and f: "\<And>q. obr_id (f q) = obr_id q" "\<And>q. obr_kind (f q) = obr_kind q" "\<And>q. obr_parent_id (f q) = p"
    and dest: "\<And>d. p = Some d \<Longrightarrow> obr_parent_id r \<noteq> p \<Longrightarrow> \<exists>q\<in>set rows. obr_id q = d \<and> obr_kind q = ''folder''"
    and above: "\<And>d. p = Some d \<Longrightarrow> obr_parent_id r \<noteq> p \<Longrightarrow> obr_kind r = ''folder'' \<Longrightarrow>
      (d, i) \<notin> (row_edges (moved i f rows))\<^sup>*"
  shows "sql_tree (moved i f rows)"
proof -
  from tree have dist: "distinct (map obr_id rows)" and acy: "acyclic (row_edges rows)"
    and kinds: "\<And>a b. a \<in> set rows \<Longrightarrow> b \<in> set rows \<Longrightarrow> obr_parent_id a = Some (obr_id b) \<Longrightarrow> obr_kind b = ''folder''"
    unfolding sql_tree_def by blast+
  let ?rows = "moved i f rows"
  have ids: "map obr_id ?rows = map obr_id rows"
    by (rule moved_ids) (rule f(1))
  have edges: "row_edges ?rows = {(x, y) \<in> row_edges rows. x \<noteq> i} \<union> (case p of None \<Rightarrow> {} | Some d \<Rightarrow> {(i, d)})"
    (is "_ = ?kept \<union> _")
  proof -
    have "(x, y) \<in> row_edges ?rows \<longleftrightarrow> x \<noteq> i \<and> (x, y) \<in> row_edges rows \<or> x = i \<and> p = Some y" for x y
    proof (cases "x = i")
      case True
      have some: "\<exists>q\<in>set ?rows. obr_id q = i \<and> obr_parent_id q = p"
        using r f by (intro bexI [of _ "f r"]) (auto simp: moved_def)
      have all: "obr_parent_id q = p" if "q \<in> set ?rows" "obr_id q = i" for q
      proof -
        from that(1) obtain a where a: "a \<in> set rows" "q = (if obr_id a = i \<and> live_row a then f a else a)"
          by (auto simp: moved_def)
        with that(2) f(1) have "obr_id a = i" by (auto split: if_splits)
        with a(1) r dist have "a = r" by (auto intro: unique_row)
        with a(2) r f(3) show ?thesis by simp
      qed
      show ?thesis using True some all unfolding row_edges_iff by metis
    next
      case False
      with f(1) show ?thesis unfolding row_edges_iff moved_def by auto
    qed
    then show ?thesis by (auto split: option.split)
  qed
  have kept: "acyclic ?kept" by (rule acyclic_subset [OF acy]) auto
  have "acyclic (row_edges ?rows)"
  proof (cases p)
    case None
    with edges kept show ?thesis by simp
  next
    case (Some d)
    then have e: "row_edges ?rows = insert (i, d) ?kept" using edges by auto
    show ?thesis
    proof (cases "obr_parent_id r = p")
      case True
      then have "(i, d) \<in> row_edges rows" using r Some by (auto simp: row_edges_def)
      then have "row_edges ?rows \<subseteq> row_edges rows" using e by auto
      with acy show ?thesis by (rule acyclic_subset)
    next
      case False
      have "(d, i) \<notin> ?kept\<^sup>*"
      proof (cases "obr_kind r = ''folder''")
        case True
        with above [OF Some False True] e show ?thesis
          using rtrancl_mono [of ?kept "row_edges ?rows"] by blast
      next
        case kind: False
        from dest [OF Some False] obtain q where q: "q \<in> set rows" "obr_id q = d" "obr_kind q = ''folder''" by blast
        with kind r dist have "d \<noteq> i" by (auto dest: unique_row)
        moreover have "(x, i) \<notin> ?kept" for x
          using kinds r kind by (fastforce simp: row_edges_def)
        ultimately show ?thesis by (auto elim: rtranclE)
      qed
      with kept e show ?thesis by simp
    qed
  qed
  moreover have "obr_kind b = ''folder''"
    if ab: "a \<in> set ?rows" "b \<in> set ?rows" "obr_parent_id a = Some (obr_id b)" for a b
  proof -
    from ab obtain a' b' where a': "a' \<in> set rows" "a = (if obr_id a' = i \<and> live_row a' then f a' else a')"
      and b': "b' \<in> set rows" "b = (if obr_id b' = i \<and> live_row b' then f b' else b')"
      by (auto simp: moved_def)
    have b: "obr_id b = obr_id b'" "obr_kind b = obr_kind b'" using b' f by auto
    show ?thesis
    proof (cases "obr_id a' = i \<and> live_row a'")
      case False
      with a' kinds [OF a'(1) b'(1)] ab(3) b show ?thesis by simp
    next
      case True
      with a'(1) r dist have "a' = r" by (auto intro: unique_row)
      with a'(2) True f(3) ab(3) have p: "p = Some (obr_id b')" using b by auto
      show ?thesis
      proof (cases "obr_parent_id r = p")
        case True
        with kinds [OF r(1) b'(1)] p b show ?thesis by simp
      next
        case False
        from dest [OF p False] obtain q where "q \<in> set rows" "obr_id q = obr_id b'" "obr_kind q = ''folder''" by blast
        with b'(1) dist b show ?thesis by (auto dest: unique_row)
      qed
    qed
  qed
  ultimately show ?thesis using dist ids unfolding sql_tree_def by simp
qed

text \<open>
  The patch of an object in Postgres keeps the tree, whatever other sessions move meanwhile, as long
  as they keep it themselves.
\<close>

text \<open>
  What the other sessions do: they keep the tree, and never drop a row or change the kind of one.
  A row that is locked for update they leave alone.
\<close>

definition keeps_tree :: "(sql_tables \<Rightarrow> sql_tables) \<Rightarrow> bool" where
  "keeps_tree f \<longleftrightarrow>
     (\<forall>t. sql_tree (tb_objects t) \<longrightarrow> sql_tree (tb_objects (f t))) \<and>
     (\<forall>t. \<forall>r\<in>set (tb_objects t). \<exists>q\<in>set (tb_objects (f t)). obr_id q = obr_id r \<and> obr_kind q = obr_kind r)"

definition spares_row :: "string \<Rightarrow> (sql_tables \<Rightarrow> sql_tables) \<Rightarrow> bool" where
  "spares_row i f \<longleftrightarrow>
     (\<forall>t. filter (\<lambda>r. obr_id r = i) (tb_objects (f t)) = filter (\<lambda>r. obr_id r = i) (tb_objects t))"

text \<open>
  The session as it goes through the patch: the rows with the id, what its writes do to the table
  of objects, the folder that is known to be there, and the table once the lock has frozen it.
\<close>

definition move_inv ::
  "string \<Rightarrow> object_row list \<Rightarrow> (object_row list \<Rightarrow> object_row list) \<Rightarrow> string option \<Rightarrow>
   object_row list option \<Rightarrow> database \<Rightarrow> bool" where
  "move_inv i R F folder frozen d \<longleftrightarrow>
     sql_tree (tb_objects (db_committed d)) \<and>
     (\<forall>st\<in>set (db_script d). keeps_tree (ss_others st) \<and> spares_row i (ss_others st)) \<and>
     filter (\<lambda>r. obr_id r = i) (tb_objects (db_committed d)) = R \<and>
     (\<forall>t. tb_objects (db_writes d t) = F (tb_objects t)) \<and>
     (\<forall>p. folder = Some p \<longrightarrow> (\<exists>q\<in>set (tb_objects (db_committed d)). obr_id q = p \<and> obr_kind q = ''folder'')) \<and>
     (\<forall>rows. frozen = Some rows \<longrightarrow> db_change_lock d \<and> tb_objects (db_committed d) = rows)"

lemma keeps_treeD:
  assumes "keeps_tree f"
  shows "sql_tree (tb_objects t) \<Longrightarrow> sql_tree (tb_objects (f t))"
    "r \<in> set (tb_objects t) \<Longrightarrow> \<exists>q\<in>set (tb_objects (f t)). obr_id q = obr_id r \<and> obr_kind q = obr_kind r"
  using assms unfolding keeps_tree_def by blast+

lemma move_inv_step:
  assumes "move_inv i R F folder frozen d"
  shows "move_inv i R F folder frozen (snd (next_step d))"
proof (cases rule: next_step_cases [of d])
  case 1
  with assms show ?thesis by simp
next
  case (2 st rest)
  from assms 2(1) have f: "keeps_tree (ss_others st)" "spares_row i (ss_others st)"
    by (simp_all add: move_inv_def)
  have keep: "\<exists>q\<in>set (tb_objects (ss_others st (db_committed d))). obr_id q = p \<and> obr_kind q = ''folder''"
    if "folder = Some p" for p
  proof -
    from assms that obtain q where "q \<in> set (tb_objects (db_committed d))" "obr_id q = p" "obr_kind q = ''folder''"
      by (auto simp: move_inv_def)
    with keeps_treeD(2) [OF f(1)] show ?thesis by metis
  qed
  show ?thesis
  proof (cases "db_change_lock d")
    case True
    with assms 2 show ?thesis by (simp add: others_commit_def under_lock_def Let_def move_inv_def)
  next
    case False
    with assms have "frozen = None" by (auto simp: move_inv_def)
    with False assms 2 keep keeps_treeD(1) [OF f(1)] f(2) show ?thesis
      by (simp add: others_commit_def under_lock_def Let_def move_inv_def spares_row_def)
  qed
qed

lemma move_inv_lockable: "lockable (move_inv i R F folder frozen)"
proof -
  have "move_inv i R F folder frozen (d\<lparr>db_next_seq := n\<rparr>)" if "move_inv i R F folder frozen d" for d n
    using that by (simp add: move_inv_def)
  moreover have "move_inv i R F folder frozen (d\<lparr>db_change_lock := True\<rparr>)" if "move_inv i R F folder frozen d" for d
    using that by (simp add: move_inv_def)
  ultimately show ?thesis unfolding lockable_def steady_def using move_inv_step by blast
qed

lemma move_inv_absorbs:
  assumes "\<And>t rows w u. q t = Inr (rows, w) \<Longrightarrow> tb_objects (w u) = tb_objects u"
  shows "absorbs (move_inv i R F folder frozen) q"
  unfolding absorbs_def
proof (intro allI impI, elim conjE)
  fix d t rows w assume "move_inv i R F folder frozen d" "q t = Inr (rows, w)"
  with assms [of t rows w] show "move_inv i R F folder frozen (d\<lparr>db_writes := w \<circ> db_writes d\<rparr>)"
    by (simp add: move_inv_def)
qed

lemma move_inv_writes [simp]:
  "absorbs (move_inv i R F folder frozen) (insert_changes rows)"
  "absorbs (move_inv i R F folder frozen) (update_keys P g)"
  "absorbs (move_inv i R F folder frozen) (insert_queue b r t)"
  by (rule move_inv_absorbs;
      auto simp: insert_changes_def update_keys_def insert_queue_def split: if_splits)+

lemmas move_rules = call_rules inv_append move_inv_lockable lockable_steady [OF move_inv_lockable] move_inv_writes

section \<open>The checks\<close>

lemma sql_select_ok:
  assumes "sql (select f) d = Some (Ok x, d')"
  shows "d' = snd (next_step d) \<and> x = f (db_view d')"
proof -
  from assms obtain r d1 where "run_sql (select f) d = Some (Ok r, d1)" "sql_ok r d1 = Some (Ok x, d')"
    by (auto simp: sql_def call_bind_Ok_iff)
  then show ?thesis
    by (cases "next_step d"; cases r)
      (auto simp: run_sql_def select_def sql_ok_def call_simps db_view_def split: fault.splits)
qed

lemma lock_live_ok:
  assumes "lock_live i d = Some (Ok row, d')"
  shows "d' = snd (next_step d) \<and>
    (\<exists>r rest. filter (\<lambda>r. obr_id r = i) (tb_objects (db_view d')) = r # rest \<and> decode_object r = Ok row \<and> live_row r)"
proof -
  from assms obtain x d1 where x: "sql (select (\<lambda>t. fetch_optional (filter (\<lambda>r. obr_id r = i) (tb_objects t)))) d
      = Some (Ok x, d1)" and d1: "x \<noteq> None \<and> d1 = d' \<and> decode_object (the x) = Ok row \<and> live_row (the x)"
    by (auto simp: lock_live_def lock_object_def call_bind_Ok_iff call_simps live_row_def
        split: option.splits if_splits)
  from sql_select_ok [OF x] d1 show ?thesis
    by (auto simp: fetch_optional_def split: list.splits)
qed

lemma decode_object_fields:
  assumes "decode_object r = Ok row"
  shows "o_id (dco_object row) = obr_id r" "o_parent_id (dco_object row) = obr_parent_id r"
    "is_folder (dco_object row) \<longleftrightarrow> obr_kind r = ''folder''"
  using assms
  by (auto simp: decode_object_def rbind_Ok_iff decode_kind_def object_kind_parse_def is_folder_def
      split: if_splits)

text \<open>A destination that is accepted is a folder in the table.\<close>

lemma require_folder_ok:
  assumes "move_inv i R id None None d" and "require_folder p d = Some (Ok (), d')"
  shows "move_inv i R id (Some p) None d'"
proof -
  have "call_inv (move_inv i R id None None) (require_folder p)" by (intro move_rules)
  with assms have inv: "move_inv i R id None None d'" by (blast dest: call_invD)
  from assms(2) obtain row d1 where row: "sql (select (\<lambda>t. fetch_optional (live_rows_of p t))) d = Some (Ok (Some row), d1)"
    and kind: "d1 = d'" "decode_kind (obr_kind row) = Ok Folder"
    by (auto simp: require_folder_def live_kind_def call_bind_Ok_iff call_simps
        split: option.splits object_kind.splits)
  from sql_select_ok [OF row] kind(1) have "row \<in> set (tb_objects (db_view d'))" "obr_id row = p"
    by (auto simp: fetch_optional_def live_rows_of_def split: list.splits dest: filter_eq_ConsD)
  moreover from inv have "tb_objects (db_view d') = tb_objects (db_committed d')"
    by (simp add: move_inv_def db_view_def)
  moreover from kind(2) have "obr_kind row = ''folder''"
    by (auto simp: decode_kind_def object_kind_parse_def split: if_splits)
  ultimately show ?thesis using inv unfolding move_inv_def by auto
qed

lemma check_move_ok:
  assumes "move_inv i R id None None d" and "check_move current target d = Some (Ok (), d')"
  shows "move_inv i R id (if moves current target then st_parent target else None) None d' \<and>
    (moves current target \<longrightarrow> st_parent target \<noteq> None)"
proof (cases "moves current target")
  case False
  with assms show ?thesis by (simp add: check_move_def call_simps)
next
  case True
  with assms(2) obtain p d1 where p: "st_parent target = Some p" "require_folder p d = Some (Ok (), d1)"
    and rest: "(if is_folder current
               then call_bind (sql_is_self_or_descendant p (o_id current))
                      (\<lambda>below. call_unless below invalid_folder_move)
               else call_ok ()) d1 = Some (Ok (), d')"
    by (auto simp: check_move_def call_bind_Ok_iff call_then_Ok_iff call_simps)
  from require_folder_ok [OF assms(1) p(2)] have "move_inv i R id (Some p) None d1" .
  moreover have "call_inv (move_inv i R id (Some p) None)
      (if is_folder current
               then call_bind (sql_is_self_or_descendant p (o_id current))
                      (\<lambda>below. call_unless below invalid_folder_move)
               else call_ok ())"
    by (intro move_rules)
  ultimately have "move_inv i R id (Some p) None d'" using rest by (blast dest: call_invD)
  with True p(1) show ?thesis by simp
qed

section \<open>The write and the second check\<close>

lemma update_live_ok:
  assumes "move_inv i R id folder None d"
    and "run_sql (update_live i f) d = Some (Ok (Inr (Some row)), d')"
  shows "move_inv i R (moved i (\<lambda>q. f (bumped q))) folder None d'"
  using assms(2)
proof (cases rule: run_sql_cases)
  case (1 flt d1)
  then show ?thesis by simp
next
  case (2 flt d1 rows w)
  from 2(1) move_inv_step [OF assms(1)] have inv: "move_inv i R id folder None d1" by simp
  have "tb_objects (w u) = moved i (\<lambda>q. f (bumped q)) (tb_objects u)" for u
    using 2(2,5) by (auto simp: update_live_def moved_def Let_def split: list.splits if_splits)
  with inv 2(3) show ?thesis by (simp add: move_inv_def)
qed

lemma ancestor_query_objects:
  "tb_objects t = tb_objects u \<Longrightarrow> ancestor_query c i t = ancestor_query c i u"
  by (simp add: ancestor_query_def)

lemma lock_change_order_ok:
  assumes "lock_change_order d = Some (Ok x, d')"
  shows "db_change_lock d'"
  using assms by (auto simp: lock_change_order_def split: option.splits)

definition checked ::
  "object \<Rightarrow> sql_target \<Rightarrow> (object_row list \<Rightarrow> object_row list) \<Rightarrow> object_row list option \<Rightarrow> bool" where
  "checked current target F frozen \<longleftrightarrow>
     (\<forall>p. moves current target \<longrightarrow> is_folder current \<longrightarrow> st_parent target = Some p \<longrightarrow>
       (\<exists>rows. frozen = Some rows \<and>
         (\<forall>t. tb_objects t = F rows \<longrightarrow> \<not> ancestor_query p (o_id current) t)))"

lemma recheck_move_ok:
  assumes "move_inv i R F folder None d" and "recheck_move current target d = Some (Ok (), d')"
  shows "\<exists>frozen. move_inv i R F folder frozen d' \<and> checked current target F frozen"
proof (cases "moves current target \<and> is_folder current \<and> st_parent target \<noteq> None")
  case False
  have "call_inv (move_inv i R F folder None) (recheck_move current target)" by (intro move_rules)
  with assms have "move_inv i R F folder None d'" by (blast dest: call_invD)
  with False show ?thesis by (auto simp: checked_def)
next
  case True
  then obtain p where p: "st_parent target = Some p" by auto
  with True assms(2) obtain d1 below d2 where d1: "lock_change_order d = Some (Ok (), d1)"
    and d2: "sql (select (ancestor_query p (o_id current))) d1 = Some (Ok below, d2)" "\<not> below" "d' = d2"
    by (auto simp: recheck_move_def call_then_Ok_iff call_bind_Ok_iff call_unless_Ok_iff
        sql_is_self_or_descendant_def)
  have "call_inv (move_inv i R F folder None) lock_change_order" by (intro move_rules)
  with assms(1) d1 have "move_inv i R F folder None d1" by (blast dest: call_invD)
  with lock_change_order_ok [OF d1] have f: "move_inv i R F folder (Some (tb_objects (db_committed d1))) d1"
    by (simp add: move_inv_def)
  from sql_select_ok [OF d2(1)] move_inv_step [OF f] d2(3) have inv:
    "move_inv i R F folder (Some (tb_objects (db_committed d1))) d'" by simp
  have "\<not> ancestor_query p (o_id current) (db_view d')"
    using sql_select_ok [OF d2(1)] d2(2) unfolding d2(3) by metis
  moreover have "tb_objects (db_view d') = F (tb_objects (db_committed d1))"
    using inv by (simp add: move_inv_def db_view_def)
  ultimately have "\<forall>t. tb_objects t = F (tb_objects (db_committed d1)) \<longrightarrow> \<not> ancestor_query p (o_id current) t"
    using ancestor_query_objects by metis
  with inv p show ?thesis by (auto simp: checked_def)
qed

text \<open>What is committed in the end.\<close>

lemma view_tree:
  assumes inv: "move_inv i [r] (moved i f) (if moves current target then st_parent target else None) frozen d"
    and r: "obr_id r = i" "live_row r" "decode_object r = Ok row" "current = dco_object row"
    and f: "\<And>q. obr_id (f q) = obr_id q" "\<And>q. obr_kind (f q) = obr_kind q"
      "\<And>q. obr_parent_id (f q) = st_parent target"
    and above: "checked current target (moved i f) frozen"
  shows "sql_tree (tb_objects (db_view d))"
proof -
  let ?C = "tb_objects (db_committed d)"
  from inv have tree: "sql_tree ?C" and R: "filter (\<lambda>r. obr_id r = i) ?C = [r]"
    and v: "tb_objects (db_view d) = moved i f ?C"
    by (simp_all add: move_inv_def db_view_def)
  from R have rC: "r \<in> set ?C" by (metis filter_eq_ConsD in_set_conv_decomp)
  note fields = decode_object_fields [OF r(3), folded r(4)]
  have moves: "moves current target \<longleftrightarrow> obr_parent_id r \<noteq> st_parent target"
    by (auto simp: moves_def fields)
  have "sql_tree (moved i f ?C)"
  proof (rule sql_tree_moved [OF tree rC r(1,2) f])
    fix p assume p: "st_parent target = Some p" "obr_parent_id r \<noteq> st_parent target"
    with inv moves show "\<exists>q\<in>set ?C. obr_id q = p \<and> obr_kind q = ''folder''"
      by (simp add: move_inv_def)
    assume "obr_kind r = ''folder''"
    with p moves fields above obtain rows where rows: "frozen = Some rows"
      "\<And>t. tb_objects t = moved i f rows \<Longrightarrow> \<not> ancestor_query p i t"
      using r(1) unfolding checked_def by auto
    with inv have "rows = ?C" by (simp add: move_inv_def)
    with rows(2) [of "db_view d"] v have no: "\<not> ancestor_query p i (db_view d)" by simp
    have "distinct (map obr_id (tb_objects (db_view d)))"
      using tree moved_ids [of f i ?C, OF f(1)] unfolding v sql_tree_def by simp
    moreover have "f r \<in> set (tb_objects (db_view d))" "obr_id (f r) = i"
      using rC r(1,2) f(1) by (auto simp: v moved_def)
    ultimately show "(p, i) \<notin> (row_edges (moved i f ?C))\<^sup>*"
      using ancestor_query_complete [of "db_view d" "f r" p] no v by auto
  qed
  with v show ?thesis by simp
qed

lemma drift_tree:
  "drift steps t t' \<Longrightarrow> sql_tree (tb_objects t) \<Longrightarrow> (\<And>st. st \<in> set steps \<Longrightarrow> keeps_tree (ss_others st)) \<Longrightarrow>
   sql_tree (tb_objects t')"
proof (induction rule: drift.induct)
  case (free steps st t t')
  then show ?case using keeps_treeD(1) [of "ss_others st" t] by simp
qed (simp_all add: under_lock_def)

section \<open>The patch as a whole\<close>

lemma patched_row_fields:
  "obr_id (patched_row lib target now (bumped q)) = obr_id q"
  "obr_kind (patched_row lib target now (bumped q)) = obr_kind q"
  "obr_parent_id (patched_row lib target now (bumped q)) = st_parent target"
  by (simp_all add: patched_row_def bumped_def)

lemma write_patch_tree:
  assumes inv: "move_inv (po_id cmd) [r] id (if moves current target then st_parent target else None) None d"
    and r: "obr_id r = po_id cmd" "live_row r" "decode_object r = Ok row" "current = dco_object row"
    and w: "sql_write_patch lib cmd current target d = Some (Ok a, d')"
  shows "sql_tree (tb_objects (db_view (snd (next_step d'))))"
proof -
  let ?i = "po_id cmd"
  let ?folder = "if moves current target then st_parent target else None"
  let ?f = "patched_row lib target (mc_now (po_ctx cmd))"
  from w obtain u d1 where u: "run_sql (update_live ?i ?f) d = Some (Ok u, d1)"
    and rest: "(case u of
         Inl e \<Rightarrow> if is_name_conflict e then call_err NameConflict else call_err (map_sqlx e)
       | Inr None \<Rightarrow> call_err ObjectNotFound
       | Inr (Some row) \<Rightarrow>
           call_then (recheck_move current target)
           (call_bind (append_for lib (po_ctx cmd)
               (sql_patch_pending ?i (obr_revision row) current target)) (\<lambda>chs.
             finish_with_view lib (po_ctx cmd) ?i chs False))) d1 = Some (Ok a, d')"
    by (auto simp: sql_write_patch_def call_bind_Ok_iff)
  then obtain nrow where nrow: "u = Inr (Some nrow)"
    by (auto simp: call_simps split: sum.splits option.splits if_splits)
  from update_live_ok [OF inv u [unfolded nrow]]
  have inv1: "move_inv ?i [r] (moved ?i (\<lambda>q. ?f (bumped q))) ?folder None d1" .
  from rest nrow obtain d2 where d2: "recheck_move current target d1 = Some (Ok (), d2)"
    and fin: "(call_bind (append_for lib (po_ctx cmd)
               (sql_patch_pending ?i (obr_revision nrow) current target)) (\<lambda>chs.
             finish_with_view lib (po_ctx cmd) ?i chs False)) d2 = Some (Ok a, d')"
    by (auto simp: call_then_Ok_iff)
  from recheck_move_ok [OF inv1 d2] obtain frozen where
    inv2: "move_inv ?i [r] (moved ?i (\<lambda>q. ?f (bumped q))) ?folder frozen d2"
    and above: "checked current target (moved ?i (\<lambda>q. ?f (bumped q))) frozen" by blast
  have "call_inv (move_inv ?i [r] (moved ?i (\<lambda>q. ?f (bumped q))) ?folder frozen)
      (call_bind (append_for lib (po_ctx cmd)
               (sql_patch_pending ?i (obr_revision nrow) current target)) (\<lambda>chs.
             finish_with_view lib (po_ctx cmd) ?i chs False))"
    by (intro move_rules)
  with inv2 fin have "move_inv ?i [r] (moved ?i (\<lambda>q. ?f (bumped q))) ?folder frozen d'"
    by (blast dest: call_invD)
  from view_tree [OF move_inv_step [OF this] r patched_row_fields above] show ?thesis by blast
qed

text \<open>The steps after the row is locked; before that the others may write it.\<close>

lemma patch_body_tree:
  assumes tree: "sql_tree (tb_objects (db_committed d))" and id: "db_writes d = id"
    and good: "\<And>st. st \<in> set (db_script d) \<Longrightarrow> keeps_tree (ss_others st)"
    and spare: "\<And>st. st \<in> set (drop 1 (db_script d)) \<Longrightarrow> spares_row (po_id cmd) (ss_others st)"
    and lock: "lock_live (po_id cmd) d = Some (Ok row, d1)"
  shows "\<exists>r. obr_id r = po_id cmd \<and> live_row r \<and> decode_object r = Ok row \<and>
    move_inv (po_id cmd) [r] id None None d1"
proof -
  from lock_live_ok [OF lock] obtain r rest where d1: "d1 = snd (next_step d)"
    and r: "filter (\<lambda>r. obr_id r = po_id cmd) (tb_objects (db_view d1)) = r # rest"
      "decode_object r = Ok row" "live_row r" by blast
  have step: "since d d1" unfolding d1 by (rule since_step [OF since_refl])
  have writes: "db_writes d1 = id" and script: "db_script d1 = drop 1 (db_script d)"
    unfolding d1 by (cases rule: next_step_cases [of d]; simp add: id others_commit_def under_lock_def Let_def)+
  from step obtain steps where s: "db_script d = steps @ db_script d1" "drift steps (db_committed d) (db_committed d1)"
    by (auto simp: since_def)
  with good drift_tree [OF s(2) tree] have tree1: "sql_tree (tb_objects (db_committed d1))" by auto
  have v: "tb_objects (db_view d1) = tb_objects (db_committed d1)" by (simp add: db_view_def writes)
  from r(1) have mem: "r \<in> set (tb_objects (db_view d1))" "obr_id r = po_id cmd"
    by (auto dest: filter_eq_ConsD)
  with tree1 v have "filter (\<lambda>q. obr_id q = po_id cmd) (tb_objects (db_committed d1)) = [r]"
    unfolding sql_tree_def using unique_filter [of "tb_objects (db_committed d1)" r] by simp
  with tree1 writes script s(1) good spare r mem show ?thesis
    by (intro exI [of _ r]) (auto simp: move_inv_def)
qed

lemma begin_ok:
  assumes "begin_transaction d = Some (Ok u, d')"
  shows "d' = snd (next_step d)"
  using sql_select_ok [of "\<lambda>_. ()" d u d'] assms by (simp add: begin_transaction_def)

lemma patch_in_tx_tree:
  assumes tree: "sql_tree (tb_objects t)"
    and good: "\<And>st. st \<in> set script \<Longrightarrow> keeps_tree (ss_others st)"
    and spare: "\<And>st. st \<in> set (drop 2 script) \<Longrightarrow> spares_row (po_id cmd) (ss_others st)"
    and run: "call_then begin_transaction (patch_in_tx lib cmd) (session_of t n script) = Some (Ok a, d')"
  shows "sql_tree (tb_objects (db_view (snd (next_step d'))))"
proof -
  let ?d = "session_of t n script"
  from run obtain u d0 where d0: "begin_transaction ?d = Some (Ok u, d0)" "patch_in_tx lib cmd d0 = Some (Ok a, d')"
    by (auto simp: call_then_Ok_iff)
  from begin_ok [OF d0(1)] have step: "d0 = snd (next_step ?d)" .
  have w: "db_writes d0 = id" and script: "db_script d0 = drop 1 script"
    unfolding step by (cases rule: next_step_cases [of ?d]; simp add: session_of_def others_commit_def under_lock_def Let_def)+
  have "since ?d d0" unfolding step by (rule since_step [OF since_refl])
  then obtain steps where s: "script = steps @ db_script d0" "drift steps t (db_committed d0)"
    by (auto simp: since_def session_of_def)
  with good drift_tree [OF s(2) tree] have tree0: "sql_tree (tb_objects (db_committed d0))" by auto
  have good0: "\<And>st. st \<in> set (db_script d0) \<Longrightarrow> keeps_tree (ss_others st)" using good s(1) by auto
  have spare0: "\<And>st. st \<in> set (drop 1 (db_script d0)) \<Longrightarrow> spares_row (po_id cmd) (ss_others st)"
    using spare script by (simp add: numeral_2_eq_2 drop_Suc)
  from d0(2) obtain row d1 target where lock: "lock_live (po_id cmd) d0 = Some (Ok row, d1)"
    and rest: "(if \<not> renames (dco_object row) target \<and> \<not> moves (dco_object row) target
            \<and> \<not> changes_metadata (dco_object row) target
          then finish_with_view lib (po_ctx cmd) (po_id cmd) [] True
          else call_then (check_move (dco_object row) target)
                 (sql_write_patch lib cmd (dco_object row) target)) d1 = Some (Ok a, d')"
    by (auto simp: patch_in_tx_def Let_def call_bind_Ok_iff call_then_Ok_iff call_simps)
  from patch_body_tree [OF tree0 w good0 spare0 lock] obtain r where
    r: "obr_id r = po_id cmd" "live_row r" "decode_object r = Ok row"
    and inv: "move_inv (po_id cmd) [r] id None None d1" by blast
  show ?thesis
  proof (cases "\<not> renames (dco_object row) target \<and> \<not> moves (dco_object row) target
            \<and> \<not> changes_metadata (dco_object row) target")
    case True
    have "call_inv (move_inv (po_id cmd) [r] id None None) (finish_with_view lib (po_ctx cmd) (po_id cmd) [] True)"
      by (intro move_rules)
    with inv rest True have "move_inv (po_id cmd) [r] id None None d'" by (auto dest: call_invD)
    from move_inv_step [OF this] show ?thesis by (simp add: move_inv_def db_view_def)
  next
    case False
    with rest obtain d2 where d2: "check_move (dco_object row) target d1 = Some (Ok (), d2)"
      "sql_write_patch lib cmd (dco_object row) target d2 = Some (Ok a, d')"
      by (auto simp: call_then_Ok_iff)
    from check_move_ok [OF inv d2(1)] write_patch_tree [OF _ r refl d2(2)] show ?thesis by blast
  qed
qed

text \<open>
  C10: moving folders in Postgres keeps the tree free of cycles under concurrency: however other
  sessions move, create and delete between any two statements of a patch - each of them keeping
  the tree itself, and none of them writing the row that this session has locked - and whichever
  statement fails, the tables that result have unique ids, no cycle, and folders as parents.
\<close>

theorem concurrent_moves_keep_tree:
  assumes tree: "sql_tree (tb_objects t)"
    and good: "\<And>st. st \<in> set script \<Longrightarrow> keeps_tree (ss_others st)"
    and spare: "\<And>st. st \<in> set (drop 2 script) \<Longrightarrow> spares_row (po_id cmd) (ss_others st)"
    and run: "sql_patch_object lib cmd (session_of t n script) = Some (r, d')"
  shows "sql_tree (tb_objects (db_committed d'))"
proof -
  let ?d = "session_of t n script"
  have kept: "sql_tree (tb_objects (db_committed d))" if "since ?d d" for d
    using that drift_tree tree good by (fastforce simp: since_def session_of_def)
  have body: "call_inv (since d0) (patch_in_tx lib cmd)" for d0 by (rule call_rules)
  from run [unfolded sql_patch_object_def] lockable_steady [OF since_lockable] body since_refl [of ?d]
  show ?thesis
  proof (cases rule: in_transaction_cases)
    case (1 e d1)
    with kept [of d1] show ?thesis by (simp add: rollback_def end_transaction_def)
  next
    case (2 a d1 flt d2)
    then have "sql_tree (tb_objects (db_view d2))"
      using patch_in_tx_tree [OF tree good spare, where n = n and lib = lib and a = a and d' = d1] by simp
    with 2 show ?thesis by (simp add: end_transaction_def)
  qed
qed

section \<open>A race\<close>

text \<open>
  Two folders next to each other. This session moves the first into the second, and after its
  check the other session has moved the second into the first.
\<close>

definition race_tables :: sql_tables where
  "race_tables = (migrated_tables 0)\<lparr>tb_objects :=
     [root_row 0,
      (new_object_row sample_lib sample_folder)\<lparr>obr_id := ''a'', obr_name := ''a''\<rparr>,
      (new_object_row sample_lib sample_folder)\<lparr>obr_id := ''b'', obr_name := ''b''\<rparr>]\<rparr>"

definition race_patch :: patch_object_commit where
  "race_patch =
     \<lparr>po_id = ''a'', po_if_match = None, po_new_name = None, po_new_parent_id = Some ''b'',
      po_metadata_patch = None, po_ctx = sample_ctx 2\<rparr>"

text \<open>The other session's move, which it makes where it finds the tree to allow it.\<close>

definition rival_move :: "sql_tables \<Rightarrow> sql_tables" where
  "rival_move t =
     (let t' = t\<lparr>tb_objects := moved ''b'' (\<lambda>r. r\<lparr>obr_parent_id := Some ''a''\<rparr>) (tb_objects t)\<rparr>
      in if list_ex (\<lambda>r. obr_id r = ''a'' \<and> obr_kind r = ''folder'') (tb_objects t)
            \<and> list_ex (\<lambda>r. obr_id r = ''b'' \<and> live_row r) (tb_objects t) \<and> \<not> ancestor_query ''a'' ''b'' t'
         then t' else t)"

definition race_script :: "script_step list" where
  "race_script = replicate 4 \<lparr>ss_others = id, ss_fault = NoFault\<rparr> @ [\<lparr>ss_others = rival_move, ss_fault = NoFault\<rparr>]"

lemma race_result:
  "map_option fst (sql_patch_object sample_lib race_patch (session_of race_tables 1 race_script))
     = Some (Err invalid_folder_move)"
  by code_simp

lemma rival_keeps_tree: "keeps_tree rival_move"
proof -
  let ?f = "\<lambda>r :: object_row. r\<lparr>obr_parent_id := Some ''a''\<rparr>"
  have "sql_tree (tb_objects (rival_move t))" if tree: "sql_tree (tb_objects t)" for t
  proof (cases "rival_move t = t")
    case True
    with tree show ?thesis by simp
  next
    case False
    define t' where "t' = t\<lparr>tb_objects := moved ''b'' ?f (tb_objects t)\<rparr>"
    have objs: "tb_objects t' = moved ''b'' ?f (tb_objects t)" by (simp add: t'_def)
    from False obtain q r where q: "q \<in> set (tb_objects t)" "obr_id q = ''a''" "obr_kind q = ''folder''"
      and r: "r \<in> set (tb_objects t)" "obr_id r = ''b''" "live_row r"
      and no: "\<not> ancestor_query ''a'' ''b'' t'" and eq: "rival_move t = t'"
      by (auto simp: rival_move_def Let_def list_all_ex_iff t'_def split: if_splits)
    have dist: "distinct (map obr_id (tb_objects t'))"
      using tree moved_ids [of ?f "''b''" "tb_objects t"] by (simp add: objs sql_tree_def)
    have fr: "?f r \<in> set (tb_objects t')" "obr_id (?f r) = ''b''"
      using r by (auto simp: objs moved_def)
    have "sql_tree (moved ''b'' ?f (tb_objects t))"
    proof (rule sql_tree_moved [OF tree r])
      show "(d, ''b'') \<notin> (row_edges (moved ''b'' ?f (tb_objects t)))\<^sup>*" if "Some ''a'' = Some d" for d
        using that ancestor_query_complete [OF dist fr(1), of "''a''"] no fr(2) objs by auto
    qed (use q in auto)
    with eq objs show ?thesis by simp
  qed
  moreover have "\<exists>q\<in>set (tb_objects (rival_move t)). obr_id q = obr_id r \<and> obr_kind q = obr_kind r"
    if "r \<in> set (tb_objects t)" for t r
    using that moved_rows [OF that, of "\<lambda>r. r\<lparr>obr_parent_id := Some ''a''\<rparr>" "''b''"]
    by (auto simp: rival_move_def Let_def)
  ultimately show ?thesis unfolding keeps_tree_def by blast
qed

lemma rival_spares_row: "spares_row ''a'' rival_move"
proof -
  have "filter (\<lambda>r. obr_id r = ''a'') (moved ''b'' (\<lambda>r. r\<lparr>obr_parent_id := Some ''a''\<rparr>) rows)
      = filter (\<lambda>r. obr_id r = ''a'') rows" for rows
    by (induction rows) (auto simp: moved_def)
  then show ?thesis by (simp add: spares_row_def rival_move_def Let_def)
qed

lemma race_tree: "sql_tree (tb_objects race_tables)"
proof -
  have "row_edges (tb_objects race_tables) = {(''a'', ''root''), (''b'', ''root'')}"
    by (auto simp: set_eq_iff row_edges_iff race_tables_def migrated_tables_def root_row_def new_object_row_def
        sample_folder_def ROOT_ID_def)
  moreover have "acyclic {(''a'', ''root''), (''b'', ''root'')}"
    by (auto simp: acyclic_def [of "{}"] elim: converse_rtranclE)
  ultimately show ?thesis
    by (auto simp: sql_tree_def race_tables_def migrated_tables_def root_row_def new_object_row_def
        sample_folder_def ROOT_ID_def)
qed

theorem concurrent_moves_keep_tree_witness:
  "\<exists>d'. sql_patch_object sample_lib race_patch (session_of race_tables 1 race_script)
       = Some (Err invalid_folder_move, d') \<and> sql_tree (tb_objects (db_committed d'))"
proof -
  from race_result obtain d' where d': "sql_patch_object sample_lib race_patch (session_of race_tables 1 race_script)
      = Some (Err invalid_folder_move, d')" by auto
  have "sql_tree (tb_objects (db_committed d'))"
  proof (rule concurrent_moves_keep_tree [OF race_tree _ _ d'])
    show "keeps_tree (ss_others st)" if "st \<in> set race_script" for st
      using that rival_keeps_tree by (auto simp: race_script_def keeps_tree_def)
    show "spares_row (po_id race_patch) (ss_others st)" if "st \<in> set (drop 2 race_script)" for st
      using in_set_dropD [OF that] rival_spares_row by (auto simp: race_script_def race_patch_def spares_row_def)
  qed
  with d' show ?thesis by blast
qed

end
