(* ===== verification/SqlFeed.thy ===== *)
theory SqlFeed
  imports SqlAtomic
begin

text \<open>
  The order of the feed in Postgres. Sequence numbers are drawn before they are committed, so a
  later number could become visible before an earlier one, and a reader that has moved past it
  would never see the earlier change. The lock that orders changes excludes this: what a
  transaction appends comes after everything that is committed.
\<close>

section \<open>What a transaction appends\<close>

definition feed_sorted :: "change_row list \<Rightarrow> bool" where
  "feed_sorted rows \<longleftrightarrow> sorted_wrt (\<lambda>r r'. chr_seq r < chr_seq r') rows"

definition all_before :: "change_row list \<Rightarrow> change_row list \<Rightarrow> bool" where
  "all_before rows rows' \<longleftrightarrow> (\<forall>r\<in>set rows. \<forall>r'\<in>set rows'. chr_seq r < chr_seq r')"

definition appends :: "change_row list \<Rightarrow> database \<Rightarrow> bool" where
  "appends new d \<longleftrightarrow>
     (\<forall>t. tb_changes (db_writes d t) = tb_changes t @ new) \<and> (new \<noteq> [] \<longrightarrow> db_change_lock d) \<and>
     feed_sorted new \<and> all_before (tb_changes (db_committed d)) new"

definition feed_inv :: "database \<Rightarrow> bool" where
  "feed_inv d \<longleftrightarrow> (\<exists>new. appends new d)"

lemma appends_step:
  assumes "appends new d"
  shows "appends new (snd (next_step d))" "db_change_lock (snd (next_step d)) = db_change_lock d"
    "db_change_lock d \<Longrightarrow>
       set (tb_changes (db_committed (snd (next_step d)))) \<subseteq> set (tb_changes (db_committed d))"
  using assms
  by (cases rule: next_step_cases [of d];
      auto simp: appends_def all_before_def others_commit_def under_lock_def Let_def)+

lemma feed_inv_lockable: "lockable feed_inv"
  unfolding lockable_def steady_def feed_inv_def
  by (auto dest: appends_step(1)) (auto simp: appends_def)

lemma feed_inv_absorbs:
  assumes "\<And>t rows w u. q t = Inr (rows, w) \<Longrightarrow> tb_changes (w u) = tb_changes u"
  shows "absorbs feed_inv q"
  unfolding absorbs_def feed_inv_def
proof (intro allI impI, elim conjE exE)
  fix d t rows w new assume "appends new d" "q t = Inr (rows, w)"
  with assms [of t rows w] have "appends new (d\<lparr>db_writes := w \<circ> db_writes d\<rparr>)"
    by (simp add: appends_def)
  then show "\<exists>new. appends new (d\<lparr>db_writes := w \<circ> db_writes d\<rparr>)" by blast
qed

lemma feed_inv_writes:
  "absorbs feed_inv (update_keys P f)" "absorbs feed_inv (insert_queue b r t)"
  "absorbs feed_inv (insert_object obr)" "absorbs feed_inv (update_live i g)"
  "absorbs feed_inv (delete_rows ids now)" "absorbs feed_inv (complete_upload u now)"
  "absorbs feed_inv (delete_queue b r)"
  by (rule feed_inv_absorbs;
      auto simp: update_keys_def insert_queue_def insert_object_def update_live_def delete_rows_def
        complete_upload_def delete_queue_def Let_def split: if_splits list.splits)+

section \<open>Drawing numbers under the lock\<close>

lemma above_all:
  "r \<in> set rows \<Longrightarrow> chr_seq r < foldr max (map (\<lambda>r. chr_seq r + 1) rows) n"
  by (induction rows) (auto simp: less_max_iff_disj)

lemma next_seqs_ok:
  assumes run: "next_seqs n d = Some (Ok seqs, d')" and new: "appends new d" and lock: "db_change_lock d"
  obtains low where "seqs = map (\<lambda>k. low + int k) [0..<n]" "appends new d'" "db_change_lock d'"
    "\<And>r. r \<in> set (tb_changes (db_view d')) \<Longrightarrow> chr_seq r < low"
proof -
  obtain flt d1 where d1: "next_step d = (flt, d1)" by (cases "next_step d")
  with appends_step [OF new] lock have "appends new d1" "db_change_lock d1" by auto
  let ?low = "foldr max (map (\<lambda>r. chr_seq r + 1) (tb_changes (db_view d1)))
    (max (db_next_seq d1) (tb_purged_through (db_view d1) + 1))"
  from run d1 have "seqs = map (\<lambda>k. ?low + int k) [0..<n]" "d' = d1\<lparr>db_next_seq := ?low + int n\<rparr>"
    by (auto simp: next_seqs_def Let_def split: fault.splits)
  moreover from this(2) have "tb_changes (db_view d') = tb_changes (db_view d1)" by (simp add: db_view_def)
  ultimately show thesis
    using \<open>appends new d1\<close> \<open>db_change_lock d1\<close> above_all
    by (intro that [of ?low]) (simp_all add: appends_def)
qed

lemma change_rows_seqs:
  assumes "length seqs = length pending"
  shows "map chr_seq (map (change_row_of lib) (zip (map (sql_change_record i k c) (zip pending seqs)) seqs)) = seqs"
  using assms by (induction seqs pending rule: list_induct2) (simp_all add: change_row_of_def)

lemma seqs_sorted: "sorted_wrt (<) (map (\<lambda>k. low + int k) [0..<n])"
  by (simp add: sorted_wrt_map sorted_wrt_iff_nth_less)

lemma feed_sorted_seqs: "feed_sorted rows \<longleftrightarrow> sorted_wrt (<) (map chr_seq rows)"
  by (simp add: feed_sorted_def sorted_wrt_map)

lemma inserted_after:
  assumes run: "sql (insert_changes rows) d = Some (r, d')" and new: "appends new d" "db_change_lock d"
    and rows: "feed_sorted rows" "all_before (tb_changes (db_view d)) rows"
  shows "feed_inv d'"
proof -
  from run obtain x where x: "run_sql (insert_changes rows) d = Some (x, d')"
    by (cases "run_sql (insert_changes rows) d") (auto simp: sql_def call_bind_def sql_ok_def call_simps split: sum.splits)
  then show ?thesis
  proof (cases rule: run_sql_cases)
    case (1 flt d1)
    with appends_step(1) [OF new(1)] show ?thesis by (auto simp: feed_inv_def)
  next
    case (2 flt d1 u w)
    with appends_step [OF new(1)] new(2) have d1: "appends new d1" "db_change_lock d1"
      "set (tb_changes (db_committed d1)) \<subseteq> set (tb_changes (db_committed d))" by auto
    from 2(2) have w: "tb_changes (w t) = tb_changes t @ rows" for t
      by (auto simp: insert_changes_def split: if_splits)
    from new(1) rows(2) have "all_before (tb_changes (db_committed d) @ new) rows"
      by (simp add: db_view_def appends_def)
    with d1 w rows(1) have "appends (new @ rows) d'"
      unfolding 2(3) by (auto simp: appends_def all_before_def feed_sorted_def sorted_wrt_append)
    then show ?thesis by (auto simp: feed_inv_def)
  qed
qed

lemma feed_inv_append: "call_inv feed_inv (append_for lib ctx pending)"
proof -
  have "feed_inv d'" if inv: "feed_inv d" and run: "append_for lib ctx pending d = Some (r, d')" for d r d'
  proof (cases "pending = []")
    case True
    with inv run show ?thesis by (simp add: append_for_def sql_append_changes_def call_simps)
  next
    case False
    let ?rows = "\<lambda>seqs. map (change_row_of lib) (zip (map (sql_change_record (mc_request_id ctx)
      (mc_idempotency_key ctx) (mc_now ctx)) (zip pending seqs)) seqs)"
    from run False consider
      e where "lock_change_order d = Some (Err e, d')"
    | u d1 e where "lock_change_order d = Some (Ok u, d1)" "next_seqs (length pending) d1 = Some (Err e, d')"
    | u d1 seqs d2 x where "lock_change_order d = Some (Ok u, d1)"
        "next_seqs (length pending) d1 = Some (Ok seqs, d2)" "sql (insert_changes (?rows seqs)) d2 = Some (x, d')"
      by (auto simp: append_for_def sql_append_changes_def Let_def call_then_def call_bind_Some_iff call_simps)
    then show ?thesis
    proof cases
      case 1
      with inv inv_lock [OF feed_inv_lockable] show ?thesis by (blast dest: call_invD)
    next
      case 2
      with inv inv_lock [OF feed_inv_lockable] inv_seqs [OF lockable_steady [OF feed_inv_lockable]]
      show ?thesis by (blast dest: call_invD)
    next
      case 3
      with inv inv_lock [OF feed_inv_lockable] have "feed_inv d1" by (blast dest: call_invD)
      then obtain new where new: "appends new d1" by (auto simp: feed_inv_def)
      from 3(1) have "db_change_lock d1" by (auto simp: lock_change_order_def)
      from next_seqs_ok [OF 3(2) new this] obtain low where
        seqs: "seqs = map (\<lambda>k. low + int k) [0..<length pending]" and d2: "appends new d2" "db_change_lock d2"
        and above: "\<And>r. r \<in> set (tb_changes (db_view d2)) \<Longrightarrow> chr_seq r < low" by blast
      from seqs have ids: "map chr_seq (?rows seqs) = seqs" by (intro change_rows_seqs) simp
      then have sorted: "feed_sorted (?rows seqs)" unfolding feed_sorted_seqs by (simp only: seqs seqs_sorted)
      have "low \<le> chr_seq r" if "r \<in> set (?rows seqs)" for r
      proof -
        from that ids have "chr_seq r \<in> set seqs" by (metis image_eqI list.set_map)
        with seqs show ?thesis by auto
      qed
      with above have "all_before (tb_changes (db_view d2)) (?rows seqs)"
        by (fastforce simp: all_before_def)
      from inserted_after [OF 3(3) d2 sorted this] show ?thesis .
    qed
  qed
  then show ?thesis unfolding call_inv_def by blast
qed

section \<open>What is committed\<close>

lemma feed_inv_bodies: "body \<in> mutations_in_tx lib c p dl cc \<Longrightarrow> call_inv feed_inv body"
  unfolding mutations_in_tx_def
  by (auto intro: mutations_keep [OF feed_inv_lockable feed_inv_append feed_inv_writes])

text \<open>
  C11: changes become visible in the order of their numbers: whatever other sessions commit while a
  mutation over Postgres runs, and whether or not its answer arrives, the rows it has added to the
  feed when it is over have increasing numbers above every number in the feed that the others
  left. A reader that has read up to there can not miss them.
\<close>

theorem changes_committed_in_order:
  assumes m: "m \<in> object_mutations lib c p dl cc" and run: "m (session_of t n script) = Some (r, d')"
  shows "\<exists>steps others new. script = steps @ db_script d' \<and> drift steps t others \<and>
    tb_changes (db_committed d') = tb_changes others @ new \<and> feed_sorted new \<and>
    all_before (tb_changes others) new"
proof -
  let ?d = "session_of t n script"
  let ?I = "\<lambda>d. feed_inv d \<and> since ?d d"
  from m obtain body where b: "m = in_transaction body" "body \<in> mutations_in_tx lib c p dl cc"
    by (auto simp: object_mutations_tx)
  from b(2) have "call_inv (since ?d) body" by (auto simp: mutations_in_tx_def intro: call_rules)
  with feed_inv_bodies [OF b(2)] have body: "call_inv ?I body" unfolding call_inv_def by blast
  have steady: "steady ?I"
    using feed_inv_lockable since_lockable [of ?d] by (auto simp: lockable_def steady_def)
  have start: "?I ?d" by (auto simp: feed_inv_def appends_def session_of_def feed_sorted_def all_before_def
      intro!: since_refl exI [of _ "[]"])
  from run [unfolded b(1)] steady body start show ?thesis
  proof (cases rule: in_transaction_cases)
    case (1 e d1)
    then obtain steps where "script = steps @ db_script d1" "drift steps t (db_committed d1)"
      by (auto simp: since_def session_parts)
    with 1(2) show ?thesis
      by (intro exI [of _ steps] exI [of _ "db_committed d1"] exI [of _ "[]"])
        (simp add: rollback_def end_transaction_def feed_sorted_def all_before_def)
  next
    case (2 a d1 flt d2)
    with steady have "?I d2" unfolding steady_def by (metis snd_conv)
    then obtain new steps where "appends new d2" "script = steps @ db_script d2" "drift steps t (db_committed d2)"
      by (auto simp: feed_inv_def since_def session_parts)
    with 2(4) show ?thesis
      by (intro exI [of _ steps] exI [of _ "db_committed d2"] exI [of _ new])
        (simp add: end_transaction_def appends_def db_view_def)
  qed
qed

text \<open>Another session commits a change while this one waits for the lock.\<close>

definition rival_change :: "sql_tables \<Rightarrow> sql_tables" where
  "rival_change t =
     t\<lparr>tb_changes := tb_changes t @
       [\<lparr>chr_seq = 7, chr_change_id = ''chg_7'', chr_object_id = ''x'', chr_revision = 2,
         chr_action = ''deleted'', chr_changed_at = 0, chr_request_id = ''other'',
         chr_idempotency_key = None, chr_tombstone = True\<rparr>]\<rparr>"

definition waiting_script :: "script_step list" where
  "waiting_script =
     replicate 5 \<lparr>ss_others = id, ss_fault = NoFault\<rparr> @ [\<lparr>ss_others = rival_change, ss_fault = NoFault\<rparr>]"

lemma waiting_run:
  "map_option (\<lambda>(r, d). (r, map chr_seq (tb_changes (db_committed d))))
     (sql_create_object sample_lib sample_folder (session_of (migrated_tables 0) 3 waiting_script)) =
   Some (Ok (stored_response_json 200 ''new''), [7, 8])"
  by code_simp

theorem changes_committed_in_order_witness:
  "\<exists>d' steps others new.
     sql_create_object sample_lib sample_folder (session_of (migrated_tables 0) 3 waiting_script) =
       Some (Ok (stored_response_json 200 ''new''), d') \<and>
     map chr_seq (tb_changes (db_committed d')) = [7, 8] \<and>
     tb_changes (db_committed d') = tb_changes others @ new \<and> drift steps (migrated_tables 0) others \<and>
     all_before (tb_changes others) new"
proof -
  from waiting_run obtain d' where d':
    "sql_create_object sample_lib sample_folder (session_of (migrated_tables 0) 3 waiting_script) =
       Some (Ok (stored_response_json 200 ''new''), d')"
    "map chr_seq (tb_changes (db_committed d')) = [7, 8]" by auto
  from changes_committed_in_order [where m = "sql_create_object sample_lib sample_folder"
      and c = sample_folder and lib = sample_lib and p = sample_patch and dl = sample_delete
      and cc = "sample_commit ''1''", OF _ d'(1)] d'
  show ?thesis by (auto simp: object_mutations_def)
qed

end
