(* ===== verification/BlobSuite.thy ===== *)
theory BlobSuite
  imports BlobMem StrTrim
begin

text \<open>
  The conformance suite of the blob port, \<open>anystore-testkit/src/conformance/blobstore.rs\<close>, over any
  blob store and any client that uploads to it, and its run on the store in memory with the
  client of \<open>anystore-testkit/tests/conformance.rs\<close>. The id that \<open>unique_upload_id\<close> makes up is a
  function of its prefix, each of which is used once; the clock stands still.
\<close>

section \<open>The suite\<close>

record 'b uploader =
  ul_put :: "signed_request \<Rightarrow> string \<Rightarrow> ('b, unit) call"
  ul_put_part :: "signed_part \<Rightarrow> string \<Rightarrow> ('b, string) call"

record 'b blob_suite =
  bu_store :: "'b blob_store"
  bu_uploader :: "'b uploader"
  bu_unique_id :: "string \<Rightarrow> string"
  bu_now :: time

text \<open>\<open>unwrap\<close>, \<open>expect\<close> and \<open>assert!\<close>; the code of the error that \<open>unwrap_err\<close> gives.\<close>

definition blob_must :: "('b, 'a) call \<Rightarrow> ('b, 'a) call" where
  "blob_must m = call_catch m (\<lambda>_. call_panic)"

definition blob_expect :: "'a option \<Rightarrow> ('b, 'a) call" where
  "blob_expect v = (case v of None \<Rightarrow> call_panic | Some x \<Rightarrow> call_ok x)"

definition blob_assert :: "bool \<Rightarrow> ('b, unit) call" where
  "blob_assert b = (if b then call_ok () else call_panic)"

definition blob_fails_with :: "string \<Rightarrow> ('b, 'a) call \<Rightarrow> ('b, unit) call" where
  "blob_fails_with c m = call_bind (call_try m) (\<lambda>r. case r of Inl e \<Rightarrow> blob_assert (code e = c) | Inr _ \<Rightarrow> call_panic)"

definition prepare_req :: "string \<Rightarrow> upload_mode \<Rightarrow> nat \<Rightarrow> prepare_upload_req" where
  "prepare_req upload_id mode n =
     \<lparr>pu_upload_id = upload_id, pu_mode = mode, pu_expected_size = of_nat n,
      pu_content_type = ''application/octet-stream'', pu_expected_sha256 = None,
      pu_part_size = 5 * 1024 * 1024, pu_expires_in = 600 * 1000000000\<rparr>"

definition prepared :: "'b blob_suite \<Rightarrow> string \<Rightarrow> upload_mode \<Rightarrow> nat \<Rightarrow> ('b, prepared_upload) call" where
  "prepared su kind mode n =
     blob_must (bs_prepare_upload (bu_store su) (bu_now su) (prepare_req (bu_unique_id su kind) mode n))"

definition single_completion :: "blob_ref \<Rightarrow> complete_blob_upload" where
  "single_completion blob =
     \<lparr>cb_blob_ref = blob, cb_mode = Single, cb_provider_upload_id = None, cb_parts = []\<rparr>"

definition completed :: "'b blob_suite \<Rightarrow> complete_blob_upload \<Rightarrow> ('b, blob_stat) call" where
  "completed su req = blob_must (bs_ensure_upload_completed (bu_store su) req)"

definition deleted :: "'b blob_suite \<Rightarrow> blob_ref \<Rightarrow> ('b, unit) call" where
  "deleted su blob = blob_must (bs_delete_blob (bu_store su) blob)"

fun contains_text :: "string \<Rightarrow> string \<Rightarrow> bool" where
  "contains_text w [] = (w = [])"
| "contains_text w (x # xs) = (starts_with w (x # xs) \<or> contains_text w xs)"

definition blob_refs_are_derived_and_opaque :: "'b blob_suite \<Rightarrow> ('b, unit) call" where
  "blob_refs_are_derived_and_opaque su =
     (let a = bs_blob_ref_for (bu_store su) ''upload_01''; b = bs_blob_ref_for (bu_store su) ''upload_01'' in
      call_then (blob_assert (a = b))
      (call_then (blob_assert (a \<noteq> bs_blob_ref_for (bu_store su) ''upload_02''))
      (blob_assert (\<not> contains_text ''example.pdf'' a))))"

definition single_upload_round_trips :: "'b blob_suite \<Rightarrow> ('b, unit) call" where
  "single_upload_round_trips su =
     (let payload = ''hello world'' in
      call_bind (prepared su ''single'' Single (length payload)) (\<lambda>p.
      call_then (blob_assert (pd_mode p = Single))
      (call_bind (blob_expect (pd_single p)) (\<lambda>request.
      call_then (blob_assert (sq_method request = ''PUT''))
      (call_then (blob_fails_with ''content_not_ready''
         (bs_ensure_upload_completed (bu_store su) (single_completion (pd_blob_ref p))))
      (call_then (ul_put (bu_uploader su) request payload)
      (call_bind (completed su (single_completion (pd_blob_ref p))) (\<lambda>stat.
      call_then (blob_assert (bst_size stat = of_nat (length payload)))
      (call_bind (blob_must (bs_stat (bu_store su) (pd_blob_ref p))) (\<lambda>restated.
      call_then (blob_assert (bst_size restated = bst_size stat))
        (deleted su (pd_blob_ref p))))))))))))"

text \<open>The case on two parts, of any contents.\<close>

definition multipart_case :: "'b blob_suite \<Rightarrow> string \<Rightarrow> string \<Rightarrow> ('b, unit) call" where
  "multipart_case su first second =
     (let total = length first + length second in
      call_bind (prepared su ''multi'' Multipart total) (\<lambda>p.
      call_then (blob_assert (pd_mode p = Multipart))
      (call_then (blob_assert (pd_part_size p \<noteq> None))
      (call_bind (blob_expect (pd_provider_upload_id p)) (\<lambda>provider_upload_id.
      call_bind (blob_must (bs_sign_parts (bu_store su) (bu_now su)
          \<lparr>sp_blob_ref = pd_blob_ref p, sp_provider_upload_id = provider_upload_id,
           sp_part_numbers = [1, 2], sp_expires_in = 600 * 1000000000\<rparr>)) (\<lambda>parts.
      call_then (blob_assert (length parts = 2))
      (call_then (blob_assert (sg_method (parts ! 0) = ''PUT''))
      (call_bind (ul_put_part (bu_uploader su) (parts ! 0) first) (\<lambda>first_etag.
      call_bind (ul_put_part (bu_uploader su) (parts ! 1) second) (\<lambda>second_etag.
      let completion = \<lparr>cb_blob_ref = pd_blob_ref p, cb_mode = Multipart,
            cb_provider_upload_id = Some provider_upload_id,
            cb_parts = [\<lparr>cpt_part_number = 1, cpt_etag = first_etag\<rparr>,
                        \<lparr>cpt_part_number = 2, cpt_etag = second_etag\<rparr>]\<rparr> in
      call_bind (completed su completion) (\<lambda>stat.
      call_then (blob_assert (bst_size stat = of_nat total))
      (call_bind (completed su completion) (\<lambda>again.
      call_then (blob_assert (bst_size again = of_nat total))
        (deleted su (pd_blob_ref p)))))))))))))))"

definition multipart_upload_round_trips :: "'b blob_suite \<Rightarrow> ('b, unit) call" where
  "multipart_upload_round_trips su =
     multipart_case su (replicate (5 * 1024 * 1024) (CHR ''A'')) (replicate 512 (CHR ''B''))"

definition zero_byte_objects_are_supported :: "'b blob_suite \<Rightarrow> ('b, unit) call" where
  "zero_byte_objects_are_supported su =
     call_bind (prepared su ''empty'' Single 0) (\<lambda>p.
     call_bind (blob_expect (pd_single p)) (\<lambda>request.
     call_then (ul_put (bu_uploader su) request [])
     (call_bind (completed su (single_completion (pd_blob_ref p))) (\<lambda>stat.
     call_then (blob_assert (bst_size stat = 0))
       (deleted su (pd_blob_ref p))))))"

fun check_downloads :: "'b blob_suite \<Rightarrow> blob_ref \<Rightarrow> string list \<Rightarrow> ('b, unit) call" where
  "check_downloads su blob [] = call_ok ()"
| "check_downloads su blob (filename # rest) =
     call_bind (blob_must (bs_sign_download (bu_store su) (bu_now su) blob filename (600 * 1000000000))) (\<lambda>signed.
     call_then (blob_assert (sd_url signed \<noteq> []))
     (call_then (blob_assert (bu_now su < sd_expires_at signed))
       (check_downloads su blob rest)))"

text \<open>The second file name begins with the two characters \<open>U+62A5\<close> and \<open>U+544A\<close>, in UTF-8.\<close>

definition downloads_are_signed_with_the_current_name :: "'b blob_suite \<Rightarrow> ('b, unit) call" where
  "downloads_are_signed_with_the_current_name su =
     call_bind (prepared su ''download'' Single 2) (\<lambda>p.
     call_bind (blob_expect (pd_single p)) (\<lambda>request.
     call_then (ul_put (bu_uploader su) request ''hi'')
     (call_then (completed su (single_completion (pd_blob_ref p)))
     (call_then (check_downloads su (pd_blob_ref p)
        [''plain.txt'',
         [CHR 0xE6, CHR 0x8A, CHR 0xA5, CHR 0xE5, CHR 0x91, CHR 0x8A] @ '' 2026.pdf'',
         ''quote'' @ [CHR 0x22] @ ''name.txt''])
       (deleted su (pd_blob_ref p))))))"

definition aborting_and_deleting_are_idempotent :: "'b blob_suite \<Rightarrow> ('b, unit) call" where
  "aborting_and_deleting_are_idempotent su =
     call_bind (prepared su ''abort'' Multipart 10) (\<lambda>p.
     let abort = \<lparr>ab_blob_ref = pd_blob_ref p, ab_mode = Multipart,
                  ab_provider_upload_id = pd_provider_upload_id p\<rparr> in
     call_then (blob_must (bs_abort_upload (bu_store su) abort))
     (call_then (blob_must (bs_abort_upload (bu_store su) abort))
     (call_then (deleted su ''blobs/never-existed'') (deleted su ''blobs/never-existed''))))"

definition missing_blobs_report_content_not_ready :: "'b blob_suite \<Rightarrow> ('b, unit) call" where
  "missing_blobs_report_content_not_ready su =
     blob_fails_with ''content_not_ready'' (bs_stat (bu_store su) ''blobs/absent'')"

definition blob_run_all :: "'b blob_suite \<Rightarrow> ('b, unit) call" where
  "blob_run_all su =
     call_then (blob_refs_are_derived_and_opaque su)
     (call_then (single_upload_round_trips su)
     (call_then (multipart_upload_round_trips su)
     (call_then (zero_byte_objects_are_supported su)
     (call_then (downloads_are_signed_with_the_current_name su)
     (call_then (aborting_and_deleting_are_idempotent su)
     (missing_blobs_report_content_not_ready su))))))"

section \<open>The client of the store in memory\<close>

fun before_text :: "string \<Rightarrow> string \<Rightarrow> string" where
  "before_text w [] = []"
| "before_text w (x # xs) = (if starts_with w (x # xs) then [] else x # before_text w xs)"

fun after_last_text :: "string \<Rightarrow> string \<Rightarrow> string option" where
  "after_last_text w [] = None"
| "after_last_text w (x # xs) =
     (case after_last_text w xs of
        Some rest \<Rightarrow> Some rest
      | None \<Rightarrow> if starts_with w (x # xs) then Some (drop (length w) (x # xs)) else None)"

definition blob_from_url :: "string \<Rightarrow> blob_ref" where
  "blob_from_url url = before_text ''/parts/'' (before_text ''?'' (trim_start_str ''memory://'' url))"

definition part_number_from_url :: "string \<Rightarrow> 32 word" where
  "part_number_from_url url =
     (case parse_unsigned (2 ^ 32) (case after_last_text ''/parts/'' url of None \<Rightarrow> url | Some n \<Rightarrow> n) of
        None \<Rightarrow> 1
      | Some n \<Rightarrow> of_nat n)"

definition memory_uploader :: "blob_state uploader" where
  "memory_uploader =
     \<lparr>ul_put = (\<lambda>request bytes s. Some (Ok (), blob_put (blob_from_url (sq_url request)) bytes s)),
      ul_put_part = (\<lambda>part bytes s.
        Some (Ok (''memory-etag-'' @ dec_nat (unat (sg_part_number part))),
              blob_put_part (blob_from_url (sg_url part)) (part_number_from_url (sg_url part)) bytes s))\<rparr>"

definition mem_blob_suite :: "(string \<Rightarrow> string) \<Rightarrow> blob_state blob_suite" where
  "mem_blob_suite digest =
     \<lparr>bu_store = mem_blob_store digest, bu_uploader = memory_uploader,
      bu_unique_id = (\<lambda>kind. kind @ ''_1_0''), bu_now = 0\<rparr>"

section \<open>Its run\<close>

lemma urls_parsed:
  "blob_from_url ''memory://blobs/single_1_0'' = ''blobs/single_1_0''"
  "blob_from_url ''memory://blobs/empty_1_0'' = ''blobs/empty_1_0''"
  "blob_from_url ''memory://blobs/download_1_0'' = ''blobs/download_1_0''"
  "blob_from_url ''memory://blobs/multi_1_0/parts/1'' = ''blobs/multi_1_0''"
  "blob_from_url ''memory://blobs/multi_1_0/parts/2'' = ''blobs/multi_1_0''"
  by code_simp+

lemma dec_one_two: "dec_nat 1 = ''1''" "dec_nat (Suc 0) = ''1''" "dec_nat 2 = ''2''"
  by code_simp+

lemma part_numbers_parsed:
  "part_number_from_url ''memory://blobs/multi_1_0/parts/1'' = 1"
  "part_number_from_url ''memory://blobs/multi_1_0/parts/2'' = 2"
proof -
  have "after_last_text ''/parts/'' ''memory://blobs/multi_1_0/parts/1'' = Some ''1''"
    "after_last_text ''/parts/'' ''memory://blobs/multi_1_0/parts/2'' = Some ''2''" by code_simp+
  moreover have "parse_unsigned (2 ^ 32) ''1'' = Some 1" "parse_unsigned (2 ^ 32) ''2'' = Some 2"
    using parse_unsigned_dec_nat [of 1 "2 ^ 32"] parse_unsigned_dec_nat [of 2 "2 ^ 32"] dec_one_two by simp_all
  ultimately show "part_number_from_url ''memory://blobs/multi_1_0/parts/1'' = 1"
    "part_number_from_url ''memory://blobs/multi_1_0/parts/2'' = 2"
    by (simp_all add: part_number_from_url_def)
qed

lemmas mem_blob_suite_simps =
  call_bind_def call_then_def call_catch_def call_try_def call_ok_def call_panic_def call_of_def call_read_def
  mem_blob_suite_def mem_blob_store_def memory_uploader_def prepared_def prepare_req_def completed_def
  deleted_def single_completion_def blob_must_def blob_expect_def blob_assert_def blob_fails_with_def
  mem_blob_ref_for_def mem_prepare_upload_def mem_ensure_upload_completed_def mem_delete_blob_def
  mem_stat_def mem_abort_upload_def mem_sign_parts_def mem_sign_download_def stat_of_def
  blob_put_def blob_put_part_def blob_state_new_def urls_parsed part_numbers_parsed dec_one_two Let_def

text \<open>What the store holds in the end: the upload id of the provider for the multipart upload.\<close>

definition multi_left :: blob_state where
  "multi_left = \<lparr>mb_blobs = [], mb_parts = [], mb_multipart = [(''blobs/multi_1_0'', ''mpu_multi_1_0'')]\<rparr>"

lemma single_passes:
  "single_upload_round_trips (mem_blob_suite digest) blob_state_new = Some (Ok (), blob_state_new)"
  by (simp add: single_upload_round_trips_def mem_blob_suite_simps)

lemma multipart_passes:
  "multipart_case (mem_blob_suite digest) first second blob_state_new = Some (Ok (), multi_left)"
  by (simp add: multipart_case_def multi_left_def mem_blob_suite_simps)

lemma zero_byte_passes:
  "zero_byte_objects_are_supported (mem_blob_suite digest) multi_left = Some (Ok (), multi_left)"
  by (simp add: zero_byte_objects_are_supported_def multi_left_def mem_blob_suite_simps)

lemma downloads_pass:
  "downloads_are_signed_with_the_current_name (mem_blob_suite digest) multi_left = Some (Ok (), multi_left)"
  by (simp add: downloads_are_signed_with_the_current_name_def multi_left_def mem_blob_suite_simps)

lemma aborting_passes:
  "aborting_and_deleting_are_idempotent (mem_blob_suite digest) multi_left = Some (Ok (), multi_left)"
  by (simp add: aborting_and_deleting_are_idempotent_def multi_left_def mem_blob_suite_simps)

lemma refs_pass:
  "blob_refs_are_derived_and_opaque (mem_blob_suite digest) s = Some (Ok (), s)"
  "missing_blobs_report_content_not_ready (mem_blob_suite digest) multi_left = Some (Ok (), multi_left)"
  by (simp_all add: blob_refs_are_derived_and_opaque_def missing_blobs_report_content_not_ready_def
      starts_with_def multi_left_def mem_blob_suite_simps)

lemma mem_blob_store_conforms:
  "blob_run_all (mem_blob_suite digest) blob_state_new = Some (Ok (), multi_left)"
  unfolding blob_run_all_def multipart_upload_round_trips_def
  by (simp add: call_then_def call_bind_def refs_pass single_passes multipart_passes zero_byte_passes
      downloads_pass aborting_passes)

end
