(* ===== verification/Conformance.thy ===== *)
theory Conformance
  imports MemStore SqlAtomic BlobSuite "HOL-Library.Code_Target_Numeral"
begin

text \<open>
  The conformance suite of the metastore port, \<open>anystore-testkit/src/conformance/metastore.rs\<close>: each
  case is a program over any store, and a failed assertion is a panic. The wall clock and the
  ULIDs are functions of the number of readings and draws so far. Two futures that are polled
  together run one after the other, which is the schedule in which no poll finds its store busy.
\<close>

section \<open>The bench\<close>

record 'm suite =
  su_store :: "'m meta_store"
  su_clock :: "nat \<Rightarrow> time"
  su_ulid :: "nat \<Rightarrow> string"
  su_to_vec :: "json \<Rightarrow> string"

record 'm bench =
  bn_store :: 'm
  bn_drawn :: nat

definition in_seconds :: "int \<Rightarrow> time" where
  "in_seconds n = n * 1000000000"

definition in_hours :: "int \<Rightarrow> time" where
  "in_hours n = in_seconds (n * 3600)"

definition in_days :: "int \<Rightarrow> time" where
  "in_days n = in_hours (n * 24)"

definition drawing :: "(nat \<Rightarrow> 'a) \<Rightarrow> ('m bench, 'a) call" where
  "drawing f b = Some (Ok (f (bn_drawn b)), b\<lparr>bn_drawn := Suc (bn_drawn b)\<rparr>)"

abbreviation utc_now :: "'m suite \<Rightarrow> ('m bench, time) call" where
  "utc_now cf \<equiv> drawing (su_clock cf)"

abbreviation new_ulid :: "'m suite \<Rightarrow> ('m bench, string) call" where
  "new_ulid cf \<equiv> drawing (su_ulid cf)"

definition on_store :: "('m, 'a) call \<Rightarrow> ('m bench, 'a) call" where
  "on_store m b = map_option (\<lambda>(r, s). (r, b\<lparr>bn_store := s\<rparr>)) (m (bn_store b))"

text \<open>\<open>unwrap\<close> and \<open>unwrap_err\<close> of a result, \<open>unwrap\<close> of an option, and \<open>assert!\<close>.\<close>

definition must :: "('m bench, 'a) call \<Rightarrow> ('m bench, 'a) call" where
  "must m = call_catch m (\<lambda>_. call_panic)"

definition must_fail :: "('m bench, 'a) call \<Rightarrow> ('m bench, domain_error) call" where
  "must_fail m = call_bind (call_try m) (\<lambda>r. case r of Inl e \<Rightarrow> call_ok e | Inr _ \<Rightarrow> call_panic)"

definition present :: "'a option \<Rightarrow> ('m bench, 'a) call" where
  "present v = (case v of None \<Rightarrow> call_panic | Some x \<Rightarrow> call_ok x)"

definition assert_that :: "bool \<Rightarrow> ('m bench, unit) call" where
  "assert_that b = (if b then call_ok () else call_panic)"

abbreviation stored :: "('m, 'a) call \<Rightarrow> ('m bench, 'a) call" where
  "stored m \<equiv> must (on_store m)"

section \<open>Helpers of the suite\<close>

definition renderer :: "(json \<Rightarrow> string) \<Rightarrow> nat \<Rightarrow> response_renderer" where
  "renderer to_vec st outcome =
     Ok (stored_response_json st
       (case mo_object outcome of
          Some view \<Rightarrow> to_vec (JObject
            [(''id'', JString (o_id (ov_object view))),
             (''revision'', JNumber (PosInt (o_revision (ov_object view)))),
             (''name'', JString (o_name (ov_object view))), (''path'', JString (ov_path view)),
             (''metadata'', o_metadata (ov_object view))])
        | None \<Rightarrow> []))"

definition no_content_renderer :: response_renderer where
  "no_content_renderer outcome = Ok no_content"

definition test_context ::
  "'m suite \<Rightarrow> string option \<Rightarrow> ('m bench, mutation_context \<times> idempotency_context option) call" where
  "test_context cf key =
     call_bind (utc_now cf) (\<lambda>now.
     call_bind (new_ulid cf) (\<lambda>ulid.
       let ictx = map_option (\<lambda>k.
             \<lparr>ic_principal_id = local_principal, ic_operation = ''TEST'', ic_key = k,
              ic_request_hash = ''hash-of-'' @ k, ic_owner_token = ''owner-'' @ k,
              ic_resource_token = dec_int (timestamp_micros now)\<rparr>) key
       in call_ok
         (\<lparr>mc_now = now, mc_request_id = generate_request_id ulid, mc_idempotency_key = key,
           mc_idempotency = ictx, mc_idempotency_expires_at = now + in_hours 24,
           mc_render = renderer (su_to_vec cf) 200\<rparr>, ictx)))"

definition acquire_at ::
  "'m suite \<Rightarrow> idempotency_context \<Rightarrow> time \<Rightarrow> time \<Rightarrow> time \<Rightarrow> ('m bench, idempotency_decision) call" where
  "acquire_at cf ictx now lease_until expires_at =
     stored (ms_acquire (su_store cf)
       \<lparr>ia_context = ictx, ia_now = now, ia_lease_until = lease_until, ia_expires_at = expires_at\<rparr>)"

definition claim_key :: "'m suite \<Rightarrow> idempotency_context option \<Rightarrow> ('m bench, unit) call" where
  "claim_key cf ictx =
     (case ictx of
        None \<Rightarrow> call_ok ()
      | Some ictx \<Rightarrow>
          call_bind (utc_now cf) (\<lambda>now.
          call_bind (acquire_at cf ictx now (now + in_seconds 30) (now + in_hours 24)) (\<lambda>decision.
            assert_that (case decision of Owner _ \<Rightarrow> True | _ \<Rightarrow> False))))"

text \<open>A context of its own for a mutation, its key claimed as the application layer does.\<close>

definition claimed_context :: "'m suite \<Rightarrow> string option \<Rightarrow> ('m bench, mutation_context) call" where
  "claimed_context cf key =
     call_bind (test_context cf key) (\<lambda>(ctx, ictx). call_then (claim_key cf ictx) (call_ok ctx))"

definition create_folder ::
  "'m suite \<Rightarrow> string \<Rightarrow> object_id \<Rightarrow> string option \<Rightarrow> ('m bench, object_id \<times> stored_response) call" where
  "create_folder cf name parent key =
     call_bind (new_ulid cf) (\<lambda>ulid.
     call_bind (claimed_context cf key) (\<lambda>ctx.
     call_bind (on_store (ms_create_object (su_store cf)
         \<lparr>co_id = generate_object_id ulid, co_kind = Folder, co_name = name, co_parent_id = parent,
          co_content_type = None, co_metadata = JObject [],
          co_ctx = ctx\<lparr>mc_render := renderer (su_to_vec cf) 201\<rparr>\<rparr>)) (\<lambda>response.
       call_ok (generate_object_id ulid, response))))"

definition create_file :: "'m suite \<Rightarrow> string \<Rightarrow> object_id \<Rightarrow> json \<Rightarrow> ('m bench, object_id) call" where
  "create_file cf name parent metadata =
     call_bind (new_ulid cf) (\<lambda>ulid.
     call_bind (claimed_context cf None) (\<lambda>ctx.
     call_then (on_store (ms_create_object (su_store cf)
         \<lparr>co_id = generate_object_id ulid, co_kind = File, co_name = name, co_parent_id = parent,
          co_content_type = Some ''text/plain'', co_metadata = metadata,
          co_ctx = ctx\<lparr>mc_render := renderer (su_to_vec cf) 201\<rparr>\<rparr>))
       (call_ok (generate_object_id ulid))))"

definition create_ready_upload ::
  "'m suite \<Rightarrow> object_id \<Rightarrow> string \<Rightarrow> time \<Rightarrow> ('m bench, upload_id) call" where
  "create_ready_upload cf object_id blob_ref expires_at =
     call_bind (new_ulid cf) (\<lambda>ulid.
     call_bind (utc_now cf) (\<lambda>now.
     call_bind (stored (ms_create_upload_record (su_store cf)
         \<lparr>cu_id = generate_upload_id ulid, cu_object_id = object_id, cu_mode = Single,
          cu_blob_backend = ''test'', cu_blob_ref = blob_ref, cu_expected_size = 11,
          cu_content_type = ''text/plain'', cu_expected_sha256 = Some (replicate 64 (CHR ''a'')),
          cu_created_at = now, cu_expires_at = expires_at\<rparr>)) (\<lambda>created.
     call_then (assert_that (cur_created created))
     (call_then (stored (ms_update_upload_state (su_store cf)
         \<lparr>uu_id = generate_upload_id ulid, uu_state = UsReady, uu_provider_upload_id = None,
          uu_provider_completed = None\<rparr>))
       (call_ok (generate_upload_id ulid))))))"

definition viewed :: "'m suite \<Rightarrow> object_id \<Rightarrow> ('m bench, object_view) call" where
  "viewed cf i = call_bind (stored (ms_get_object (su_store cf) i)) present"

definition revision_of :: "'m suite \<Rightarrow> object_id \<Rightarrow> ('m bench, revision) call" where
  "revision_of cf i = call_bind (viewed cf i) (\<lambda>view. call_ok (o_revision (ov_object view)))"

definition read_page ::
  "'m suite \<Rightarrow> cursor_id option \<Rightarrow> 32 word \<Rightarrow> time \<Rightarrow> time \<Rightarrow> ('m bench, change_page) call" where
  "read_page cf cursor limit now expires_at =
     call_bind (new_ulid cf) (\<lambda>ulid.
       on_store (ms_read_changes (su_store cf) ulid
         \<lparr>rc_cursor = cursor, rc_limit = limit, rc_now = now, rc_cursor_expires_at = expires_at\<rparr>))"

text \<open>The loop goes on while there is more, however long that is.\<close>

partial_function (option) more_changes ::
  "'m suite \<Rightarrow> time \<Rightarrow> change_page \<Rightarrow> change_record list \<Rightarrow> 'm bench \<Rightarrow>
   (change_record list result \<times> 'm bench) option" where
  "more_changes cf now page items b =
     (if cpg_has_more page then
        Option.bind (must (read_page cf (Some (cpg_next_cursor page)) 1000 now (now + in_days 30)) b)
          (\<lambda>(r, b'). case r of
             Inl e \<Rightarrow> Some (Err e, b')
           | Inr page' \<Rightarrow> more_changes cf now page' (items @ cpg_items page') b')
      else Some (Ok items, b))"

declare more_changes.simps [code]

definition every_change :: "'m suite \<Rightarrow> ('m bench, change_record list) call" where
  "every_change cf =
     call_bind (utc_now cf) (\<lambda>now.
     call_bind (must (read_page cf None 1000 now (now + in_days 30))) (\<lambda>page.
       more_changes cf now page (cpg_items page)))"

definition changes_of :: "'m suite \<Rightarrow> object_id \<Rightarrow> ('m bench, change_record list) call" where
  "changes_of cf i =
     call_bind (every_change cf) (\<lambda>items. call_ok (filter (\<lambda>c. c_object_id c = i) items))"

text \<open>A patch and a deletion with what the cases vary.\<close>

definition try_patch ::
  "'m suite \<Rightarrow> string option \<Rightarrow> object_id \<Rightarrow> revision option \<Rightarrow> string option \<Rightarrow> object_id option \<Rightarrow>
   json_map option \<Rightarrow> ('m bench, stored_response) call" where
  "try_patch cf key i if_match new_name new_parent set_keys =
     call_bind (claimed_context cf key) (\<lambda>ctx.
       on_store (ms_patch_object (su_store cf)
         \<lparr>po_id = i, po_if_match = if_match, po_new_name = new_name, po_new_parent_id = new_parent,
          po_metadata_patch = map_option (\<lambda>m. \<lparr>mp_set = m, mp_remove = []\<rparr>) set_keys, po_ctx = ctx\<rparr>))"

definition try_delete :: "'m suite \<Rightarrow> object_id \<Rightarrow> bool \<Rightarrow> ('m bench, stored_response) call" where
  "try_delete cf i recursive =
     call_bind (claimed_context cf None) (\<lambda>ctx.
       on_store (ms_delete_object (su_store cf)
         \<lparr>do_id = i, do_if_match = None, do_recursive = recursive,
          do_ctx = ctx\<lparr>mc_render := no_content_renderer\<rparr>\<rparr>))"

definition try_commit ::
  "'m suite \<Rightarrow> upload_id \<Rightarrow> object_id \<Rightarrow> revision option \<Rightarrow> string \<Rightarrow> string \<Rightarrow> time \<Rightarrow>
   mutation_context \<Rightarrow> ('m bench, stored_response) call" where
  "try_commit cf upload_id object_id if_match blob_ref sha256 gc_not_before ctx =
     on_store (ms_commit_content (su_store cf)
       \<lparr>cm_upload_id = upload_id, cm_object_id = object_id, cm_if_match = if_match,
        cm_blob_backend = ''test'', cm_blob_ref = blob_ref, cm_size = 11,
        cm_content_type = ''text/plain'', cm_sha256 = Some sha256, cm_gc_not_before = gc_not_before,
        cm_ctx = ctx\<rparr>)"

definition listed :: "'m suite \<Rightarrow> object_id \<Rightarrow> 32 word \<Rightarrow> string option \<Rightarrow> ('m bench, object_view page) call" where
  "listed cf parent limit cursor =
     stored (ms_list_children (su_store cf)
       \<lparr>lc_parent_id = parent, lc_limit = limit, lc_cursor = cursor, lc_order_by = ByName, lc_order = Asc\<rparr>)"

definition queried ::
  "'m suite \<Rightarrow> object_kind option \<Rightarrow> (string \<times> metadata_condition) list \<Rightarrow> ('m bench, object_view page) call" where
  "queried cf kind conditions =
     stored (ms_query_objects (su_store cf)
       \<lparr>oq_kind = kind, oq_name = None, oq_parent_id = None, oq_metadata = conditions, oq_limit = 100,
        oq_cursor = None\<rparr>)"

section \<open>The cases\<close>

definition new_objects_start_at_revision_one :: "'m suite \<Rightarrow> ('m bench, unit) call" where
  "new_objects_start_at_revision_one cf =
     call_bind (must (create_folder cf ''a'' ROOT_ID None)) (\<lambda>(i, _).
     call_bind (revision_of cf i) (\<lambda>revision.
     call_then (assert_that (revision = INITIAL))
     (call_bind (changes_of cf i) (\<lambda>chs.
       assert_that (length chs = 1 \<and> c_action (chs ! 0) = Created)))))"

definition live_parent_and_name_are_unique :: "'m suite \<Rightarrow> ('m bench, unit) call" where
  "live_parent_and_name_are_unique cf =
     call_then (must (create_folder cf ''dup'' ROOT_ID None))
     (call_bind (must_fail (create_folder cf ''dup'' ROOT_ID None)) (\<lambda>e.
       assert_that (code e = ''name_conflict'')))"

definition deleted_names_can_be_reused :: "'m suite \<Rightarrow> ('m bench, unit) call" where
  "deleted_names_can_be_reused cf =
     call_bind (must (create_folder cf ''reuse'' ROOT_ID None)) (\<lambda>(i, _).
     call_then (must (try_delete cf i False))
     (call_then (must (create_folder cf ''reuse'' ROOT_ID None)) (call_ok ())))"

definition json_int :: "64 word \<Rightarrow> json" where
  "json_int n = JNumber (PosInt n)"

text \<open>Indexing a document with a key.\<close>

definition json_index :: "json \<Rightarrow> string \<Rightarrow> json" where
  "json_index v k = (case json_get v k of None \<Rightarrow> JNull | Some x \<Rightarrow> x)"

definition stale_if_match_never_overwrites :: "'m suite \<Rightarrow> ('m bench, unit) call" where
  "stale_if_match_never_overwrites cf =
     call_bind (must (create_file cf ''f.txt'' ROOT_ID (JObject [(''v'', json_int 1)]))) (\<lambda>i.
     call_bind (revision_of cf i) (\<lambda>original.
     call_then (must (try_patch cf None i (Some original) None None (Some [(''v'', json_int 2)])))
     (call_bind (revision_of cf i) (\<lambda>updated.
     call_then (assert_that (updated = original + 1))
     (call_bind (changes_of cf i) (\<lambda>earlier.
     call_bind (must_fail (try_patch cf None i (Some original) None None (Some [(''v'', json_int 3)]))) (\<lambda>e.
     call_then (assert_that (code e = ''revision_conflict''))
     (call_bind (revision_of cf i) (\<lambda>revision.
     call_then (assert_that (revision = updated))
     (call_bind (changes_of cf i) (\<lambda>after.
     call_then (assert_that (length after = length earlier))
     (call_bind (viewed cf i) (\<lambda>view.
       assert_that (json_eq (json_index (o_metadata (ov_object view)) ''v'') (json_int 2)))))))))))))))"

definition concurrent_conditional_updates_admit_one_winner :: "'m suite \<Rightarrow> ('m bench, unit) call" where
  "concurrent_conditional_updates_admit_one_winner cf =
     call_bind (must (create_file cf ''race.txt'' ROOT_ID (JObject []))) (\<lambda>i.
     call_bind (revision_of cf i) (\<lambda>revision.
     call_bind (call_try (try_patch cf None i (Some revision) None None (Some [(''winner'', json_int 1)]))) (\<lambda>first.
     call_bind (call_try (try_patch cf None i (Some revision) None None (Some [(''winner'', json_int 2)]))) (\<lambda>second.
     call_then (assert_that (length (filter (\<lambda>ok. ok) [\<not> isl first, \<not> isl second]) = 1))
     (call_bind (revision_of cf i) (\<lambda>updated. assert_that (updated = revision + 1)))))))"

definition one_patch_emits_ordered_changes_at_one_revision :: "'m suite \<Rightarrow> ('m bench, unit) call" where
  "one_patch_emits_ordered_changes_at_one_revision cf =
     call_bind (must (create_folder cf ''dest'' ROOT_ID None)) (\<lambda>(destination, _).
     call_bind (must (create_file cf ''before.txt'' ROOT_ID (JObject []))) (\<lambda>i.
     call_bind (revision_of cf i) (\<lambda>revision.
     call_then (must (try_patch cf (Some ''combined'') i (Some revision) (Some ''after.txt'')
         (Some destination) (Some [(''k'', JBool True)])))
     (call_bind (revision_of cf i) (\<lambda>new_revision.
     call_then (assert_that (new_revision = revision + 1))
     (call_bind (changes_of cf i) (\<lambda>records.
       let mutation = filter (\<lambda>c. c_action c \<noteq> Created) records in
       call_then (assert_that (map c_action mutation = [Renamed, Moved, MetadataUpdated]))
       (call_then (assert_that (list_all (\<lambda>c. c_revision c = new_revision) mutation))
       (assert_that (length (remdups (map c_request_id mutation)) = 1))))))))))"

definition no_op_patch_changes_nothing :: "'m suite \<Rightarrow> ('m bench, unit) call" where
  "no_op_patch_changes_nothing cf =
     call_bind (must (create_file cf ''same.txt'' ROOT_ID (JObject [(''a'', json_int 1)]))) (\<lambda>i.
     call_bind (revision_of cf i) (\<lambda>revision.
     call_bind (changes_of cf i) (\<lambda>earlier.
     call_then (must (try_patch cf None i (Some revision) (Some ''same.txt'') (Some ROOT_ID)
         (Some [(''a'', json_int 1)])))
     (call_bind (revision_of cf i) (\<lambda>now_revision.
     call_then (assert_that (now_revision = revision))
     (call_bind (changes_of cf i) (\<lambda>after. assert_that (length after = length earlier))))))))"

definition refused_move :: "'m suite \<Rightarrow> object_id \<Rightarrow> object_id \<Rightarrow> ('m bench, unit) call" where
  "refused_move cf a destination =
     call_bind (changes_of cf a) (\<lambda>earlier.
     call_bind (revision_of cf a) (\<lambda>revision.
     call_bind (must_fail (try_patch cf None a None None (Some destination) None)) (\<lambda>e.
     call_then (assert_that (code e = ''invalid_move''))
     (call_bind (revision_of cf a) (\<lambda>now_revision.
     call_then (assert_that (now_revision = revision))
     (call_bind (changes_of cf a) (\<lambda>after. assert_that (length after = length earlier))))))))"

definition folders_cannot_move_into_themselves :: "'m suite \<Rightarrow> ('m bench, unit) call" where
  "folders_cannot_move_into_themselves cf =
     call_bind (must (create_folder cf ''a'' ROOT_ID None)) (\<lambda>(a, _).
     call_bind (must (create_folder cf ''b'' a None)) (\<lambda>(b, _).
     call_then (refused_move cf a a) (refused_move cf a b)))"

definition moving_a_folder_does_not_rewrite_descendants :: "'m suite \<Rightarrow> ('m bench, unit) call" where
  "moving_a_folder_does_not_rewrite_descendants cf =
     call_bind (must (create_folder cf ''parent'' ROOT_ID None)) (\<lambda>(parent, _).
     call_bind (must (create_folder cf ''child'' parent None)) (\<lambda>(child, _).
     call_bind (must (create_file cf ''leaf.txt'' child (JObject []))) (\<lambda>leaf.
     call_bind (must (create_folder cf ''dest'' ROOT_ID None)) (\<lambda>(destination, _).
     call_bind (revision_of cf leaf) (\<lambda>leaf_revision.
     call_bind (revision_of cf child) (\<lambda>child_revision.
     call_then (must (try_patch cf None parent None None (Some destination) None))
     (call_bind (revision_of cf leaf) (\<lambda>leaf_after.
     call_then (assert_that (leaf_after = leaf_revision))
     (call_bind (revision_of cf child) (\<lambda>child_after.
     call_then (assert_that (child_after = child_revision))
     (call_bind (viewed cf leaf) (\<lambda>view.
       assert_that (ov_path view = ''/dest/parent/child/leaf.txt'' \<and> o_id (ov_object view) = leaf)))))))))))))"

fun revisions_of :: "'m suite \<Rightarrow> object_id list \<Rightarrow> ('m bench, revision list) call" where
  "revisions_of cf [] = call_ok []"
| "revisions_of cf (i # is) =
     call_bind (revision_of cf i) (\<lambda>r. call_bind (revisions_of cf is) (\<lambda>rs. call_ok (r # rs)))"

fun check_tombstones :: "'m suite \<Rightarrow> (object_id \<times> revision) list \<Rightarrow> ('m bench, unit) call" where
  "check_tombstones cf [] = call_ok ()"
| "check_tombstones cf ((i, earlier) # rest) =
     call_bind (stored (ms_get_object (su_store cf) i)) (\<lambda>view.
     call_then (assert_that (view = None))
     (call_bind (changes_of cf i) (\<lambda>chs.
       let tombstones = filter (\<lambda>c. c_action c = Deleted) chs in
       call_then (assert_that (length tombstones = 1))
       (call_then (assert_that (c_tombstone (tombstones ! 0)))
       (call_then (assert_that (c_revision (tombstones ! 0) = earlier + 1)) (check_tombstones cf rest))))))"

definition recursive_delete_tombstones_every_descendant :: "'m suite \<Rightarrow> ('m bench, unit) call" where
  "recursive_delete_tombstones_every_descendant cf =
     call_bind (must (create_folder cf ''tree'' ROOT_ID None)) (\<lambda>(root, _).
     call_bind (must (create_folder cf ''mid'' root None)) (\<lambda>(mid, _).
     call_bind (must (create_file cf ''leaf.txt'' mid (JObject []))) (\<lambda>leaf.
     call_bind (must_fail (try_delete cf root False)) (\<lambda>e.
     call_then (assert_that (code e = ''folder_not_empty''))
     (call_bind (revisions_of cf [root, mid, leaf]) (\<lambda>previous.
     call_then (must (try_delete cf root True))
       (check_tombstones cf (zip [root, mid, leaf] previous))))))))"

definition idempotent_replay_returns_the_original_response :: "'m suite \<Rightarrow> ('m bench, unit) call" where
  "idempotent_replay_returns_the_original_response cf =
     call_bind (must (create_folder cf ''once'' ROOT_ID (Some ''k1''))) (\<lambda>(_, first).
     call_bind (test_context cf (Some ''k1'')) (\<lambda>(_, ictx).
     call_bind (present ictx) (\<lambda>ictx.
     call_bind (utc_now cf) (\<lambda>now.
     call_bind (acquire_at cf ictx now (now + in_seconds 30) (now + in_hours 24)) (\<lambda>decision.
     call_then (assert_that (case decision of Replay replayed \<Rightarrow> replayed = first | _ \<Rightarrow> False))
     (call_bind (acquire_at cf (ictx\<lparr>ic_request_hash := ''another-hash''\<rparr>) now (now + in_seconds 30)
         (now + in_hours 24)) (\<lambda>decision.
       assert_that (case decision of Conflict \<Rightarrow> True | _ \<Rightarrow> False))))))))"

fun create_folders :: "'m suite \<Rightarrow> string list \<Rightarrow> ('m bench, unit) call" where
  "create_folders cf [] = call_ok ()"
| "create_folders cf (name # names) =
     call_then (must (create_folder cf name ROOT_ID None)) (create_folders cf names)"

definition read_with :: "'m suite \<Rightarrow> cursor_id option \<Rightarrow> 32 word \<Rightarrow> ('m bench, change_page) call" where
  "read_with cf cursor limit =
     call_bind (utc_now cf) (\<lambda>now.
     call_bind (utc_now cf) (\<lambda>later.
       must (read_page cf cursor limit now (later + in_days 30))))"

definition page_ids :: "change_page \<Rightarrow> string list" where
  "page_ids page = map c_change_id (cpg_items page)"

definition changes_cursor_pages_are_stable :: "'m suite \<Rightarrow> ('m bench, unit) call" where
  "changes_cursor_pages_are_stable cf =
     call_then (create_folders cf (map (\<lambda>k. ''f'' @ dec_nat k) [0..<5]))
     (call_bind (read_with cf None 100) (\<lambda>initial.
     call_then (assert_that (cpg_next_cursor initial \<noteq> []))
     (call_bind (read_with cf (Some (cpg_next_cursor initial)) 2) (\<lambda>first.
     call_then (must (create_folder cf ''later'' ROOT_ID None))
     (call_bind (read_with cf (Some (cpg_next_cursor initial)) 2) (\<lambda>repeated.
     call_then (assert_that (page_ids first = page_ids repeated))
     (call_then (assert_that (cpg_next_cursor first = cpg_next_cursor repeated))
     (call_then (assert_that (cpg_has_more first = cpg_has_more repeated))
     (call_bind (read_with cf (Some (cpg_next_cursor first)) 2) (\<lambda>continuation.
       assert_that (list_all (\<lambda>c. c_change_id c \<notin> set (page_ids first)) (cpg_items continuation))))))))))))"

definition changes_are_globally_ordered_and_monotonic :: "'m suite \<Rightarrow> ('m bench, unit) call" where
  "changes_are_globally_ordered_and_monotonic cf =
     call_then (create_folders cf (map (\<lambda>k. ''o'' @ dec_nat k) [0..<4]))
     (call_bind (every_change cf) (\<lambda>chs.
       let ids = map c_change_id chs in
       call_then (assert_that (ids = sort ids)) (assert_that (length (remdups ids) = length ids))))"

definition unknown_cursor_is_reported_as_expired :: "'m suite \<Rightarrow> ('m bench, unit) call" where
  "unknown_cursor_is_reported_as_expired cf =
     call_bind (utc_now cf) (\<lambda>now.
     call_bind (must_fail (read_page cf (Some (''chgcur_'' @ replicate 26 (CHR ''0''))) 10 now (now + in_days 30))) (\<lambda>e.
       assert_that (code e = ''changes_cursor_expired'')))"

definition metadata_eq_and_exists_filter_correctly :: "'m suite \<Rightarrow> ('m bench, unit) call" where
  "metadata_eq_and_exists_filter_correctly cf =
     call_bind (must (create_file cf ''match.txt'' ROOT_ID
         (JObject [(''team'', JString ''core''), (''year'', json_int 2026)]))) (\<lambda>matching.
     call_then (must (create_file cf ''other.txt'' ROOT_ID (JObject [(''team'', JString ''ops'')])))
     (call_bind (queried cf (Some File)
         [(''team'', MetaEq (JString ''core'')), (''year'', MetaExists True)]) (\<lambda>page.
     call_then (assert_that (length (pg_items page) = 1))
     (call_then (assert_that (o_id (ov_object (pg_items page ! 0)) = matching))
     (call_bind (queried cf (Some File)
         [(''team'', MetaEq (JString ''core'')), (''missing'', MetaExists True)]) (\<lambda>page.
     call_then (assert_that (pg_items page = []))
     (call_bind (queried cf (Some File) [(''year'', MetaEq (JString ''2026''))]) (\<lambda>page.
       assert_that (pg_items page = [])))))))))"

definition deleted_objects_leave_every_read_path :: "'m suite \<Rightarrow> ('m bench, unit) call" where
  "deleted_objects_leave_every_read_path cf =
     call_bind (must (create_folder cf ''vis'' ROOT_ID None)) (\<lambda>(folder, _).
     call_bind (must (create_file cf ''gone.txt'' folder (JObject [(''gone'', JBool True)]))) (\<lambda>i.
     call_then (must (try_delete cf i False))
     (call_bind (stored (ms_get_object (su_store cf) i)) (\<lambda>view.
     call_then (assert_that (view = None))
     (call_bind (stored (ms_resolve_path (su_store cf) ''/vis/gone.txt'')) (\<lambda>view.
     call_then (assert_that (view = None))
     (call_bind (queried cf None [(''gone'', MetaExists True)]) (\<lambda>page.
     call_then (assert_that (pg_items page = []))
     (call_bind (listed cf folder 100 None) (\<lambda>page.
       assert_that (pg_items page = [])))))))))))"

definition commit_and_check ::
  "'m suite \<Rightarrow> object_id \<Rightarrow> string \<Rightarrow> change_action \<Rightarrow> ('m bench, unit) call" where
  "commit_and_check cf i blob expected =
     call_bind (utc_now cf) (\<lambda>now.
     call_bind (create_ready_upload cf i blob (now + in_hours 1)) (\<lambda>upload_id.
     call_bind (revision_of cf i) (\<lambda>revision.
     call_bind (claimed_context cf None) (\<lambda>ctx.
     call_bind (utc_now cf) (\<lambda>gc_not_before.
     call_then (must (try_commit cf upload_id i (Some revision) blob ''abc'' gc_not_before ctx))
     (call_bind (changes_of cf i) (\<lambda>chs.
       call_then (assert_that (chs \<noteq> []))
       (assert_that (c_action (last chs) = expected \<and> c_revision (last chs) = revision + 1)))))))))"

definition content_commit_selects_the_right_action :: "'m suite \<Rightarrow> ('m bench, unit) call" where
  "content_commit_selects_the_right_action cf =
     call_bind (must (create_file cf ''c.bin'' ROOT_ID (JObject []))) (\<lambda>i.
     call_then (commit_and_check cf i ''blobs/one'' ContentReady)
     (call_then (commit_and_check cf i ''blobs/two'' ContentReplaced)
     (call_bind (viewed cf i) (\<lambda>view.
     call_then (assert_that (has_ready_content (ov_object view) \<and> o_size (ov_object view) = Some 11))
     (call_bind (utc_now cf) (\<lambda>now.
     call_bind (stored (ms_claim_gc_batch (su_store cf) (now + in_hours 2) 10)) (\<lambda>pending.
       assert_that (list_ex (\<lambda>e. ge_blob_ref e = ''blobs/one'') pending \<and>
         \<not> list_ex (\<lambda>e. ge_blob_ref e = ''blobs/two'') pending))))))))"

definition upload_creation_resumes_the_existing_record :: "'m suite \<Rightarrow> ('m bench, unit) call" where
  "upload_creation_resumes_the_existing_record cf =
     call_bind (must (create_file cf ''resume.bin'' ROOT_ID (JObject []))) (\<lambda>object_id.
     call_bind (utc_now cf) (\<lambda>now.
     call_bind (new_ulid cf) (\<lambda>ulid.
       let cmd = \<lparr>cu_id = generate_upload_id ulid, cu_object_id = object_id, cu_mode = Multipart,
             cu_blob_backend = ''test'', cu_blob_ref = ''blobs/resume'', cu_expected_size = 42,
             cu_content_type = ''application/octet-stream'', cu_expected_sha256 = None,
             cu_created_at = now, cu_expires_at = now + in_hours 1\<rparr>
       in call_bind (stored (ms_create_upload_record (su_store cf) cmd)) (\<lambda>first.
          call_bind (stored (ms_create_upload_record (su_store cf) cmd)) (\<lambda>second.
            assert_that (cur_created first \<and> \<not> cur_created second \<and> cur_upload second = cur_upload first))))))"

definition retained_context :: "string \<Rightarrow> idempotency_context" where
  "retained_context owner =
     \<lparr>ic_principal_id = local_principal, ic_operation = ''POST /uploads'', ic_key = ''retained-key'',
      ic_request_hash = ''same-request'', ic_owner_token = owner, ic_resource_token = []\<rparr>"

definition owned_token :: "idempotency_decision \<Rightarrow> ('m bench, string) call" where
  "owned_token decision = (case decision of Owner token \<Rightarrow> call_ok token | _ \<Rightarrow> call_panic)"

definition resource_token_changes_after_idempotency_retention :: "'m suite \<Rightarrow> ('m bench, unit) call" where
  "resource_token_changes_after_idempotency_retention cf =
     call_bind (utc_now cf) (\<lambda>now.
     call_bind (acquire_at cf (retained_context ''owner-one'') now (now + in_seconds 30) (now + in_seconds 1)) (\<lambda>first.
     call_bind (owned_token first) (\<lambda>first_token.
     call_then (stored (ms_complete (su_store cf)
         \<lparr>ico_context = retained_context ''owner-one'', ico_response = no_content, ico_now = now,
          ico_expires_at = now + in_seconds 1\<rparr>))
     (call_bind (stored (ms_purge_idempotency_records (su_store cf) (now + in_seconds 2))) (\<lambda>purged.
     call_then (assert_that (purged = 1))
     (call_bind (acquire_at cf (retained_context ''owner-two'') (now + in_seconds 3) (now + in_seconds 33)
         (now + in_hours 24)) (\<lambda>second.
     call_bind (owned_token second) (\<lambda>second_token.
       assert_that (first_token \<noteq> second_token)))))))))"

fun commit_again :: "'m suite \<Rightarrow> nat \<Rightarrow> upload_id \<Rightarrow> object_id \<Rightarrow> ('m bench, unit) call" where
  "commit_again cf 0 upload_id object_id = call_ok ()"
| "commit_again cf (Suc n) upload_id object_id =
     call_bind (claimed_context cf None) (\<lambda>ctx.
     call_bind (utc_now cf) (\<lambda>gc_not_before.
     call_then (must (try_commit cf upload_id object_id None ''blobs/repeat'' (replicate 64 (CHR ''a''))
         gc_not_before ctx))
       (commit_again cf n upload_id object_id)))"

definition completed_upload_commit_is_convergent :: "'m suite \<Rightarrow> ('m bench, unit) call" where
  "completed_upload_commit_is_convergent cf =
     call_bind (must (create_file cf ''repeat.bin'' ROOT_ID (JObject []))) (\<lambda>object_id.
     call_bind (utc_now cf) (\<lambda>now.
     call_bind (create_ready_upload cf object_id ''blobs/repeat'' (now + in_hours 1)) (\<lambda>upload_id.
     call_then (commit_again cf 2 upload_id object_id)
     (call_bind (revision_of cf object_id) (\<lambda>revision.
     call_then (assert_that (revision = 2))
     (call_bind (changes_of cf object_id) (\<lambda>chs.
       call_then (assert_that (length (filter (\<lambda>c. c_action c = ContentReady) chs) = 1))
       (assert_that (list_all (\<lambda>c. c_action c \<noteq> ContentReplaced) chs)))))))))"

definition expired_upload_cannot_commit_content :: "'m suite \<Rightarrow> ('m bench, unit) call" where
  "expired_upload_cannot_commit_content cf =
     call_bind (must (create_file cf ''expired.bin'' ROOT_ID (JObject []))) (\<lambda>object_id.
     call_bind (utc_now cf) (\<lambda>now.
     call_bind (create_ready_upload cf object_id ''blobs/expired'' (now - in_seconds 1)) (\<lambda>upload_id.
     call_bind (stored (ms_claim_expired_uploads (su_store cf) now 10)) (\<lambda>expired.
     call_then (assert_that (length expired = 1))
     (call_bind (claimed_context cf None) (\<lambda>ctx.
     call_bind (must_fail (try_commit cf upload_id object_id None ''blobs/expired'' (replicate 64 (CHR ''a''))
         now ctx)) (\<lambda>e.
     call_then (assert_that (code e = ''upload_not_found''))
     (call_bind (viewed cf object_id) (\<lambda>view.
       assert_that (\<not> has_ready_content (ov_object view)))))))))))"

definition purge_changes_reports_the_deleted_row_count :: "'m suite \<Rightarrow> ('m bench, unit) call" where
  "purge_changes_reports_the_deleted_row_count cf =
     call_then (must (create_file cf ''purge-a'' ROOT_ID (JObject [])))
     (call_then (must (create_file cf ''purge-b'' ROOT_ID (JObject [])))
     (call_bind (utc_now cf) (\<lambda>now.
     call_bind (stored (ms_purge_changes (su_store cf) (now + in_seconds 1))) (\<lambda>purged.
       assert_that (purged = 2)))))"

definition paths_and_listing_reflect_the_tree :: "'m suite \<Rightarrow> ('m bench, unit) call" where
  "paths_and_listing_reflect_the_tree cf =
     call_bind (must (create_folder cf ''reports'' ROOT_ID None)) (\<lambda>(a, _).
     call_bind (must (create_folder cf ''2026'' a None)) (\<lambda>(b, _).
     call_bind (must (create_file cf ''example.pdf'' b (JObject []))) (\<lambda>file.
     call_bind (viewed cf ROOT_ID) (\<lambda>root.
     call_then (assert_that (ov_path root = ''/'' \<and> o_parent_id (ov_object root) = None))
     (call_bind (viewed cf file) (\<lambda>view.
     call_then (assert_that (ov_path view = ''/reports/2026/example.pdf''))
     (call_bind (stored (ms_resolve_path (su_store cf) ''/reports/2026/example.pdf'')) (\<lambda>found.
     call_bind (present found) (\<lambda>found.
     call_then (assert_that (o_id (ov_object found) = file))
     (call_bind (stored (ms_resolve_path (su_store cf) ''/reports/nope'')) (\<lambda>missing.
     call_then (assert_that (missing = None))
     (call_bind (listed cf a 100 None) (\<lambda>children.
       assert_that (length (pg_items children) = 1 \<and> o_id (ov_object (pg_items children ! 0)) = b))))))))))))))"

definition numbered_file :: "nat \<Rightarrow> string" where
  "numbered_file k = ''f'' @ (if k < 10 then ''0'' else []) @ dec_nat k @ ''.txt''"

fun create_files :: "'m suite \<Rightarrow> object_id \<Rightarrow> string list \<Rightarrow> ('m bench, unit) call" where
  "create_files cf parent [] = call_ok ()"
| "create_files cf parent (name # names) =
     call_then (must (create_file cf name parent (JObject []))) (create_files cf parent names)"

partial_function (option) list_pages ::
  "'m suite \<Rightarrow> object_id \<Rightarrow> string option \<Rightarrow> string list \<Rightarrow> 'm bench \<Rightarrow>
   (string list result \<times> 'm bench) option" where
  "list_pages cf parent cursor seen b =
     Option.bind (listed cf parent 3 cursor b) (\<lambda>(r, b').
       case r of
         Inl e \<Rightarrow> Some (Err e, b')
       | Inr page \<Rightarrow>
           let seen' = seen @ map (\<lambda>i. o_name (ov_object i)) (pg_items page) in
           if \<not> pg_has_more page then Some (Ok seen', b')
           else list_pages cf parent (pg_next_cursor page) seen' b')"

declare list_pages.simps [code]

definition listing_paginates_without_gaps_or_repeats :: "'m suite \<Rightarrow> ('m bench, unit) call" where
  "listing_paginates_without_gaps_or_repeats cf =
     call_bind (must (create_folder cf ''page'' ROOT_ID None)) (\<lambda>(parent, _).
     call_then (create_files cf parent (map numbered_file [0..<7]))
     (call_bind (list_pages cf parent None []) (\<lambda>seen.
       assert_that (seen = map numbered_file [0..<7]))))"

section \<open>The suite\<close>

text \<open>Every case gets a pristine store; \<open>run_all\<close> runs them in order and stops at the first panic.\<close>

definition suite_cases :: "'m suite \<Rightarrow> ('m bench, unit) call list" where
  "suite_cases cf =
     [new_objects_start_at_revision_one cf, live_parent_and_name_are_unique cf,
      deleted_names_can_be_reused cf, stale_if_match_never_overwrites cf,
      concurrent_conditional_updates_admit_one_winner cf,
      one_patch_emits_ordered_changes_at_one_revision cf, no_op_patch_changes_nothing cf,
      folders_cannot_move_into_themselves cf, moving_a_folder_does_not_rewrite_descendants cf,
      recursive_delete_tombstones_every_descendant cf,
      idempotent_replay_returns_the_original_response cf, changes_cursor_pages_are_stable cf,
      changes_are_globally_ordered_and_monotonic cf, unknown_cursor_is_reported_as_expired cf,
      metadata_eq_and_exists_filter_correctly cf, deleted_objects_leave_every_read_path cf,
      content_commit_selects_the_right_action cf, upload_creation_resumes_the_existing_record cf,
      resource_token_changes_after_idempotency_retention cf, completed_upload_commit_is_convergent cf,
      expired_upload_cannot_commit_content cf, purge_changes_reports_the_deleted_row_count cf,
      paths_and_listing_reflect_the_tree cf, listing_paginates_without_gaps_or_repeats cf]"

fun run_cases :: "'m \<Rightarrow> ('m bench, unit) call list \<Rightarrow> ('m bench, unit) call" where
  "run_cases pristine [] = call_ok ()"
| "run_cases pristine (c # cs) = call_then (\<lambda>b. c (b\<lparr>bn_store := pristine\<rparr>)) (run_cases pristine cs)"

definition run_all :: "'m suite \<Rightarrow> 'm \<Rightarrow> ('m bench, unit) call" where
  "run_all cf pristine = run_cases pristine (suite_cases cf)"

section \<open>Running it\<close>

text \<open>
  Evaluation works on calls that are applied to a state: the combinators are unfolded, so that a
  continuation is looked at when its argument is known.
\<close>

lemma call_unfolds [code_unfold]:
  "call_bind m f = (\<lambda>s. case m s of None \<Rightarrow> None
     | Some (r, s') \<Rightarrow> (case r of Inl e \<Rightarrow> Some (Inl e, s') | Inr a \<Rightarrow> f a s'))"
  "call_then m m' = (\<lambda>s. case m s of None \<Rightarrow> None
     | Some (r, s') \<Rightarrow> (case r of Inl e \<Rightarrow> Some (Inl e, s') | Inr a \<Rightarrow> m' s'))"
  "call_catch m h = (\<lambda>s. case m s of None \<Rightarrow> None
     | Some (r, s') \<Rightarrow> (case r of Inl e \<Rightarrow> h e s' | Inr a \<Rightarrow> Some (Inr a, s')))"
  "call_try m = (\<lambda>s. case m s of None \<Rightarrow> None | Some (r, s') \<Rightarrow> Some (Inr r, s'))"
  "must m = (\<lambda>s. case m s of None \<Rightarrow> None
     | Some (r, s') \<Rightarrow> (case r of Inl e \<Rightarrow> None | Inr a \<Rightarrow> Some (Inr a, s')))"
  by (auto simp: fun_eq_iff call_bind_def call_then_def call_catch_def call_try_def must_def call_panic_def
      split: option.splits sum.splits)

text \<open>A case passes from one number of draws to another.\<close>

definition passes :: "'m \<Rightarrow> nat \<Rightarrow> nat \<Rightarrow> ('m bench, unit) call \<Rightarrow> bool" where
  "passes pristine k k' c \<longleftrightarrow>
     map_option (\<lambda>(r, b). (r, bn_drawn b)) (c \<lparr>bn_store = pristine, bn_drawn = k\<rparr>) = Some (Ok (), k')"

lemma passes_none: "passes pristine k k (run_cases pristine [])"
  by (simp add: passes_def call_simps)

lemma passes_next:
  assumes "passes pristine k j c" and "passes pristine j i (run_cases pristine cs)"
  shows "passes pristine k i (run_cases pristine (c # cs))"
proof -
  from assms(1) obtain s where s: "c \<lparr>bn_store = pristine, bn_drawn = k\<rparr> = Some (Ok (), \<lparr>bn_store = s, bn_drawn = j\<rparr>)"
    by (auto simp: passes_def) (metis bench.surjective old.unit.exhaust)
  have "run_cases pristine cs \<lparr>bn_store = s, bn_drawn = j\<rparr> = run_cases pristine cs \<lparr>bn_store = pristine, bn_drawn = j\<rparr>"
    if "cs \<noteq> []"
    using that by (cases cs) (simp_all add: call_then_def call_bind_def)
  with s assms(2) show ?thesis
    by (cases "cs = []") (auto simp: passes_def call_simps)
qed

definition mem_suite :: "mem_state suite" where
  "mem_suite =
     \<lparr>su_store = mem_store sample_codec dec_int, su_clock = (\<lambda>n. int n * 1000), su_ulid = dec_nat,
      su_to_vec = (\<lambda>_. ''body'')\<rparr>"

text \<open>Instants in Postgres are rounded to microseconds.\<close>

definition sql_suite :: "database suite" where
  "sql_suite =
     \<lparr>su_store = sql_store (sample_lib\<lparr>sl_timestamptz := (\<lambda>t. t div 1000 * 1000)\<rparr>) int,
      su_clock = (\<lambda>n. int n * 1000), su_ulid = dec_nat, su_to_vec = (\<lambda>_. ''body'')\<rparr>"

definition everyday_cases :: "'m suite \<Rightarrow> ('m bench, unit) call list" where
  "everyday_cases cf =
     [live_parent_and_name_are_unique cf, idempotent_replay_returns_the_original_response cf,
      unknown_cursor_is_reported_as_expired cf, metadata_eq_and_exists_filter_correctly cf,
      resource_token_changes_after_idempotency_retention cf, expired_upload_cannot_commit_content cf,
      paths_and_listing_reflect_the_tree cf]"

definition migrated_session :: database where
  "migrated_session = session_of (migrated_tables 0) 1 []"

lemma mem_case_1: "passes (mem_new 0) 0 6 (live_parent_and_name_are_unique mem_suite)"
  by code_simp

lemma mem_case_2: "passes (mem_new 0) 6 13 (idempotent_replay_returns_the_original_response mem_suite)"
  by code_simp

lemma mem_case_3: "passes (mem_new 0) 13 15 (unknown_cursor_is_reported_as_expired mem_suite)"
  by code_simp

lemma mem_case_4: "passes (mem_new 0) 15 21 (metadata_eq_and_exists_filter_correctly mem_suite)"
  by code_simp

lemma mem_case_5: "passes (mem_new 0) 21 22 (resource_token_changes_after_idempotency_retention mem_suite)"
  by code_simp

lemma mem_case_6: "passes (mem_new 0) 22 30 (expired_upload_cannot_commit_content mem_suite)"
  by code_simp

lemma mem_case_7: "passes (mem_new 0) 30 39 (paths_and_listing_reflect_the_tree mem_suite)"
  by code_simp

lemma sql_case_1: "passes migrated_session 0 6 (live_parent_and_name_are_unique sql_suite)"
  by code_simp

lemma sql_case_2: "passes migrated_session 6 13 (idempotent_replay_returns_the_original_response sql_suite)"
  by code_simp

lemma sql_case_3: "passes migrated_session 13 15 (unknown_cursor_is_reported_as_expired sql_suite)"
  by code_simp

lemma sql_case_4: "passes migrated_session 15 21 (metadata_eq_and_exists_filter_correctly sql_suite)"
  by code_simp

lemma sql_case_5: "passes migrated_session 21 22 (resource_token_changes_after_idempotency_retention sql_suite)"
  by code_simp

lemma sql_case_6: "passes migrated_session 22 30 (expired_upload_cannot_commit_content sql_suite)"
  by code_simp

lemma sql_case_7: "passes migrated_session 30 39 (paths_and_listing_reflect_the_tree sql_suite)"
  by code_simp


end
