(* ===== verification/Spec2Isabelle.thy ===== *)
theory Spec2Isabelle
  imports MemGc MemMutationProps MemPaths MemExactlyOnce AppUploads AppMaintenance BlobCompletion HttpReplay
    NamespaceOps PostgrestProps MemTyping MaintenanceLive CosProps ServerProps SqlKeys SqlMoveSafety SqlFeed Conformance
begin

text \<open>
  AnyStore in Isabelle/HOL.

  AnyStore is a storage service with a tree of files and folders, HTTP range content, upload
  sessions and a change feed. Its crates are layered: \<open>anystore-domain\<close> (types and validation),
  the ports \<open>anystore-metastore\<close> and \<open>anystore-blobstore\<close>, adapters behind the ports (the
  in-memory ones of \<open>anystore-testkit\<close>, Postgres, PostgREST, local disk, COS), the use cases of
  \<open>anystore-application\<close>, the HTTP layer \<open>anystore-http\<close> and the binary \<open>anystore-server\<close>. All
  state lies behind the ports: one transaction of the metastore is one atomic step.

  The theories, in the order of the code.

  The domain:

  \<^item> \<open>Prelude\<close>, \<open>RustStr\<close>, \<open>StrTrim\<close>, \<open>Utf8\<close>: tables (a \<open>HashMap\<close> as an association list), sums
    as results, and the parts of the standard library that the sources call on \<open>str\<close>, over
    strings of bytes.
  \<^item> \<open>DomainError\<close>, \<open>Identifiers\<close>, \<open>Validation\<close>, \<open>JsonValue\<close>, \<open>DomainTypes\<close>: the crate
    \<open>anystore-domain\<close>: errors with their codes and statuses, prefixed ids, names, paths and
    content types, JSON documents and metadata patches, objects, uploads and changes. A revision
    is a 64-bit word, a limit a 32-bit word.

  The metastore in memory (\<open>crates/anystore-testkit/src/metastore.rs\<close>):

  \<^item> \<open>PortTypes\<close>, \<open>Calls\<close>, \<open>Ports\<close>: the commands and answers of the ports; a call as a function
    from a state to an answer and a state; a port as a record of calls.
  \<^item> \<open>MemState\<close>, \<open>MemMutations\<close>, \<open>MemUploads\<close>, \<open>MemIdempotency\<close>, \<open>MemChanges\<close>,
    \<open>MemMaintenance\<close>, \<open>MemReads\<close>, \<open>MemStore\<close>: its state, its helpers, one definition per method,
    and the port they make up.
  \<^item> \<open>TreeShape\<close>, \<open>MemTree\<close>, \<open>MemTreeOps\<close>: the live objects as a forest, and that each mutation
    keeps it rooted, without cycles and with unique sibling names. \<open>MemMutationProps\<close>: what each
    mutation does on its success branch and when it is refused.
  \<^item> \<open>MemSystem\<close>: the store as a transition system with every operation as a step, and its
    invariants. \<open>MemTyping\<close>: the shape of every row. \<open>BlobOwnership\<close>, \<open>MemGc\<close>: who owns a blob.
  \<^item> \<open>ForestPaths\<close>, \<open>Namespace\<close>, \<open>NamespaceOps\<close>: an abstract namespace, from paths to entries,
    and that every step of the store is a step of it. \<open>MemPaths\<close>: paths and listings.
  \<^item> The contracts of the ports are locales, each with what a client can rely on, interpreted on
    the in-memory store: \<open>ChangeFeed\<close> (\<open>MemFeed\<close>), \<open>MemReads\<close> (\<open>MemPaths\<close>),
    \<open>IdempotencyContract\<close> (\<open>MemIdemContract\<close>, \<open>MemExactlyOnce\<close>).

  The application and HTTP:

  \<^item> \<open>AppState\<close>, \<open>RequestHash\<close>, \<open>Dto\<close>, \<open>AppIdempotency\<close>, \<open>AppObjects\<close>, \<open>AppUploads\<close>,
    \<open>AppMaintenance\<close>: the use cases, over any two ports. \<open>AppExactlyOnce\<close>: a repeated command
    changes nothing and gets the first answer. \<open>MaintenanceLive\<close>: a pass ends and drains the
    backlog.
  \<^item> \<open>HttpRequest\<close>, \<open>HttpQuery\<close>, \<open>HttpHandlers\<close>, \<open>HttpServer\<close>: reading requests, the endpoints,
    the pipeline and the table of routes. \<open>HttpAuth\<close>, \<open>HttpReplay\<close>: who is served, and what a
    repeated request gets.

  The metastore in Postgres (\<open>crates/anystore-metastore-postgres\<close>):

  \<^item> \<open>SqlDatabase\<close>: the tables as lists of rows, a statement as a function of them, a transaction
    as writes on top of what is committed. A script says before each statement what the other
    sessions have committed meanwhile and whether the statement is refused or its answer lost.
  \<^item> \<open>SqlRows\<close>, \<open>SqlObjects\<close>, \<open>SqlMutations\<close>, \<open>SqlSessions\<close>, \<open>SqlChanges\<close>, \<open>SqlReads\<close>: the
    decoding of rows, the recursive queries, and every operation of the port.
  \<^item> \<open>SqlAtomic\<close>: rules that follow a property through the statements of a transaction; a failed
    mutation leaves nothing behind. \<open>SqlMoveSafety\<close>: concurrent moves keep the tree.
    \<open>SqlFeed\<close>: what is appended to the feed comes after all that is committed. \<open>SqlKeys\<close>: a
    response is committed together with what it reports.

  The other adapters and the binary:

  \<^item> \<open>BlobMem\<close>, \<open>LocalSigning\<close>, \<open>LocalBlob\<close>: the blob stores in memory and on a local disk with
    its signed URLs. \<open>BlobCompletion\<close>: completing an upload is safe to repeat, as a locale, with
    both stores as interpretations. \<open>LocalAccess\<close>: what a signed URL opens.
  \<^item> \<open>PostgrestRpc\<close>, \<open>PostgrestStore\<close>, \<open>PostgrestProps\<close>: the adapter that calls stored
    procedures through a gateway.
  \<^item> \<open>CosStore\<close>, \<open>CosProps\<close>: the COS blob store and its signatures.
  \<^item> \<open>ServerConfig\<close>, \<open>ServerProps\<close>: the configuration of a deployment and the daily schedule.

  The conformance suites (\<open>crates/anystore-testkit/src/conformance\<close>):

  \<^item> \<open>Conformance\<close>, \<open>BlobSuite\<close>: each case as a program over any store, where a failed assertion is
    a panic, and runs of them: cases of the first suite on the stores in memory and in Postgres,
    evaluated, and the second one on the blob store in memory. A case that polls two futures
    together runs one after the other.

  \<open>Samples\<close> and \<open>AppSamples\<close> hold the concrete states that the witnesses run on.

  Bounds and loops. \<open>render_path\<close> and \<open>is_self_or_descendant\<close> count to 1024 as the code does, so
  their recursion is structural. The worklist of \<open>descendants\<close> has no bound in the code: it is a
  partial function into options, where \<open>None\<close> is a walk that does not return; it returns on
  every tree. The two loops of a maintenance pass take fuel; one batch more than there are due
  entries is enough over the in-memory store. A panic (indexing out of range in the reads of the
  feed, a duration out of range in the configuration) is \<open>None\<close> as well.

  Parameters. Generated ULIDs are arguments, their freshness a hypothesis; the renderer of a
  response is a function in the context of a mutation; time is a number of nanoseconds. What
  third-party code computes is a record of functions: \<open>cursor_codec\<close> (base64 of JSON), \<open>http_lib\<close>
  (the \<open>http\<close>, \<open>axum\<close> and \<open>serde_json\<close> crates), \<open>rpc_lib\<close> (the gateway and the codecs of the
  PostgREST adapter), \<open>cos_lib\<close> and \<open>cos_crypto\<close> (the provider, SHA-1, HMAC, XML), \<open>time_lib\<close>
  (chrono), \<open>file_system\<close>, the hashes of the local store, and \<open>sql_lib\<close>: what Postgres makes of an
  instant and of a document, its collation, and the codecs of cursors.

  Locks. Of those in Postgres the model has the advisory lock that orders changes, which keeps
  the table of objects and the end of the feed to its holder. Row locks are hypotheses on the script where a theorem needs
  one (\<open>spares_row\<close>, \<open>spares_key\<close>: the others leave the locked row alone); \<open>SKIP LOCKED\<close>, deadlocks and
  the time a lock is waited for are not modelled, their errors are faults of the script. The
  unique indexes, the primary keys and the foreign keys that the writes can violate are checks of
  the statements.

  Not modelled: opening the pool and running the migrations, which are calls into a library; the
  stored procedures behind PostgREST, which are SQL files; the sockets, signals and log lines of the server; \<open>Debug\<close>
  renderings; waiting between polls.
\<close>

end
